(* ===== verification/Prelude.thy ===== *)
theory Prelude
  imports Main "HOL-Library.Multiset" "HOL-Library.Sublist"
begin

text \<open>
  The prelude: the collections of rules the component theories extend, the SQL clauses the
  store's queries share (\<open>ORDER BY ... DESC\<close>, \<open>LIMIT\<close>, \<open>INSERT\<close>, \<open>UPDATE\<close>, \<open>DELETE\<close> over a table
  held as a list of rows), and the generic list lemmas about them.
\<close>

named_theorems wp_rules \<open>weakest preconditions of the effectful operations\<close>
named_theorems vc_rules \<open>what has to be shown of each effectful operation, failures included\<close>
named_theorems op_defs \<open>the operations as their statements\<close>
named_theorems quiet_run \<open>runs in a world where no call fails\<close>
named_theorems frame_rules \<open>operations that keep a relation between the old and the new world\<close>
named_theorems table_simps \<open>the tables after a store operation\<close>
named_theorems invariant_rules \<open>operations that keep the database invariant\<close>

section \<open>Time\<close>

text \<open>
  An instant is a number of nanoseconds since the Unix epoch, as Go's \<open>time.Time\<close> compares;
  a \<open>time.Duration\<close> is a number of nanoseconds too. Neither overflows in the model.
\<close>

type_synonym time = int
type_synonym duration = int

abbreviation second :: duration where "second \<equiv> 1000000000"
abbreviation minute :: duration where "minute \<equiv> 60 * second"
abbreviation hour :: duration where "hour \<equiv> 60 * minute"

section \<open>Tables\<close>

text \<open>A table is the list of its rows, oldest first.\<close>

definition select :: "('a \<Rightarrow> bool) \<Rightarrow> 'a list \<Rightarrow> 'a list" where
  "select p rows = filter p rows"

text \<open>\<open>QueryRow\<close>: the first row, or none (pgx.ErrNoRows).\<close>

fun first_row :: "'a list \<Rightarrow> 'a option" where
  "first_row [] = None"
| "first_row (r # _) = Some r"

text \<open>\<open>UPDATE ... SET ... WHERE p\<close> and \<open>DELETE ... WHERE p\<close>, and the rows they affect.\<close>

definition update_where :: "('a \<Rightarrow> bool) \<Rightarrow> ('a \<Rightarrow> 'a) \<Rightarrow> 'a list \<Rightarrow> 'a list" where
  "update_where p f rows = map (\<lambda>r. if p r then f r else r) rows"

definition delete_where :: "('a \<Rightarrow> bool) \<Rightarrow> 'a list \<Rightarrow> 'a list" where
  "delete_where p rows = filter (\<lambda>r. \<not> p r) rows"

definition affected :: "('a \<Rightarrow> bool) \<Rightarrow> 'a list \<Rightarrow> nat" where
  "affected p rows = length (filter p rows)"

text \<open>\<open>ORDER BY k\<close> and \<open>ORDER BY k DESC\<close>, ties in the order of insertion.\<close>

definition order_asc :: "('a \<Rightarrow> 'k::linorder) \<Rightarrow> 'a list \<Rightarrow> 'a list" where
  "order_asc k rows = sort_key k rows"

definition order_desc :: "('a \<Rightarrow> 'k::linorder) \<Rightarrow> 'a list \<Rightarrow> 'a list" where
  "order_desc k rows = rev (sort_key k (rev rows))"

lemma set_select [simp]: "set (select p rows) = {r \<in> set rows. p r}"
  by (simp add: select_def)

lemma set_delete_where [simp]: "set (delete_where p rows) = {r \<in> set rows. \<not> p r}"
  by (simp add: delete_where_def)

lemma set_update_where: "set (update_where p f rows) = (\<lambda>r. if p r then f r else r) ` set rows"
  by (simp add: update_where_def)

lemma length_update_where [simp]: "length (update_where p f rows) = length rows"
  by (simp add: update_where_def)

lemma bex_update_where: "(\<And>r. P (f r) = P r) \<Longrightarrow> (\<exists>r\<in>set (update_where p f rows). P r) \<longleftrightarrow> (\<exists>r\<in>set rows. P r)"
  by (induction rows) (auto simp: update_where_def)

lemma map_update_where:
  assumes "\<And>r. p r \<Longrightarrow> g (f r) = g r"
  shows "map g (update_where p f rows) = map g rows"
  using assms by (simp add: update_where_def)

lemma filter_update_where:
  assumes "\<And>r. p r \<Longrightarrow> \<not> q r" and "\<And>r. p r \<Longrightarrow> \<not> q (f r)"
  shows "filter q (update_where p f rows) = filter q rows"
  using assms by (induction rows) (auto simp: update_where_def)

lemma filter_delete_where:
  assumes "\<And>r. p r \<Longrightarrow> \<not> q r"
  shows "filter q (delete_where p rows) = filter q rows"
  using assms by (induction rows) (auto simp: delete_where_def)

lemma affected_0_iff: "affected p rows = 0 \<longleftrightarrow> (\<forall>r\<in>set rows. \<not> p r)"
  by (simp add: affected_def filter_empty_conv)

lemma delete_where_none: "(\<And>r. r \<in> set rows \<Longrightarrow> \<not> p r) \<Longrightarrow> delete_where p rows = rows"
  by (simp add: delete_where_def)

lemma distinct_map_delete_where: "distinct (map g rows) \<Longrightarrow> distinct (map g (delete_where p rows))"
  by (simp add: delete_where_def distinct_map_filter)

lemma first_row_SomeD: "first_row rows = Some r \<Longrightarrow> r \<in> set rows"
  by (cases rows) auto

lemma first_row_None_iff [simp]: "first_row rows = None \<longleftrightarrow> rows = []"
  by (cases rows) auto

lemma first_row_select_SomeD: "first_row (select p rows) = Some r \<Longrightarrow> r \<in> set rows \<and> p r"
  by (drule first_row_SomeD) simp

lemma first_row_select_None_iff: "first_row (select p rows) = None \<longleftrightarrow> (\<forall>r\<in>set rows. \<not> p r)"
  by (simp add: select_def filter_empty_conv)

text \<open>A key that is unique in the table finds the row that carries it.\<close>

lemma first_row_select_unique:
  assumes "distinct (map k rows)" and "r \<in> set rows"
  shows "first_row (select (\<lambda>x. k x = k r) rows) = Some r"
proof -
  have "first_row (select (\<lambda>x. k x = k r) rows) \<noteq> None"
    using assms(2) by (auto simp: select_def filter_empty_conv)
  then obtain s where s: "first_row (select (\<lambda>x. k x = k r) rows) = Some s" by blast
  then have "s \<in> set rows" and "k s = k r" by (auto dest: first_row_select_SomeD)
  then have "s = r" using assms by (meson inj_onD distinct_map)
  with s show ?thesis by simp
qed

lemma set_order_asc [simp]: "set (order_asc k rows) = set rows"
  by (simp add: order_asc_def)

lemma set_order_desc [simp]: "set (order_desc k rows) = set rows"
  by (simp add: order_desc_def)

lemma mset_order_desc [simp]: "mset (order_desc k rows) = mset rows"
  by (simp add: order_desc_def)

lemma length_order_desc [simp]: "length (order_desc k rows) = length rows"
  by (simp add: order_desc_def)

lemma sorted_order_desc: "sorted_wrt (\<lambda>x y. k y \<le> k x) (order_desc k rows)"
proof -
  have "sorted_wrt (\<lambda>x y. k x \<le> k y) (sort_key k (rev rows))"
    by (metis sorted_map sorted_sort_key)
  then show ?thesis by (simp add: order_desc_def sorted_wrt_rev)
qed

lemma first_row_order_desc:
  assumes "first_row (order_desc k rows) = Some r"
  shows "r \<in> set rows" and "\<forall>s\<in>set rows. k s \<le> k r"
proof -
  from assms obtain rest where eq: "order_desc k rows = r # rest"
    by (cases "order_desc k rows") auto
  show "r \<in> set rows" using set_order_desc [of k rows] eq by (metis list.set_intros(1))
  have "set rows = insert r (set rest)" using set_order_desc [of k rows] eq by simp
  moreover have "\<forall>s\<in>set rest. k s \<le> k r" using sorted_order_desc [of k rows] eq by simp
  ultimately show "\<forall>s\<in>set rows. k s \<le> k r" by auto
qed

lemma order_desc_Nil [simp]: "order_desc k rows = [] \<longleftrightarrow> rows = []"
  by (metis length_0_conv length_order_desc)

section \<open>Options and sums\<close>

text \<open>\<open>pgx.ErrNoRows\<close> as the error a query reports.\<close>

definition or_error :: "'e \<Rightarrow> 'a option \<Rightarrow> 'e + 'a" where
  "or_error e x = (case x of None \<Rightarrow> Inl e | Some y \<Rightarrow> Inr y)"

lemma or_error_simps [simp]:
  "or_error e None = Inl e" "or_error e (Some y) = Inr y"
  by (simp_all add: or_error_def)

lemma or_error_Inr [simp]: "or_error e x = Inr y \<longleftrightarrow> x = Some y"
  by (cases x) simp_all

lemma or_error_Inl [simp]: "or_error e x = Inl d \<longleftrightarrow> x = None \<and> d = e"
  by (cases x) auto

end
