(* ===== verification/GoStrings.thy ===== *)
theory GoStrings
  imports Prelude
begin

text \<open>
  The functions of Go's \<open>strings\<close> package that the gateway calls. A Go string is a sequence of
  bytes, here a list of characters. Case mapping and white space are the ASCII ones: on a
  string that holds bytes above 127 Go would decode UTF-8 first and also map and trim Unicode
  letters and spaces, which the model does not do.
\<close>

section \<open>Characters\<close>

definition code :: "char \<Rightarrow> nat" where
  "code c = of_char c"

definition is_space :: "char \<Rightarrow> bool" where
  "is_space c \<longleftrightarrow> code c \<in> {9, 10, 11, 12, 13, 32}"

definition is_upper :: "char \<Rightarrow> bool" where
  "is_upper c \<longleftrightarrow> 65 \<le> code c \<and> code c \<le> 90"

definition is_lower :: "char \<Rightarrow> bool" where
  "is_lower c \<longleftrightarrow> 97 \<le> code c \<and> code c \<le> 122"

definition is_digit :: "char \<Rightarrow> bool" where
  "is_digit c \<longleftrightarrow> 48 \<le> code c \<and> code c \<le> 57"

definition lower_char :: "char \<Rightarrow> char" where
  "lower_char c = (if is_upper c then char_of (code c + 32) else c)"

definition upper_char :: "char \<Rightarrow> char" where
  "upper_char c = (if is_lower c then char_of (code c - 32) else c)"

lemma code_lower_char: "code (lower_char c) = (if is_upper c then code c + 32 else code c)"
  by (simp add: lower_char_def is_upper_def code_def of_char_of)

lemma code_upper_char: "code (upper_char c) = (if is_lower c then code c - 32 else code c)"
proof (cases "is_lower c")
  case True
  then have "code c \<le> 122" by (simp add: is_lower_def)
  then have "code c - 32 < 256" by linarith
  with True show ?thesis by (simp add: upper_char_def code_def of_char_of)
qed (simp add: upper_char_def)

lemma not_upper_lower_char [simp]: "\<not> is_upper (lower_char c)"
  by (auto simp: is_upper_def code_lower_char)

lemma lower_char_idem [simp]: "lower_char (lower_char c) = lower_char c"
  by (simp add: lower_char_def [of "lower_char c"])

lemma is_space_lower_char [simp]: "is_space (lower_char c) = is_space c"
  by (auto simp: is_space_def code_lower_char is_upper_def)

section \<open>Strings\<close>

definition ToLower :: "string \<Rightarrow> string" where
  "ToLower s = map lower_char s"

definition ToUpper :: "string \<Rightarrow> string" where
  "ToUpper s = map upper_char s"

text \<open>\<open>TrimFunc\<close> and its two callers, \<open>TrimSpace\<close> and \<open>Trim\<close> with a cut set.\<close>

definition trim_by :: "(char \<Rightarrow> bool) \<Rightarrow> string \<Rightarrow> string" where
  "trim_by p s = rev (dropWhile p (rev (dropWhile p s)))"

definition TrimSpace :: "string \<Rightarrow> string" where
  "TrimSpace s = trim_by is_space s"

definition Trim :: "string \<Rightarrow> string \<Rightarrow> string" where
  "Trim s cutset = trim_by (\<lambda>c. c \<in> set cutset) s"

definition TrimPrefix :: "string \<Rightarrow> string \<Rightarrow> string" where
  "TrimPrefix s p = (if prefix p s then drop (length p) s else s)"

definition HasSuffix :: "string \<Rightarrow> string \<Rightarrow> bool" where
  "HasSuffix s t \<longleftrightarrow> suffix t s"

text \<open>\<open>strings.Cut\<close>: the text before and after the first separator, and whether it occurs.\<close>

fun Cut :: "string \<Rightarrow> string \<Rightarrow> string \<times> string \<times> bool" where
  "Cut [] sep = (if sep = [] then ([], [], True) else ([], [], False))"
| "Cut (c # s) sep =
     (if prefix sep (c # s) then ([], drop (length sep) (c # s), True)
      else case Cut s sep of (b, a, found) \<Rightarrow> (c # b, a, found))"

definition Contains :: "string \<Rightarrow> string \<Rightarrow> bool" where
  "Contains s sub \<longleftrightarrow> snd (snd (Cut s sub))"

text \<open>\<open>strings.Split\<close>, \<open>Count\<close> and \<open>Join\<close> for a separator of one byte, the only use.\<close>

fun Split :: "string \<Rightarrow> char \<Rightarrow> string list" where
  "Split [] d = [[]]"
| "Split (c # s) d =
     (if c = d then [] # Split s d
      else case Split s d of [] \<Rightarrow> [[c]] | w # ws \<Rightarrow> (c # w) # ws)"

definition Count :: "string \<Rightarrow> char \<Rightarrow> nat" where
  "Count s d = length (filter (\<lambda>c. c = d) s)"

fun Join :: "string list \<Rightarrow> string \<Rightarrow> string" where
  "Join [] sep = []"
| "Join [w] sep = w"
| "Join (w # ws) sep = w @ sep @ Join ws sep"

text \<open>\<open>strings.ReplaceAll\<close> for a pattern of one byte.\<close>

definition ReplaceAll :: "string \<Rightarrow> char \<Rightarrow> string \<Rightarrow> string" where
  "ReplaceAll s old new = concat (map (\<lambda>c. if c = old then new else [c]) s)"

text \<open>\<open>strings.IndexByte\<close>: \<open>None\<close> is Go's -1.\<close>

fun IndexByte :: "string \<Rightarrow> char \<Rightarrow> nat option" where
  "IndexByte [] c = None"
| "IndexByte (d # s) c = (if d = c then Some 0 else map_option Suc (IndexByte s c))"

text \<open>\<open>strconv.Itoa\<close> on a natural number.\<close>

fun Itoa :: "nat \<Rightarrow> string" where
  "Itoa n = (if n < 10 then [char_of (48 + n)] else Itoa (n div 10) @ [char_of (48 + n mod 10)])"

declare Itoa.simps [simp del]

section \<open>Lemmas\<close>

lemma length_ToLower [simp]: "length (ToLower s) = length s"
  by (simp add: ToLower_def)

lemma ToLower_idem [simp]: "ToLower (ToLower s) = ToLower s"
  by (simp add: ToLower_def o_def)

lemma dropWhile_head: "dropWhile p s = [] \<or> \<not> p (hd (dropWhile p s))"
  using hd_dropWhile by blast

lemma trim_by_cases:
  obtains (empty) "trim_by p s = []"
  | (ends) "trim_by p s \<noteq> []" "\<not> p (hd (trim_by p s))" "\<not> p (last (trim_by p s))"
proof (cases "trim_by p s = []")
  case True
  then show ?thesis by (rule empty)
next
  case False
  define t where "t = dropWhile p s"
  have ne: "dropWhile p (rev t) \<noteq> []" using False by (simp add: trim_by_def t_def)
  have last: "\<not> p (last (trim_by p s))"
    using ne by (simp add: trim_by_def t_def [symmetric] last_rev hd_dropWhile)
  have pre: "prefix (trim_by p s) t"
    by (metis trim_by_def rev_rev_ident suffix_dropWhile suffix_to_prefix t_def)
  then obtain u where u: "t = trim_by p s @ u" by (auto simp: prefix_def)
  with False have "t \<noteq> []" and "hd t = hd (trim_by p s)" by auto
  moreover from \<open>t \<noteq> []\<close> have "\<not> p (hd t)" by (simp add: t_def hd_dropWhile)
  ultimately have "\<not> p (hd (trim_by p s))" by simp
  with False last show ?thesis using ends by blast
qed

lemma trim_by_idem [simp]: "trim_by p (trim_by p s) = trim_by p s"
proof (cases rule: trim_by_cases [of p s])
  case empty
  then show ?thesis by (simp only: trim_by_def) simp
next
  case ends
  from ends(1,2) have 1: "dropWhile p (trim_by p s) = trim_by p s"
    by (cases "trim_by p s") auto
  from ends(1,3) have 2: "dropWhile p (rev (trim_by p s)) = rev (trim_by p s)"
    by (cases "trim_by p s" rule: rev_cases) auto
  show ?thesis by (subst trim_by_def) (simp add: 1 2)
qed

lemma set_trim_by: "set (trim_by p s) \<subseteq> set s"
  by (auto simp: trim_by_def dest!: set_dropWhileD)

lemma TrimSpace_idem [simp]: "TrimSpace (TrimSpace s) = TrimSpace s"
  by (simp add: TrimSpace_def)

lemma TrimSpace_ToLower: "TrimSpace (ToLower s) = ToLower (TrimSpace s)"
  by (simp add: TrimSpace_def ToLower_def trim_by_def dropWhile_map rev_map o_def)

lemma Cut_found: "Cut s sep = (b, a, True) \<Longrightarrow> s = b @ sep @ a"
proof (induction s arbitrary: b)
  case Nil
  then show ?case by (auto split: if_splits)
next
  case (Cons c s)
  show ?case
  proof (cases "prefix sep (c # s)")
    case True
    with Cons.prems show ?thesis
      by (auto simp: append_eq_conv_conj) (metis append_eq_conv_conj prefix_def)
  next
    case False
    with Cons show ?thesis by (auto split: prod.splits)
  qed
qed

lemma Cut_not_found: "Cut s sep = (b, a, False) \<Longrightarrow> b = s \<and> a = []"
  by (induction s arbitrary: b) (auto split: if_splits prod.splits)

lemma Cut_before_no_sep:
  assumes "Cut s [d] = (b, a, f)"
  shows "d \<notin> set b"
  using assms by (induction s arbitrary: b) (auto split: if_splits prod.splits)

lemma set_Cut_before: "Cut s sep = (b, a, f) \<Longrightarrow> set b \<subseteq> set s"
  by (cases f) (auto dest: Cut_found Cut_not_found)

lemma Split_nonempty [simp]: "Split s d \<noteq> []"
  by (cases s) (auto split: list.splits)

lemma length_Split: "length (Split s d) = Suc (Count s d)"
  by (induction s) (auto simp: Count_def split: list.splits)

lemma Join_Cons: "ws \<noteq> [] \<Longrightarrow> Join (w # ws) sep = w @ sep @ Join ws sep"
  by (cases ws) auto

lemma Join_Split: "Join (Split s d) [d] = s"
  by (induction s) (auto simp: Join_Cons split: list.splits, (metis Join.simps append_Cons Join_Cons neq_Nil_conv)+)

lemma Split_no_sep: "d \<notin> set s \<Longrightarrow> Split s d = [s]"
  by (induction s) auto

lemma Split_append: "d \<notin> set w \<Longrightarrow> Split (w @ d # s) d = w # Split s d"
  by (induction w) auto

lemma Split_Join:
  assumes "ws \<noteq> []" and "\<forall>w\<in>set ws. d \<notin> set w"
  shows "Split (Join ws [d]) d = ws"
  using assms
proof (induction ws)
  case (Cons w ws)
  then show ?case
    by (cases ws) (auto simp: Split_no_sep Split_append Join_Cons)
qed simp

lemma IndexByte_Some: "IndexByte s c = Some i \<Longrightarrow> i < length s \<and> s ! i = c \<and> c \<notin> set (take i s)"
proof (induction s arbitrary: i)
  case (Cons d s)
  then show ?case by (cases i) (auto split: if_splits)
qed simp

lemma IndexByte_append:
  "i < length s \<Longrightarrow> s ! i = c \<Longrightarrow> c \<notin> set (take i s) \<Longrightarrow> IndexByte (s @ t) c = Some i"
proof (induction s arbitrary: i)
  case (Cons d s)
  then show ?case by (cases i) auto
qed simp

lemma IndexByte_None [simp]: "IndexByte s c = None \<longleftrightarrow> c \<notin> set s"
  by (induction s) auto

end
