(* ===== verification/Encoding.thy ===== *)
theory Encoding
  imports GoStrings "HOL-Library.Word"
begin

text \<open>
  The byte encodings of Go's standard library that the gateway uses: \<open>encoding/base64\<close> (the
  standard and the URL alphabet, padded or not), \<open>encoding/hex\<close>, \<open>encoding/base32\<close> without
  padding, and the decimal integers of \<open>strconv\<close>. A byte is a number below 256.
\<close>

type_synonym bytes = "nat list"

definition bytes_of :: "string \<Rightarrow> bytes" where
  "bytes_of s = map code s"

definition string_of :: "bytes \<Rightarrow> string" where
  "string_of b = map char_of b"

abbreviation is_bytes :: "bytes \<Rightarrow> bool" where
  "is_bytes b \<equiv> \<forall>x\<in>set b. x < 256"

lemma string_of_bytes_of [simp]: "string_of (bytes_of s) = s"
  by (simp add: string_of_def bytes_of_def code_def o_def)

lemma bytes_of_string_of [simp]: "is_bytes b \<Longrightarrow> bytes_of (string_of b) = b"
  by (induction b) (simp_all add: string_of_def bytes_of_def code_def of_char_of)

lemma is_bytes_bytes_of [simp]: "is_bytes (bytes_of s)"
  by (simp add: bytes_of_def code_def)

lemma bytes_of_inject [simp]: "bytes_of s = bytes_of t \<longleftrightarrow> s = t"
  by (metis string_of_bytes_of)

section \<open>Base 64\<close>

definition base64_std :: string where
  "base64_std = ''ABCDEFGHIJKLMNOPQRSTUVWXYZabcdefghijklmnopqrstuvwxyz0123456789+/''"

definition base64_url :: string where
  "base64_url = ''ABCDEFGHIJKLMNOPQRSTUVWXYZabcdefghijklmnopqrstuvwxyz0123456789-_''"

text \<open>Three bytes are four digits of six bits; one or two left over are two or three digits.\<close>

fun sextets :: "bytes \<Rightarrow> nat list" where
  "sextets (a # b # c # bs) =
     a div 4 # (a mod 4 * 16 + b div 16) # (b mod 16 * 4 + c div 64) # c mod 64 # sextets bs"
| "sextets [a, b] = [a div 4, a mod 4 * 16 + b div 16, b mod 16 * 4]"
| "sextets [a] = [a div 4, a mod 4 * 16]"
| "sextets [] = []"

text \<open>Left-over bits of the last digit are ignored, as the decoder does unless it is strict.\<close>

fun unsextets :: "nat list \<Rightarrow> bytes option" where
  "unsextets (p # q # r # s # ds) =
     map_option (\<lambda>bs. (p * 4 + q div 16) # (q mod 16 * 16 + r div 4) # (r mod 4 * 64 + s) # bs) (unsextets ds)"
| "unsextets [p, q, r] = Some [p * 4 + q div 16, q mod 16 * 16 + r div 4]"
| "unsextets [p, q] = Some [p * 4 + q div 16]"
| "unsextets [p] = None"
| "unsextets [] = Some []"

fun digits_of :: "string \<Rightarrow> string \<Rightarrow> nat list option" where
  "digits_of alphabet [] = Some []"
| "digits_of alphabet (c # s) =
     (case IndexByte alphabet c of
        None \<Rightarrow> None
      | Some d \<Rightarrow> map_option ((#) d) (digits_of alphabet s))"

definition drop_newlines :: "string \<Rightarrow> string" where
  "drop_newlines s = filter (\<lambda>c. code c \<noteq> 10 \<and> code c \<noteq> 13) s"

definition raw_EncodeToString :: "string \<Rightarrow> bytes \<Rightarrow> string" where
  "raw_EncodeToString alphabet b = map (\<lambda>d. alphabet ! d) (sextets b)"

definition raw_DecodeString :: "string \<Rightarrow> string \<Rightarrow> bytes option" where
  "raw_DecodeString alphabet s = Option.bind (digits_of alphabet (drop_newlines s)) unsextets"

text \<open>\<open>StdEncoding\<close>: the length is a multiple of four, the last group padded with \<open>=\<close>.\<close>

definition std_DecodeString :: "string \<Rightarrow> bytes option" where
  "std_DecodeString s =
     (let t = drop_newlines s;
          u = (if suffix ''=='' t then take (length t - 2) t
               else if suffix ''='' t then take (length t - 1) t else t)
      in if length t mod 4 \<noteq> 0 then None else Option.bind (digits_of base64_std u) unsextets)"

lemma length_base64 [simp]: "length base64_std = 64" "length base64_url = 64"
  by (simp_all add: base64_std_def base64_url_def)

lemma distinct_base64: "distinct base64_std" "distinct base64_url"
  by (simp_all add: base64_std_def base64_url_def)

lemma base64_no_newline:
  "c \<in> set base64_std \<Longrightarrow> code c \<noteq> 10 \<and> code c \<noteq> 13" "c \<in> set base64_url \<Longrightarrow> code c \<noteq> 10 \<and> code c \<noteq> 13"
  by (auto simp: base64_std_def base64_url_def code_def)

lemma IndexByte_nth: "distinct xs \<Longrightarrow> i < length xs \<Longrightarrow> IndexByte xs (xs ! i) = Some i"
proof (induction xs arbitrary: i)
  case (Cons x xs)
  then show ?case by (cases i) auto
qed simp

lemma digits_of_nth:
  "distinct alphabet \<Longrightarrow> \<forall>d\<in>set ds. d < length alphabet \<Longrightarrow> digits_of alphabet (map ((!) alphabet) ds) = Some ds"
  by (induction ds) (simp_all add: IndexByte_nth)

lemma sextets_bound: "is_bytes b \<Longrightarrow> d \<in> set (sextets b) \<Longrightarrow> d < 64"
proof (induction b rule: sextets.induct)
  case (1 a b c bs)
  then have "a < 256" "b < 256" "c < 256" by auto
  then have "a div 4 < 64" "a mod 4 * 16 + b div 16 < 64" "b mod 16 * 4 + c div 64 < 64" "c mod 64 < 64"
    by linarith+
  with 1 show ?case by auto
next
  case (2 a b)
  then have "a < 256" "b < 256" by auto
  then have "a div 4 < 64" "a mod 4 * 16 + b div 16 < 64" "b mod 16 * 4 < 64" by linarith+
  with 2 show ?case by auto
next
  case (3 a)
  then have "a < 256" by auto
  then have "a div 4 < 64" "a mod 4 * 16 < 64" by linarith+
  with 3 show ?case by auto
qed simp

lemma unsextets_sextets: "is_bytes b \<Longrightarrow> unsextets (sextets b) = Some b"
proof (induction b rule: sextets.induct)
  case (1 a b c bs)
  then have "b div 16 < 16" and "c div 64 < 4" by auto
  then have "b div 16 div 16 = 0" "b div 16 mod 16 = b div 16" "c div 64 div 4 = 0" "c div 64 mod 4 = c div 64"
    by simp_all
  with 1 show ?case by simp
next
  case (2 a b)
  then have "b div 16 < 16" by auto
  with 2 show ?case by auto
qed auto

lemma drop_newlines_id: "(\<And>c. c \<in> set s \<Longrightarrow> code c \<noteq> 10 \<and> code c \<noteq> 13) \<Longrightarrow> drop_newlines s = s"
  by (simp add: drop_newlines_def)

lemma raw_roundtrip:
  assumes "is_bytes b" and "distinct alphabet" and "length alphabet = 64"
    and "\<And>c. c \<in> set alphabet \<Longrightarrow> code c \<noteq> 10 \<and> code c \<noteq> 13"
  shows "raw_DecodeString alphabet (raw_EncodeToString alphabet b) = Some b"
proof -
  have bound: "\<forall>d\<in>set (sextets b). d < length alphabet" using assms(1,3) sextets_bound by simp
  then have "drop_newlines (raw_EncodeToString alphabet b) = raw_EncodeToString alphabet b"
    by (intro drop_newlines_id) (auto simp: raw_EncodeToString_def assms(4))
  with bound show ?thesis
    using assms(1,2) by (simp add: raw_DecodeString_def raw_EncodeToString_def digits_of_nth unsextets_sextets)
qed

lemma raw_std_roundtrip: "is_bytes b \<Longrightarrow> raw_DecodeString base64_std (raw_EncodeToString base64_std b) = Some b"
  by (rule raw_roundtrip) (simp_all add: distinct_base64 base64_no_newline)

lemma set_raw_Encode: "is_bytes b \<Longrightarrow> length alphabet = 64 \<Longrightarrow> set (raw_EncodeToString alphabet b) \<subseteq> set alphabet"
  using sextets_bound by (fastforce simp: raw_EncodeToString_def)

lemma length_sextets: "length (sextets b) = (4 * length b + 2) div 3"
proof (induction b rule: sextets.induct)
  case (1 a b c bs)
  then show ?case by simp
qed simp_all

section \<open>Hexadecimal\<close>

definition hex_lower :: string where "hex_lower = ''0123456789abcdef''"

definition hex_EncodeToString :: "bytes \<Rightarrow> string" where
  "hex_EncodeToString b = concat (map (\<lambda>x. [hex_lower ! (x div 16), hex_lower ! (x mod 16)]) b)"

fun hex_DecodeString :: "string \<Rightarrow> bytes option" where
  "hex_DecodeString (h # l # s) =
     (case (IndexByte hex_lower (lower_char h), IndexByte hex_lower (lower_char l)) of
        (Some x, Some y) \<Rightarrow> map_option ((#) (16 * x + y)) (hex_DecodeString s)
      | _ \<Rightarrow> None)"
| "hex_DecodeString [c] = None"
| "hex_DecodeString [] = Some []"

lemma hex_roundtrip: "is_bytes b \<Longrightarrow> hex_DecodeString (hex_EncodeToString b) = Some b"
proof (induction b)
  case (Cons x b)
  have low: "lower_char c = c" if "c \<in> set hex_lower" for c
    using that by (auto simp: hex_lower_def lower_char_def is_upper_def code_def)
  have idx: "IndexByte hex_lower (lower_char (hex_lower ! i)) = Some i" if "i < 16" for i
  proof -
    from that have "i < length hex_lower" by (simp add: hex_lower_def)
    moreover have "distinct hex_lower" by (simp add: hex_lower_def)
    ultimately show ?thesis by (simp add: low IndexByte_nth)
  qed
  from Cons.prems have "x div 16 < 16" by auto
  with Cons show ?case by (auto simp: hex_EncodeToString_def idx)
qed (simp add: hex_EncodeToString_def)

section \<open>Base 32\<close>

text \<open>Five bytes are eight digits of five bits; only whole groups are ever encoded here.\<close>

fun quintets :: "bytes \<Rightarrow> nat list" where
  "quintets (a # b # c # d # e # bs) =
     a div 8 # (a mod 8 * 4 + b div 64) # b div 2 mod 32 # (b mod 2 * 16 + c div 16) #
     (c mod 16 * 2 + d div 128) # d div 4 mod 32 # (d mod 4 * 8 + e div 32) # e mod 32 # quintets bs"
| "quintets _ = []"

definition base32_EncodeToString :: "string \<Rightarrow> bytes \<Rightarrow> string" where
  "base32_EncodeToString alphabet b = map (\<lambda>d. alphabet ! d) (quintets b)"

section \<open>Decimal integers\<close>

fun digits_value :: "nat \<Rightarrow> string \<Rightarrow> nat option" where
  "digits_value n [] = Some n"
| "digits_value n (c # s) = (if is_digit c then digits_value (10 * n + (code c - 48)) s else None)"

text \<open>\<open>strconv.ParseInt\<close> in base 10 at a width of \<open>w\<close> bits: a sign, digits, and the range.\<close>

definition ParseInt :: "nat \<Rightarrow> string \<Rightarrow> int option" where
  "ParseInt w s =
     (let neg = (s \<noteq> [] \<and> hd s = CHR ''-'');
          ds = (if s \<noteq> [] \<and> (hd s = CHR ''-'' \<or> hd s = CHR ''+'') then tl s else s)
      in if ds = [] then None
         else case digits_value 0 ds of
             None \<Rightarrow> None
           | Some n \<Rightarrow> (let i = (if neg then - int n else int n)
                       in if - (2 ^ (w - 1)) \<le> i \<and> i < 2 ^ (w - 1) then Some i else None))"

lemma digits_value_append: "digits_value n s = Some k \<Longrightarrow> digits_value n (s @ t) = digits_value k t"
  by (induction s arbitrary: n) (auto split: if_splits)

lemma digit_char: "d < 10 \<Longrightarrow> is_digit (char_of (48 + d)) \<and> code (char_of (48 + d)) - 48 = d"
  by (simp add: is_digit_def code_def of_char_of)

lemma digits_value_Itoa: "digits_value 0 (Itoa n) = Some n"
proof (induction n rule: Itoa.induct)
  case (1 n)
  show ?case
  proof (cases "n < 10")
    case True
    then show ?thesis by (subst Itoa.simps) (simp add: digit_char [of n])
  next
    case False
    with 1 have "digits_value 0 (Itoa (n div 10) @ [char_of (48 + n mod 10)]) =
        digits_value (n div 10) [char_of (48 + n mod 10)]"
      by (intro digits_value_append) simp
    with False show ?thesis
      by (subst Itoa.simps) (simp add: digit_char [of "n mod 10"])
  qed
qed

lemma ParseInt_bounds: "ParseInt w s = Some i \<Longrightarrow> - (2 ^ (w - 1)) \<le> i \<and> i < 2 ^ (w - 1)"
  by (auto simp: ParseInt_def Let_def split: if_splits option.splits)

lemma Itoa_nonempty [simp]: "Itoa n \<noteq> []"
  by (subst Itoa.simps) simp

lemma set_Itoa: "c \<in> set (Itoa n) \<Longrightarrow> is_digit c"
proof (induction n rule: Itoa.induct)
  case (1 n)
  then show ?case
    using digit_char [of n] digit_char [of "n mod 10"] by (subst (asm) Itoa.simps) (auto split: if_splits)
qed

end
