(* ===== verification/Domain.thy ===== *)
theory Domain
  imports Encoding Complex_Main
begin

text \<open>
  The domain types of \<open>internal/store\<close> and the tables the migrations create: one record per
  row type, with the fields the Go structs scan, extended by the columns only SQL touches
  (\<open>user_row\<close>, \<open>organization_row\<close>). Enum columns hold their text, as \<open>level::text\<close> reads them.
\<close>

section \<open>Identifiers and JSON values\<close>

text \<open>
  A uuid is a number; its text form is a parameter of the model (\<open>google/uuid\<close>). The model
  draws fresh ones from a supply, so two generated ids never collide. A JSON value is what
  \<open>encoding/json\<close> writes; \<open>JTime\<close> is an instant, written in RFC 3339.
\<close>

type_synonym uuid = nat


datatype json = JNull | JBool bool | JInt int | JFloat rat | JStr string
  | JArr "json list" | JObj "(string \<times> json) list" | JTime time

section \<open>Roles\<close>

type_synonym role = string

definition RoleMember :: role where "RoleMember = ''member''"
definition RoleAdmin :: role where "RoleAdmin = ''admin''"
definition RoleOwner :: role where "RoleOwner = ''owner''"

definition IsAdmin :: "role \<Rightarrow> bool" where
  "IsAdmin r \<longleftrightarrow> r = RoleAdmin \<or> r = RoleOwner"

lemma role_distinct [simp]:
  "RoleMember \<noteq> RoleAdmin" "RoleMember \<noteq> RoleOwner" "RoleAdmin \<noteq> RoleOwner"
  "RoleAdmin \<noteq> RoleMember" "RoleOwner \<noteq> RoleMember" "RoleOwner \<noteq> RoleAdmin"
  by (simp_all add: RoleMember_def RoleAdmin_def RoleOwner_def)

lemma IsAdmin_simps [simp]:
  "IsAdmin RoleAdmin" "IsAdmin RoleOwner" "\<not> IsAdmin RoleMember"
  by (simp_all add: IsAdmin_def)

section \<open>Organizations, users, uploads\<close>

record organization =
  o_ID :: uuid
  o_Name :: string
  o_Slug :: string
  o_CreatedAt :: time

record organization_row = organization +
  o_require_mfa :: bool

record user =
  u_ID :: uuid
  u_OrgID :: uuid
  u_Email :: string
  u_PasswordHash :: string
  u_Role :: role
  u_CreatedAt :: time

record user_row = user +
  u_totp_secret :: "bytes option"
  u_totp_enabled :: bool
  u_totp_confirmed_at :: "time option"

record upload =
  up_ID :: uuid
  up_OrgID :: uuid
  up_UserID :: uuid
  up_Filename :: string
  up_ByteSize :: int
  up_LineCount :: int
  up_ParsedCount :: int
  up_Format :: string
  up_ObjectKey :: string
  up_CreatedAt :: time

section \<open>Grants and the audit log\<close>

record access_grant =
  g_ID :: uuid
  g_OrgID :: uuid
  g_UploadID :: "uuid option"
  g_SubjectUserID :: uuid
  g_Level :: string
  g_GrantedBy :: uuid
  g_ExpiresAt :: "time option"
  g_CreatedAt :: time

record audit_row =
  al_ID :: uuid
  al_OrgID :: uuid
  al_ActorUserID :: "uuid option"
  al_Action :: string
  al_ResourceType :: string
  al_ResourceID :: "uuid option"
  al_Detail :: "(string \<times> json) list"
  al_CreatedAt :: time

section \<open>Analyses and findings\<close>

record analysis =
  a_ID :: uuid
  a_OrgID :: uuid
  a_UploadID :: uuid
  a_Status :: string
  a_Scope :: string
  a_BaselineWindowDays :: "int option"
  a_OverallRisk :: "string option"
  a_Summary :: "string option"
  a_Timeline :: json
  a_Model :: "string option"
  a_InputTokens :: "int option"
  a_OutputTokens :: "int option"
  a_Error :: "string option"
  a_CreatedAt :: time
  a_StartedAt :: "time option"
  a_FinishedAt :: "time option"

record anomaly =
  an_ID :: uuid
  an_Kind :: string
  an_Severity :: string
  an_Urgency :: string
  an_ActionRequired :: bool
  an_ActionLabel :: "string option"
  an_Confidence :: rat
  an_Explanation :: string
  an_Recommendation :: "string option"
  an_EntryIDs :: "int list option"

record anomaly_row = anomaly +
  an_analysis_id :: uuid

record timing_row =
  t_analysis_id :: uuid
  t_org_id :: uuid
  t_user_id :: uuid
  t_stage :: string
  t_duration_ms :: rat
  t_created_at :: time

record embedding_row =
  fe_org_id :: uuid
  fe_analysis_id :: uuid
  fe_anomaly_id :: "uuid option"

section \<open>Log entries and rollups\<close>

text \<open>\<open>parser.Entry\<close>, and the row of \<open>log_entries\<close> it becomes (\<open>None\<close> is SQL NULL).\<close>

record entry =
  e_LineNo :: int
  e_Raw :: string
  e_TS :: "time option"
  e_ClientIP :: string
  e_Username :: string
  e_Host :: string
  e_URL :: string
  e_Category :: string
  e_Action :: string
  e_ReqBytes :: "int option"
  e_RespBytes :: "int option"
  e_UserAgent :: string
  e_ThreatName :: string
  e_RespCode :: "int option"
  e_Method :: string
  e_LatencyMS :: "int option"
  e_CacheStatus :: string
  e_Reason :: string

record log_entry =
  l_upload_id :: uuid
  l_org_id :: uuid
  l_user_id :: uuid
  l_line_no :: int
  l_ts :: "time option"
  l_client_ip :: "string option"
  l_username :: "string option"
  l_host :: "string option"
  l_url :: "string option"
  l_category :: "string option"
  l_action :: "string option"
  l_req_bytes :: "int option"
  l_resp_bytes :: "int option"
  l_user_agent :: "string option"
  l_threat_name :: "string option"
  l_raw :: string
  l_resp_code :: "int option"
  l_method :: "string option"
  l_latency_ms :: "int option"
  l_cache_status :: "string option"
  l_reason :: "string option"

record entry_rollup =
  r_org_id :: uuid
  r_user_id :: uuid
  r_upload_id :: uuid
  r_host :: string
  r_grain :: string
  r_bucket_start :: time
  r_requests :: int
  r_bytes_in :: int
  r_bytes_out :: int
  r_errors :: int
  r_cache_hits :: int
  r_cache_total :: int
  r_latency_p50 :: "int option"
  r_latency_p95 :: "int option"
  r_latency_p99 :: "int option"
  r_latency_count :: int

record status_rollup =
  s_org_id :: uuid
  s_user_id :: uuid
  s_upload_id :: uuid
  s_bucket_start :: time
  s_resp_code :: int
  s_reason :: "string option"
  s_requests :: int
  s_latency_p95 :: "int option"

record recovery_row =
  rc_ID :: uuid
  rc_user_id :: uuid
  rc_code_hash :: string
  rc_used_at :: "time option"

section \<open>The database\<close>

record db =
  organizations :: "organization_row list"
  users :: "user_row list"
  uploads :: "upload list"
  access_grants :: "access_grant list"
  audit_log :: "audit_row list"
  analyses :: "analysis list"
  anomalies :: "anomaly_row list"
  analysis_timings :: "timing_row list"
  finding_embeddings :: "embedding_row list"
  log_entries :: "log_entry list"
  entry_rollups :: "entry_rollup list"
  status_rollups :: "status_rollup list"
  mfa_recovery_codes :: "recovery_row list"
  partitions :: "(int \<times> int) list"
  next_id :: uuid

definition empty_db :: db where
  "empty_db = \<lparr>organizations = [], users = [], uploads = [], access_grants = [], audit_log = [],
     analyses = [], anomalies = [], analysis_timings = [], finding_embeddings = [],
     log_entries = [], entry_rollups = [], status_rollups = [], mfa_recovery_codes = [],
     partitions = [], next_id = 1\<rparr>"

text \<open>\<open>citext\<close>: text compared without regard to case.\<close>

definition citext_eq :: "string \<Rightarrow> string \<Rightarrow> bool" where
  "citext_eq a b \<longleftrightarrow> ToLower a = ToLower b"

lemma citext_eq_refl [simp]: "citext_eq a a"
  by (simp add: citext_eq_def)

end
