(* ===== verification/World.thy ===== *)
theory World
  imports Domain "HOL-Library.State_Monad"
begin

text \<open>
  The world a request handler runs in, and the effects it has: PostgreSQL (a \<open>db\<close>), Redis, the
  object store, the clock, the random source, the structured log. A handler is a computation
  of the state monad over the world.

  Every call that leaves the process takes one \<open>tick\<close> from the world: it lets time pass, and
  it says how the call ends. \<open>Lost\<close>: the call fails and had no effect. \<open>Unacknowledged\<close>: the
  call took effect, but the caller sees a failure (a connection dropped before the answer).
  A world without ticks left is one where nothing fails and no time passes. Theorems quantify
  over the world, so over every pattern of failures.

  A request runs to its end before the next one starts; where two requests can interleave, the
  operations they interleave at are single statements, and the claims about them are stated on
  those.
\<close>

section \<open>State\<close>

datatype outcome = Done | Lost | Unacknowledged

record tick =
  tk_outcome :: outcome
  tk_dt :: nat

datatype redis_value = RInt int | RStr string | RList "json list"

record redis_entry =
  re_value :: redis_value
  re_expires :: "time option"

type_synonym redis = "string \<Rightarrow> redis_entry option"

datatype log_level = Info | Warn | LogError

record world =
  w_db :: db
  w_redis :: redis
  w_blob :: "string \<Rightarrow> string option"
  w_now :: time
  w_ticks :: "tick list"
  w_random :: "nat \<Rightarrow> nat"
  w_rpos :: nat
  w_log :: "(log_level \<times> string) list"

type_synonym 'a M = "(world, 'a) state"

datatype store_err = ErrNotFound | ErrEmailTaken string | ErrSlugTaken | ErrNoRecoveryCode
  | ErrDriver | ErrConstraint string

section \<open>Effects\<close>

definition outcome_of :: "world \<Rightarrow> outcome" where
  "outcome_of w = (case w_ticks w of [] \<Rightarrow> Done | t # _ \<Rightarrow> tk_outcome t)"

definition elapse :: "world \<Rightarrow> world" where
  "elapse w = (case w_ticks w of [] \<Rightarrow> w
     | t # ts \<Rightarrow> w\<lparr>w_ticks := ts, w_now := w_now w + int (tk_dt t)\<rparr>)"

text \<open>A query: a function of the tables and of SQL's \<open>now()\<close>.\<close>

definition db_query :: "(db \<Rightarrow> time \<Rightarrow> store_err + 'a) \<Rightarrow> (store_err + 'a) M" where
  "db_query q = State (\<lambda>w. let w' = elapse w in
     (if outcome_of w = Done then q (w_db w') (w_now w') else Inl ErrDriver, w'))"

text \<open>A single statement that writes: it takes effect whole or not at all.\<close>

definition db_exec :: "(db \<Rightarrow> time \<Rightarrow> store_err + ('a \<times> db)) \<Rightarrow> (store_err + 'a) M" where
  "db_exec s = State (\<lambda>w. let w' = elapse w in
     if outcome_of w = Lost then (Inl ErrDriver, w')
     else case s (w_db w') (w_now w') of
         Inl e \<Rightarrow> (Inl (if outcome_of w = Done then e else ErrDriver), w')
       | Inr (a, d) \<Rightarrow> (if outcome_of w = Done then Inr a else Inl ErrDriver, w'\<lparr>w_db := d\<rparr>))"

text \<open>
  A transaction works on a copy of the tables that only \<open>Commit\<close> writes back; the deferred
  \<open>Rollback\<close> of every function that opens one drops the copy. \<open>now()\<close> is its start.
\<close>

record tx =
  tx_db :: db
  tx_now :: time

definition tx_begin :: "(store_err + tx) M" where
  "tx_begin = State (\<lambda>w. let w' = elapse w in
     (if outcome_of w = Done then Inr \<lparr>tx_db = w_db w', tx_now = w_now w'\<rparr> else Inl ErrDriver, w'))"

definition tx_exec :: "tx \<Rightarrow> (db \<Rightarrow> time \<Rightarrow> store_err + ('a \<times> db)) \<Rightarrow> (store_err + ('a \<times> tx)) M" where
  "tx_exec t s = State (\<lambda>w. let w' = elapse w in
     (if outcome_of w = Done
      then (case s (tx_db t) (tx_now t) of
          Inl e \<Rightarrow> Inl e
        | Inr (a, d) \<Rightarrow> Inr (a, t\<lparr>tx_db := d\<rparr>))
      else Inl ErrDriver, w'))"

definition tx_commit :: "tx \<Rightarrow> (store_err + unit) M" where
  "tx_commit t = State (\<lambda>w. let w' = elapse w in
     if outcome_of w = Lost then (Inl ErrDriver, w')
     else (if outcome_of w = Done then Inr () else Inl ErrDriver, w'\<lparr>w_db := tx_db t\<rparr>))"

text \<open>A Redis command or a \<open>MULTI\<close>/\<open>EXEC\<close> pipeline; a reply of the wrong type is an error.\<close>

datatype redis_err = RedisError

definition redis_do :: "(redis \<Rightarrow> time \<Rightarrow> redis_err + ('a \<times> redis)) \<Rightarrow> (redis_err + 'a) M" where
  "redis_do c = State (\<lambda>w. let w' = elapse w in
     if outcome_of w = Lost then (Inl RedisError, w')
     else case c (w_redis w') (w_now w') of
         Inl e \<Rightarrow> (Inl e, w')
       | Inr (a, r) \<Rightarrow> (if outcome_of w = Done then Inr a else Inl RedisError, w'\<lparr>w_redis := r\<rparr>))"

text \<open>The object store; a missing object is not an error of \<open>Delete\<close>.\<close>

definition blob_do :: "((string \<Rightarrow> string option) \<Rightarrow> (string \<Rightarrow> string option)) \<Rightarrow> (unit + unit) M" where
  "blob_do f = State (\<lambda>w. let w' = elapse w in
     if outcome_of w = Lost then (Inl (), w')
     else (if outcome_of w = Done then Inr () else Inl (), w'\<lparr>w_blob := f (w_blob w')\<rparr>))"

definition time_Now :: "time M" where
  "time_Now = State (\<lambda>w. (w_now w, w))"

text \<open>\<open>rand.Read\<close>: the next bytes of the random source, or a failure.\<close>

definition rand_Read :: "nat \<Rightarrow> bytes option M" where
  "rand_Read n = State (\<lambda>w. let w' = elapse w in
     if outcome_of w = Done
     then (Some (map (\<lambda>i. w_random w' (w_rpos w' + i) mod 256) [0..<n]), w'\<lparr>w_rpos := w_rpos w' + n\<rparr>)
     else (None, w'))"

definition uuid_New :: "uuid M" where
  "uuid_New = State (\<lambda>w. (next_id (w_db w), w\<lparr>w_db := (w_db w)\<lparr>next_id := next_id (w_db w) + 1\<rparr>\<rparr>))"

definition log_event :: "log_level \<Rightarrow> string \<Rightarrow> unit M" where
  "log_event l e = State (\<lambda>w. ((), w\<lparr>w_log := w_log w @ [(l, e)]\<rparr>))"

abbreviation ret :: "'a \<Rightarrow> 'a M" where
  "ret \<equiv> State_Monad.return"

text \<open>\<open>x, err := m; if err != nil { h }; k\<close>.\<close>

definition attempt :: "('e + 'a) M \<Rightarrow> ('e \<Rightarrow> 'b M) \<Rightarrow> ('a \<Rightarrow> 'b M) \<Rightarrow> 'b M" where
  "attempt m h k = do { r \<leftarrow> m; case r of Inl e \<Rightarrow> h e | Inr x \<Rightarrow> k x }"

section \<open>Running a computation\<close>

lemma elapse_simps [simp]:
  "w_db (elapse w) = w_db w" "w_redis (elapse w) = w_redis w" "w_blob (elapse w) = w_blob w"
  "w_log (elapse w) = w_log w" "w_random (elapse w) = w_random w" "w_rpos (elapse w) = w_rpos w"
  by (simp_all add: elapse_def split: list.splits)

lemma elapse_now: "w_now w \<le> w_now (elapse w)"
  by (simp add: elapse_def split: list.splits)

definition result :: "'a M \<Rightarrow> world \<Rightarrow> 'a" where
  "result m w = fst (run_state m w)"

definition final :: "'a M \<Rightarrow> world \<Rightarrow> world" where
  "final m w = snd (run_state m w)"

definition wp :: "'a M \<Rightarrow> ('a \<Rightarrow> world \<Rightarrow> bool) \<Rightarrow> world \<Rightarrow> bool" where
  "wp m Q w \<longleftrightarrow> (case run_state m w of (a, w') \<Rightarrow> Q a w')"

lemma wp_iff: "wp m Q w \<longleftrightarrow> Q (result m w) (final m w)"
  by (simp add: wp_def result_def final_def case_prod_beta)

lemma wpD: "wp m Q w \<Longrightarrow> run_state m w = (a, w') \<Longrightarrow> Q a w'"
  by (simp add: wp_def)

lemma wp_mono: "wp m Q w \<Longrightarrow> (\<And>a w'. Q a w' \<Longrightarrow> R a w') \<Longrightarrow> wp m R w"
  by (simp add: wp_iff)

lemma wp_return [wp_rules]: "wp (ret x) Q w \<longleftrightarrow> Q x w"
  by (simp add: wp_def)

lemma wp_bind [wp_rules]: "wp (m \<bind> f) Q w \<longleftrightarrow> wp m (\<lambda>a. wp (f a) Q) w"
  by (simp add: wp_def case_prod_beta)

lemma wp_attempt [wp_rules]:
  "wp (attempt m h k) Q w \<longleftrightarrow> wp m (\<lambda>r. case r of Inl e \<Rightarrow> wp (h e) Q | Inr x \<Rightarrow> wp (k x) Q) w"
  by (auto simp: attempt_def wp_def case_prod_beta split: sum.splits)

lemma wp_if [wp_rules]: "wp (if b then m else n) Q w \<longleftrightarrow> (if b then wp m Q w else wp n Q w)"
  by simp

lemma wp_option [wp_rules]:
  "wp (case x of None \<Rightarrow> m | Some y \<Rightarrow> n y) Q w \<longleftrightarrow>
     (case x of None \<Rightarrow> wp m Q w | Some y \<Rightarrow> wp (n y) Q w)"
  by (cases x) simp_all

lemma wp_sum [wp_rules]:
  "wp (case x of Inl e \<Rightarrow> m e | Inr y \<Rightarrow> n y) Q w \<longleftrightarrow>
     (case x of Inl e \<Rightarrow> wp (m e) Q w | Inr y \<Rightarrow> wp (n y) Q w)"
  by (cases x) simp_all

lemma wp_let [wp_rules]: "wp (Let x f) Q w \<longleftrightarrow> wp (f x) Q w"
  by simp

lemma wp_prod [wp_rules]: "wp (case p of (x, y) \<Rightarrow> m x y) Q w \<longleftrightarrow> (case p of (x, y) \<Rightarrow> wp (m x y) Q w)"
  by (simp add: case_prod_beta)

lemma wp_time_Now [wp_rules]: "wp time_Now Q w \<longleftrightarrow> Q (w_now w) w"
  by (simp add: wp_def time_Now_def)

lemma wp_log_event [wp_rules]: "wp (log_event l e) Q w \<longleftrightarrow> Q () (w\<lparr>w_log := w_log w @ [(l, e)]\<rparr>)"
  by (simp add: wp_def log_event_def)

lemma wp_uuid_New [wp_rules]:
  "wp uuid_New Q w \<longleftrightarrow> Q (next_id (w_db w)) (w\<lparr>w_db := (w_db w)\<lparr>next_id := next_id (w_db w) + 1\<rparr>\<rparr>)"
  by (simp add: wp_def uuid_New_def)

lemma wp_db_query [wp_rules]:
  "wp (db_query q) Q w \<longleftrightarrow>
     Q (if outcome_of w = Done then q (w_db (elapse w)) (w_now (elapse w)) else Inl ErrDriver) (elapse w)"
  by (simp add: wp_def db_query_def Let_def)

lemma wp_db_exec [wp_rules]:
  "wp (db_exec s) Q w \<longleftrightarrow>
     (case outcome_of w of
        Lost \<Rightarrow> Q (Inl ErrDriver) (elapse w)
      | Done \<Rightarrow> (case s (w_db w) (w_now (elapse w)) of
            Inl e \<Rightarrow> Q (Inl e) (elapse w) | Inr (a, d) \<Rightarrow> Q (Inr a) ((elapse w)\<lparr>w_db := d\<rparr>))
      | Unacknowledged \<Rightarrow> (case s (w_db w) (w_now (elapse w)) of
            Inl e \<Rightarrow> Q (Inl ErrDriver) (elapse w)
          | Inr (a, d) \<Rightarrow> Q (Inl ErrDriver) ((elapse w)\<lparr>w_db := d\<rparr>)))"
  by (simp add: wp_def db_exec_def Let_def split: outcome.splits sum.splits prod.splits)

lemma wp_tx_begin [wp_rules]:
  "wp tx_begin Q w \<longleftrightarrow>
     (if outcome_of w = Done then Q (Inr \<lparr>tx_db = w_db w, tx_now = w_now (elapse w)\<rparr>) (elapse w)
      else Q (Inl ErrDriver) (elapse w))"
  by (simp add: wp_def tx_begin_def Let_def)

lemma wp_tx_exec [wp_rules]:
  "wp (tx_exec t s) Q w \<longleftrightarrow>
     (if outcome_of w = Done
      then (case s (tx_db t) (tx_now t) of
          Inl e \<Rightarrow> Q (Inl e) (elapse w) | Inr (a, d) \<Rightarrow> Q (Inr (a, t\<lparr>tx_db := d\<rparr>)) (elapse w))
      else Q (Inl ErrDriver) (elapse w))"
  by (simp add: wp_def tx_exec_def Let_def split: sum.splits prod.splits)

lemma wp_tx_commit [wp_rules]:
  "wp (tx_commit t) Q w \<longleftrightarrow>
     (case outcome_of w of
        Lost \<Rightarrow> Q (Inl ErrDriver) (elapse w)
      | Done \<Rightarrow> Q (Inr ()) ((elapse w)\<lparr>w_db := tx_db t\<rparr>)
      | Unacknowledged \<Rightarrow> Q (Inl ErrDriver) ((elapse w)\<lparr>w_db := tx_db t\<rparr>))"
  by (simp add: wp_def tx_commit_def Let_def split: outcome.splits)

lemma wp_redis_do [wp_rules]:
  "wp (redis_do c) Q w \<longleftrightarrow>
     (case outcome_of w of
        Lost \<Rightarrow> Q (Inl RedisError) (elapse w)
      | Done \<Rightarrow> (case c (w_redis w) (w_now (elapse w)) of
            Inl e \<Rightarrow> Q (Inl e) (elapse w) | Inr (a, r) \<Rightarrow> Q (Inr a) ((elapse w)\<lparr>w_redis := r\<rparr>))
      | Unacknowledged \<Rightarrow> (case c (w_redis w) (w_now (elapse w)) of
            Inl e \<Rightarrow> Q (Inl e) (elapse w)
          | Inr (a, r) \<Rightarrow> Q (Inl RedisError) ((elapse w)\<lparr>w_redis := r\<rparr>)))"
  by (simp add: wp_def redis_do_def Let_def split: outcome.splits sum.splits prod.splits)

lemma wp_blob_do [wp_rules]:
  "wp (blob_do f) Q w \<longleftrightarrow>
     (case outcome_of w of
        Lost \<Rightarrow> Q (Inl ()) (elapse w)
      | Done \<Rightarrow> Q (Inr ()) ((elapse w)\<lparr>w_blob := f (w_blob w)\<rparr>)
      | Unacknowledged \<Rightarrow> Q (Inl ()) ((elapse w)\<lparr>w_blob := f (w_blob w)\<rparr>))"
  by (simp add: wp_def blob_do_def Let_def split: outcome.splits)

lemma wp_rand_Read [wp_rules]:
  "wp (rand_Read n) Q w \<longleftrightarrow>
     (if outcome_of w = Done
      then Q (Some (map (\<lambda>i. w_random w (w_rpos w + i) mod 256) [0..<n]))
             ((elapse w)\<lparr>w_rpos := w_rpos w + n\<rparr>)
      else Q None (elapse w))"
  by (simp add: wp_def rand_Read_def Let_def)

section \<open>Verification conditions\<close>

text \<open>
  The same rules as introductions that forget how a call failed and when: after a call that does
  not write, the tables are what they were; after one that may, they are what they were or
  what the statement makes of them, and the caller may or may not be told.
\<close>

lemma vc_return [vc_rules]: "Q x w \<Longrightarrow> wp (ret x) Q w"
  by (simp add: wp_return)

lemma vc_bind [vc_rules]: "wp m (\<lambda>a. wp (f a) Q) w \<Longrightarrow> wp (m \<bind> f) Q w"
  by (simp add: wp_bind)

lemma vc_attempt [vc_rules]:
  "wp m (\<lambda>r. case r of Inl e \<Rightarrow> wp (h e) Q | Inr x \<Rightarrow> wp (k x) Q) w \<Longrightarrow> wp (attempt m h k) Q w"
  by (simp add: wp_attempt)

lemma vc_if [vc_rules]: "(b \<Longrightarrow> wp m Q w) \<Longrightarrow> (\<not> b \<Longrightarrow> wp n Q w) \<Longrightarrow> wp (if b then m else n) Q w"
  by simp

lemma vc_option [vc_rules]:
  "(x = None \<Longrightarrow> wp m Q w) \<Longrightarrow> (\<And>y. x = Some y \<Longrightarrow> wp (n y) Q w) \<Longrightarrow> wp (case x of None \<Rightarrow> m | Some y \<Rightarrow> n y) Q w"
  by (cases x) simp_all

lemma vc_sum [vc_rules]:
  "(\<And>e. x = Inl e \<Longrightarrow> wp (m e) Q w) \<Longrightarrow> (\<And>y. x = Inr y \<Longrightarrow> wp (n y) Q w) \<Longrightarrow>
   wp (case x of Inl e \<Rightarrow> m e | Inr y \<Rightarrow> n y) Q w"
  by (cases x) simp_all

lemma vc_Inl [vc_rules]: "P e w \<Longrightarrow> (case Inl e of Inl e \<Rightarrow> P e | Inr x \<Rightarrow> R x) w"
  by simp

lemma vc_Inr [vc_rules]: "R x w \<Longrightarrow> (case Inr x of Inl e \<Rightarrow> P e | Inr x \<Rightarrow> R x) w"
  by simp

lemma vc_prod [vc_rules]: "(\<And>x y. p = (x, y) \<Longrightarrow> wp (m x y) Q w) \<Longrightarrow> wp (case p of (x, y) \<Rightarrow> m x y) Q w"
  by (cases p) simp

lemma vc_let [vc_rules]: "wp (f x) Q w \<Longrightarrow> wp (Let x f) Q w"
  by simp

lemma vc_time_Now [vc_rules]: "Q (w_now w) w \<Longrightarrow> wp time_Now Q w"
  by (simp add: wp_time_Now)

lemma vc_log_event [vc_rules]: "Q () (w\<lparr>w_log := w_log w @ [(l, e)]\<rparr>) \<Longrightarrow> wp (log_event l e) Q w"
  by (simp add: wp_log_event)

lemma vc_uuid_New [vc_rules]:
  "Q (next_id (w_db w)) (w\<lparr>w_db := (w_db w)\<lparr>next_id := next_id (w_db w) + 1\<rparr>\<rparr>) \<Longrightarrow> wp uuid_New Q w"
  by (simp add: wp_uuid_New)

lemma vc_db_query [vc_rules]:
  assumes "\<And>e w'. w_db w' = w_db w \<Longrightarrow> w_redis w' = w_redis w \<Longrightarrow> w_blob w' = w_blob w \<Longrightarrow> w_now w \<le> w_now w' \<Longrightarrow> Q (Inl e) w'"
    and "\<And>x w'. q (w_db w) (w_now w') = Inr x \<Longrightarrow> w_db w' = w_db w \<Longrightarrow> w_redis w' = w_redis w \<Longrightarrow> w_blob w' = w_blob w \<Longrightarrow>
      w_now w \<le> w_now w' \<Longrightarrow> Q (Inr x) w'"
  shows "wp (db_query q) Q w"
  using assms(1) [of "elapse w"] assms(2) [of "elapse w"] elapse_now [of w]
  by (cases "q (w_db w) (w_now (elapse w))") (simp_all add: wp_db_query)

lemma vc_db_exec [vc_rules]:
  assumes "\<And>e w'. w_db w' = w_db w \<Longrightarrow> w_redis w' = w_redis w \<Longrightarrow> w_blob w' = w_blob w \<Longrightarrow> w_now w \<le> w_now w' \<Longrightarrow> Q (Inl e) w'"
    and "\<And>x d w'. s (w_db w) (w_now w') = Inr (x, d) \<Longrightarrow> w_db w' = d \<Longrightarrow> w_redis w' = w_redis w \<Longrightarrow> w_blob w' = w_blob w \<Longrightarrow>
      w_now w \<le> w_now w' \<Longrightarrow> Q (Inr x) w'"
    and "\<And>x d w'. s (w_db w) (w_now w') = Inr (x, d) \<Longrightarrow> w_db w' = d \<Longrightarrow> w_redis w' = w_redis w \<Longrightarrow> w_blob w' = w_blob w \<Longrightarrow>
      w_now w \<le> w_now w' \<Longrightarrow> Q (Inl ErrDriver) w'"
  shows "wp (db_exec s) Q w"
  using assms(1) [of "elapse w"] assms(2,3) [of "(elapse w)\<lparr>w_db := _\<rparr>"] elapse_now [of w]
  by (auto simp: wp_db_exec split: outcome.splits sum.splits)

lemma vc_redis_do [vc_rules]:
  assumes "\<And>e w'. w_db w' = w_db w \<Longrightarrow> w_blob w' = w_blob w \<Longrightarrow> w_now w \<le> w_now w' \<Longrightarrow> Q (Inl e) w'"
    and "\<And>x w'. w_db w' = w_db w \<Longrightarrow> w_blob w' = w_blob w \<Longrightarrow> w_now w \<le> w_now w' \<Longrightarrow> Q (Inr x) w'"
  shows "wp (redis_do c) Q w"
  using elapse_now [of w]
  by (auto simp: wp_redis_do split: outcome.splits sum.splits intro!: assms)

lemma vc_blob_do [vc_rules]:
  assumes "\<And>e w'. w_db w' = w_db w \<Longrightarrow> w_redis w' = w_redis w \<Longrightarrow> w_now w \<le> w_now w' \<Longrightarrow> Q (Inl e) w'"
    and "\<And>x w'. w_db w' = w_db w \<Longrightarrow> w_redis w' = w_redis w \<Longrightarrow> w_now w \<le> w_now w' \<Longrightarrow> Q (Inr x) w'"
  shows "wp (blob_do f) Q w"
  using elapse_now [of w] by (auto simp: wp_blob_do split: outcome.splits intro!: assms)

lemma vc_rand_Read [vc_rules]:
  assumes "\<And>w'. w_db w' = w_db w \<Longrightarrow> w_redis w' = w_redis w \<Longrightarrow> w_blob w' = w_blob w \<Longrightarrow> w_now w \<le> w_now w' \<Longrightarrow> Q None w'"
    and "\<And>b w'. length b = n \<Longrightarrow> (\<forall>x\<in>set b. x < 256) \<Longrightarrow> w_db w' = w_db w \<Longrightarrow> w_redis w' = w_redis w \<Longrightarrow> w_blob w' = w_blob w \<Longrightarrow>
      w_now w \<le> w_now w' \<Longrightarrow> Q (Some b) w'"
  shows "wp (rand_Read n) Q w"
  using elapse_now [of w] by (auto simp: wp_rand_Read intro!: assms)

lemma wpI: "wp m Q w \<Longrightarrow> Q (result m w) (final m w)"
  by (simp add: wp_iff)

text \<open>What a world without failures left does.\<close>

definition quiet :: "world \<Rightarrow> bool" where
  "quiet w \<longleftrightarrow> w_ticks w = []"

lemma quiet_outcome [simp]: "quiet w \<Longrightarrow> outcome_of w = Done"
  by (simp add: quiet_def outcome_of_def)

lemma quiet_elapse [simp]: "quiet w \<Longrightarrow> elapse w = w"
  by (simp add: quiet_def elapse_def)

lemma quiet_update [simp]:
  "quiet (w\<lparr>w_db := d\<rparr>) \<longleftrightarrow> quiet w" "quiet (w\<lparr>w_redis := r\<rparr>) \<longleftrightarrow> quiet w"
  "quiet (w\<lparr>w_log := l\<rparr>) \<longleftrightarrow> quiet w" "quiet (w\<lparr>w_blob := b\<rparr>) \<longleftrightarrow> quiet w"
  "quiet (w\<lparr>w_rpos := n\<rparr>) \<longleftrightarrow> quiet w" "quiet (w\<lparr>w_now := t\<rparr>) \<longleftrightarrow> quiet w"
  by (simp_all add: quiet_def)

lemma quiet_db_query [quiet_run]:
  "quiet w \<Longrightarrow> run_state (db_query q) w = (q (w_db w) (w_now w), w)"
  by (simp add: db_query_def)

lemma quiet_db_exec [quiet_run]:
  "quiet w \<Longrightarrow> run_state (db_exec s) w = (case s (w_db w) (w_now w) of
     Inl e \<Rightarrow> (Inl e, w) | Inr (a, d) \<Rightarrow> (Inr a, w\<lparr>w_db := d\<rparr>))"
  by (simp add: db_exec_def split: sum.splits prod.splits)

lemma quiet_redis_do [quiet_run]:
  "quiet w \<Longrightarrow> run_state (redis_do c) w = (case c (w_redis w) (w_now w) of
     Inl e \<Rightarrow> (Inl e, w) | Inr (a, r) \<Rightarrow> (Inr a, w\<lparr>w_redis := r\<rparr>))"
  by (simp add: redis_do_def split: sum.splits prod.splits)

lemma quiet_blob_do [quiet_run]: "quiet w \<Longrightarrow> run_state (blob_do f) w = (Inr (), w\<lparr>w_blob := f (w_blob w)\<rparr>)"
  by (simp add: blob_do_def)

lemma quiet_tx_begin [quiet_run]:
  "quiet w \<Longrightarrow> run_state tx_begin w = (Inr \<lparr>tx_db = w_db w, tx_now = w_now w\<rparr>, w)"
  by (simp add: tx_begin_def)

lemma quiet_tx_exec [quiet_run]:
  "quiet w \<Longrightarrow> run_state (tx_exec t s) w = (case s (tx_db t) (tx_now t) of
     Inl e \<Rightarrow> (Inl e, w) | Inr (a, d) \<Rightarrow> (Inr (a, t\<lparr>tx_db := d\<rparr>), w))"
  by (simp add: tx_exec_def split: sum.splits prod.splits)

lemma quiet_tx_commit [quiet_run]: "quiet w \<Longrightarrow> run_state (tx_commit t) w = (Inr (), w\<lparr>w_db := tx_db t\<rparr>)"
  by (simp add: tx_commit_def)

lemma quiet_rand_Read [quiet_run]:
  "quiet w \<Longrightarrow> run_state (rand_Read n) w =
     (Some (map (\<lambda>i. w_random w (w_rpos w + i) mod 256) [0..<n]), w\<lparr>w_rpos := w_rpos w + n\<rparr>)"
  by (simp add: rand_Read_def)

lemma run_simps [quiet_run]:
  "run_state time_Now w = (w_now w, w)"
  "run_state (log_event l e) w = ((), w\<lparr>w_log := w_log w @ [(l, e)]\<rparr>)"
  "run_state (ret x) w = (x, w)"
  "run_state (m \<bind> f) w = (case run_state m w of (a, w') \<Rightarrow> run_state (f a) w')"
  "run_state (attempt m h k) w = (case run_state m w of
     (Inl e, w') \<Rightarrow> run_state (h e) w' | (Inr x, w') \<Rightarrow> run_state (k x) w')"
  by (simp_all add: time_Now_def log_event_def attempt_def split: prod.splits sum.splits)

lemma quiet_uuid_New [quiet_run]:
  "run_state uuid_New w = (next_id (w_db w), w\<lparr>w_db := (w_db w)\<lparr>next_id := next_id (w_db w) + 1\<rparr>\<rparr>)"
  by (simp add: uuid_New_def)

section \<open>Frames\<close>

text \<open>
  A relation between the world before and the world after that every computation built from
  the primitives keeps, if the statements it writes with keep it: the isolation of tenants,
  the append-only audit log and the database invariant are all shown as such a relation. The
  relation may look at the tables only.
\<close>

locale frame =
  fixes R :: "db \<Rightarrow> db \<Rightarrow> bool"
  assumes refl: "R d d"
    and trans: "R d e \<Longrightarrow> R e f \<Longrightarrow> R d f"
    and fresh: "R d (d\<lparr>next_id := Suc (next_id d)\<rparr>)"
begin

definition keeps :: "'a M \<Rightarrow> bool" where
  "keeps m \<longleftrightarrow> (\<forall>w. R (w_db w) (w_db (final m w)))"

definition stmt :: "(db \<Rightarrow> time \<Rightarrow> store_err + ('a \<times> db)) \<Rightarrow> bool" where
  "stmt s \<longleftrightarrow> (\<forall>d t a d'. s d t = Inr (a, d') \<longrightarrow> R d d')"

lemma keepsD: "keeps m \<Longrightarrow> R (w_db w) (w_db (final m w))"
  by (simp add: keeps_def)

lemma stmtI: "(\<And>d t a d'. s d t = Inr (a, d') \<Longrightarrow> R d d') \<Longrightarrow> stmt s"
  by (auto simp: stmt_def)

lemma keeps_return: "keeps (ret x)"
  by (simp add: keeps_def final_def refl)

lemma keeps_bind: "keeps m \<Longrightarrow> (\<And>a. keeps (f a)) \<Longrightarrow> keeps (m \<bind> f)"
  unfolding keeps_def final_def by (auto simp: case_prod_beta intro: trans)

lemma keeps_attempt: "keeps m \<Longrightarrow> (\<And>e. keeps (h e)) \<Longrightarrow> (\<And>a. keeps (k a)) \<Longrightarrow> keeps (attempt m h k)"
  unfolding attempt_def by (rule keeps_bind) (auto split: sum.splits)

lemma keeps_db_query: "keeps (db_query q)"
  by (simp add: keeps_def final_def db_query_def Let_def refl)

lemma keeps_db_exec: "stmt s \<Longrightarrow> keeps (db_exec s)"
  by (auto simp: keeps_def stmt_def final_def db_exec_def Let_def refl split: sum.splits prod.splits)

lemma keeps_time_Now: "keeps time_Now"
  by (simp add: keeps_def final_def time_Now_def refl)

lemma keeps_log_event: "keeps (log_event l e)"
  by (simp add: keeps_def final_def log_event_def refl)

lemma keeps_rand_Read: "keeps (rand_Read n)"
  by (simp add: keeps_def final_def rand_Read_def Let_def refl)

lemma keeps_uuid_New: "keeps uuid_New"
  by (simp add: keeps_def final_def uuid_New_def fresh)

lemma keeps_redis_do: "keeps (redis_do c)"
  by (simp add: keeps_def final_def redis_do_def Let_def refl split: sum.splits prod.splits)

lemma keeps_blob_do: "keeps (blob_do f)"
  by (simp add: keeps_def final_def blob_do_def Let_def refl)

lemmas keeps_rules = keeps_return keeps_bind keeps_attempt keeps_db_query keeps_db_exec
  keeps_time_Now keeps_log_event keeps_rand_Read keeps_uuid_New keeps_redis_do keeps_blob_do

end

end
