(* ===== verification/Store_Users.thy ===== *)
theory Store_Users
  imports World
begin

text \<open>
  \<open>internal/store/users.go\<close>: users and organizations. Each query is a function of the tables,
  with the \<open>WHERE\<close> clause of its SQL; each statement also returns the new tables, and checks
  the unique constraints the migrations put on them.
\<close>

section \<open>Reading\<close>

definition scanUser :: "user_row option \<Rightarrow> store_err + user" where
  "scanUser row = or_error ErrNotFound (map_option user.truncate row)"

definition q_UserByID :: "uuid \<Rightarrow> db \<Rightarrow> time \<Rightarrow> store_err + user" where
  "q_UserByID i d t = scanUser (first_row (select (\<lambda>u. u_ID u = i) (users d)))"

definition UserByID :: "uuid \<Rightarrow> (store_err + user) M" where
  "UserByID i = db_query (q_UserByID i)"

definition q_UserByEmail :: "string \<Rightarrow> db \<Rightarrow> time \<Rightarrow> store_err + user" where
  "q_UserByEmail e d t = scanUser (first_row (select (\<lambda>u. citext_eq (u_Email u) e) (users d)))"

definition UserByEmail :: "string \<Rightarrow> (store_err + user) M" where
  "UserByEmail e = db_query (q_UserByEmail e)"

definition q_ListOrgUsers :: "uuid \<Rightarrow> db \<Rightarrow> time \<Rightarrow> store_err + user list" where
  "q_ListOrgUsers org d t =
     Inr (map user.truncate (order_asc u_CreatedAt (select (\<lambda>u. u_OrgID u = org) (users d))))"

definition ListOrgUsers :: "uuid \<Rightarrow> (store_err + user list) M" where
  "ListOrgUsers org = db_query (q_ListOrgUsers org)"

definition q_OrgByID :: "uuid \<Rightarrow> db \<Rightarrow> time \<Rightarrow> store_err + organization" where
  "q_OrgByID i d t = or_error ErrNotFound
     (map_option organization.truncate (first_row (select (\<lambda>r. o_ID r = i) (organizations d))))"

definition OrgByID :: "uuid \<Rightarrow> (store_err + organization) M" where
  "OrgByID i = db_query (q_OrgByID i)"

section \<open>Writing\<close>

text \<open>A unique violation (SQLSTATE 23505) names its constraint; \<open>mapConstraint\<close> types it.\<close>

definition mapConstraint :: "store_err \<Rightarrow> store_err" where
  "mapConstraint e = (case e of
       ErrConstraint c \<Rightarrow> (if c = ''users_email_key'' then ErrEmailTaken []
                          else if c = ''organizations_slug_key'' then ErrSlugTaken
                          else ErrEmailTaken c)
     | _ \<Rightarrow> e)"

definition is_ErrEmailTaken :: "store_err \<Rightarrow> bool" where
  "is_ErrEmailTaken e = (case e of ErrEmailTaken _ \<Rightarrow> True | _ \<Rightarrow> False)"

definition insert_org :: "string \<Rightarrow> string \<Rightarrow> db \<Rightarrow> time \<Rightarrow> store_err + (organization \<times> db)" where
  "insert_org name slug d t =
     (if (\<exists>r\<in>set (organizations d). citext_eq (o_Slug r) slug)
      then Inl (ErrConstraint ''organizations_slug_key'')
      else let r = \<lparr>o_ID = next_id d, o_Name = name, o_Slug = slug, o_CreatedAt = t, o_require_mfa = False\<rparr>
           in Inr (organization.truncate r,
                d\<lparr>organizations := organizations d @ [r], next_id := Suc (next_id d)\<rparr>))"

text \<open>
  Inserting a user: the organization must exist (foreign key), the role must be a label of the
  enum, the email must be new.
\<close>

definition valid_role :: "role \<Rightarrow> bool" where
  "valid_role r \<longleftrightarrow> r = RoleMember \<or> r = RoleAdmin \<or> r = RoleOwner"

definition insert_user :: "uuid \<Rightarrow> string \<Rightarrow> string \<Rightarrow> role \<Rightarrow> db \<Rightarrow> time \<Rightarrow> store_err + (user \<times> db)" where
  "insert_user org email hash role d t =
     (if \<not> valid_role role \<or> (\<forall>r\<in>set (organizations d). o_ID r \<noteq> org) then Inl ErrDriver
      else if (\<exists>u\<in>set (users d). citext_eq (u_Email u) email)
      then Inl (ErrConstraint ''users_email_key'')
      else let u = \<lparr>u_ID = next_id d, u_OrgID = org, u_Email = email, u_PasswordHash = hash,
                    u_Role = role, u_CreatedAt = t,
                    u_totp_secret = None, u_totp_enabled = False, u_totp_confirmed_at = None\<rparr>
           in Inr (user.truncate u, d\<lparr>users := users d @ [u], next_id := Suc (next_id d)\<rparr>))"

text \<open>Registration: the organization and its owner, in one transaction.\<close>

definition CreateOrgWithOwner ::
  "string \<Rightarrow> string \<Rightarrow> string \<Rightarrow> string \<Rightarrow> (store_err + (organization \<times> user)) M" where
  "CreateOrgWithOwner orgName slug email passwordHash =
     attempt tx_begin (\<lambda>e. ret (Inl e)) (\<lambda>t.
     attempt (tx_exec t (insert_org orgName slug)) (\<lambda>e. ret (Inl (mapConstraint e))) (\<lambda>(org, t).
     attempt (tx_exec t (insert_user (o_ID org) email passwordHash RoleOwner))
       (\<lambda>e. ret (Inl (mapConstraint e))) (\<lambda>(u, t).
     attempt (tx_commit t) (\<lambda>e. ret (Inl e)) (\<lambda>_. ret (Inr (org, u))))))"

definition CreateMember :: "uuid \<Rightarrow> string \<Rightarrow> string \<Rightarrow> role \<Rightarrow> (store_err + user) M" where
  "CreateMember orgID email passwordHash role =
     attempt (db_exec (insert_user orgID email passwordHash role))
       (\<lambda>e. ret (Inl (mapConstraint e))) (\<lambda>u. ret (Inr u))"

section \<open>Lemmas\<close>

lemma insert_org_db:
  assumes "insert_org name slug d t = Inr (o', d')"
  shows "\<exists>r. organization.truncate r = o' \<and> o_ID r = next_id d \<and> o_Slug r = slug \<and> o_Name r = name \<and>
    \<not> o_require_mfa r \<and>
    d' = d\<lparr>organizations := organizations d @ [r], next_id := Suc (next_id d)\<rparr> \<and>
    (\<forall>s\<in>set (organizations d). \<not> citext_eq (o_Slug s) slug)"
  using assms by (auto simp: insert_org_def Let_def split: if_splits)

lemma insert_user_db:
  assumes "insert_user org email hash role d t = Inr (u', d')"
  shows "\<exists>u. user.truncate u = u' \<and> u_ID u = next_id d \<and> u_OrgID u = org \<and> u_Email u = email \<and>
    u_Role u = role \<and> u_PasswordHash u = hash \<and> u_totp_secret u = None \<and> \<not> u_totp_enabled u \<and>
    d' = d\<lparr>users := users d @ [u], next_id := Suc (next_id d)\<rparr> \<and> valid_role role \<and>
    (\<exists>r\<in>set (organizations d). o_ID r = org) \<and>
    (\<forall>v\<in>set (users d). \<not> citext_eq (u_Email v) email)"
  using assms by (auto simp: insert_user_def Let_def split: if_splits)

lemma q_UserByID_Inr:
  assumes "q_UserByID i d t = Inr u"
  shows "\<exists>r\<in>set (users d). user.truncate r = u \<and> u_ID u = i"
  using assms
  by (auto simp: q_UserByID_def scanUser_def user.truncate_def dest!: first_row_select_SomeD)

lemma user_truncate_simps [simp]:
  "u_ID (user.truncate r) = u_ID r" "u_OrgID (user.truncate r) = u_OrgID r"
  "u_Email (user.truncate r) = u_Email r" "u_Role (user.truncate r) = u_Role r"
  "u_PasswordHash (user.truncate r) = u_PasswordHash r"
  by (simp_all add: user.truncate_def)

lemma q_ListOrgUsers_org: "q_ListOrgUsers org d t = Inr us \<Longrightarrow> u \<in> set us \<Longrightarrow> u_OrgID u = org"
  by (auto simp: q_ListOrgUsers_def)

section \<open>Rules\<close>

declare UserByID_def [wp_rules, op_defs] UserByEmail_def [wp_rules, op_defs] ListOrgUsers_def [wp_rules, op_defs] OrgByID_def [wp_rules, op_defs] CreateOrgWithOwner_def [wp_rules, op_defs] CreateMember_def [wp_rules, op_defs]

end
