(* ===== verification/Store_Grants.thy ===== *)
theory Store_Grants
  imports World
begin

text \<open>
  \<open>internal/store/grants.go\<close>: access grants and the audit log, with the enum \<open>access_level\<close> of
  the migrations. \<open>live_grants\<close> is the \<open>WHERE\<close> clause of \<open>BestGrantFor\<close>; the two partial unique
  indexes decide which row an upsert replaces.
\<close>

section \<open>The enum access_level\<close>

text \<open>SQL orders an enum by the position of its label: summary, dashboard, full.\<close>

definition access_level_rank :: "string \<Rightarrow> nat option" where
  "access_level_rank l =
     (if l = ''summary'' then Some 0 else if l = ''dashboard'' then Some 1
      else if l = ''full'' then Some 2 else None)"

definition level_order :: "string \<Rightarrow> nat" where
  "level_order l = (case access_level_rank l of None \<Rightarrow> 0 | Some n \<Rightarrow> n)"

definition valid_level :: "string \<Rightarrow> bool" where
  "valid_level l \<longleftrightarrow> access_level_rank l \<noteq> None"

lemma valid_level_iff: "valid_level l \<longleftrightarrow> l \<in> {''summary'', ''dashboard'', ''full''}"
  by (auto simp: valid_level_def access_level_rank_def)

section \<open>Reading\<close>

definition grant_live :: "time \<Rightarrow> access_grant \<Rightarrow> bool" where
  "grant_live t g \<longleftrightarrow> (case g_ExpiresAt g of None \<Rightarrow> True | Some x \<Rightarrow> x > t)"

definition grant_covers :: "uuid \<Rightarrow> access_grant \<Rightarrow> bool" where
  "grant_covers uploadID g \<longleftrightarrow> g_UploadID g = Some uploadID \<or> g_UploadID g = None"

definition live_grants :: "uuid \<Rightarrow> uuid \<Rightarrow> uuid \<Rightarrow> db \<Rightarrow> time \<Rightarrow> access_grant list" where
  "live_grants subjectID orgID uploadID d t =
     select (\<lambda>g. g_SubjectUserID g = subjectID \<and> g_OrgID g = orgID \<and> grant_covers uploadID g \<and>
                 grant_live t g) (access_grants d)"

text \<open>The result: the level, or none when no row matches.\<close>

definition q_BestGrantFor :: "uuid \<Rightarrow> uuid \<Rightarrow> uuid \<Rightarrow> db \<Rightarrow> time \<Rightarrow> store_err + string option" where
  "q_BestGrantFor subjectID orgID uploadID d t =
     Inr (map_option g_Level
       (first_row (order_desc (\<lambda>g. level_order (g_Level g)) (live_grants subjectID orgID uploadID d t))))"

definition BestGrantFor :: "uuid \<Rightarrow> uuid \<Rightarrow> uuid \<Rightarrow> (store_err + string option) M" where
  "BestGrantFor subjectID orgID uploadID = db_query (q_BestGrantFor subjectID orgID uploadID)"

definition q_ListGrants :: "uuid \<Rightarrow> db \<Rightarrow> time \<Rightarrow> store_err + access_grant list" where
  "q_ListGrants orgID d t =
     Inr (order_desc g_CreatedAt (select (\<lambda>g. g_OrgID g = orgID) (access_grants d)))"

definition ListGrants :: "uuid \<Rightarrow> (store_err + access_grant list) M" where
  "ListGrants orgID = db_query (q_ListGrants orgID)"

definition q_GrantByID :: "uuid \<Rightarrow> uuid \<Rightarrow> db \<Rightarrow> time \<Rightarrow> store_err + access_grant" where
  "q_GrantByID orgID i d t = or_error ErrNotFound
     (first_row (select (\<lambda>g. g_ID g = i \<and> g_OrgID g = orgID) (access_grants d)))"

definition GrantByID :: "uuid \<Rightarrow> uuid \<Rightarrow> (store_err + access_grant) M" where
  "GrantByID orgID i = db_query (q_GrantByID orgID i)"

section \<open>Writing\<close>

text \<open>
  The conflict target: an org-wide grant collides with the subject's org-wide grant in that
  organization, a per-upload grant with the subject's grant on that upload.
\<close>

definition grant_conflict :: "access_grant \<Rightarrow> access_grant \<Rightarrow> bool" where
  "grant_conflict g h \<longleftrightarrow>
     (case g_UploadID g of
        None \<Rightarrow> g_UploadID h = None \<and> g_SubjectUserID h = g_SubjectUserID g \<and> g_OrgID h = g_OrgID g
      | Some up \<Rightarrow> g_UploadID h = Some up \<and> g_SubjectUserID h = g_SubjectUserID g)"

text \<open>The columns \<open>DO UPDATE SET\<close> overwrites; the row keeps its id, organization and age.\<close>

definition grant_update :: "access_grant \<Rightarrow> access_grant \<Rightarrow> access_grant" where
  "grant_update g h = h\<lparr>g_Level := g_Level g, g_GrantedBy := g_GrantedBy g, g_ExpiresAt := g_ExpiresAt g\<rparr>"

definition grant_refs_ok :: "access_grant \<Rightarrow> db \<Rightarrow> bool" where
  "grant_refs_ok g d \<longleftrightarrow>
     (\<exists>r\<in>set (organizations d). o_ID r = g_OrgID g) \<and>
     (\<exists>u\<in>set (users d). u_ID u = g_SubjectUserID g) \<and>
     (\<exists>u\<in>set (users d). u_ID u = g_GrantedBy g) \<and>
     (case g_UploadID g of None \<Rightarrow> True | Some i \<Rightarrow> \<exists>up\<in>set (uploads d). up_ID up = i)"

definition s_UpsertGrant :: "access_grant \<Rightarrow> db \<Rightarrow> time \<Rightarrow> store_err + (access_grant \<times> db)" where
  "s_UpsertGrant g d t =
     (if \<not> valid_level (g_Level g) \<or> \<not> grant_refs_ok g d then Inl ErrDriver
      else case first_row (select (grant_conflict g) (access_grants d)) of
        Some h \<Rightarrow> Inr (grant_update g h,
                   d\<lparr>access_grants := update_where (grant_conflict g) (grant_update g) (access_grants d)\<rparr>)
      | None \<Rightarrow> let h = g\<lparr>g_ID := next_id d, g_CreatedAt := t\<rparr>
                in Inr (h, d\<lparr>access_grants := access_grants d @ [h], next_id := Suc (next_id d)\<rparr>))"

definition UpsertGrant :: "access_grant \<Rightarrow> (store_err + access_grant) M" where
  "UpsertGrant g = db_exec (s_UpsertGrant g)"

definition s_DeleteGrant :: "uuid \<Rightarrow> uuid \<Rightarrow> db \<Rightarrow> time \<Rightarrow> store_err + (unit \<times> db)" where
  "s_DeleteGrant orgID i d t =
     (let p = (\<lambda>g. g_ID g = i \<and> g_OrgID g = orgID)
      in if affected p (access_grants d) = 0 then Inl ErrNotFound
         else Inr ((), d\<lparr>access_grants := delete_where p (access_grants d)\<rparr>))"

definition DeleteGrant :: "uuid \<Rightarrow> uuid \<Rightarrow> (store_err + unit) M" where
  "DeleteGrant orgID i = db_exec (s_DeleteGrant orgID i)"

definition s_Audit :: "uuid \<Rightarrow> uuid option \<Rightarrow> string \<Rightarrow> string \<Rightarrow> uuid option \<Rightarrow> (string \<times> json) list \<Rightarrow>
    db \<Rightarrow> time \<Rightarrow> store_err + (unit \<times> db)" where
  "s_Audit orgID actor action resourceType resourceID detail d t =
     Inr ((), d\<lparr>audit_log := audit_log d @ [\<lparr>al_ID = next_id d, al_OrgID = orgID,
         al_ActorUserID = actor, al_Action = action, al_ResourceType = resourceType,
         al_ResourceID = resourceID, al_Detail = detail, al_CreatedAt = t\<rparr>],
       next_id := Suc (next_id d)\<rparr>)"

definition Audit :: "uuid \<Rightarrow> uuid option \<Rightarrow> string \<Rightarrow> string \<Rightarrow> uuid option \<Rightarrow> (string \<times> json) list \<Rightarrow>
    (store_err + unit) M" where
  "Audit orgID actor action resourceType resourceID detail =
     db_exec (s_Audit orgID actor action resourceType resourceID detail)"

section \<open>The best grant is the highest live one\<close>

lemma set_live_grants: "set (live_grants s org up d t) =
    {g \<in> set (access_grants d). g_SubjectUserID g = s \<and> g_OrgID g = org \<and> grant_covers up g \<and> grant_live t g}"
  by (simp add: live_grants_def)

lemma q_BestGrantFor_None:
  "q_BestGrantFor s org up d t = Inr None \<longleftrightarrow> live_grants s org up d t = []"
  by (simp add: q_BestGrantFor_def)

lemma q_BestGrantFor_Some:
  assumes "q_BestGrantFor s org up d t = Inr (Some l)"
  shows "\<exists>g\<in>set (live_grants s org up d t). g_Level g = l"
    and "\<forall>g\<in>set (live_grants s org up d t). level_order (g_Level g) \<le> level_order l"
  using assms by (auto simp: q_BestGrantFor_def dest: first_row_order_desc)

lemma q_BestGrantFor_cases:
  obtains (none) "q_BestGrantFor s org up d t = Inr None" "live_grants s org up d t = []"
  | (some) g where "q_BestGrantFor s org up d t = Inr (Some (g_Level g))"
      "g \<in> set (live_grants s org up d t)"
      "\<forall>h\<in>set (live_grants s org up d t). level_order (g_Level h) \<le> level_order (g_Level g)"
proof (cases "first_row (order_desc (\<lambda>g. level_order (g_Level g)) (live_grants s org up d t))")
  case None
  then show ?thesis by (intro none) (simp_all add: q_BestGrantFor_def)
next
  case (Some g)
  then show ?thesis
    by (intro some [of g]) (auto simp: q_BestGrantFor_def dest: first_row_order_desc)
qed

section \<open>One grant per subject and target\<close>

text \<open>The two unique indexes as one property of the table.\<close>

definition grant_key :: "access_grant \<Rightarrow> uuid \<times> (uuid + uuid)" where
  "grant_key g = (g_SubjectUserID g, case g_UploadID g of None \<Rightarrow> Inl (g_OrgID g) | Some i \<Rightarrow> Inr i)"

definition grants_unique :: "db \<Rightarrow> bool" where
  "grants_unique d \<longleftrightarrow> distinct (map grant_key (access_grants d))"

lemma grant_conflict_iff_key: "grant_conflict g h \<longleftrightarrow> grant_key g = grant_key h"
  by (cases g; cases h) (auto simp: grant_conflict_def grant_key_def split: option.splits)

lemma grant_key_update [simp]: "grant_key (grant_update g h) = grant_key h"
  by (simp add: grant_key_def grant_update_def split: option.splits)

lemma s_UpsertGrant_cases:
  assumes "s_UpsertGrant g d t = Inr (h, d')"
  obtains (insert) "\<forall>k\<in>set (access_grants d). grant_key k \<noteq> grant_key g"
      "h = g\<lparr>g_ID := next_id d, g_CreatedAt := t\<rparr>"
      "d' = d\<lparr>access_grants := access_grants d @ [h], next_id := Suc (next_id d)\<rparr>"
  | (update) k where "k \<in> set (access_grants d)" "grant_key k = grant_key g"
      "h = grant_update g k"
      "d' = d\<lparr>access_grants := update_where (grant_conflict g) (grant_update g) (access_grants d)\<rparr>"
proof (cases "first_row (select (grant_conflict g) (access_grants d))")
  case None
  then have "\<forall>k\<in>set (access_grants d). grant_key k \<noteq> grant_key g"
    by (simp only: first_row_select_None_iff grant_conflict_iff_key) metis
  with None assms show ?thesis
    by (intro insert) (auto simp: s_UpsertGrant_def Let_def split: if_splits)
next
  case (Some k)
  then have "k \<in> set (access_grants d)" and "grant_key k = grant_key g"
    by (auto dest!: first_row_select_SomeD simp: grant_conflict_iff_key)
  with Some assms show ?thesis
    by (intro update [of k]) (auto simp: s_UpsertGrant_def split: if_splits)
qed

lemma s_UpsertGrant_valid: "s_UpsertGrant g d t = Inr (h, d') \<Longrightarrow> valid_level (g_Level g) \<and> grant_refs_ok g d"
  by (auto simp: s_UpsertGrant_def split: if_splits)

lemma s_UpsertGrant_unique:
  assumes "grants_unique d" and "s_UpsertGrant g d t = Inr (h, d')"
  shows "grants_unique d'"
  using assms(2)
proof (cases rule: s_UpsertGrant_cases)
  case insert
  have "grant_key h = grant_key g" by (simp add: insert(2) grant_key_def split: option.splits)
  with insert(1,3) assms(1) show ?thesis by (auto simp: grants_unique_def)
next
  case (update k)
  have "map grant_key (access_grants d') = map grant_key (access_grants d)"
    by (simp add: update(4) map_update_where)
  with assms(1) show ?thesis by (simp add: grants_unique_def)
qed

text \<open>The upserted grant is in the table, with the level, granter and expiry asked for.\<close>

lemma s_UpsertGrant_stored:
  assumes "s_UpsertGrant g d t = Inr (h, d')"
  shows "h \<in> set (access_grants d')" and "grant_key h = grant_key g"
    and "g_Level h = g_Level g" and "g_GrantedBy h = g_GrantedBy g" and "g_ExpiresAt h = g_ExpiresAt g"
  using assms
  by (cases rule: s_UpsertGrant_cases;
      force simp: set_update_where grant_conflict_iff_key grant_key_def grant_update_def image_iff
        split: option.splits)+

text \<open>No other key's grants change.\<close>

lemma s_UpsertGrant_other:
  assumes "s_UpsertGrant g d t = Inr (h, d')"
  shows "filter (\<lambda>k. grant_key k \<noteq> grant_key g) (access_grants d') =
         filter (\<lambda>k. grant_key k \<noteq> grant_key g) (access_grants d)"
  using assms
proof (cases rule: s_UpsertGrant_cases)
  case insert
  have "grant_key h = grant_key g" by (simp add: insert(2) grant_key_def split: option.splits)
  with insert show ?thesis by simp
next
  case (update k)
  have "filter (\<lambda>k. grant_key k \<noteq> grant_key g) (update_where (grant_conflict g) (grant_update g) (access_grants d)) =
        filter (\<lambda>k. grant_key k \<noteq> grant_key g) (access_grants d)"
    by (rule filter_update_where) (simp_all add: grant_conflict_iff_key)
  with update(4) show ?thesis by simp
qed

lemma s_DeleteGrant_db:
  assumes "s_DeleteGrant org i d t = Inr (u, d')"
  shows "d' = d\<lparr>access_grants := delete_where (\<lambda>g. g_ID g = i \<and> g_OrgID g = org) (access_grants d)\<rparr>"
  using assms by (auto simp: s_DeleteGrant_def Let_def split: if_splits)

lemma s_DeleteGrant_unique: "grants_unique d \<Longrightarrow> s_DeleteGrant org i d t = Inr (u, d') \<Longrightarrow> grants_unique d'"
  by (drule s_DeleteGrant_db) (simp add: grants_unique_def distinct_map_delete_where)

section \<open>Only the audit log grew\<close>

definition audited :: "db \<Rightarrow> db \<Rightarrow> bool" where
  "audited d d' \<longleftrightarrow> (\<exists>rows n. next_id d \<le> n \<and> d' = d\<lparr>audit_log := audit_log d @ rows, next_id := n\<rparr>)"

lemma audited_refl [simp]: "audited d d"
proof -
  have "next_id d \<le> next_id d \<and> d = d\<lparr>audit_log := audit_log d @ [], next_id := next_id d\<rparr>" by simp
  then show ?thesis unfolding audited_def by blast
qed

lemma audited_row [simp]: "next_id d \<le> n \<Longrightarrow> audited d (d\<lparr>audit_log := audit_log d @ rows, next_id := n\<rparr>)"
  by (auto simp: audited_def)

lemma audited_trans: "audited d e \<Longrightarrow> audited e f \<Longrightarrow> audited d f"
proof -
  assume "audited d e" "audited e f"
  then obtain r1 n1 r2 n2 where "next_id d \<le> n1" "e = d\<lparr>audit_log := audit_log d @ r1, next_id := n1\<rparr>"
      "next_id e \<le> n2" "f = e\<lparr>audit_log := audit_log e @ r2, next_id := n2\<rparr>"
    unfolding audited_def by blast
  then have "next_id d \<le> n2 \<and> f = d\<lparr>audit_log := audit_log d @ (r1 @ r2), next_id := n2\<rparr>" by simp
  then show ?thesis unfolding audited_def by blast
qed

lemma audited_more [simp]: "audited d e \<Longrightarrow> next_id e \<le> n \<Longrightarrow> audited d (e\<lparr>audit_log := audit_log e @ rows, next_id := n\<rparr>)"
  by (rule audited_trans [OF _ audited_row])

lemma audited_tables:
  assumes "audited d d'"
  shows "organizations d' = organizations d" "users d' = users d" "uploads d' = uploads d" "access_grants d' = access_grants d"
    "analyses d' = analyses d" "anomalies d' = anomalies d" "log_entries d' = log_entries d"
    "entry_rollups d' = entry_rollups d" "status_rollups d' = status_rollups d" "analysis_timings d' = analysis_timings d"
    "mfa_recovery_codes d' = mfa_recovery_codes d" "next_id d \<le> next_id d'" "prefix (audit_log d) (audit_log d')"
  using assms by (auto simp: audited_def)

section \<open>Rules\<close>

declare BestGrantFor_def [wp_rules, op_defs] ListGrants_def [wp_rules, op_defs] GrantByID_def [wp_rules, op_defs] UpsertGrant_def [wp_rules, op_defs] DeleteGrant_def [wp_rules, op_defs] Audit_def [wp_rules, op_defs]

end
