(* ===== verification/Store_Uploads.thy ===== *)
theory Store_Uploads
  imports Store_Grants
begin

text \<open>
  \<open>internal/store/uploads.go\<close>: reading one upload, listing the visible ones, deleting one with
  everything derived from it. The foreign keys of the migrations decide what a deletion
  cascades to; \<open>log_entries\<close> carries none and is deleted by its own statement.
\<close>

section \<open>Reading\<close>

definition scanUpload :: "upload option \<Rightarrow> store_err + upload" where
  "scanUpload row = or_error ErrNotFound row"

definition q_UploadByID :: "uuid \<Rightarrow> db \<Rightarrow> time \<Rightarrow> store_err + upload" where
  "q_UploadByID i d t = scanUpload (first_row (select (\<lambda>u. up_ID u = i) (uploads d)))"

definition UploadByID :: "uuid \<Rightarrow> (store_err + upload) M" where
  "UploadByID i = db_query (q_UploadByID i)"

text \<open>An upload as the list shows it, with the state of its most recent analysis.\<close>

record upload_list_item =
  li_Upload :: upload
  li_AnalysisID :: "uuid option"
  li_AnalysisStatus :: "string option"
  li_OverallRisk :: "string option"

definition latest_analysis :: "uuid \<Rightarrow> db \<Rightarrow> analysis option" where
  "latest_analysis i d = first_row (order_desc a_CreatedAt (select (\<lambda>a. a_UploadID a = i) (analyses d)))"

text \<open>
  The visibility rule: the caller's own uploads, every upload of the organization for an
  administrator, and those a live grant covers. \<open>visible\<close> is the clause of
  \<open>ListVisibleUploads\<close>; \<open>search.go\<close> repeats it as \<open>visibilityClause\<close>.
\<close>

definition visible :: "user \<Rightarrow> db \<Rightarrow> time \<Rightarrow> upload \<Rightarrow> bool" where
  "visible caller d t u \<longleftrightarrow>
     up_OrgID u = u_OrgID caller \<and>
     (up_UserID u = u_ID caller \<or> IsAdmin (u_Role caller) \<or>
      (\<exists>g\<in>set (access_grants d). g_SubjectUserID g = u_ID caller \<and> g_OrgID g = up_OrgID u \<and>
         (g_UploadID g = Some (up_ID u) \<or> g_UploadID g = None) \<and>
         (g_ExpiresAt g = None \<or> (\<exists>x. g_ExpiresAt g = Some x \<and> x > t))))"

definition list_item :: "db \<Rightarrow> upload \<Rightarrow> upload_list_item" where
  "list_item d u =
     (let la = latest_analysis (up_ID u) d
      in \<lparr>li_Upload = u, li_AnalysisID = map_option a_ID la,
          li_AnalysisStatus = map_option a_Status la,
          li_OverallRisk = Option.bind la a_OverallRisk\<rparr>)"

definition q_ListVisibleUploads :: "user \<Rightarrow> db \<Rightarrow> time \<Rightarrow> store_err + upload_list_item list" where
  "q_ListVisibleUploads caller d t =
     Inr (map (list_item d) (order_desc up_CreatedAt (select (visible caller d t) (uploads d))))"

definition ListVisibleUploads :: "user \<Rightarrow> (store_err + upload_list_item list) M" where
  "ListVisibleUploads caller = db_query (q_ListVisibleUploads caller)"

section \<open>Deleting\<close>

text \<open>
  \<open>DELETE FROM uploads\<close> with its cascades: analyses, rollups and grants reference the upload,
  findings, timings and embeddings reference its analyses. The embedding of a finding belongs to the
  analysis of the finding, so it goes with that.
\<close>

definition cascade_upload :: "uuid list \<Rightarrow> db \<Rightarrow> db" where
  "cascade_upload ups d =
     (let gone = map a_ID (select (\<lambda>a. a_UploadID a \<in> set ups) (analyses d))
      in d\<lparr>uploads := delete_where (\<lambda>u. up_ID u \<in> set ups) (uploads d),
           access_grants := delete_where (\<lambda>g. \<exists>i. g_UploadID g = Some i \<and> i \<in> set ups) (access_grants d),
           analyses := delete_where (\<lambda>a. a_UploadID a \<in> set ups) (analyses d),
           anomalies := delete_where (\<lambda>f. an_analysis_id f \<in> set gone) (anomalies d),
           analysis_timings := delete_where (\<lambda>f. t_analysis_id f \<in> set gone) (analysis_timings d),
           finding_embeddings := delete_where (\<lambda>f. fe_analysis_id f \<in> set gone) (finding_embeddings d),
           entry_rollups := delete_where (\<lambda>r. r_upload_id r \<in> set ups) (entry_rollups d),
           status_rollups := delete_where (\<lambda>r. s_upload_id r \<in> set ups) (status_rollups d)\<rparr>)"

definition s_delete_entries :: "uuid \<Rightarrow> uuid \<Rightarrow> db \<Rightarrow> time \<Rightarrow> store_err + (nat \<times> db)" where
  "s_delete_entries orgID i d t =
     (let p = (\<lambda>l. l_upload_id l = i \<and> l_org_id l = orgID)
      in Inr (affected p (log_entries d), d\<lparr>log_entries := delete_where p (log_entries d)\<rparr>))"

definition s_delete_upload :: "uuid \<Rightarrow> uuid \<Rightarrow> db \<Rightarrow> time \<Rightarrow> store_err + (nat \<times> db)" where
  "s_delete_upload orgID i d t =
     (let hit = select (\<lambda>u. up_ID u = i \<and> up_OrgID u = orgID) (uploads d)
      in Inr (length hit, cascade_upload (map up_ID hit) d))"

text \<open>Both statements in one transaction; the number of log entries removed.\<close>

definition DeleteUpload :: "uuid \<Rightarrow> uuid \<Rightarrow> (store_err + nat) M" where
  "DeleteUpload orgID i =
     attempt tx_begin (\<lambda>e. ret (Inl e)) (\<lambda>t.
     attempt (tx_exec t (s_delete_entries orgID i)) (\<lambda>e. ret (Inl e)) (\<lambda>(entries, t).
     attempt (tx_exec t (s_delete_upload orgID i)) (\<lambda>e. ret (Inl e)) (\<lambda>(n, t).
       if n = 0 then ret (Inl ErrNotFound)
       else attempt (tx_commit t) (\<lambda>e. ret (Inl e)) (\<lambda>_. ret (Inr entries)))))"

section \<open>The visibility rule and the grants\<close>

lemma visible_iff:
  "visible caller d t u \<longleftrightarrow> up_OrgID u = u_OrgID caller \<and>
     (up_UserID u = u_ID caller \<or> IsAdmin (u_Role caller) \<or>
      live_grants (u_ID caller) (u_OrgID caller) (up_ID u) d t \<noteq> [])"
proof -
  have "grant_live t g \<longleftrightarrow> g_ExpiresAt g = None \<or> (\<exists>x. g_ExpiresAt g = Some x \<and> x > t)" for g
    by (auto simp: grant_live_def split: option.splits)
  then show ?thesis
    by (auto simp: visible_def live_grants_def select_def filter_empty_conv grant_covers_def)
qed

lemma q_UploadByID_Inr: "q_UploadByID i d t = Inr u \<Longrightarrow> u \<in> set (uploads d) \<and> up_ID u = i"
  by (auto simp: q_UploadByID_def scanUpload_def dest: first_row_select_SomeD)

lemma q_UploadByID_None: "(\<forall>u\<in>set (uploads d). up_ID u \<noteq> i) \<Longrightarrow> q_UploadByID i d t = Inl ErrNotFound"
  by (auto simp: q_UploadByID_def scanUpload_def first_row_select_None_iff select_def)

lemma q_UploadByID_Inl: "q_UploadByID i d t = Inl e \<Longrightarrow> e = ErrNotFound"
  by (simp add: q_UploadByID_def scanUpload_def)

lemma q_ListVisibleUploads_set:
  "q_ListVisibleUploads caller d t = Inr items \<Longrightarrow>
     li_Upload ` set items = {u \<in> set (uploads d). visible caller d t u}"
  by (auto simp: q_ListVisibleUploads_def list_item_def Let_def image_image)

text \<open>\<open>visible\<close> and \<open>cascade_upload\<close> without a quantifier over a type, to evaluate them.\<close>

lemma visible_code [code]:
  "visible caller d t u \<longleftrightarrow> up_OrgID u = u_OrgID caller \<and> (up_UserID u = u_ID caller \<or> IsAdmin (u_Role caller) \<or>
     list_ex (\<lambda>g. g_SubjectUserID g = u_ID caller \<and> g_OrgID g = up_OrgID u \<and> (g_UploadID g = Some (up_ID u) \<or> g_UploadID g = None) \<and>
       (case g_ExpiresAt g of None \<Rightarrow> True | Some x \<Rightarrow> t < x)) (access_grants d))"
  by (auto simp: visible_def list_ex_iff split: option.splits)

lemma grant_of_gone: "(\<lambda>g. \<exists>i. g_UploadID g = Some i \<and> i \<in> set ups) = (\<lambda>g. case g_UploadID g of None \<Rightarrow> False | Some i \<Rightarrow> i \<in> set ups)"
  by (auto split: option.splits)

lemmas cascade_upload_code [code] = cascade_upload_def [unfolded grant_of_gone]

section \<open>What a deletion removes\<close>

text \<open>
  Every table loses the rows that name the upload, or an analysis of it, and no other: its entries, rollups,
  grants and analyses, and of the analyses the findings, timings and embeddings.
\<close>

definition analyses_of :: "uuid \<Rightarrow> db \<Rightarrow> uuid set" where
  "analyses_of i d = a_ID ` {a \<in> set (analyses d). a_UploadID a = i}"

definition forgets :: "uuid \<Rightarrow> db \<Rightarrow> db \<Rightarrow> bool" where
  "forgets i d d' \<longleftrightarrow>
     uploads d' = filter (\<lambda>u. up_ID u \<noteq> i) (uploads d) \<and>
     log_entries d' = filter (\<lambda>l. l_upload_id l \<noteq> i) (log_entries d) \<and>
     entry_rollups d' = filter (\<lambda>r. r_upload_id r \<noteq> i) (entry_rollups d) \<and>
     status_rollups d' = filter (\<lambda>r. s_upload_id r \<noteq> i) (status_rollups d) \<and>
     access_grants d' = filter (\<lambda>g. g_UploadID g \<noteq> Some i) (access_grants d) \<and>
     analyses d' = filter (\<lambda>a. a_UploadID a \<noteq> i) (analyses d) \<and>
     anomalies d' = filter (\<lambda>f. an_analysis_id f \<notin> analyses_of i d) (anomalies d) \<and>
     analysis_timings d' = filter (\<lambda>t. t_analysis_id t \<notin> analyses_of i d) (analysis_timings d) \<and>
     finding_embeddings d' = filter (\<lambda>e. fe_analysis_id e \<notin> analyses_of i d) (finding_embeddings d) \<and>
     organizations d' = organizations d \<and> users d' = users d \<and> mfa_recovery_codes d' = mfa_recovery_codes d \<and>
     partitions d' = partitions d"

lemma cascade_upload_other_tables [simp]:
  "organizations (cascade_upload ups d) = organizations d"
  "users (cascade_upload ups d) = users d"
  "audit_log (cascade_upload ups d) = audit_log d"
  "log_entries (cascade_upload ups d) = log_entries d"
  "mfa_recovery_codes (cascade_upload ups d) = mfa_recovery_codes d"
  "partitions (cascade_upload ups d) = partitions d"
  "next_id (cascade_upload ups d) = next_id d"
  by (simp_all add: cascade_upload_def Let_def)

lemma cascade_upload_tables [simp]:
  "uploads (cascade_upload ups d) = delete_where (\<lambda>u. up_ID u \<in> set ups) (uploads d)"
  "access_grants (cascade_upload ups d) =
     delete_where (\<lambda>g. \<exists>i. g_UploadID g = Some i \<and> i \<in> set ups) (access_grants d)"
  "analyses (cascade_upload ups d) = delete_where (\<lambda>a. a_UploadID a \<in> set ups) (analyses d)"
  "entry_rollups (cascade_upload ups d) = delete_where (\<lambda>r. r_upload_id r \<in> set ups) (entry_rollups d)"
  "status_rollups (cascade_upload ups d) = delete_where (\<lambda>r. s_upload_id r \<in> set ups) (status_rollups d)"
  by (simp_all add: cascade_upload_def Let_def)

lemma cascade_upload_Nil [simp]: "cascade_upload [] d = d"
  by (simp add: cascade_upload_def delete_where_def select_def)

text \<open>The tables after both statements of a deletion.\<close>

definition hits :: "uuid \<Rightarrow> uuid \<Rightarrow> db \<Rightarrow> upload list" where
  "hits orgID i d = select (\<lambda>u. up_ID u = i \<and> up_OrgID u = orgID) (uploads d)"

definition deleted :: "uuid \<Rightarrow> uuid \<Rightarrow> db \<Rightarrow> db" where
  "deleted orgID i d = cascade_upload (map up_ID (hits orgID i d))
     (d\<lparr>log_entries := delete_where (\<lambda>l. l_upload_id l = i \<and> l_org_id l = orgID) (log_entries d)\<rparr>)"

lemma DeleteUpload_wp:
  "wp (DeleteUpload orgID i) (\<lambda>r w'. w_redis w' = w_redis w \<and> w_blob w' = w_blob w \<and> (case r of
     Inl e \<Rightarrow> w_db w' = w_db w \<or> hits orgID i (w_db w) \<noteq> [] \<and> w_db w' = deleted orgID i (w_db w)
   | Inr n \<Rightarrow> hits orgID i (w_db w) \<noteq> [] \<and> w_db w' = deleted orgID i (w_db w) \<and>
       n = affected (\<lambda>l. l_upload_id l = i \<and> l_org_id l = orgID) (log_entries (w_db w)))) w"
proof -
  have s: "s_delete_upload orgID i (d\<lparr>log_entries := ls\<rparr>) t =
    Inr (length (hits orgID i d), cascade_upload (map up_ID (hits orgID i d)) (d\<lparr>log_entries := ls\<rparr>))" for d ls t
    by (simp add: s_delete_upload_def hits_def Let_def)
  show ?thesis
    unfolding DeleteUpload_def
    by (simp add: wp_rules s s_delete_entries_def Let_def deleted_def split: outcome.splits)
qed

lemma vc_DeleteUpload:
  assumes "\<And>e w'. w_db w' = w_db w \<Longrightarrow> Q (Inl e) w'"
    and "\<And>e w'. w_db w' = deleted orgID i (w_db w) \<Longrightarrow> hits orgID i (w_db w) \<noteq> [] \<Longrightarrow> Q (Inl e) w'"
    and "\<And>n w'. w_db w' = deleted orgID i (w_db w) \<Longrightarrow> hits orgID i (w_db w) \<noteq> [] \<Longrightarrow> Q (Inr n) w'"
  shows "wp (DeleteUpload orgID i) Q w"
  apply (rule wp_mono [OF DeleteUpload_wp])
  subgoal for r w' using assms by (cases r) auto
  done

text \<open>The rows parsed out of an upload carry its organization, and ids are unique.\<close>

definition rows_owned :: "db \<Rightarrow> bool" where
  "rows_owned d \<longleftrightarrow> distinct (map up_ID (uploads d)) \<and>
     (\<forall>l\<in>set (log_entries d). \<forall>u\<in>set (uploads d). up_ID u = l_upload_id l \<longrightarrow> up_OrgID u = l_org_id l)"

lemma not_ex_Some_eq: "(\<forall>j. x = Some j \<longrightarrow> j \<noteq> i) \<longleftrightarrow> x \<noteq> Some i"
  by auto

lemma deleted_forgets:
  assumes "rows_owned d" "hits orgID i d \<noteq> []"
  shows "forgets i d (deleted orgID i d)"
proof -
  from assms(2) obtain u where u: "u \<in> set (uploads d)" "up_ID u = i" "up_OrgID u = orgID"
    by (auto simp: hits_def select_def filter_empty_conv)
  have ids: "set (map up_ID (hits orgID i d)) = {i}"
    using assms(2) by (auto simp: hits_def select_def filter_empty_conv)
  have own: "l_org_id l = orgID" if "l \<in> set (log_entries d)" "l_upload_id l = i" for l
    using that assms(1) u by (auto simp: rows_owned_def)
  have "log_entries (deleted orgID i d) = filter (\<lambda>l. l_upload_id l \<noteq> i) (log_entries d)"
    using own by (auto simp: deleted_def delete_where_def intro: filter_cong)
  moreover have "set (map a_ID (select (\<lambda>a. a_UploadID a = i) (analyses d))) = analyses_of i d"
    by (auto simp: analyses_of_def select_def)
  ultimately show ?thesis
    using ids by (simp add: forgets_def deleted_def delete_where_def cascade_upload_def Let_def not_ex_Some_eq)
qed

section \<open>Rules\<close>

declare UploadByID_def [wp_rules, op_defs] ListVisibleUploads_def [wp_rules, op_defs] DeleteUpload_def [wp_rules, op_defs]

end
