(* ===== verification/GoTime.thy ===== *)
theory GoTime
  imports Encoding
begin

text \<open>
  The parts of Go's \<open>time\<close> package the gateway uses: the proleptic Gregorian calendar, \<open>time.Parse\<close>
  on the layouts that occur in the source, and the stricter RFC 3339 reader of JSON bodies. An
  instant carries no location; whether \<open>time.Parse\<close> read it in UTC is returned beside it.
\<close>

section \<open>The calendar\<close>

definition is_leap :: "int \<Rightarrow> bool" where
  "is_leap y \<longleftrightarrow> y mod 4 = 0 \<and> (y mod 100 \<noteq> 0 \<or> y mod 400 = 0)"

definition daysIn :: "int \<Rightarrow> int \<Rightarrow> int" where
  "daysIn m y = (if m = 2 then (if is_leap y then 29 else 28)
     else if m = 4 \<or> m = 6 \<or> m = 9 \<or> m = 11 then 30 else 31)"

text \<open>Days since 1970-01-01, counting years from March so that a leap day ends its year.\<close>

definition days_from_civil :: "int \<Rightarrow> int \<Rightarrow> int \<Rightarrow> int" where
  "days_from_civil y m d =
     (let y' = (if m \<le> 2 then y - 1 else y);
          era = y' div 400; yoe = y' mod 400;
          doy = (153 * (if m > 2 then m - 3 else m + 9) + 2) div 5 + d - 1
      in era * 146097 + yoe * 365 + yoe div 4 - yoe div 100 + doy - 719468)"

text \<open>
  The way back, in cycles of 400, 100, 4 and 1 years; the last century of a cycle and the last
  year of four are a day longer. The parts of a day of the 400-year cycle: its century and the
  day of it, its four-year cycle and the day of it, its year and the day of it, its month.
\<close>

definition doe_c :: "int \<Rightarrow> int" where "doe_c doe = min 3 (doe div 36524)"
definition doe_r :: "int \<Rightarrow> int" where "doe_r doe = doe - 36524 * doe_c doe"
definition doe_q :: "int \<Rightarrow> int" where "doe_q doe = doe_r doe div 1461"
definition doe_s :: "int \<Rightarrow> int" where "doe_s doe = doe_r doe - 1461 * doe_q doe"
definition doe_a :: "int \<Rightarrow> int" where "doe_a doe = min 3 (doe_s doe div 365)"
definition doe_y :: "int \<Rightarrow> int" where "doe_y doe = doe_s doe - 365 * doe_a doe"
definition doe_m :: "int \<Rightarrow> int" where "doe_m doe = (5 * doe_y doe + 2) div 153"

definition civil_from_days :: "int \<Rightarrow> int \<times> int \<times> int" where
  "civil_from_days n =
     (let z = n + 719468; era = z div 146097; doe = z mod 146097; mp = doe_m doe;
          d = doe_y doe - (153 * mp + 2) div 5 + 1;
          m = (if mp < 10 then mp + 3 else mp - 9)
      in (400 * era + 100 * doe_c doe + 4 * doe_q doe + doe_a doe + (if m \<le> 2 then 1 else 0), m, d))"

abbreviation day :: duration where "day \<equiv> 24 * hour"

definition time_Date :: "int \<Rightarrow> int \<Rightarrow> int \<Rightarrow> int \<Rightarrow> int \<Rightarrow> int \<Rightarrow> int \<Rightarrow> time" where
  "time_Date y m d h mi s ns = days_from_civil y m d * day + h * hour + mi * minute + s * second + ns"

definition time_Unix :: "int \<Rightarrow> time" where
  "time_Unix s = s * second"

definition time_Year :: "time \<Rightarrow> int" where
  "time_Year t = fst (civil_from_days (t div day))"

text \<open>\<open>AddDate(n, 0, 0)\<close>: a 29 February of a year that has none becomes 1 March.\<close>

definition add_years :: "int \<Rightarrow> time \<Rightarrow> time" where
  "add_years n t = (case civil_from_days (t div day) of (y, m, d) \<Rightarrow>
     days_from_civil (y + n) m 1 * day + (d - 1) * day + t mod day)"

section \<open>time.Parse\<close>

datatype layout = Lit string | Year4 | Month2 | MonthName | Day2 | DayPad | Hour24 | Minute2 | Second2
  | ZoneColon | ZoneNum

record parsed_time =
  pt_year :: int
  pt_month :: int
  pt_day :: int
  pt_hour :: int
  pt_min :: int
  pt_sec :: int
  pt_nsec :: int
  pt_zone :: "int option"

definition digit_at :: "string \<Rightarrow> nat \<Rightarrow> bool" where
  "digit_at s i \<longleftrightarrow> i < length s \<and> is_digit (s ! i)"

definition digit_val :: "char \<Rightarrow> int" where
  "digit_val c = int (code c) - 48"

text \<open>\<open>getnum\<close>: two digits, or one where the layout does not insist on two.\<close>

definition getnum :: "bool \<Rightarrow> string \<Rightarrow> (int \<times> string) option" where
  "getnum fixed s =
     (if \<not> digit_at s 0 then None
      else if \<not> digit_at s 1
      then (if fixed then None else Some (digit_val (s ! 0), drop 1 s))
      else Some (digit_val (s ! 0) * 10 + digit_val (s ! 1), drop 2 s))"

definition getnum_range :: "bool \<Rightarrow> int \<Rightarrow> int \<Rightarrow> string \<Rightarrow> (int \<times> string) option" where
  "getnum_range fixed lo hi s = (case getnum fixed s of
       Some (n, r) \<Rightarrow> (if lo \<le> n \<and> n \<le> hi then Some (n, r) else None)
     | None \<Rightarrow> None)"

text \<open>\<open>skip\<close>: a space of the layout stands for any number of spaces.\<close>

fun skip_lit :: "string \<Rightarrow> string \<Rightarrow> string option" where
  "skip_lit v [] = Some v"
| "skip_lit v (c # p) =
     (if c = CHR '' ''
      then (if v \<noteq> [] \<and> hd v \<noteq> CHR '' '' then None else skip_lit (dropWhile ((=) (CHR '' '')) v) p)
      else (case v of [] \<Rightarrow> None | d # v' \<Rightarrow> if d = c then skip_lit v' p else None))"

definition shortMonthNames :: "string list" where
  "shortMonthNames = [''jan'', ''feb'', ''mar'', ''apr'', ''may'', ''jun'',
     ''jul'', ''aug'', ''sep'', ''oct'', ''nov'', ''dec'']"

fun index_of :: "'a \<Rightarrow> 'a list \<Rightarrow> nat option" where
  "index_of x [] = None"
| "index_of x (y # ys) = (if x = y then Some 0 else map_option Suc (index_of x ys))"

text \<open>A fraction after the seconds is read although no layout names one.\<close>

definition fraction :: "string \<Rightarrow> int \<times> string" where
  "fraction s =
     (if length s \<ge> 2 \<and> (s ! 0 = CHR ''.'' \<or> s ! 0 = CHR '','') \<and> digit_at s 1
      then (let ds = takeWhile is_digit (drop 1 s); keep = take 9 ds
            in (foldl (\<lambda>n c. 10 * n + digit_val c) 0 keep * 10 ^ (9 - length keep), drop (1 + length ds) s))
      else (0, s))"

definition zone_offset :: "char \<Rightarrow> string \<Rightarrow> string \<Rightarrow> int option" where
  "zone_offset sign hh mm =
     (case (getnum True hh, getnum True mm) of
        (Some (h, _), Some (m, _)) \<Rightarrow>
          (if h > 24 \<or> m > 60 then None
           else if sign = CHR ''+'' then Some ((h * 60 + m) * 60)
           else if sign = CHR ''-'' then Some (- ((h * 60 + m) * 60)) else None)
      | _ \<Rightarrow> None)"

fun parse_elem :: "layout \<Rightarrow> parsed_time \<times> string \<Rightarrow> (parsed_time \<times> string) option" where
  "parse_elem (Lit p) (t, v) = map_option (\<lambda>v. (t, v)) (skip_lit v p)"
| "parse_elem Year4 (t, v) =
     (if length v < 4 \<or> \<not> list_all is_digit (take 4 v) then None
      else Some (t\<lparr>pt_year := foldl (\<lambda>n c. 10 * n + digit_val c) 0 (take 4 v)\<rparr>, drop 4 v))"
| "parse_elem Month2 (t, v) = map_option (\<lambda>(n, r). (t\<lparr>pt_month := n\<rparr>, r)) (getnum_range True 1 12 v)"
| "parse_elem MonthName (t, v) =
     (if length v < 3 then None
      else map_option (\<lambda>i. (t\<lparr>pt_month := int i + 1\<rparr>, drop 3 v)) (index_of (ToLower (take 3 v)) shortMonthNames))"
| "parse_elem Day2 (t, v) = map_option (\<lambda>(n, r). (t\<lparr>pt_day := n\<rparr>, r)) (getnum True v)"
| "parse_elem DayPad (t, v) = map_option (\<lambda>(n, r). (t\<lparr>pt_day := n\<rparr>, r))
     (getnum False (if v \<noteq> [] \<and> hd v = CHR '' '' then tl v else v))"
| "parse_elem Hour24 (t, v) = map_option (\<lambda>(n, r). (t\<lparr>pt_hour := n\<rparr>, r)) (getnum_range False 0 23 v)"
| "parse_elem Minute2 (t, v) = map_option (\<lambda>(n, r). (t\<lparr>pt_min := n\<rparr>, r)) (getnum_range True 0 59 v)"
| "parse_elem Second2 (t, v) =
     (case getnum_range True 0 59 v of
        None \<Rightarrow> None
      | Some (n, r) \<Rightarrow> (case fraction r of (ns, r') \<Rightarrow> Some (t\<lparr>pt_sec := n, pt_nsec := ns\<rparr>, r')))"
| "parse_elem ZoneColon (t, v) =
     (if v \<noteq> [] \<and> hd v = CHR ''Z'' then Some (t\<lparr>pt_zone := None\<rparr>, tl v)
      else if length v < 6 \<or> v ! 3 \<noteq> CHR '':'' then None
      else map_option (\<lambda>z. (t\<lparr>pt_zone := Some z\<rparr>, drop 6 v)) (zone_offset (v ! 0) (take 2 (drop 1 v)) (take 2 (drop 4 v))))"
| "parse_elem ZoneNum (t, v) =
     (if length v < 5 then None
      else map_option (\<lambda>z. (t\<lparr>pt_zone := Some z\<rparr>, drop 5 v)) (zone_offset (v ! 0) (take 2 (drop 1 v)) (take 2 (drop 3 v))))"

fun parse_elems :: "layout list \<Rightarrow> parsed_time \<times> string \<Rightarrow> (parsed_time \<times> string) option" where
  "parse_elems [] s = Some s"
| "parse_elems (e # es) s = Option.bind (parse_elem e s) (parse_elems es)"

definition no_time :: parsed_time where
  "no_time = \<lparr>pt_year = 0, pt_month = 1, pt_day = 1, pt_hour = 0, pt_min = 0, pt_sec = 0, pt_nsec = 0, pt_zone = None\<rparr>"

text \<open>The instant, and whether its location is UTC.\<close>

definition time_Parse :: "layout list \<Rightarrow> string \<Rightarrow> (time \<times> bool) option" where
  "time_Parse l v = (case parse_elems l (no_time, v) of
       Some (t, []) \<Rightarrow>
         (if pt_day t < 1 \<or> pt_day t > daysIn (pt_month t) (pt_year t) then None
          else Some (time_Date (pt_year t) (pt_month t) (pt_day t) (pt_hour t) (pt_min t) (pt_sec t) (pt_nsec t)
                       - (case pt_zone t of None \<Rightarrow> 0 | Some z \<Rightarrow> z * second), pt_zone t = None))
     | _ \<Rightarrow> None)"

definition layout_RFC3339 :: "layout list" where
  "layout_RFC3339 = [Year4, Lit ''-'', Month2, Lit ''-'', Day2, Lit ''T'', Hour24, Lit '':'', Minute2,
     Lit '':'', Second2, ZoneColon]"

text \<open>
  \<open>parseStrictRFC3339\<close>, behind \<open>Time.UnmarshalJSON\<close>: what the layout lets through, minus an hour
  of one digit, a comma before the fraction, and an offset of 24 hours or 60 minutes.
\<close>

definition UnmarshalTime :: "string \<Rightarrow> time option" where
  "UnmarshalTime v = (case time_Parse layout_RFC3339 v of
       None \<Rightarrow> None
     | Some (t, _) \<Rightarrow>
         (if v ! 12 = CHR '':'' \<or> v ! 19 = CHR '','' then None
          else if last v \<noteq> CHR ''Z'' \<and>
            (\<not> (case getnum True (take 2 (drop (length v - 5) v)) of Some (n, _) \<Rightarrow> n < 24 | None \<Rightarrow> False) \<or>
             \<not> (case getnum True (drop (length v - 2) v) of Some (n, _) \<Rightarrow> n < 60 | None \<Rightarrow> False))
          then None else Some t))"

text \<open>\<open>Format(\<close>2006/01/02\<open>)\<close> in UTC.\<close>

definition pad2 :: "int \<Rightarrow> string" where
  "pad2 n = (if n < 10 then ''0'' else []) @ Itoa (nat n)"

definition pad4 :: "int \<Rightarrow> string" where
  "pad4 n = replicate (4 - length (Itoa (nat n))) CHR ''0'' @ Itoa (nat n)"

definition Format_date :: "time \<Rightarrow> string" where
  "Format_date t = (case civil_from_days (t div day) of (y, m, d) \<Rightarrow> pad4 y @ ''/'' @ pad2 m @ ''/'' @ pad2 d)"

section \<open>Months follow each other\<close>

text \<open>The number of months since March of the year 0, day by day of a 400-year cycle.\<close>

definition month_of_doe :: "int \<Rightarrow> int" where
  "month_of_doe doe = ((doe_c doe * 25 + doe_q doe) * 4 + doe_a doe) * 12 + doe_m doe"

definition month_number :: "int \<times> int \<times> int \<Rightarrow> int" where
  "month_number x = (case x of (y, m, _) \<Rightarrow> 12 * y + m - 1)"

lemma lex_mono:
  fixes x y u v k :: int
  assumes "x \<le> y" "x = y \<Longrightarrow> u \<le> v" "0 \<le> v" "u < k" "0 < k"
  shows "x * k + u \<le> y * k + v"
proof (cases "x = y")
  case False
  with assms(1) have "x + 1 \<le> y" by simp
  with assms(5) have "(x + 1) * k \<le> y * k" by (intro mult_right_mono) auto
  with assms(3,4) show ?thesis by (simp add: algebra_simps)
qed (use assms in simp)

lemma lex_eq:
  fixes x y u v k :: int
  assumes "x * k + u = y * k + v" "0 \<le> u" "u < k" "0 \<le> v" "v < k"
  shows "x = y \<and> u = v"
proof -
  have "(x * k + u) div k = x" "(y * k + v) div k = y" using assms(2-) by simp_all
  with assms(1) show ?thesis by auto
qed

lemma doe_parts:
  assumes "0 \<le> doe" "doe < 146097"
  shows "0 \<le> doe_c doe" "doe_c doe \<le> 3" "0 \<le> doe_r doe" "doe_r doe < 36525" "0 \<le> doe_q doe" "doe_q doe < 25"
    "0 \<le> doe_s doe" "doe_s doe < 1461" "0 \<le> doe_a doe" "doe_a doe < 4"
    "0 \<le> doe_y doe" "doe_y doe < 366" "0 \<le> doe_m doe" "doe_m doe < 12"
proof -
  show "0 \<le> doe_c doe" "doe_c doe \<le> 3" using assms by (auto simp: doe_c_def)
  show r: "0 \<le> doe_r doe" "doe_r doe < 36525" using assms by (auto simp: doe_r_def doe_c_def min_def)
  then show "0 \<le> doe_q doe" "doe_q doe < 25" by (auto simp: doe_q_def)
  show s: "0 \<le> doe_s doe" "doe_s doe < 1461" by (auto simp: doe_s_def doe_q_def minus_mult_div_eq_mod)
  then show "0 \<le> doe_a doe" "doe_a doe < 4" by (auto simp: doe_a_def)
  from s show y: "0 \<le> doe_y doe" "doe_y doe < 366" by (auto simp: doe_y_def doe_a_def min_def)
  then show "0 \<le> doe_m doe" "doe_m doe < 12" by (auto simp: doe_m_def)
qed

lemma month_of_doe_mono:
  assumes "0 \<le> x" "x \<le> y" "y < 146097"
  shows "month_of_doe x \<le> month_of_doe y"
proof -
  have x: "0 \<le> x" "x < 146097" and y: "0 \<le> y" "y < 146097" using assms by auto
  note px = doe_parts [OF x] and py = doe_parts [OF y]
  have c: "doe_c x \<le> doe_c y" using assms(2) by (auto simp: doe_c_def min_def dest: zdiv_mono1 [of x y 36524])
  have q: "doe_q x \<le> doe_q y" if "doe_c x = doe_c y"
    using that assms(2) by (simp add: doe_q_def doe_r_def zdiv_mono1)
  have cq: "doe_c x * 25 + doe_q x \<le> doe_c y * 25 + doe_q y"
    by (rule lex_mono [OF c q]) (use px(6) py(5) in simp_all)
  have eq: "doe_c x = doe_c y \<and> doe_q x = doe_q y" if "doe_c x * 25 + doe_q x = doe_c y * 25 + doe_q y"
    using that px(5,6) py(5,6) by (rule lex_eq)
  have s: "doe_s x \<le> doe_s y" if "doe_c x * 25 + doe_q x = doe_c y * 25 + doe_q y"
    using eq [OF that] assms(2) by (simp add: doe_s_def doe_r_def)
  have a: "doe_a x \<le> doe_a y" if "doe_c x * 25 + doe_q x = doe_c y * 25 + doe_q y"
    using zdiv_mono1 [OF s [OF that], of 365] by (simp add: doe_a_def min_def)
  have cqa: "(doe_c x * 25 + doe_q x) * 4 + doe_a x \<le> (doe_c y * 25 + doe_q y) * 4 + doe_a y"
    by (rule lex_mono [OF cq a]) (use px(10) py(9) in simp_all)
  have m: "doe_m x \<le> doe_m y" if "(doe_c x * 25 + doe_q x) * 4 + doe_a x = (doe_c y * 25 + doe_q y) * 4 + doe_a y"
  proof -
    have e: "doe_c x * 25 + doe_q x = doe_c y * 25 + doe_q y" "doe_a x = doe_a y"
      using lex_eq [OF that px(9,10) py(9,10)] by auto
    then have "doe_y x \<le> doe_y y" using s by (simp add: doe_y_def)
    then show ?thesis unfolding doe_m_def by (intro zdiv_mono1) auto
  qed
  show ?thesis unfolding month_of_doe_def
    by (rule lex_mono [OF cqa m]) (use px(14) py(13) in simp_all)
qed

lemma doe_m_range: "0 \<le> doe_m (z mod 146097)" "doe_m (z mod 146097) < 12"
  by (rule doe_parts(13,14); simp)+

lemma civil_month:
  "month_number (civil_from_days n) = (n + 719468) div 146097 * 4800 + month_of_doe ((n + 719468) mod 146097) + 2"
  using doe_m_range [of "n + 719468"]
  by (auto simp: civil_from_days_def month_of_doe_def month_number_def Let_def)

lemma civil_month_range:
  assumes "civil_from_days n = (y, m, d)"
  shows "1 \<le> m" "m \<le> 12"
  using assms doe_m_range [of "n + 719468"] by (auto simp: civil_from_days_def Let_def split: if_splits)

lemma civil_month_mono:
  assumes "a \<le> b"
  shows "month_number (civil_from_days a) \<le> month_number (civil_from_days b)"
proof -
  let ?x = "a + 719468" and ?y = "b + 719468"
  have bound: "0 \<le> month_of_doe (z mod 146097) \<and> month_of_doe (z mod 146097) < 4800" for z
    using doe_parts [of "z mod 146097"] by (simp add: month_of_doe_def)
  have "?x div 146097 * 4800 + month_of_doe (?x mod 146097) \<le> ?y div 146097 * 4800 + month_of_doe (?y mod 146097)"
  proof (rule lex_mono)
    show "?x div 146097 \<le> ?y div 146097" using assms by (intro zdiv_mono1) auto
    assume "?x div 146097 = ?y div 146097"
    then have "?x mod 146097 \<le> ?y mod 146097" using assms by (simp add: minus_mult_div_eq_mod [symmetric])
    then show "month_of_doe (?x mod 146097) \<le> month_of_doe (?y mod 146097)"
      by (intro month_of_doe_mono) auto
  qed (use bound in auto)
  then show ?thesis by (simp add: civil_month)
qed

end
