(* ===== verification/Services.thy ===== *)
theory Services
  imports World Config GoTime
begin

text \<open>
  What the gateway calls but does not contain: the uuid, JWT, TOTP and Argon2 packages, AES-GCM,
  SHA-256 and zstd. They are the fields of a record every handler takes, so each theorem is about
  every such library; what a theorem needs of one is a named hypothesis, a law the library
  documents. The same record holds the configuration and says which of the optional
  collaborators (rate limiter, archive, queue) is present, as the fields of \<open>handlers.API\<close> do.
\<close>

record claims =
  cl_OrgID :: string
  cl_Role :: string
  cl_Purpose :: string
  cl_Subject :: string
  cl_IssuedAt :: time
  cl_ExpiresAt :: time

record api =
  api_Cfg :: config
  api_Limiter :: bool
  api_Blob :: bool
  api_Queue :: bool
  uuid_Parse :: "string \<Rightarrow> uuid option"
  uuid_String :: "uuid \<Rightarrow> string"
  jwt_Sign :: "string \<Rightarrow> claims \<Rightarrow> string option"
  jwt_Parse :: "string \<Rightarrow> string \<Rightarrow> time \<Rightarrow> claims option"
  argon2_IDKey :: "string \<Rightarrow> bytes \<Rightarrow> nat \<Rightarrow> nat \<Rightarrow> nat \<Rightarrow> nat \<Rightarrow> bytes option"
  totp_Generate :: "string \<Rightarrow> string \<Rightarrow> bytes \<Rightarrow> (string \<times> string) option"
  totp_ValidateCustom :: "string \<Rightarrow> string \<Rightarrow> time \<Rightarrow> bool option"
  gcm_Seal :: "bytes \<Rightarrow> bytes \<Rightarrow> bytes \<Rightarrow> bytes"
  gcm_Open :: "bytes \<Rightarrow> bytes \<Rightarrow> bytes \<Rightarrow> bytes option"
  sha256_Sum :: "bytes \<Rightarrow> bytes"
  zstd_Encode :: "string \<Rightarrow> string"

section \<open>The laws\<close>

text \<open>\<open>uuid.Parse\<close> reads what \<open>String\<close> prints.\<close>

definition uuid_ok :: "api \<Rightarrow> bool" where
  "uuid_ok a \<longleftrightarrow> (\<forall>i. uuid_Parse a (uuid_String a i) = Some i)"

text \<open>
  A token that was signed is read back with the same claims under the same key until it expires,
  and not after; times are kept to the second.
\<close>

definition whole_second :: "time \<Rightarrow> time" where
  "whole_second t = t div second * second"

definition jwt_ok :: "api \<Rightarrow> bool" where
  "jwt_ok a \<longleftrightarrow> (\<forall>k c tok now. jwt_Sign a k c = Some tok \<longrightarrow>
     jwt_Parse a k tok now =
       (if now < whole_second (cl_ExpiresAt c)
        then Some (c\<lparr>cl_IssuedAt := whole_second (cl_IssuedAt c), cl_ExpiresAt := whole_second (cl_ExpiresAt c)\<rparr>)
        else None))"

text \<open>The key derivation returns as many bytes as asked for; it refuses no rounds, no threads and an empty key.\<close>

definition argon2_ok :: "api \<Rightarrow> bool" where
  "argon2_ok a \<longleftrightarrow> (\<forall>pw salt t m p n. case argon2_IDKey a pw salt t m p n of
       None \<Rightarrow> t = 0 \<or> p = 0 \<or> n = 0
     | Some k \<Rightarrow> length k = n \<and> (\<forall>x\<in>set k. x < 256))"

text \<open>Opening what was sealed with the same key and nonce.\<close>

definition gcm_ok :: "api \<Rightarrow> bool" where
  "gcm_ok a \<longleftrightarrow> (\<forall>k n m. gcm_Open a k n (gcm_Seal a k n m) = Some m)"

end
