(* ===== verification/Password.thy ===== *)
theory Password
  imports Services
begin

text \<open>
  \<open>internal/auth/password.go\<close>: Argon2id hashes in PHC format. The key derivation is the parameter
  \<open>argon2_IDKey\<close>; splitting, scanning and encoding the string are modelled.
\<close>

datatype pw_err = ErrBadHash | ErrRandom | PwPanic

definition argonTime :: nat where "argonTime = 3"
definition argonMemory :: nat where "argonMemory = 64 * 1024"
definition argonThreads :: nat where "argonThreads = 4"
definition argonKeyLen :: nat where "argonKeyLen = 32"
definition argonSaltLen :: nat where "argonSaltLen = 16"

text \<open>\<open>argon2.Version\<close>, the constant 0x13 of the package.\<close>

definition argon2_Version :: nat where "argon2_Version = 19"

definition phc :: "bytes \<Rightarrow> bytes \<Rightarrow> string" where
  "phc salt key = ''$argon2id$v='' @ Itoa argon2_Version @ ''$m='' @ Itoa argonMemory @ '',t='' @ Itoa argonTime @
     '',p='' @ Itoa argonThreads @ ''$'' @ raw_EncodeToString base64_std salt @ ''$'' @ raw_EncodeToString base64_std key"

definition HashPassword :: "api \<Rightarrow> string \<Rightarrow> (pw_err + string) M" where
  "HashPassword a password = do {
     salt \<leftarrow> rand_Read argonSaltLen;
     case salt of
       None \<Rightarrow> ret (Inl ErrRandom)
     | Some salt \<Rightarrow>
         (case argon2_IDKey a password salt argonTime argonMemory argonThreads argonKeyLen of
            None \<Rightarrow> ret (Inl PwPanic)
          | Some key \<Rightarrow> ret (Inr (phc salt key))) }"

section \<open>fmt.Sscanf\<close>

text \<open>
  The verb \<open>%d\<close> skips spaces but not a newline, takes a sign if the target is signed, and reads
  digits; the value must fit the target. A literal of the format must match. Input left over at
  the end is not an error.
\<close>

definition skip_space :: "string \<Rightarrow> string option" where
  "skip_space s = (let t = dropWhile (\<lambda>c. is_space c \<and> code c \<noteq> 10) s
     in if t \<noteq> [] \<and> hd t = CHR 0x0A then None else Some t)"

definition scan_digits :: "string \<Rightarrow> (nat \<times> string) option" where
  "scan_digits s = (if s = [] \<or> \<not> is_digit (hd s) then None
     else map_option (\<lambda>n. (n, dropWhile is_digit s)) (digits_value 0 (takeWhile is_digit s)))"

definition scan_uint :: "nat \<Rightarrow> string \<Rightarrow> (nat \<times> string) option" where
  "scan_uint w s = (case Option.bind (skip_space s) scan_digits of
       Some (n, r) \<Rightarrow> (if n < 2 ^ w then Some (n, r) else None)
     | None \<Rightarrow> None)"

definition scan_int :: "nat \<Rightarrow> string \<Rightarrow> (int \<times> string) option" where
  "scan_int w s = (case skip_space s of
       None \<Rightarrow> None
     | Some t \<Rightarrow>
         (let neg = (t \<noteq> [] \<and> hd t = CHR ''-''); signed = (neg \<or> t \<noteq> [] \<and> hd t = CHR ''+'')
          in case scan_digits (if signed then tl t else t) of
              None \<Rightarrow> None
            | Some (n, r) \<Rightarrow> (let i = (if neg then - int n else int n)
                in if - (2 ^ (w - 1)) \<le> i \<and> i < 2 ^ (w - 1) then Some (i, r) else None)))"

definition scan_lit :: "string \<Rightarrow> string \<Rightarrow> string option" where
  "scan_lit p s = (if prefix p s then Some (drop (length p) s) else None)"

definition Sscanf_version :: "string \<Rightarrow> int option" where
  "Sscanf_version s = Option.bind (scan_lit ''v='' s) (\<lambda>s. map_option fst (scan_int 64 s))"

definition Sscanf_params :: "string \<Rightarrow> (nat \<times> nat \<times> nat) option" where
  "Sscanf_params s =
     Option.bind (scan_lit ''m='' s) (\<lambda>s. Option.bind (scan_uint 32 s) (\<lambda>(m, s).
     Option.bind (scan_lit '',t='' s) (\<lambda>s. Option.bind (scan_uint 32 s) (\<lambda>(t, s).
     Option.bind (scan_lit '',p='' s) (\<lambda>s. Option.bind (scan_uint 8 s) (\<lambda>(p, s).
       Some (m, t, p)))))))"

section \<open>VerifyPassword\<close>

definition VerifyPassword :: "api \<Rightarrow> string \<Rightarrow> string \<Rightarrow> pw_err + bool" where
  "VerifyPassword a password encoded =
     (let parts = Split encoded CHR ''$''
      in if length parts \<noteq> 6 \<or> parts ! 1 \<noteq> ''argon2id'' then Inl ErrBadHash
         else if Sscanf_version (parts ! 2) \<noteq> Some (int argon2_Version) then Inl ErrBadHash
         else case Sscanf_params (parts ! 3) of
             None \<Rightarrow> Inl ErrBadHash
           | Some (memory, time, threads) \<Rightarrow>
               (case raw_DecodeString base64_std (parts ! 4) of
                  None \<Rightarrow> Inl ErrBadHash
                | Some salt \<Rightarrow>
                    (case raw_DecodeString base64_std (parts ! 5) of
                       None \<Rightarrow> Inl ErrBadHash
                     | Some want \<Rightarrow>
                         (case argon2_IDKey a password salt time memory threads (length want) of
                            None \<Rightarrow> Inl PwPanic
                          | Some got \<Rightarrow> Inr (got = want)))))"

section \<open>Verifying what was hashed\<close>

lemma Itoa_small: "n < 10 \<Longrightarrow> Itoa n = [char_of (48 + n)]"
  by (subst Itoa.simps) simp

lemma Itoa_step: "10 \<le> n \<Longrightarrow> Itoa n = Itoa (n div 10) @ [char_of (48 + n mod 10)]"
  by (subst Itoa.simps) simp

lemma digit_chars:
  "char_of (49 :: nat) = CHR ''1''" "char_of (51 :: nat) = CHR ''3''" "char_of (52 :: nat) = CHR ''4''"
  "char_of (53 :: nat) = CHR ''5''" "char_of (54 :: nat) = CHR ''6''" "char_of (57 :: nat) = CHR ''9''"
  by code_simp+

lemma Itoa_params:
  "Itoa argon2_Version = ''19''" "Itoa argonMemory = ''65536''" "Itoa argonTime = ''3''" "Itoa argonThreads = ''4''"
  by (simp_all add: argon2_Version_def argonMemory_def argonTime_def argonThreads_def Itoa_small Itoa_step digit_chars)

lemma Sscanf_version_19: "Sscanf_version ''v=19'' = Some (int argon2_Version)"
  by (simp add: Sscanf_version_def scan_lit_def scan_int_def skip_space_def scan_digits_def is_space_def is_digit_def
      code_def argon2_Version_def)

lemma Sscanf_params_phc: "Sscanf_params ''m=65536,t=3,p=4'' = Some (argonMemory, argonTime, argonThreads)"
  by (simp add: Sscanf_params_def scan_lit_def scan_uint_def skip_space_def scan_digits_def is_space_def is_digit_def
      code_def argonMemory_def argonTime_def argonThreads_def)

lemma Split_phc:
  assumes "is_bytes salt" and "is_bytes key"
  shows "Split (phc salt key) CHR ''$'' =
    [[], ''argon2id'', ''v=19'', ''m=65536,t=3,p=4'', raw_EncodeToString base64_std salt, raw_EncodeToString base64_std key]"
    (is "_ = ?parts")
proof -
  have "CHR ''$'' \<notin> set base64_std" by (simp add: base64_std_def)
  then have "\<forall>w\<in>set ?parts. CHR ''$'' \<notin> set w"
    using set_raw_Encode [OF assms(1), of base64_std] set_raw_Encode [OF assms(2), of base64_std] by auto
  moreover have "phc salt key = Join ?parts ''$''" by (simp add: phc_def Itoa_params)
  ultimately show ?thesis by (simp only: Split_Join list.distinct not_False_eq_True)
qed

lemma Verify_phc:
  assumes "is_bytes salt" and "is_bytes key"
  shows "VerifyPassword a pw (phc salt key) =
    (case argon2_IDKey a pw salt argonTime argonMemory argonThreads (length key) of
       None \<Rightarrow> Inl PwPanic | Some got \<Rightarrow> Inr (got = key))"
  using assms
  by (simp add: VerifyPassword_def Split_phc Sscanf_version_19 Sscanf_params_phc raw_std_roundtrip Let_def)

lemma argon2_key:
  assumes "argon2_ok a"
  shows "\<exists>key. argon2_IDKey a pw salt argonTime argonMemory argonThreads argonKeyLen = Some key \<and>
    is_bytes key \<and> length key = argonKeyLen"
proof -
  have "case argon2_IDKey a pw salt argonTime argonMemory argonThreads argonKeyLen of
       None \<Rightarrow> argonTime = 0 \<or> argonThreads = 0 \<or> argonKeyLen = 0
     | Some k \<Rightarrow> length k = argonKeyLen \<and> (\<forall>x\<in>set k. x < 256)"
    using assms unfolding argon2_ok_def by blast
  then show ?thesis
    by (cases "argon2_IDKey a pw salt argonTime argonMemory argonThreads argonKeyLen")
      (simp_all add: argonTime_def argonThreads_def argonKeyLen_def)
qed

lemma HashPassword_wp:
  assumes "argon2_ok a"
  shows "wp (HashPassword a pw) (\<lambda>r w'. w_db w' = w_db w \<and> w_redis w' = w_redis w \<and> r \<noteq> Inl PwPanic \<and>
    (\<forall>h. r = Inr h \<longrightarrow> (\<exists>salt key. h = phc salt key \<and> is_bytes salt \<and> length salt = argonSaltLen \<and> is_bytes key \<and>
       argon2_IDKey a pw salt argonTime argonMemory argonThreads argonKeyLen = Some key \<and> length key = argonKeyLen))) w"
proof -
  have key: "\<exists>key. argon2_IDKey a pw salt argonTime argonMemory argonThreads argonKeyLen = Some key \<and>
      is_bytes key \<and> length key = argonKeyLen" for salt
    using assms by (rule argon2_key)
  define salt where "salt = map (\<lambda>i. w_random w (w_rpos w + i) mod 256) [0..<argonSaltLen]"
  have salt: "is_bytes salt" "length salt = argonSaltLen" by (auto simp: salt_def)
  obtain k where k: "argon2_IDKey a pw salt argonTime argonMemory argonThreads argonKeyLen = Some k"
      "is_bytes k" "length k = argonKeyLen"
    using key by blast
  show ?thesis
  proof (cases "outcome_of w = Done")
    case True
    with salt k show ?thesis
      by (auto simp: HashPassword_def wp_rules salt_def [symmetric])
  qed (simp add: HashPassword_def wp_rules)
qed

lemma vc_HashPassword_frame:
  assumes "\<And>e w'. w_db w' = w_db w \<Longrightarrow> w_now w \<le> w_now w' \<Longrightarrow> Q (Inl e) w'" and "\<And>h w'. w_db w' = w_db w \<Longrightarrow> w_now w \<le> w_now w' \<Longrightarrow> Q (Inr h) w'"
  shows "wp (HashPassword a pw) Q w"
  unfolding HashPassword_def by (intro vc_rules) (simp_all add: assms)

lemma HashPassword_verifies:
  "argon2_ok a \<Longrightarrow> wp (HashPassword a pw) (\<lambda>r w'. w_db w' = w_db w \<and> (\<forall>h. r = Inr h \<longrightarrow> VerifyPassword a pw h = Inr True)) w"
  by (rule wp_mono [OF HashPassword_wp]) (auto simp: Verify_phc)

text \<open>
  Hashing never fails but for the random source, and what it returns verifies against
  the same password and against no password that derives another key; the string is split,
  scanned and decoded again in full.
\<close>

theorem Hash_verifies:
  assumes "argon2_ok a" and "result (HashPassword a pw) w = Inr h"
  shows "VerifyPassword a pw h = Inr True \<and>
    (\<exists>salt. length salt = argonSaltLen \<and> (\<forall>pw'. VerifyPassword a pw' h =
       Inr (argon2_IDKey a pw' salt argonTime argonMemory argonThreads argonKeyLen =
            argon2_IDKey a pw salt argonTime argonMemory argonThreads argonKeyLen)))"
proof -
  from HashPassword_wp [OF assms(1), of pw w] assms(2) obtain salt key
    where h: "h = phc salt key" "is_bytes salt" "is_bytes key" "length salt = argonSaltLen"
      and key: "argon2_IDKey a pw salt argonTime argonMemory argonThreads argonKeyLen = Some key" "length key = argonKeyLen"
    unfolding wp_iff by auto
  have "VerifyPassword a pw' h =
      Inr (argon2_IDKey a pw' salt argonTime argonMemory argonThreads argonKeyLen = Some key)" for pw'
  proof -
    obtain k where "argon2_IDKey a pw' salt argonTime argonMemory argonThreads argonKeyLen = Some k"
      using argon2_key [OF assms(1)] by blast
    with h key(2) show ?thesis by (simp add: Verify_phc)
  qed
  with h(4) key(1) show ?thesis by (intro conjI exI [of _ salt]) simp_all
qed

end
