(* ===== verification/Samples.thy ===== *)
theory Samples
  imports Password
begin

text \<open>
  A small world the witnesses evaluate on: two organizations; in the first an owner, an
  administrator and two members, one of whom uploaded a file the other holds a dashboard grant
  for; in the second an owner with a file of their own.
\<close>

definition org_acme :: organization_row where
  "org_acme = \<lparr>o_ID = 1, o_Name = ''Acme'', o_Slug = ''acme'', o_CreatedAt = 0, o_require_mfa = False\<rparr>"

definition org_rival :: organization_row where
  "org_rival = \<lparr>o_ID = 2, o_Name = ''Rival'', o_Slug = ''rival'', o_CreatedAt = 0, o_require_mfa = False\<rparr>"

definition sample_user :: "uuid \<Rightarrow> uuid \<Rightarrow> string \<Rightarrow> role \<Rightarrow> user_row" where
  "sample_user i org email role = \<lparr>u_ID = i, u_OrgID = org, u_Email = email, u_PasswordHash = ''hash'',
     u_Role = role, u_CreatedAt = 0, u_totp_secret = None, u_totp_enabled = False,
     u_totp_confirmed_at = None\<rparr>"

definition ann :: user_row where "ann = sample_user 11 1 ''ann@acme'' RoleOwner"
definition bob :: user_row where "bob = sample_user 12 1 ''bob@acme'' RoleAdmin"
definition cyd :: user_row where "cyd = sample_user 13 1 ''cyd@acme'' RoleMember"
definition eve :: user_row where "eve = sample_user 14 1 ''eve@acme'' RoleMember"
definition dan :: user_row where "dan = sample_user 21 2 ''dan@rival'' RoleOwner"

definition sample_upload :: "uuid \<Rightarrow> uuid \<Rightarrow> uuid \<Rightarrow> upload" where
  "sample_upload i org owner = \<lparr>up_ID = i, up_OrgID = org, up_UserID = owner, up_Filename = ''a.log'',
     up_ByteSize = 10, up_LineCount = 2, up_ParsedCount = 1, up_Format = ''zscaler_nss'',
     up_ObjectKey = ''key'', up_CreatedAt = 5\<rparr>"

definition cyds_log :: upload where "cyds_log = sample_upload 31 1 13"
definition dans_log :: upload where "dans_log = sample_upload 32 2 21"

definition eves_grant :: access_grant where
  "eves_grant = \<lparr>g_ID = 41, g_OrgID = 1, g_UploadID = Some 31, g_SubjectUserID = 14,
     g_Level = ''dashboard'', g_GrantedBy = 13, g_ExpiresAt = None, g_CreatedAt = 6\<rparr>"

definition sample_db :: db where
  "sample_db = empty_db\<lparr>organizations := [org_acme, org_rival], users := [ann, bob, cyd, eve, dan],
     uploads := [cyds_log, dans_log], access_grants := [eves_grant], next_id := 100\<rparr>"

definition sample_world :: world where
  "sample_world = \<lparr>w_db = sample_db, w_redis = (\<lambda>_. None), w_blob = (\<lambda>_. None), w_now = 1000 * second,
     w_ticks = [], w_random = (\<lambda>i. i), w_rpos = 0, w_log = []\<rparr>"

lemmas sample_people = ann_def bob_def cyd_def eve_def dan_def sample_user_def
lemmas sample_files = cyds_log_def dans_log_def sample_upload_def eves_grant_def
lemmas sample_defs = sample_world_def sample_db_def empty_db_def org_acme_def org_rival_def
  sample_people sample_files

lemma sample_world_simps [simp]:
  "w_db sample_world = sample_db" "w_now sample_world = 1000 * second"
  by (simp_all add: sample_world_def)

lemma sample_redis: "w_redis sample_world = (\<lambda>_. None)"
  by (simp add: sample_world_def)

lemma sample_people_simps [simp]:
  "u_ID ann = 11" "u_ID bob = 12" "u_ID cyd = 13" "u_ID eve = 14" "u_ID dan = 21"
  "u_OrgID ann = 1" "u_OrgID bob = 1" "u_OrgID cyd = 1" "u_OrgID eve = 1" "u_OrgID dan = 2"
  "u_Role ann = RoleOwner" "u_Role bob = RoleAdmin" "u_Role cyd = RoleMember"
  "u_Role eve = RoleMember" "u_Role dan = RoleOwner"
  by (simp_all add: sample_people)

lemma sample_files_simps [simp]:
  "up_ID cyds_log = 31" "up_OrgID cyds_log = 1" "up_UserID cyds_log = 13"
  "up_ID dans_log = 32" "up_OrgID dans_log = 2" "up_UserID dans_log = 21"
  by (simp_all add: cyds_log_def dans_log_def sample_upload_def)

lemma sample_tables [simp]:
  "organizations sample_db = [org_acme, org_rival]" "users sample_db = [ann, bob, cyd, eve, dan]"
  "uploads sample_db = [cyds_log, dans_log]" "access_grants sample_db = [eves_grant]"
  "audit_log sample_db = []" "next_id sample_db = 100"
  by (simp_all add: sample_db_def empty_db_def)

lemma sample_quiet [simp]: "quiet sample_world"
  by (simp add: quiet_def sample_world_def)

section \<open>A concrete library\<close>

text \<open>
  Functions that keep the laws of \<open>Services\<close> and compute, so that a property with such a law as a
  hypothesis can be applied: a uuid is printed in decimal, a token lists its claims in the
  clear, a key is the password itself, sealing changes nothing.
\<close>

fun esc :: "string \<Rightarrow> string" where
  "esc [] = ''e''"
| "esc (c # s) = CHR ''s'' # c # esc s"

fun unesc :: "string \<Rightarrow> (string \<times> string) option" where
  "unesc (d # r) =
     (if d = CHR ''s'' then (case r of [] \<Rightarrow> None | c # s \<Rightarrow> map_option (\<lambda>(x, y). (c # x, y)) (unesc s))
      else if d = CHR ''e'' then Some ([], r) else None)"
| "unesc [] = None"

lemma unesc_esc [simp]: "unesc (esc s @ r) = Some (s, r)"
  by (induction s) simp_all

definition esc_int :: "int \<Rightarrow> string" where
  "esc_int n = esc (if n < 0 then ''-'' else ''+'') @ esc (Itoa (nat \<bar>n\<bar>))"

definition unesc_int :: "string \<Rightarrow> (int \<times> string) option" where
  "unesc_int s = (case unesc s of None \<Rightarrow> None | Some (sign, r) \<Rightarrow>
     (case unesc r of None \<Rightarrow> None | Some (ds, r) \<Rightarrow>
        map_option (\<lambda>n. (if sign = ''-'' then - int n else int n, r)) (digits_value 0 ds)))"

lemma unesc_int [simp]: "unesc_int (esc_int n @ r) = Some (n, r)"
  by (simp add: unesc_int_def esc_int_def digits_value_Itoa)

definition sample_sign :: "string \<Rightarrow> claims \<Rightarrow> string option" where
  "sample_sign k c = Some (esc k @ esc (cl_OrgID c) @ esc (cl_Role c) @ esc (cl_Purpose c) @ esc (cl_Subject c) @
     esc_int (cl_IssuedAt c) @ esc_int (cl_ExpiresAt c))"

definition sample_parse :: "string \<Rightarrow> string \<Rightarrow> time \<Rightarrow> claims option" where
  "sample_parse k tok now =
     Option.bind (unesc tok) (\<lambda>(k', s). Option.bind (unesc s) (\<lambda>(org, s). Option.bind (unesc s) (\<lambda>(role, s).
     Option.bind (unesc s) (\<lambda>(pur, s). Option.bind (unesc s) (\<lambda>(sub, s).
     Option.bind (unesc_int s) (\<lambda>(iat, s). Option.bind (unesc_int (s @ [])) (\<lambda>(exp, s).
       if k' = k \<and> now < whole_second exp
       then Some \<lparr>cl_OrgID = org, cl_Role = role, cl_Purpose = pur, cl_Subject = sub,
                 cl_IssuedAt = whole_second iat, cl_ExpiresAt = whole_second exp\<rparr>
       else None)))))))"

definition sample_IDKey :: "string \<Rightarrow> bytes \<Rightarrow> nat \<Rightarrow> nat \<Rightarrow> nat \<Rightarrow> nat \<Rightarrow> bytes option" where
  "sample_IDKey pw salt t m p n =
     (if t = 0 \<or> p = 0 \<or> n = 0 then None else Some (take n (bytes_of pw @ replicate n 0)))"

definition sample_api :: api where
  "sample_api = \<lparr>api_Cfg = sample_config, api_Limiter = True, api_Blob = True, api_Queue = True,
     uuid_Parse = (\<lambda>s. if s = [] then None else digits_value 0 s), uuid_String = Itoa,
     jwt_Sign = sample_sign, jwt_Parse = sample_parse, argon2_IDKey = sample_IDKey,
     totp_Generate = (\<lambda>issuer email rnd. Some (''SECRET'', ''otpauth://totp/'' @ issuer @ '':'' @ email)),
     totp_ValidateCustom = (\<lambda>passcode secret now. Some (passcode = ''123456'')),
     gcm_Seal = (\<lambda>k n m. m), gcm_Open = (\<lambda>k n c. Some c),
     sha256_Sum = (\<lambda>b. take 32 (b @ replicate 32 0)),
     zstd_Encode = (\<lambda>s. s)\<rparr>"

lemma sample_uuid_ok [simp]: "uuid_ok sample_api"
  by (simp add: uuid_ok_def sample_api_def digits_value_Itoa)

lemma sample_jwt_ok [simp]: "jwt_ok sample_api"
  unfolding jwt_ok_def sample_api_def api.simps sample_sign_def sample_parse_def
  by (auto simp: unesc_int [of _ "[]", simplified])

lemma sample_argon2_ok [simp]: "argon2_ok sample_api"
proof -
  have "length (take n (bytes_of pw @ replicate n 0)) = n \<and> (\<forall>x\<in>set (take n (bytes_of pw @ replicate n 0)). x < 256)" for n pw
    by (auto simp: bytes_of_def code_def dest!: in_set_takeD)
  then show ?thesis by (simp add: argon2_ok_def sample_api_def sample_IDKey_def)
qed

lemma sample_gcm_ok [simp]: "gcm_ok sample_api"
  by (simp add: gcm_ok_def sample_api_def)

lemma sample_api_simps [simp]:
  "api_Cfg sample_api = sample_config" "api_Limiter sample_api" "api_Blob sample_api" "api_Queue sample_api"
  "uuid_String sample_api = Itoa"
  by (simp_all add: sample_api_def)

theorem Hash_verifies_witness:
  "\<exists>h. result (HashPassword sample_api ''correct horse'') sample_world = Inr h \<and>
     VerifyPassword sample_api ''correct horse'' h = Inr True"
proof -
  obtain h where h: "result (HashPassword sample_api ''correct horse'') sample_world = Inr h"
    by (auto simp: result_def HashPassword_def rand_Read_def Let_def sample_api_def sample_IDKey_def
        argonTime_def argonThreads_def argonKeyLen_def)
  from Hash_verifies [OF sample_argon2_ok this] h show ?thesis by blast
qed

end
