(* ===== verification/Authz.thy ===== *)
theory Authz
  imports Store_Users Store_Uploads Samples
begin

text \<open>
  \<open>internal/authz/authz.go\<close>: what a caller may see of an upload. \<open>Resolve\<close> computes the tier,
  \<open>Require\<close> enforces a minimum and lets an administrator break the glass, at the price of an
  audit record.
\<close>

section \<open>The tiers\<close>

datatype level = LevelNone | LevelSummary | LevelDashboard | LevelFull

definition level_int :: "level \<Rightarrow> int" where
  "level_int l = (case l of LevelNone \<Rightarrow> 0 | LevelSummary \<Rightarrow> 1 | LevelDashboard \<Rightarrow> 2 | LevelFull \<Rightarrow> 3)"

lemma level_int_inj [simp]: "level_int a = level_int b \<longleftrightarrow> a = b"
  by (cases a; cases b) (simp_all add: level_int_def)

instantiation level :: linorder
begin

definition less_eq_level :: "level \<Rightarrow> level \<Rightarrow> bool" where
  "less_eq_level a b \<longleftrightarrow> level_int a \<le> level_int b"

definition less_level :: "level \<Rightarrow> level \<Rightarrow> bool" where
  "less_level a b \<longleftrightarrow> level_int a < level_int b"

instance
  by standard (auto simp: less_eq_level_def less_level_def)

end

lemma level_le_simps [simp]:
  "LevelNone \<le> l" "l \<le> LevelFull" "LevelSummary \<le> LevelDashboard"
  "\<not> LevelFull \<le> LevelDashboard" "\<not> LevelDashboard \<le> LevelSummary" "\<not> LevelFull \<le> LevelSummary"
  "\<not> LevelSummary \<le> LevelNone" "\<not> LevelDashboard \<le> LevelNone" "\<not> LevelFull \<le> LevelNone"
  by (cases l; simp add: less_eq_level_def level_int_def)+

lemma level_less_simps [simp]:
  "l < LevelDashboard \<longleftrightarrow> l = LevelNone \<or> l = LevelSummary" "LevelNone < l \<longleftrightarrow> l \<noteq> LevelNone"
  "l < LevelFull \<longleftrightarrow> l \<noteq> LevelFull"
  by (cases l; simp add: less_level_def level_int_def)+

definition ParseLevel :: "string \<Rightarrow> level option" where
  "ParseLevel s =
     (if s = ''summary'' then Some LevelSummary
      else if s = ''dashboard'' then Some LevelDashboard
      else if s = ''full'' then Some LevelFull else None)"

definition level_String :: "level \<Rightarrow> string" where
  "level_String l = (case l of LevelSummary \<Rightarrow> ''summary'' | LevelDashboard \<Rightarrow> ''dashboard''
     | LevelFull \<Rightarrow> ''full'' | LevelNone \<Rightarrow> ''none'')"

lemma ParseLevel_String [simp]: "ParseLevel (level_String l) = (if l = LevelNone then None else Some l)"
  by (cases l) (simp_all add: ParseLevel_def level_String_def)

lemma ParseLevel_Some: "ParseLevel s = Some l \<Longrightarrow> level_String l = s \<and> l \<noteq> LevelNone"
  by (auto simp: ParseLevel_def level_String_def split: if_splits)

lemma ParseLevel_valid: "valid_level s \<longleftrightarrow> ParseLevel s \<noteq> None"
  by (auto simp: ParseLevel_def valid_level_iff)

lemma valid_level_String: "valid_level (level_String l) \<longleftrightarrow> l \<noteq> LevelNone"
  by (simp add: ParseLevel_valid)

text \<open>SQL's order of the enum is the order of the tiers.\<close>

lemma ParseLevel_mono:
  assumes "ParseLevel a = Some l" and "ParseLevel b = Some m"
  shows "level_order a \<le> level_order b \<longleftrightarrow> l \<le> m"
  using assms
  by (auto simp: ParseLevel_def level_order_def access_level_rank_def less_eq_level_def level_int_def
      split: if_splits)

section \<open>Resolve and Require\<close>

datatype authz_err = AuthzNotFound | AuthzForbidden | AuthzStore store_err

definition raise_admin :: "user \<Rightarrow> level \<Rightarrow> level" where
  "raise_admin caller best =
     (if IsAdmin (u_Role caller) \<and> best < LevelDashboard then LevelDashboard else best)"

definition Resolve :: "user \<Rightarrow> uuid \<Rightarrow> (authz_err + (level \<times> upload)) M" where
  "Resolve caller uploadID =
     attempt (UploadByID uploadID) (\<lambda>_. ret (Inl AuthzNotFound)) (\<lambda>up.
       if up_OrgID up \<noteq> u_OrgID caller then ret (Inl AuthzNotFound)
       else if up_UserID up = u_ID caller then ret (Inr (LevelFull, up))
       else attempt (BestGrantFor (u_ID caller) (u_OrgID caller) uploadID)
         (\<lambda>e. ret (Inl (AuthzStore e))) (\<lambda>lvl.
           let best = (case Option.bind lvl ParseLevel of None \<Rightarrow> LevelNone | Some parsed \<Rightarrow> parsed);
               best = raise_admin caller best
           in if best = LevelNone then ret (Inl AuthzNotFound) else ret (Inr (best, up))))"

definition breakglass_detail :: "(uuid \<Rightarrow> string) \<Rightarrow> level \<Rightarrow> level \<Rightarrow> user \<Rightarrow> upload \<Rightarrow> (string \<times> json) list" where
  "breakglass_detail uuid_str lvl need caller up =
     [(''granted_level'', JStr (level_String lvl)), (''required_level'', JStr (level_String need)),
      (''role'', JStr (u_Role caller)), (''upload_owner'', JStr (uuid_str (up_UserID up)))]"

definition Require :: "(uuid \<Rightarrow> string) \<Rightarrow> user \<Rightarrow> uuid \<Rightarrow> level \<Rightarrow> (authz_err + (level \<times> upload)) M" where
  "Require uuid_str caller uploadID need =
     attempt (Resolve caller uploadID) (\<lambda>e. ret (Inl e)) (\<lambda>(lvl, up).
       if need \<le> lvl then ret (Inr (lvl, up))
       else if \<not> IsAdmin (u_Role caller) then ret (Inl AuthzForbidden)
       else attempt (Audit (u_OrgID caller) (Some (u_ID caller)) ''breakglass.raw_access'' ''upload''
                (Some uploadID) (breakglass_detail uuid_str lvl need caller up))
         (\<lambda>_. do { log_event LogError ''authz.audit_failed''; ret (Inl AuthzForbidden) })
         (\<lambda>_. do { log_event Warn ''authz.breakglass''; ret (Inr (need, up)) }))"

section \<open>The specification\<close>

text \<open>
  What the documentation of the package promises, as a function of the tables and the clock:
  nothing across organizations, everything to the uploader, otherwise the highest live grant,
  with dashboard as the floor of an administrator.
\<close>

definition grant_tiers :: "user \<Rightarrow> uuid \<Rightarrow> db \<Rightarrow> time \<Rightarrow> level set" where
  "grant_tiers caller i d t =
     {l. \<exists>g\<in>set (live_grants (u_ID caller) (u_OrgID caller) i d t). ParseLevel (g_Level g) = Some l}"

definition tier :: "user \<Rightarrow> upload \<Rightarrow> db \<Rightarrow> time \<Rightarrow> level" where
  "tier caller up d t =
     (if up_OrgID up \<noteq> u_OrgID caller then LevelNone
      else if up_UserID up = u_ID caller then LevelFull
      else Max (insert (if IsAdmin (u_Role caller) then LevelDashboard else LevelNone)
             (grant_tiers caller (up_ID up) d t)))"

text \<open>Grants hold valid levels only: the column's type, kept by every operation.\<close>

definition levels_valid :: "db \<Rightarrow> bool" where
  "levels_valid d \<longleftrightarrow> (\<forall>g\<in>set (access_grants d). valid_level (g_Level g))"

lemma finite_grant_tiers: "finite (grant_tiers caller i d t)"
proof -
  have "grant_tiers caller i d t \<subseteq> {LevelNone, LevelSummary, LevelDashboard, LevelFull}"
    by (auto intro: level.exhaust)
  then show ?thesis by (rule finite_subset) simp
qed

text \<open>The tier \<open>Resolve\<close> computes from the best grant.\<close>

definition resolved :: "user \<Rightarrow> upload \<Rightarrow> db \<Rightarrow> time \<Rightarrow> level" where
  "resolved caller up d t =
     raise_admin caller
       (case q_BestGrantFor (u_ID caller) (u_OrgID caller) (up_ID up) d t of
          Inr lvl \<Rightarrow> (case Option.bind lvl ParseLevel of None \<Rightarrow> LevelNone | Some l \<Rightarrow> l)
        | Inl _ \<Rightarrow> LevelNone)"

lemma Max_tier:
  assumes "levels_valid d"
  shows "Max (insert (if IsAdmin (u_Role caller) then LevelDashboard else LevelNone)
           (grant_tiers caller (up_ID up) d t)) = resolved caller up d t"
    (is "Max (insert ?floor ?tiers) = _")
proof (cases rule: q_BestGrantFor_cases [of "u_ID caller" "u_OrgID caller" "up_ID up" d t])
  case none
  then have "?tiers = {}" by (simp add: grant_tiers_def)
  with none(1) show ?thesis by (simp add: resolved_def raise_admin_def)
next
  case (some g)
  define live where "live = set (live_grants (u_ID caller) (u_OrgID caller) (up_ID up) d t)"
  have valid: "\<forall>h\<in>live. valid_level (g_Level h)"
    using assms by (auto simp: live_def set_live_grants levels_valid_def)
  with some(2) obtain l where l: "ParseLevel (g_Level g) = Some l"
    by (auto simp: live_def ParseLevel_valid)
  have top: "m \<le> l" if "m \<in> ?tiers" for m
  proof -
    from that obtain h where "h \<in> live" and "ParseLevel (g_Level h) = Some m"
      by (auto simp: grant_tiers_def live_def)
    with some(3) l show ?thesis by (auto simp: live_def dest: ParseLevel_mono)
  qed
  have "l \<in> ?tiers" using some(2) l by (auto simp: grant_tiers_def)
  then have "Max ?tiers = l" and "?tiers \<noteq> {}"
    using top by (auto intro!: Max_eqI simp: finite_grant_tiers)
  then have "Max (insert ?floor ?tiers) = max ?floor l"
    by (simp add: finite_grant_tiers Max_insert)
  also have "\<dots> = resolved caller up d t"
    using some(1) l by (cases l) (auto simp: resolved_def raise_admin_def max_def)
  finally show ?thesis .
qed

lemma tier_resolved:
  assumes "levels_valid d"
  shows "tier caller up d t =
    (if up_OrgID up \<noteq> u_OrgID caller then LevelNone
     else if up_UserID up = u_ID caller then LevelFull else resolved caller up d t)"
  using Max_tier [OF assms] by (simp add: tier_def)

lemma tier_pos_iff_visible:
  assumes "levels_valid d"
  shows "tier caller up d t \<noteq> LevelNone \<longleftrightarrow> visible caller d t up"
proof (cases rule: q_BestGrantFor_cases [of "u_ID caller" "u_OrgID caller" "up_ID up" d t])
  case none
  then show ?thesis
    using assms by (auto simp: tier_resolved visible_iff resolved_def raise_admin_def)
next
  case (some g)
  then have "valid_level (g_Level g)" using assms by (auto simp: set_live_grants levels_valid_def)
  then obtain l where "ParseLevel (g_Level g) = Some l" and "l \<noteq> LevelNone"
    by (auto simp: ParseLevel_valid dest: ParseLevel_Some)
  with some(1,2) show ?thesis
    using assms by (auto simp: tier_resolved visible_iff resolved_def raise_admin_def)
qed

lemma sample_levels_valid: "levels_valid sample_db"
  by (simp add: levels_valid_def valid_level_iff sample_defs)

lemma sample_uploads:
  "q_UploadByID 31 sample_db t = Inr cyds_log" "q_UploadByID 32 sample_db t = Inr dans_log"
  by (simp_all add: q_UploadByID_def scanUpload_def select_def sample_defs)

section \<open>Resolve\<close>

lemma q_BestGrantFor_resolved:
  assumes "q_BestGrantFor (u_ID c) (u_OrgID c) (up_ID up) d t = Inr lvl"
  shows "raise_admin c (case Option.bind lvl ParseLevel of None \<Rightarrow> LevelNone | Some l \<Rightarrow> l) = resolved c up d t"
  using assms by (simp add: resolved_def)

lemma Resolve_wp:
  "wp (Resolve c i) (\<lambda>r w'. w_db w' = w_db w \<and>
     (case r of Inl _ \<Rightarrow> True | Inr (l, up) \<Rightarrow>
        q_UploadByID i (w_db w) (w_now (elapse w)) = Inr up \<and> l \<noteq> LevelNone \<and>
        up_OrgID up = u_OrgID c \<and>
        (\<exists>t\<ge>w_now w. l = (if up_UserID up = u_ID c then LevelFull else resolved c up (w_db w) t)))) w"
proof (cases "q_UploadByID i (w_db w) (w_now (elapse w))")
  case (Inr up)
  then have "i = up_ID up" by (auto dest: q_UploadByID_Inr)
  moreover have "w_now w \<le> w_now (elapse (elapse w))" using elapse_now order_trans by blast
  ultimately show ?thesis using Inr
    by (auto simp: Resolve_def wp_rules Let_def q_BestGrantFor_def resolved_def)
qed (auto simp: Resolve_def wp_rules)

lemma Resolve_quiet:
  assumes "quiet w" and "levels_valid (w_db w)"
  shows "run_state (Resolve c i) w =
    ((case q_UploadByID i (w_db w) (w_now w) of
        Inl _ \<Rightarrow> Inl AuthzNotFound
      | Inr up \<Rightarrow> (let l = tier c up (w_db w) (w_now w)
                  in if l = LevelNone then Inl AuthzNotFound else Inr (l, up))), w)"
proof (cases "q_UploadByID i (w_db w) (w_now w)")
  case (Inr up)
  then have "i = up_ID up" by (auto dest: q_UploadByID_Inr)
  moreover obtain lvl where "q_BestGrantFor (u_ID c) (u_OrgID c) (up_ID up) (w_db w) (w_now w) = Inr lvl"
    by (simp add: q_BestGrantFor_def)
  ultimately show ?thesis
    using assms Inr
    by (simp add: Resolve_def attempt_def UploadByID_def BestGrantFor_def db_query_def Let_def
        tier_resolved q_BestGrantFor_resolved)
qed (use assms in \<open>simp add: Resolve_def attempt_def UploadByID_def db_query_def Let_def\<close>)

text \<open>
  Claim C39: when no call fails, \<open>Resolve\<close> returns the tier the documentation promises
  (uploader: full; otherwise the highest live grant, with dashboard as an administrator's
  floor), answers not-found when that tier is none, the upload is another organization's or it
  does not exist, and writes nothing.
\<close>

theorem Resolve_is_tier:
  assumes "quiet w" and "levels_valid (w_db w)"
  shows "run_state (Resolve c i) w =
    ((case q_UploadByID i (w_db w) (w_now w) of
        Inl _ \<Rightarrow> Inl AuthzNotFound
      | Inr up \<Rightarrow> (let l = tier c up (w_db w) (w_now w)
                  in if l = LevelNone then Inl AuthzNotFound else Inr (l, up))), w)"
  using assms by (rule Resolve_quiet)

lemma sample_live_grants:
  "live_grants s o' i sample_db t = (if s = 14 \<and> o' = 1 \<and> i = 31 then [eves_grant] else [])"
  by (auto simp: live_grants_def select_def grant_covers_def grant_live_def eves_grant_def)

lemma sample_tiers:
  "tier (user.truncate eve) cyds_log sample_db t = LevelDashboard"
  "tier (user.truncate ann) cyds_log sample_db t = LevelDashboard"
  "tier (user.truncate cyd) cyds_log sample_db t = LevelFull"
  "tier (user.truncate dan) cyds_log sample_db t = LevelNone"
  by (simp_all add: tier_resolved [OF sample_levels_valid] resolved_def q_BestGrantFor_def
      sample_live_grants order_desc_def raise_admin_def ParseLevel_def eves_grant_def)

theorem Resolve_is_tier_witness:
  "result (Resolve (user.truncate eve) 31) sample_world = Inr (LevelDashboard, cyds_log)"
  using Resolve_is_tier [of sample_world "user.truncate eve" 31]
  by (simp add: result_def sample_levels_valid sample_uploads sample_tiers)

section \<open>Require\<close>

definition breakglass_row :: "user \<Rightarrow> uuid \<Rightarrow> level \<Rightarrow> audit_row \<Rightarrow> bool" where
  "breakglass_row c i need row \<longleftrightarrow>
     al_OrgID row = u_OrgID c \<and> al_ActorUserID row = Some (u_ID c) \<and>
     al_Action row = ''breakglass.raw_access'' \<and> al_ResourceID row = Some i \<and>
     (''required_level'', JStr (level_String need)) \<in> set (al_Detail row)"

text \<open>What an access that was granted comes with.\<close>

definition access :: "user \<Rightarrow> uuid \<Rightarrow> level \<Rightarrow> db \<Rightarrow> time \<Rightarrow> level \<Rightarrow> upload \<Rightarrow> db \<Rightarrow> bool" where
  "access c i need d now l up d' \<longleftrightarrow>
     up \<in> set (uploads d) \<and> up_ID up = i \<and> up_OrgID up = u_OrgID c \<and> need \<le> l \<and>
     (\<exists>t\<ge>now. tier c up d t \<noteq> LevelNone \<and>
       (l = tier c up d t \<and> d' = d \<or>
        tier c up d t < need \<and> l = need \<and> IsAdmin (u_Role c) \<and>
        (\<exists>row. audit_log d' = audit_log d @ [row] \<and> breakglass_row c i need row)))"

lemma Require_wp:
  assumes "levels_valid (w_db w)"
  shows "wp (Require us c i need) (\<lambda>r w'. audited (w_db w) (w_db w') \<and> w_now w \<le> w_now w' \<and>
    (case r of Inl _ \<Rightarrow> True | Inr (l, up) \<Rightarrow> access c i need (w_db w) (w_now w) l up (w_db w'))) w"
proof -
  have now: "w_now w \<le> w_now (final (Resolve c i) w)"
    using elapse_now [of w] elapse_now [of "elapse w"]
    by (simp add: final_def Resolve_def attempt_def UploadByID_def BestGrantFor_def db_query_def Let_def split: sum.splits)
  have "wp (Resolve c i) (\<lambda>r w'. w_db w' = w_db w \<and> w_now w \<le> w_now w' \<and>
     (case r of Inl _ \<Rightarrow> True | Inr (l, up) \<Rightarrow> q_UploadByID i (w_db w) (w_now (elapse w)) = Inr up \<and> l \<noteq> LevelNone \<and>
        up_OrgID up = u_OrgID c \<and> (\<exists>t\<ge>w_now w. l = (if up_UserID up = u_ID c then LevelFull else resolved c up (w_db w) t)))) w"
    using Resolve_wp [of c i w] now by (simp add: wp_iff)
  then show ?thesis
    unfolding Require_def wp_attempt
    by (rule wp_mono)
      (use assms(1) elapse_now order_trans in \<open>auto simp: wp_rules s_Audit_def breakglass_row_def breakglass_detail_def access_def
        tier_resolved dest: q_UploadByID_Inr split: sum.splits outcome.splits\<close>)
qed

lemma vc_Require [vc_rules]:
  assumes "levels_valid (w_db w)"
    and "\<And>e w'. audited (w_db w) (w_db w') \<Longrightarrow> w_now w \<le> w_now w' \<Longrightarrow> Q (Inl e) w'"
    and "\<And>l up w'. access c i need (w_db w) (w_now w) l up (w_db w') \<Longrightarrow> audited (w_db w) (w_db w') \<Longrightarrow> w_now w \<le> w_now w' \<Longrightarrow>
      Q (Inr (l, up)) w'"
  shows "wp (Require us c i need) Q w"
  apply (rule wp_mono [OF Require_wp [OF assms(1)]])
  subgoal for r w' using assms(2,3) by (cases r) auto
  done

text \<open>
  Claim C2: whatever calls fail, an access that \<open>Require\<close> grants is to an upload of the
  caller's organization and at the level asked for; either the caller's own tier covers it and
  nothing is written, or the caller is an administrator and the audit log has gained the
  break-glass record of exactly this access.
\<close>

theorem Require_sound:
  assumes "levels_valid (w_db w)"
    and "run_state (Require us c i need) w = (Inr (l, up), w')"
  shows "up \<in> set (uploads (w_db w)) \<and> up_ID up = i \<and> up_OrgID up = u_OrgID c \<and> need \<le> l \<and>
    (\<exists>t\<ge>w_now w. tier c up (w_db w) t \<noteq> LevelNone \<and>
      (l = tier c up (w_db w) t \<and> w_db w' = w_db w \<or>
       tier c up (w_db w) t < need \<and> l = need \<and> IsAdmin (u_Role c) \<and>
       (\<exists>row. audit_log (w_db w') = audit_log (w_db w) @ [row] \<and> breakglass_row c i need row)))"
  using wpD [OF Require_wp [OF assms(1)] assms(2)] by (simp add: access_def)


theorem Require_sound_witness:
  "\<exists>w'. run_state (Require Itoa (user.truncate ann) 31 LevelFull) sample_world = (Inr (LevelFull, cyds_log), w') \<and>
     (\<exists>row. audit_log (w_db w') = [row] \<and> breakglass_row (user.truncate ann) 31 LevelFull row)"
proof -
  have run: "run_state (Resolve (user.truncate ann) 31) sample_world = (Inr (LevelDashboard, cyds_log), sample_world)"
    using Resolve_quiet [of sample_world "user.truncate ann" 31]
    by (simp add: sample_levels_valid sample_uploads sample_tiers)
  obtain w' where w': "run_state (Require Itoa (user.truncate ann) 31 LevelFull) sample_world = (Inr (LevelFull, cyds_log), w')"
    by (simp add: Require_def attempt_def run Audit_def db_exec_def s_Audit_def log_event_def Let_def
        less_eq_level_def level_int_def)
  from Require_sound [OF _ this] show ?thesis
    using w' by (auto simp: sample_levels_valid sample_tiers)
qed

section \<open>Tenants\<close>

text \<open>
  What the two queries of \<open>Require\<close> can see of the tables: the uploads and the grants of the
  caller's organization. Everything else is invisible to it.
\<close>

definition tenant_view :: "uuid \<Rightarrow> db \<Rightarrow> upload list \<times> access_grant list" where
  "tenant_view org d =
     (select (\<lambda>u. up_OrgID u = org) (uploads d), select (\<lambda>g. g_OrgID g = org) (access_grants d))"

definition own_upload :: "uuid \<Rightarrow> uuid \<Rightarrow> db \<Rightarrow> upload option" where
  "own_upload org i d =
     (case first_row (select (\<lambda>u. up_ID u = i) (uploads d)) of
        None \<Rightarrow> None | Some up \<Rightarrow> if up_OrgID up = org then Some up else None)"

lemma first_row_select_select:
  assumes "distinct (map k rows)"
  shows "first_row (select (\<lambda>r. k r = i) (select p rows)) =
     (case first_row (select (\<lambda>r. k r = i) rows) of None \<Rightarrow> None | Some r \<Rightarrow> if p r then Some r else None)"
  using assms
proof (induction rows)
  case (Cons r rows)
  show ?case
  proof (cases "k r = i")
    case True
    with Cons.prems have "filter (\<lambda>r. k r = i) rows = []" by (auto simp: filter_empty_conv image_iff)
    then have "filter (\<lambda>r. k r = i) (filter p rows) = []" by (auto simp: filter_empty_conv)
    with True show ?thesis by (auto simp: select_def simp del: filter_filter)
  next
    case False
    with Cons show ?thesis by (simp add: select_def)
  qed
qed (simp add: select_def)

lemma own_upload_view:
  "distinct (map up_ID (uploads d)) \<Longrightarrow>
   own_upload org i d = first_row (select (\<lambda>u. up_ID u = i) (fst (tenant_view org d)))"
  by (simp add: own_upload_def tenant_view_def first_row_select_select)

lemma live_grants_view:
  "live_grants s org i d t = select (\<lambda>g. g_SubjectUserID g = s \<and> grant_covers i g \<and> grant_live t g) (snd (tenant_view org d))"
  by (simp add: live_grants_def tenant_view_def select_def conj_commute conj_left_commute)

lemma resolved_view:
  "tenant_view (u_OrgID c) d = tenant_view (u_OrgID c) d' \<Longrightarrow> resolved c up d t = resolved c up d' t"
  by (simp add: resolved_def q_BestGrantFor_def live_grants_view)

lemma Resolve_run:
  "run_state (Resolve c i) w =
    (if outcome_of w \<noteq> Done then (Inl AuthzNotFound, elapse w)
     else case own_upload (u_OrgID c) i (w_db w) of
         None \<Rightarrow> (Inl AuthzNotFound, elapse w)
       | Some up \<Rightarrow>
           if up_UserID up = u_ID c then (Inr (LevelFull, up), elapse w)
           else if outcome_of (elapse w) \<noteq> Done then (Inl (AuthzStore ErrDriver), elapse (elapse w))
           else (let l = resolved c up (w_db w) (w_now (elapse (elapse w)))
                 in if l = LevelNone then Inl AuthzNotFound else Inr (l, up), elapse (elapse w)))"
proof (cases "first_row (select (\<lambda>u. up_ID u = i) (uploads (w_db w)))")
  case None
  then show ?thesis
    by (simp add: Resolve_def attempt_def UploadByID_def db_query_def Let_def q_UploadByID_def scanUpload_def own_upload_def)
next
  case (Some up)
  then have "up_ID up = i" by (auto dest!: first_row_select_SomeD)
  with Some show ?thesis
    by (simp add: Resolve_def attempt_def UploadByID_def BestGrantFor_def db_query_def Let_def
      q_UploadByID_def scanUpload_def own_upload_def resolved_def q_BestGrantFor_def)
qed

lemma elapse_db [simp]: "elapse (w\<lparr>w_db := d\<rparr>) = (elapse w)\<lparr>w_db := d\<rparr>"
  by (simp add: elapse_def split: list.splits)
lemma outcome_db [simp]: "outcome_of (w\<lparr>w_db := d\<rparr>) = outcome_of w"
  by (simp add: outcome_of_def)


text \<open>
  Claim C8: the answer of \<open>Require\<close>, failing calls included, is the same on any two
  databases that agree on the uploads and the grants of the caller's organization: nothing of
  another organization can be learnt through it, not even whether an upload exists.
\<close>

theorem Require_own_tenant:
  assumes "distinct (map up_ID (uploads d))" "distinct (map up_ID (uploads d'))"
    and "tenant_view (u_OrgID c) d = tenant_view (u_OrgID c) d'"
  shows "result (Require us c i need) (w\<lparr>w_db := d\<rparr>) = result (Require us c i need) (w\<lparr>w_db := d'\<rparr>)"
proof -
  have own: "own_upload (u_OrgID c) i d = own_upload (u_OrgID c) i d'"
    using assms by (simp add: own_upload_view)
  have res: "resolved c up d t = resolved c up d' t" for up t using assms(3) by (rule resolved_view)
  show ?thesis
    by (simp add: result_def Require_def attempt_def Resolve_run own res Audit_def db_exec_def s_Audit_def Let_def log_event_def
      split: option.splits)
qed


text \<open>
  When no call fails, \<open>Require\<close> answers by the tier alone: not-found when it
  is none, the tier when it covers the level asked for, the level asked for to an administrator
  (break-glass), and forbidden to anyone else.
\<close>

theorem Require_complete:
  assumes "quiet w" and "levels_valid (w_db w)"
  shows "result (Require us c i need) w =
    (case q_UploadByID i (w_db w) (w_now w) of
        Inl _ \<Rightarrow> Inl AuthzNotFound
      | Inr up \<Rightarrow> (let l = tier c up (w_db w) (w_now w)
                  in if l = LevelNone then Inl AuthzNotFound
                     else if need \<le> l then Inr (l, up)
                     else if IsAdmin (u_Role c) then Inr (need, up) else Inl AuthzForbidden))"
proof -
  have "run_state (Resolve c i) w =
    ((case q_UploadByID i (w_db w) (w_now w) of
        Inl _ \<Rightarrow> Inl AuthzNotFound
      | Inr up \<Rightarrow> (let l = tier c up (w_db w) (w_now w)
                  in if l = LevelNone then Inl AuthzNotFound else Inr (l, up))), w)" 
   using assms by (rule Resolve_quiet)
  with assms(1) show ?thesis
    by (auto simp add: result_def Require_def attempt_def Audit_def db_exec_def s_Audit_def Let_def log_event_def
      split: sum.splits)
qed


theorem Require_own_tenant_witness:
  "result (Require Itoa (user.truncate eve) 31 LevelFull) (sample_world\<lparr>w_db := sample_db\<rparr>) =
   result (Require Itoa (user.truncate eve) 31 LevelFull) (sample_world\<lparr>w_db := sample_db\<lparr>uploads := [cyds_log]\<rparr>\<rparr>)"
  by (rule Require_own_tenant) (simp_all add: tenant_view_def select_def)

theorem Require_complete_witness:
  "result (Require Itoa (user.truncate eve) 31 LevelFull) sample_world = Inl AuthzForbidden"
  using Require_complete [of sample_world Itoa "user.truncate eve" 31 LevelFull]
  by (simp add: sample_levels_valid sample_uploads sample_tiers less_eq_level_def level_int_def)

end
