(* ===== verification/Io.thy ===== *)
theory Io
  imports GoStrings
begin

text \<open>
  Readers. What a client sends arrives as a sequence of chunks, each the result of one \<open>Read\<close>;
  when they are used up every further \<open>Read\<close> returns the same ending, \<open>EOF\<close> or a broken
  connection. On top of it the \<open>capReader\<close> of \<open>handlers/uploads.go\<close> and the \<open>bufio.Reader\<close> the
  parser peeks and reads lines with. The capacity of the buffer is not modelled: the callers
  join what \<open>ErrBufferFull\<close> splits.
\<close>

datatype io_err = EOF | ErrTooLarge | ErrConnection

record source =
  src_chunks :: "(string \<times> io_err option) list"
  src_end :: io_err

definition source_Read :: "source \<Rightarrow> string \<times> io_err option \<times> source" where
  "source_Read s = (case src_chunks s of
       [] \<Rightarrow> ([], Some (src_end s), s)
     | (p, e) # cs \<Rightarrow> (p, e, s\<lparr>src_chunks := cs\<rparr>))"

section \<open>capReader\<close>

record capReader =
  cr_r :: source
  cr_limit :: int
  cr_read :: int

definition cap_Read :: "capReader \<Rightarrow> string \<times> io_err option \<times> capReader" where
  "cap_Read c = (case source_Read (cr_r c) of (p, e, r) \<Rightarrow>
     let c' = c\<lparr>cr_r := r, cr_read := cr_read c + int (length p)\<rparr>
     in if cr_read c' > cr_limit c' then (p, Some ErrTooLarge, c') else (p, e, c'))"

section \<open>bufio.Reader\<close>

record bufio =
  b_buf :: string
  b_err :: "io_err option"
  b_rd :: capReader

definition NewReader :: "capReader \<Rightarrow> bufio" where
  "NewReader r = \<lparr>b_buf = [], b_err = None, b_rd = r\<rparr>"

definition fill :: "bufio \<Rightarrow> bufio" where
  "fill b = (case cap_Read (b_rd b) of (p, e, r) \<Rightarrow> \<lparr>b_buf = b_buf b @ p, b_err = e, b_rd = r\<rparr>)"

text \<open>How many chunks are still to come; it is what the loops below count down.\<close>

definition todo :: "bufio \<Rightarrow> nat" where
  "todo b = length (src_chunks (cr_r (b_rd b)))"

lemma cap_Read_progress:
  "cap_Read c = (p, e, c') \<Longrightarrow> e = None \<Longrightarrow> length (src_chunks (cr_r c')) < length (src_chunks (cr_r c))"
  by (auto simp: cap_Read_def source_Read_def Let_def split: list.splits if_splits)

lemma fill_progress: "b_err (fill b) = None \<Longrightarrow> todo (fill b) < todo b"
  by (auto simp: fill_def todo_def split: prod.splits dest: cap_Read_progress)

text \<open>\<open>ReadSlice('\n')\<close>: a line with its newline, or what is left and the pending error.\<close>

function (sequential) ReadSlice :: "bufio \<Rightarrow> string \<times> io_err option \<times> bufio" where
  "ReadSlice b =
     (case IndexByte (b_buf b) CHR 0x0A of
        Some i \<Rightarrow> (take (Suc i) (b_buf b), None, b\<lparr>b_buf := drop (Suc i) (b_buf b)\<rparr>)
      | None \<Rightarrow>
          (case b_err b of
             Some e \<Rightarrow> (b_buf b, Some e, b\<lparr>b_buf := [], b_err := None\<rparr>)
           | None \<Rightarrow> ReadSlice (fill b)))"
  by pat_completeness auto

termination
  by (relation "measure (\<lambda>b. 2 * todo b + (if b_err b = None then 1 else 0))")
    (auto dest: fill_progress simp: fill_def todo_def cap_Read_def source_Read_def Let_def
      split: prod.splits list.splits if_splits)

declare ReadSlice.simps [simp del]

text \<open>\<open>Peek(n)\<close> and \<open>parser.HeadReader\<close>: the first bytes, left in the buffer.\<close>

function (sequential) Peek :: "nat \<Rightarrow> bufio \<Rightarrow> string \<times> io_err option \<times> bufio" where
  "Peek n b =
     (if length (b_buf b) \<ge> n then (take n (b_buf b), None, b)
      else case b_err b of
          Some e \<Rightarrow> (b_buf b, Some e, b\<lparr>b_err := None\<rparr>)
        | None \<Rightarrow> Peek n (fill b))"
  by pat_completeness auto

termination
  by (relation "measure (\<lambda>(n, b). 2 * todo b + (if b_err b = None then 1 else 0))")
    (auto dest: fill_progress simp: fill_def todo_def cap_Read_def source_Read_def Let_def
      split: prod.splits list.splits if_splits)

declare Peek.simps [simp del]

definition HeadReader :: "bufio \<Rightarrow> nat \<Rightarrow> (io_err + string) \<times> bufio" where
  "HeadReader br n = (case Peek n br of (head, err, br') \<Rightarrow>
     case err of
       None \<Rightarrow> (Inr head, br')
     | Some EOF \<Rightarrow> (Inr head, br')
     | Some e \<Rightarrow> (Inl e, br'))"

text \<open>\<open>io.Copy(io.Discard, r)\<close>: read to the end, whatever ends it.\<close>

function (sequential) drain :: "bufio \<Rightarrow> io_err \<times> bufio" where
  "drain b = (case b_err b of
       Some e \<Rightarrow> (e, b\<lparr>b_buf := [], b_err := None\<rparr>)
     | None \<Rightarrow> drain (fill b))"
  by pat_completeness auto

termination
  by (relation "measure (\<lambda>b. 2 * todo b + (if b_err b = None then 1 else 0))")
    (auto dest: fill_progress simp: fill_def todo_def cap_Read_def source_Read_def Let_def
      split: prod.splits list.splits if_splits)

declare drain.simps [simp del]

section \<open>Sources that end well\<close>

text \<open>The bytes still to come, and a source that delivers them and ends with \<open>EOF\<close> under the cap.\<close>

definition source_bytes :: "source \<Rightarrow> string" where
  "source_bytes s = concat (map fst (src_chunks s))"

definition good_source :: "source \<Rightarrow> bool" where
  "good_source s \<longleftrightarrow> (\<forall>(p, e)\<in>set (src_chunks s). e = None) \<and> src_end s = EOF"

definition remaining :: "bufio \<Rightarrow> string" where
  "remaining b = b_buf b @ source_bytes (cr_r (b_rd b))"

definition good :: "bufio \<Rightarrow> bool" where
  "good b \<longleftrightarrow> good_source (cr_r (b_rd b)) \<and> (b_err b = None \<or> b_err b = Some EOF \<and> src_chunks (cr_r (b_rd b)) = []) \<and>
     cr_read (b_rd b) + int (length (source_bytes (cr_r (b_rd b)))) \<le> cr_limit (b_rd b)"

lemma good_fill:
  assumes "good b" and "b_err b = None"
  shows "good (fill b) \<and> remaining (fill b) = remaining b \<and> (b_err (fill b) = None \<or> b_err (fill b) = Some EOF) \<and>
    cr_read (b_rd (fill b)) + int (length (source_bytes (cr_r (b_rd (fill b))))) =
    cr_read (b_rd b) + int (length (source_bytes (cr_r (b_rd b)))) \<and> cr_limit (b_rd (fill b)) = cr_limit (b_rd b)"
  using assms
  by (cases "src_chunks (cr_r (b_rd b))")
    (auto simp: good_def good_source_def fill_def cap_Read_def source_Read_def Let_def remaining_def source_bytes_def
      split: if_splits)

end
