(* ===== verification/Httpx.thy ===== *)
theory Httpx
  imports Password Io Samples
begin

text \<open>
  \<open>internal/httpx\<close> and the parts of \<open>net/http\<close> under it: requests and responses, JSON in and out,
  the CSRF and Basic Auth gates and the security headers. A handler is a function from a request
  to a computation of its response; a middleware is a function of handlers.
\<close>

section \<open>Requests and responses\<close>

record form_part =
  p_FormName :: string
  p_FileName :: string
  p_Content :: source

text \<open>
  A request body as its reader finds it: absent, not JSON (or over the size cap), a JSON value,
  or the parts of a multipart form and whether the form ends as it should.
\<close>

datatype body = NoBody | BadBody | JsonBody json | FormBody "form_part list" bool

record request =
  rq_Method :: string
  rq_Path :: string
  rq_Headers :: "(string \<times> string) list"
  rq_Cookies :: "(string \<times> string) list"
  rq_Query :: "(string \<times> string) list"
  rq_PathID :: string
  rq_Body :: body
  rq_RemoteAddr :: string
  rq_TLS :: bool

record cookie =
  ck_Name :: string
  ck_Value :: string
  ck_Path :: string
  ck_HttpOnly :: bool
  ck_Secure :: bool
  ck_SameSite :: string
  ck_MaxAge :: int

record response =
  rs_Status :: nat
  rs_Headers :: "(string \<times> string) list"
  rs_Cookies :: "cookie list"
  rs_Body :: "json option"

type_synonym handler = "request \<Rightarrow> response M"

text \<open>The first value of a header, cookie or query parameter.\<close>

definition Header_Get :: "request \<Rightarrow> string \<Rightarrow> string" where
  "Header_Get r k = (case first_row (select (\<lambda>(n, _). ToLower n = ToLower k) (rq_Headers r)) of
     None \<Rightarrow> [] | Some (_, v) \<Rightarrow> v)"

definition Cookie :: "request \<Rightarrow> string \<Rightarrow> string option" where
  "Cookie r k = map_option snd (first_row (select (\<lambda>(n, _). n = k) (rq_Cookies r)))"

definition Query_Get :: "request \<Rightarrow> string \<Rightarrow> string" where
  "Query_Get r k = (case first_row (select (\<lambda>(n, _). n = k) (rq_Query r)) of
     None \<Rightarrow> [] | Some (_, v) \<Rightarrow> v)"

section \<open>Responses\<close>

definition JSON :: "nat \<Rightarrow> json option \<Rightarrow> response" where
  "JSON status b = \<lparr>rs_Status = status, rs_Headers = [(''Content-Type'', ''application/json'')],
     rs_Cookies = [], rs_Body = b\<rparr>"

definition Fail :: "nat \<Rightarrow> string \<Rightarrow> response" where
  "Fail status detail = JSON status (Some (JObj [(''detail'', JStr detail)]))"

definition NoContent :: response where
  "NoContent = \<lparr>rs_Status = 204, rs_Headers = [], rs_Cookies = [], rs_Body = None\<rparr>"

text \<open>A handler that panics: \<open>net/http\<close> recovers and drops the connection, no response is sent.\<close>

definition panicked :: response where
  "panicked = \<lparr>rs_Status = 0, rs_Headers = [], rs_Cookies = [], rs_Body = None\<rparr>"

definition with_cookies :: "cookie list \<Rightarrow> response \<Rightarrow> response" where
  "with_cookies cs r = r\<lparr>rs_Cookies := cs @ rs_Cookies r\<rparr>"

text \<open>A header set before the handler runs, which the handler may set again.\<close>

definition with_header :: "string \<Rightarrow> string \<Rightarrow> response \<Rightarrow> response" where
  "with_header k v r = (if k \<in> fst ` set (rs_Headers r) then r else r\<lparr>rs_Headers := (k, v) # rs_Headers r\<rparr>)"

lemma JSON_simps [simp]:
  "rs_Status (JSON s b) = s" "rs_Body (JSON s b) = b" "rs_Cookies (JSON s b) = []"
  "JSON s b = JSON s' b' \<longleftrightarrow> s = s' \<and> b = b'"
  by (simp_all add: JSON_def)

lemma Fail_simps [simp]:
  "rs_Status (Fail s d) = s" "rs_Cookies (Fail s d) = []" "Fail s d = Fail s' d' \<longleftrightarrow> s = s' \<and> d = d'"
  by (simp_all add: Fail_def)

lemma NoContent_simps [simp]: "rs_Status NoContent = 204" "rs_Cookies NoContent = []"
  by (simp_all add: NoContent_def)

lemma panicked_simps [simp]: "rs_Status panicked = 0" "rs_Cookies panicked = []"
  by (simp_all add: panicked_def)

lemma with_cookies_simps [simp]:
  "rs_Status (with_cookies cs r) = rs_Status r" "rs_Body (with_cookies cs r) = rs_Body r"
  "rs_Cookies (with_cookies cs r) = cs @ rs_Cookies r"
  by (simp_all add: with_cookies_def)

lemma with_header_simps [simp]:
  "rs_Status (with_header k v r) = rs_Status r" "rs_Cookies (with_header k v r) = rs_Cookies r"
  "rs_Body (with_header k v r) = rs_Body r"
  by (simp_all add: with_header_def)

section \<open>Decode\<close>

text \<open>
  \<open>encoding/json\<close> into a struct, unknown fields disallowed. Keys match fields without regard to
  case; \<open>null\<close> leaves a value and clears a pointer; the last of repeated keys wins.
\<close>

datatype field_kind = FString | FBool | FOptString | FOptTime | FOptInt

definition field_accepts :: "field_kind \<Rightarrow> json \<Rightarrow> bool" where
  "field_accepts k v = (case v of
       JNull \<Rightarrow> True
     | JStr s \<Rightarrow> k = FString \<or> k = FOptString \<or> k = FOptTime \<and> UnmarshalTime s \<noteq> None
     | JBool _ \<Rightarrow> k = FBool
     | JInt n \<Rightarrow> k = FOptInt \<and> - (2 ^ 63) \<le> n \<and> n < 2 ^ 63
     | _ \<Rightarrow> False)"

definition field_for :: "(string \<times> field_kind) list \<Rightarrow> string \<Rightarrow> (string \<times> field_kind) option" where
  "field_for fs k = (case first_row (select (\<lambda>(n, _). n = k) fs) of
       Some f \<Rightarrow> Some f
     | None \<Rightarrow> first_row (select (\<lambda>(n, _). ToLower n = ToLower k) fs))"

fun decode_fields :: "(string \<times> field_kind) list \<Rightarrow> (string \<times> json) list \<Rightarrow> (string \<times> json) list option" where
  "decode_fields fs [] = Some []"
| "decode_fields fs ((k, v) # kvs) = (case field_for fs k of
       None \<Rightarrow> None
     | Some (n, kind) \<Rightarrow>
         (if field_accepts kind v then map_option ((#) (n, v)) (decode_fields fs kvs) else None))"

type_synonym decoded = "(string \<times> json) list"

definition decode_json :: "(string \<times> field_kind) list \<Rightarrow> json \<Rightarrow> decoded option" where
  "decode_json fs v = (case v of JNull \<Rightarrow> Some [] | JObj kvs \<Rightarrow> decode_fields fs kvs | _ \<Rightarrow> None)"

definition Decode :: "(string \<times> field_kind) list \<Rightarrow> request \<Rightarrow> string + decoded" where
  "Decode fs r = (case rq_Body r of
       JsonBody v \<Rightarrow> or_error ''invalid request body'' (decode_json fs v)
     | _ \<Rightarrow> Inl ''invalid request body'')"

definition DecodeOptional :: "(string \<times> field_kind) list \<Rightarrow> request \<Rightarrow> string + decoded" where
  "DecodeOptional fs r = (case rq_Body r of
       NoBody \<Rightarrow> Inr []
     | JsonBody v \<Rightarrow> or_error ''invalid request body'' (decode_json fs v)
     | _ \<Rightarrow> Inl ''invalid request body'')"

text \<open>The value a field has afterwards.\<close>

definition values_of :: "string \<Rightarrow> decoded \<Rightarrow> json list" where
  "values_of n ds = map snd (filter (\<lambda>(k, _). k = n) ds)"

definition str_field :: "string \<Rightarrow> decoded \<Rightarrow> string" where
  "str_field n ds = (case filter (\<lambda>v. v \<noteq> JNull) (values_of n ds) of
       [] \<Rightarrow> []
     | vs \<Rightarrow> (case last vs of JStr s \<Rightarrow> s | _ \<Rightarrow> []))"

definition bool_field :: "string \<Rightarrow> decoded \<Rightarrow> bool" where
  "bool_field n ds = (case filter (\<lambda>v. v \<noteq> JNull) (values_of n ds) of
       [] \<Rightarrow> False
     | vs \<Rightarrow> last vs = JBool True)"

definition opt_str_field :: "string \<Rightarrow> decoded \<Rightarrow> string option" where
  "opt_str_field n ds = (case values_of n ds of
       [] \<Rightarrow> None
     | vs \<Rightarrow> (case last vs of JStr s \<Rightarrow> Some s | _ \<Rightarrow> None))"

definition opt_time_field :: "string \<Rightarrow> decoded \<Rightarrow> time option" where
  "opt_time_field n ds = Option.bind (opt_str_field n ds) UnmarshalTime"

definition opt_int_field :: "string \<Rightarrow> decoded \<Rightarrow> int option" where
  "opt_int_field n ds = (case values_of n ds of
       [] \<Rightarrow> None
     | vs \<Rightarrow> (case last vs of JInt i \<Rightarrow> Some i | _ \<Rightarrow> None))"

section \<open>CSRF\<close>

definition CSRFCookieName :: string where "CSRFCookieName = ''logmonitor_csrf''"
definition CSRFHeaderName :: string where "CSRFHeaderName = ''X-CSRF-Token''"

definition csrf_cookie :: "bool \<Rightarrow> string \<Rightarrow> cookie" where
  "csrf_cookie secure token = \<lparr>ck_Name = CSRFCookieName, ck_Value = token, ck_Path = ''/'', ck_HttpOnly = False,
     ck_Secure = secure, ck_SameSite = ''Lax'', ck_MaxAge = 12 * 3600\<rparr>"

text \<open>The token, and the cookies set for it.\<close>

definition mint_csrf :: "bool \<Rightarrow> (string \<times> cookie list) M" where
  "mint_csrf secure = do {
     buf \<leftarrow> rand_Read 32;
     case buf of
       None \<Rightarrow> ret ([], [])
     | Some buf \<Rightarrow> (let token = raw_EncodeToString base64_url buf in ret (token, [csrf_cookie secure token])) }"

definition ensureCSRFCookie :: "request \<Rightarrow> bool \<Rightarrow> (string \<times> cookie list) M" where
  "ensureCSRFCookie r secure = (case Cookie r CSRFCookieName of
       Some c \<Rightarrow> (if length c \<ge> 32 then ret (c, []) else mint_csrf secure)
     | None \<Rightarrow> mint_csrf secure)"

definition safe_method :: "string \<Rightarrow> bool" where
  "safe_method m \<longleftrightarrow> m = ''GET'' \<or> m = ''HEAD'' \<or> m = ''OPTIONS''"

text \<open>\<open>subtle.ConstantTimeCompare\<close> is 1 exactly on equal strings.\<close>

definition CSRF :: "bool \<Rightarrow> (string \<Rightarrow> bool) \<Rightarrow> handler \<Rightarrow> handler" where
  "CSRF secure exempt next r = do {
     (token, cs) \<leftarrow> ensureCSRFCookie r secure;
     if safe_method (rq_Method r) \<or> exempt (rq_Path r)
     then do { resp \<leftarrow> next r; ret (with_cookies cs resp) }
     else let sent = Header_Get r CSRFHeaderName
       in if sent = [] \<or> sent \<noteq> token
          then ret (with_cookies cs (Fail 403 ''Missing or invalid CSRF token''))
          else do { resp \<leftarrow> next r; ret (with_cookies cs resp) } }"

section \<open>Basic Auth\<close>

text \<open>\<open>Request.BasicAuth\<close>: the scheme without regard to case, then base 64 of user and password.\<close>

definition parseBasicAuth :: "request \<Rightarrow> (string \<times> string) option" where
  "parseBasicAuth r =
     (let auth = Header_Get r ''Authorization''
      in if length auth < 6 \<or> ToLower (take 6 auth) \<noteq> ''basic '' then None
         else case std_DecodeString (drop 6 auth) of
             None \<Rightarrow> None
           | Some b \<Rightarrow> (case Cut (string_of b) '':'' of (u, p, found) \<Rightarrow> if found then Some (u, p) else None))"

definition challenge :: response where
  "challenge = with_header ''WWW-Authenticate'' ''Basic realm=\"LogMonitor\", charset=\"UTF-8\"''
     (Fail 401 ''Not authenticated'')"

definition BasicAuth :: "bool \<Rightarrow> string \<Rightarrow> string \<Rightarrow> (string \<Rightarrow> string \<Rightarrow> pw_err + bool) \<Rightarrow> (string \<Rightarrow> bool) \<Rightarrow> handler \<Rightarrow> handler" where
  "BasicAuth enabled user passHash verify exempt next r =
     (if \<not> enabled then next r
      else if exempt (rq_Path r) then next r
      else case parseBasicAuth r of
          None \<Rightarrow> ret challenge
        | Some (gotUser, gotPass) \<Rightarrow>
            (case verify gotPass passHash of
               Inl PwPanic \<Rightarrow> ret panicked
             | Inl _ \<Rightarrow> ret challenge
             | Inr passOK \<Rightarrow> if \<not> passOK \<or> gotUser \<noteq> user then ret challenge else next r))"

section \<open>Security headers\<close>

definition quoted :: "string \<Rightarrow> string" where
  "quoted s = [CHR 0x27] @ s @ [CHR 0x27]"

definition security_headers :: "(string \<times> string) list" where
  "security_headers = [(''X-Content-Type-Options'', ''nosniff''), (''X-Frame-Options'', ''DENY''),
     (''Referrer-Policy'', ''strict-origin-when-cross-origin''), (''Cross-Origin-Opener-Policy'', ''same-origin''),
     (''Content-Security-Policy'', ''default-src '' @ quoted ''none'' @ ''; frame-ancestors '' @ quoted ''none'')]"

definition hsts :: "request \<Rightarrow> (string \<times> string) list" where
  "hsts r = (if rq_TLS r \<or> Header_Get r ''X-Forwarded-Proto'' = ''https''
     then [(''Strict-Transport-Security'', ''max-age=31536000; includeSubDomains'')] else [])"

definition SecurityHeaders :: "handler \<Rightarrow> handler" where
  "SecurityHeaders next r = do {
     resp \<leftarrow> next r;
     ret (fold (\<lambda>(k, v). with_header k v) (security_headers @ hsts r) resp) }"

section \<open>What the gates let through\<close>

lemma ensureCSRFCookie_cases:
  obtains (kept) c where "Cookie r CSRFCookieName = Some c" "length c \<ge> 32"
      "run_state (ensureCSRFCookie r secure) w = ((c, []), w)"
  | (minted) token cs w1 where "run_state (ensureCSRFCookie r secure) w = ((token, cs), w1)"
      "\<forall>c. Cookie r CSRFCookieName = Some c \<longrightarrow> length c < 32"
      "w_db w1 = w_db w" "w_redis w1 = w_redis w" "w_blob w1 = w_blob w"
      "token = [] \<or> cs = [csrf_cookie secure token]"
proof (cases "\<exists>c. Cookie r CSRFCookieName = Some c \<and> length c \<ge> 32")
  case True
  then obtain c where c: "Cookie r CSRFCookieName = Some c" "length c \<ge> 32" by blast
  show ?thesis by (rule kept [OF c]) (use c in \<open>simp add: ensureCSRFCookie_def\<close>)
next
  case False
  then have eq: "ensureCSRFCookie r secure = mint_csrf secure"
    by (auto simp: ensureCSRFCookie_def split: option.splits)
  obtain token cs w1 where m: "run_state (mint_csrf secure) w = ((token, cs), w1)" by (metis prod.exhaust)
  have "w_db w1 = w_db w \<and> w_redis w1 = w_redis w \<and> w_blob w1 = w_blob w \<and> (token = [] \<or> cs = [csrf_cookie secure token])"
    using m by (auto simp: mint_csrf_def rand_Read_def Let_def split: if_splits)
  with m eq False show ?thesis by (intro minted [of token cs w1]) (auto simp: not_le)
qed

text \<open>
  A request that may change state and is not exempt reaches the handler only when its
  header repeats, byte for byte, the CSRF token: the cookie it carries, or the one minted for
  this very response, which the sender cannot have seen. Otherwise the answer is 403 and
  neither the database, nor Redis, nor the archive is touched.
\<close>

theorem CSRF_gate:
  assumes "\<not> safe_method (rq_Method r)" and "\<not> exempt (rq_Path r)"
  shows "(\<exists>token cs w1. run_state (ensureCSRFCookie r secure) w = ((token, cs), w1) \<and>
      Header_Get r CSRFHeaderName = token \<and> token \<noteq> [] \<and>
      (Cookie r CSRFCookieName = Some token \<and> cs = [] \<or> cs = [csrf_cookie secure token]) \<and>
      run_state (CSRF secure exempt next r) w = (case run_state (next r) w1 of (resp, w2) \<Rightarrow> (with_cookies cs resp, w2)))
    \<or> (\<exists>resp w1. run_state (CSRF secure exempt next r) w = (resp, w1) \<and> rs_Status resp = 403 \<and>
         w_db w1 = w_db w \<and> w_redis w1 = w_redis w \<and> w_blob w1 = w_blob w)"
proof (cases rule: ensureCSRFCookie_cases [of r secure w])
  case (kept c)
  with assms show ?thesis by (auto simp: CSRF_def Let_def case_prod_beta)
next
  case (minted token cs w1)
  with assms show ?thesis by (auto simp: CSRF_def Let_def case_prod_beta)
qed

text \<open>
  With the edge gate on, a request for a path that is not exempt reaches the handler
  only with the configured user name and a password the hash verifies; otherwise the handler
  does not run, the world is unchanged, and the answer is the 401 challenge (or, when the
  configured hash makes the key derivation panic, no answer).
\<close>

theorem BasicAuth_gate:
  assumes "\<not> exempt (rq_Path r)"
  shows "(\<exists>p. parseBasicAuth r = Some (user, p) \<and> verify p hash = Inr True \<and>
      BasicAuth True user hash verify exempt next r = next r)
    \<or> run_state (BasicAuth True user hash verify exempt next r) w = (challenge, w)
    \<or> (\<exists>u p. parseBasicAuth r = Some (u, p) \<and> verify p hash = Inl PwPanic \<and>
        run_state (BasicAuth True user hash verify exempt next r) w = (panicked, w))"
  using assms
  by (auto simp: BasicAuth_def split: option.splits sum.splits pw_err.splits)

section \<open>Sample requests\<close>

definition sample_request :: "string \<Rightarrow> string \<Rightarrow> request" where
  "sample_request m p = \<lparr>rq_Method = m, rq_Path = p, rq_Headers = [], rq_Cookies = [], rq_Query = [],
     rq_PathID = [], rq_Body = NoBody, rq_RemoteAddr = ''10.0.0.9:4711'', rq_TLS = False\<rparr>"

lemma sample_request_simps [simp]:
  "rq_Method (sample_request m p) = m" "rq_Path (sample_request m p) = p" "rq_Body (sample_request m p) = NoBody"
  "rq_Cookies (sample_request m p) = []" "rq_Headers (sample_request m p) = []" "rq_PathID (sample_request m p) = []"
  by (simp_all add: sample_request_def)

theorem CSRF_gate_witness:
  "\<exists>resp w1. run_state (CSRF True (\<lambda>_. False) (\<lambda>r. ret NoContent) (sample_request ''POST'' ''/api/grants'')) sample_world
     = (resp, w1) \<and> rs_Status resp = 403"
  using CSRF_gate [of "sample_request ''POST'' ''/api/grants''" "\<lambda>_. False" True sample_world "\<lambda>r. ret NoContent"]
  by (auto simp: safe_method_def Header_Get_def select_def)

theorem BasicAuth_gate_witness:
  "run_state (BasicAuth True ''ops'' ''hash'' (\<lambda>p h. Inr True) (\<lambda>_. False) (\<lambda>r. ret NoContent)
     (sample_request ''GET'' ''/api/uploads'')) sample_world = (challenge, sample_world)"
  using BasicAuth_gate [of "\<lambda>_. False" "sample_request ''GET'' ''/api/uploads''" "''ops''" "\<lambda>p h. Inr True" "''hash''"
    "\<lambda>r. ret NoContent" sample_world]
  by (simp add: parseBasicAuth_def Header_Get_def select_def)

end
