(* ===== verification/Session.thy ===== *)
theory Session
  imports Httpx Store_Users
begin

text \<open>
  \<open>internal/auth/session.go\<close>: signed tokens with a purpose, the cookies that carry them, and the
  two ways in: \<open>Require\<close> for a session, \<open>PendingUser\<close> for the step between password and second
  factor.
\<close>

section \<open>Tokens\<close>

definition CookieName :: string where "CookieName = ''logmonitor_session''"
definition MFACookieName :: string where "MFACookieName = ''logmonitor_mfa''"
definition TokenTTL :: duration where "TokenTTL = 12 * hour"
definition MFATokenTTL :: duration where "MFATokenTTL = 5 * minute"
definition PurposeSession :: string where "PurposeSession = ''session''"
definition PurposeMFA :: string where "PurposeMFA = ''mfa_pending''"

definition issue :: "api \<Rightarrow> user \<Rightarrow> string \<Rightarrow> duration \<Rightarrow> string option M" where
  "issue a u purpose ttl = do {
     now \<leftarrow> time_Now;
     ret (jwt_Sign a (JWTSecret (api_Cfg a))
       \<lparr>cl_OrgID = uuid_String a (u_OrgID u), cl_Role = u_Role u, cl_Purpose = purpose,
        cl_Subject = uuid_String a (u_ID u), cl_IssuedAt = now, cl_ExpiresAt = now + ttl\<rparr>) }"

definition Issue :: "api \<Rightarrow> user \<Rightarrow> string option M" where
  "Issue a u = issue a u PurposeSession TokenTTL"

definition IssueMFAPending :: "api \<Rightarrow> user \<Rightarrow> string option M" where
  "IssueMFAPending a u = issue a u PurposeMFA MFATokenTTL"

definition session_cookie :: "api \<Rightarrow> string \<Rightarrow> string \<Rightarrow> int \<Rightarrow> cookie" where
  "session_cookie a name v age = \<lparr>ck_Name = name, ck_Value = v, ck_Path = ''/'', ck_HttpOnly = True,
     ck_Secure = CookieSecure (api_Cfg a), ck_SameSite = ''Lax'', ck_MaxAge = age\<rparr>"

definition SetCookie :: "api \<Rightarrow> string \<Rightarrow> cookie" where
  "SetCookie a token = session_cookie a CookieName token (TokenTTL div second)"

definition ClearCookie :: "api \<Rightarrow> cookie" where
  "ClearCookie a = session_cookie a CookieName [] (-1)"

definition SetMFACookie :: "api \<Rightarrow> string \<Rightarrow> cookie" where
  "SetMFACookie a token = session_cookie a MFACookieName token (MFATokenTTL div second)"

definition ClearMFACookie :: "api \<Rightarrow> cookie" where
  "ClearMFACookie a = session_cookie a MFACookieName [] (-1)"

definition parse :: "api \<Rightarrow> string \<Rightarrow> claims option M" where
  "parse a token = do { now \<leftarrow> time_Now; ret (jwt_Parse a (JWTSecret (api_Cfg a)) token now) }"

section \<open>Require\<close>

definition unauthorized :: response where
  "unauthorized = Fail 401 ''Not authenticated''"

definition auth_Require :: "api \<Rightarrow> (user \<Rightarrow> handler) \<Rightarrow> handler" where
  "auth_Require a next r =
     (case Cookie r CookieName of
        None \<Rightarrow> ret unauthorized
      | Some c \<Rightarrow> do {
          claims \<leftarrow> parse a c;
          case claims of
            None \<Rightarrow> ret unauthorized
          | Some claims \<Rightarrow>
              (if cl_Purpose claims \<noteq> PurposeSession then ret unauthorized
               else case uuid_Parse a (cl_Subject claims) of
                   None \<Rightarrow> ret unauthorized
                 | Some i \<Rightarrow> attempt (UserByID i) (\<lambda>_. ret unauthorized) (\<lambda>u. next u r)) })"

datatype auth_err = ErrUnauthenticated | AuthStore store_err

definition PendingUser :: "api \<Rightarrow> request \<Rightarrow> (auth_err + user) M" where
  "PendingUser a r =
     (case Cookie r MFACookieName of
        None \<Rightarrow> ret (Inl ErrUnauthenticated)
      | Some c \<Rightarrow> do {
          claims \<leftarrow> parse a c;
          case claims of
            None \<Rightarrow> ret (Inl ErrUnauthenticated)
          | Some claims \<Rightarrow>
              (if cl_Purpose claims \<noteq> PurposeMFA then ret (Inl ErrUnauthenticated)
               else case uuid_Parse a (cl_Subject claims) of
                   None \<Rightarrow> ret (Inl ErrUnauthenticated)
                 | Some i \<Rightarrow> attempt (UserByID i) (\<lambda>e. ret (Inl (AuthStore e))) (\<lambda>u. ret (Inr u))) })"

declare Issue_def [wp_rules, op_defs] IssueMFAPending_def [wp_rules, op_defs] issue_def [wp_rules, op_defs] parse_def [wp_rules, op_defs]

section \<open>Who is let in\<close>

lemma purpose_distinct [simp]: "PurposeSession \<noteq> PurposeMFA" "PurposeMFA \<noteq> PurposeSession"
  by (simp_all add: PurposeSession_def PurposeMFA_def)

lemma cookie_name_distinct [simp]: "CookieName \<noteq> MFACookieName" "MFACookieName \<noteq> CookieName"
  by (simp_all add: CookieName_def MFACookieName_def)

lemma cookie_simps [simp]:
  "ck_Name (SetCookie a t) = CookieName" "ck_Name (ClearCookie a) = CookieName"
  "ck_Name (SetMFACookie a t) = MFACookieName" "ck_Name (ClearMFACookie a) = MFACookieName"
  "ck_Value (SetCookie a t) = t" "ck_Value (ClearCookie a) = []"
  "ck_Value (SetMFACookie a t) = t" "ck_Value (ClearMFACookie a) = []"
  by (simp_all add: SetCookie_def ClearCookie_def SetMFACookie_def ClearMFACookie_def session_cookie_def)

text \<open>The token a request carries under a cookie, as the manager reads it.\<close>

definition token_claims :: "api \<Rightarrow> string \<Rightarrow> request \<Rightarrow> time \<Rightarrow> claims option" where
  "token_claims a name r now = Option.bind (Cookie r name) (\<lambda>tok. jwt_Parse a (JWTSecret (api_Cfg a)) tok now)"

lemma auth_Require_run:
  "run_state (auth_Require a next r) w =
    (case token_claims a CookieName r (w_now w) of
       None \<Rightarrow> (unauthorized, w)
     | Some c \<Rightarrow>
         (if cl_Purpose c \<noteq> PurposeSession then (unauthorized, w)
          else case uuid_Parse a (cl_Subject c) of
              None \<Rightarrow> (unauthorized, w)
            | Some i \<Rightarrow>
                (if outcome_of w = Done
                 then (case q_UserByID i (w_db w) (w_now (elapse w)) of
                     Inl _ \<Rightarrow> (unauthorized, elapse w)
                   | Inr u \<Rightarrow> run_state (next u r) (elapse w))
                 else (unauthorized, elapse w))))"
  by (simp add: auth_Require_def parse_def time_Now_def attempt_def UserByID_def db_query_def Let_def token_claims_def
      split: option.splits sum.splits)

text \<open>
  Claim C9: a handler behind \<open>Require\<close> runs only for a request whose session cookie holds a
  token that verifies now and was minted for the purpose of a session, and it runs for the user
  row as it is in the database now; otherwise the answer is 401 and nothing changes.
\<close>

theorem Session_sound:
  "(\<exists>c i u w1. token_claims a CookieName r (w_now w) = Some c \<and> cl_Purpose c = PurposeSession \<and>
      uuid_Parse a (cl_Subject c) = Some i \<and> q_UserByID i (w_db w) (w_now w1) = Inr u \<and>
      w_db w1 = w_db w \<and> w_redis w1 = w_redis w \<and> w_blob w1 = w_blob w \<and>
      run_state (auth_Require a next r) w = run_state (next u r) w1)
   \<or> (\<exists>w1. run_state (auth_Require a next r) w = (unauthorized, w1) \<and>
        w_db w1 = w_db w \<and> w_redis w1 = w_redis w \<and> w_blob w1 = w_blob w)"
proof (cases "\<exists>c i u. token_claims a CookieName r (w_now w) = Some c \<and> cl_Purpose c = PurposeSession \<and>
    uuid_Parse a (cl_Subject c) = Some i \<and> q_UserByID i (w_db w) (w_now (elapse w)) = Inr u \<and> outcome_of w = Done")
  case True
  then obtain c i u where c: "token_claims a CookieName r (w_now w) = Some c" "cl_Purpose c = PurposeSession"
      "uuid_Parse a (cl_Subject c) = Some i" "q_UserByID i (w_db w) (w_now (elapse w)) = Inr u" "outcome_of w = Done"
    by blast
  then show ?thesis
    by (intro disjI1 exI [of _ c] exI [of _ i] exI [of _ u] exI [of _ "elapse w"]) (simp add: auth_Require_run)
next
  case False
  then have "run_state (auth_Require a next r) w = (unauthorized, w) \<or>
      run_state (auth_Require a next r) w = (unauthorized, elapse w)"
    by (auto simp: auth_Require_run split: option.splits sum.splits)
  then show ?thesis by auto
qed

lemma Issue_claims:
  assumes "jwt_ok a" and "result (issue a u purpose ttl) w = Some tok"
  shows "jwt_Parse a (JWTSecret (api_Cfg a)) tok now =
    (if now < whole_second (w_now w + ttl)
     then Some \<lparr>cl_OrgID = uuid_String a (u_OrgID u), cl_Role = u_Role u, cl_Purpose = purpose,
        cl_Subject = uuid_String a (u_ID u), cl_IssuedAt = whole_second (w_now w),
        cl_ExpiresAt = whole_second (w_now w + ttl)\<rparr>
     else None)"
  using assms by (simp add: jwt_ok_def result_def issue_def time_Now_def)

text \<open>
  Claim C26: the token minted after a correct password but before the second factor opens no
  handler behind \<open>Require\<close>, at no time; the token of a full session is refused in its place
  by \<open>PendingUser\<close>; and neither is accepted once its time, to the second, is up.
\<close>

theorem Token_separation:
  assumes "jwt_ok a"
  shows "(result (IssueMFAPending a u) w0 = Some tok \<and> Cookie r CookieName = Some tok \<longrightarrow>
      run_state (auth_Require a next r) w = (unauthorized, w)) \<and>
    (result (Issue a u) w0 = Some tok \<and> Cookie r MFACookieName = Some tok \<longrightarrow>
      run_state (PendingUser a r) w = (Inl ErrUnauthenticated, w)) \<and>
    (result (Issue a u) w0 = Some tok \<and> Cookie r CookieName = Some tok \<and> w_now w \<ge> w_now w0 + TokenTTL \<longrightarrow>
      run_state (auth_Require a next r) w = (unauthorized, w)) \<and>
    (result (IssueMFAPending a u) w0 = Some tok \<and> Cookie r MFACookieName = Some tok \<and> w_now w \<ge> w_now w0 + MFATokenTTL \<longrightarrow>
      run_state (PendingUser a r) w = (Inl ErrUnauthenticated, w))"
proof -
  have "whole_second t \<le> t" for t
    by (simp add: whole_second_def minus_mod_eq_div_mult [symmetric])
  then have late: "\<not> now < whole_second t" if "now \<ge> t" for now t
    using that by (meson not_less order_trans)
  show ?thesis
    using Issue_claims [OF assms, of u PurposeMFA MFATokenTTL w0 tok]
      Issue_claims [OF assms, of u PurposeSession TokenTTL w0 tok]
    by (simp add: Issue_def IssueMFAPending_def auth_Require_def PendingUser_def parse_def time_Now_def late)
qed

text \<open>
  While its twelve hours last, a session token opens every handler behind
  \<open>Require\<close>, for the row its user has now, as long as the user exists and the database answers.
\<close>

theorem Session_complete:
  assumes "jwt_ok a" and "uuid_ok a" and "result (Issue a u) w0 = Some tok"
    and "Cookie r CookieName = Some tok" and "w_now w < whole_second (w_now w0 + TokenTTL)"
    and "outcome_of w = Done" and "q_UserByID (u_ID u) (w_db w) (w_now (elapse w)) = Inr row"
  shows "run_state (auth_Require a next r) w = run_state (next row r) (elapse w)"
  using assms Issue_claims [OF assms(1), of u PurposeSession TokenTTL w0 tok]
  by (simp add: Issue_def auth_Require_def parse_def time_Now_def attempt_def UserByID_def db_query_def Let_def uuid_ok_def)

section \<open>Witnesses\<close>

definition sample_cookies :: "(string \<times> string) list \<Rightarrow> request" where
  "sample_cookies cs = (sample_request ''GET'' ''/api/auth/me'')\<lparr>rq_Cookies := cs\<rparr>"

lemma Cookie_sample [simp]: "Cookie (sample_cookies [(n, v)]) n = Some v"
  by (simp add: Cookie_def sample_cookies_def select_def)

lemma sample_issue: "\<exists>tok. result (issue sample_api u purpose ttl) w = Some tok"
  by (simp add: issue_def result_def time_Now_def sample_api_def sample_sign_def)

theorem Token_separation_witness:
  "\<exists>tok. result (IssueMFAPending sample_api (user.truncate ann)) sample_world = Some tok \<and>
     run_state (auth_Require sample_api (\<lambda>u r. ret NoContent) (sample_cookies [(CookieName, tok)])) sample_world =
       (unauthorized, sample_world)"
proof -
  obtain tok where tok: "result (IssueMFAPending sample_api (user.truncate ann)) sample_world = Some tok"
    using sample_issue [of "user.truncate ann" PurposeMFA MFATokenTTL sample_world] by (auto simp: IssueMFAPending_def)
  with Token_separation [OF sample_jwt_ok, of "user.truncate ann" sample_world tok "sample_cookies [(CookieName, tok)]"
      "\<lambda>u r. ret NoContent" sample_world]
  show ?thesis by simp
qed

theorem Session_complete_witness:
  "\<exists>tok. result (Issue sample_api (user.truncate ann)) sample_world = Some tok \<and>
     run_state (auth_Require sample_api (\<lambda>u r. ret NoContent) (sample_cookies [(CookieName, tok)])) sample_world =
       (NoContent, sample_world)"
proof -
  obtain tok where tok: "result (Issue sample_api (user.truncate ann)) sample_world = Some tok"
    using sample_issue [of "user.truncate ann" PurposeSession TokenTTL sample_world] by (auto simp: Issue_def)
  have "q_UserByID 11 sample_db t = Inr (user.truncate ann)" for t
    by (simp add: q_UserByID_def scanUser_def select_def)
  with tok Session_complete [OF sample_jwt_ok sample_uuid_ok tok, of "sample_cookies [(CookieName, tok)]" sample_world
      "user.truncate ann" "\<lambda>u r. ret NoContent"]
  show ?thesis by (simp add: whole_second_def TokenTTL_def)
qed

end
