(* ===== verification/Obs.thy ===== *)
theory Obs
  imports Session
begin

text \<open>
  \<open>internal/obs/obs.go\<close>: the request id and the one line per request. A log line is known here by
  its level and its event.
\<close>

definition RequestIDHeader :: string where "RequestIDHeader = ''X-Request-ID''"

text \<open>\<open>NewLogger\<close>: the least level a line needs; \<open>None\<close> is debug.\<close>

definition NewLogger :: "string \<Rightarrow> log_level option" where
  "NewLogger level =
     (if level = ''DEBUG'' \<or> level = ''debug'' then None
      else if level = ''WARNING'' \<or> level = ''warn'' then Some Warn else Some Info)"

section \<open>statusWriter\<close>

text \<open>What the connection has been sent: the status lines, and the bytes.\<close>

record statusWriter =
  sw_status :: nat
  sw_wrote :: bool
  sw_lines :: "nat list"
  sw_bytes :: bytes

definition new_statusWriter :: statusWriter where
  "new_statusWriter = \<lparr>sw_status = 200, sw_wrote = False, sw_lines = [], sw_bytes = []\<rparr>"

definition sw_WriteHeader :: "nat \<Rightarrow> statusWriter \<Rightarrow> statusWriter" where
  "sw_WriteHeader c w =
     (let w = (if \<not> sw_wrote w then w\<lparr>sw_status := c, sw_wrote := True\<rparr> else w)
      in w\<lparr>sw_lines := sw_lines w @ [c]\<rparr>)"

definition sw_Write :: "bytes \<Rightarrow> statusWriter \<Rightarrow> statusWriter" where
  "sw_Write b w =
     (let w = (if \<not> sw_wrote w then w\<lparr>sw_status := 200, sw_wrote := True\<rparr> else w)
      in w\<lparr>sw_bytes := sw_bytes w @ b\<rparr>)"

datatype write_call = WriteHeader nat | WriteBody bytes

fun sw_run :: "write_call list \<Rightarrow> statusWriter \<Rightarrow> statusWriter" where
  "sw_run [] w = w"
| "sw_run (WriteHeader c # cs) w = sw_run cs (sw_WriteHeader c w)"
| "sw_run (WriteBody b # cs) w = sw_run cs (sw_Write b w)"

text \<open>The status that is logged is the one the client got: that of the first call, 200 when there was none.\<close>

lemma sw_run_wrote: "sw_wrote w \<Longrightarrow> sw_status (sw_run cs w) = sw_status w"
  by (induction cs w rule: sw_run.induct) (auto simp: sw_WriteHeader_def sw_Write_def Let_def)

lemma sw_run_status:
  "sw_status (sw_run cs new_statusWriter) = (case cs of WriteHeader c # _ \<Rightarrow> c | _ \<Rightarrow> 200)"
proof (cases cs)
  case (Cons c cs')
  then show ?thesis
    by (cases c) (simp_all add: sw_run_wrote sw_WriteHeader_def sw_Write_def new_statusWriter_def Let_def)
qed (simp add: new_statusWriter_def)

section \<open>Middleware\<close>

definition skip_path :: "string \<Rightarrow> bool" where
  "skip_path p \<longleftrightarrow> p = ''/api/health'' \<or> p = ''/api/metrics''"

definition status_level :: "nat \<Rightarrow> log_level" where
  "status_level s = (if s \<ge> 500 then LogError else if s \<ge> 400 then Warn else Info)"

text \<open>A panic unwinds through the middleware: nothing is logged, and there is no answer.\<close>

definition Middleware :: "api \<Rightarrow> handler \<Rightarrow> handler" where
  "Middleware a next r = do {
     i \<leftarrow> (let i = Header_Get r RequestIDHeader
          in if i = [] then do { u \<leftarrow> uuid_New; ret (uuid_String a u) } else ret i);
     resp \<leftarrow> next r;
     if rs_Status resp = 0 then ret panicked
     else do {
       (if skip_path (rq_Path r) then ret () else log_event (status_level (rs_Status resp)) ''http.request'');
       ret (with_header RequestIDHeader i resp) } }"

end
