(* ===== verification/Blob.thy ===== *)
theory Blob
  imports Services
begin

text \<open>
  \<open>internal/blob\<close>: the archive of raw uploads. The object store is a map from keys to objects; its
  two clients are libraries, so an implementation is known here by its constructor only.
  \<open>zstd\<close> compression is a function of the library record.
\<close>

record blob_config =
  bc_Bucket :: string
  bc_Endpoint :: string
  bc_AccessKey :: string
  bc_SecretKey :: string
  bc_PathStyle :: bool

datatype blob_store = GCS string | S3 blob_config

definition blob_New :: "blob_config \<Rightarrow> string + blob_store" where
  "blob_New cfg =
     (if bc_Bucket cfg = [] then Inl ''bucket is required''
      else if bc_Endpoint cfg = [] then Inr (GCS (bc_Bucket cfg)) else Inr (S3 cfg))"

definition blob_Key :: "string \<Rightarrow> string \<Rightarrow> string \<Rightarrow> time \<Rightarrow> string" where
  "blob_Key orgID userID uploadID started =
     orgID @ ''/'' @ userID @ ''/'' @ Format_date started @ ''/'' @ uploadID @ ''.log.zst''"

definition Put :: "string \<Rightarrow> string \<Rightarrow> (unit + unit) M" where
  "Put key object = blob_do (\<lambda>m. m(key \<mapsto> object))"

definition Delete :: "string \<Rightarrow> (unit + unit) M" where
  "Delete key = blob_do (\<lambda>m. m(key := None))"

text \<open>
  A \<open>Put\<close> whose reader fails part way. It returns an error the callers ignore. S3 drops the parts;
  the GCS client closes its writer, which keeps the object as far as it was written: which of
  the two is part of how the call ends.
\<close>

definition Put_aborted :: "string \<Rightarrow> string \<Rightarrow> unit M" where
  "Put_aborted key object = State (\<lambda>w. ((), let w' = elapse w in
     if outcome_of w = Unacknowledged then w'\<lparr>w_blob := (w_blob w')(key \<mapsto> object)\<rparr> else w'))"

lemma wp_Put_aborted [wp_rules]:
  "wp (Put_aborted key object) Q w \<longleftrightarrow>
     (if outcome_of w = Unacknowledged then Q () ((elapse w)\<lparr>w_blob := (w_blob w)(key \<mapsto> object)\<rparr>) else Q () (elapse w))"
  by (simp add: wp_def Put_aborted_def Let_def)

lemma vc_Put_aborted [vc_rules]:
  assumes "\<And>w'. w_db w' = w_db w \<Longrightarrow> w_redis w' = w_redis w \<Longrightarrow> w_now w \<le> w_now w' \<Longrightarrow> Q () w'"
  shows "wp (Put_aborted key object) Q w"
  using elapse_now [of w] by (auto simp: wp_Put_aborted intro!: assms)

lemma quiet_Put_aborted [quiet_run]: "quiet w \<Longrightarrow> run_state (Put_aborted key object) w = ((), w)"
  by (simp add: Put_aborted_def)

text \<open>The prefix of a key is the organization and the user, whose printed ids hold no slash.\<close>

lemma blob_Key_tenant:
  assumes "CHR ''/'' \<notin> set o1" "CHR ''/'' \<notin> set o2" "CHR ''/'' \<notin> set u1" "CHR ''/'' \<notin> set u2"
    and "blob_Key o1 u1 i1 t1 = blob_Key o2 u2 i2 t2"
  shows "o1 = o2 \<and> u1 = u2"
proof -
  have split: "a = b \<and> s = t" if "CHR ''/'' \<notin> set a" "CHR ''/'' \<notin> set b" "a @ ''/'' @ s = b @ ''/'' @ t" for a b s t :: string
    using that
  proof (induction a arbitrary: b)
    case Nil
    then show ?case by (cases b) auto
  next
    case (Cons x a)
    then show ?case by (cases b) auto
  qed
  have "o1 = o2 \<and> u1 @ ''/'' @ Format_date t1 @ ''/'' @ i1 @ ''.log.zst'' = u2 @ ''/'' @ Format_date t2 @ ''/'' @ i2 @ ''.log.zst''"
    by (rule split [OF assms(1,2)]) (use assms(5) in \<open>simp only: blob_Key_def\<close>)
  then show ?thesis using split [OF assms(3,4)] by blast
qed

end
