(* ===== verification/Clients.thy ===== *)
theory Clients
  imports Blob Io
begin

text \<open>
  \<open>internal/blob/gcs.go\<close> and \<open>s3.go\<close>: the two implementations of the archive, over the calls of the
  libraries they wrap. A call of a library takes the next outcome of the world. What the callers rely on is
  stated once, as the locale \<open>object_store\<close>, and holds of both and of the \<open>Put\<close> and \<open>Delete\<close> the handlers are
  modelled with.
\<close>

section \<open>Readers and calls\<close>

text \<open>What \<open>io.Copy\<close> takes from a reader: the bytes, and the error that ended them if it was not \<open>EOF\<close>.\<close>

fun read_chunks :: "(string \<times> io_err option) list \<Rightarrow> io_err \<Rightarrow> string \<times> io_err option" where
  "read_chunks [] e = ([], if e = EOF then None else Some e)"
| "read_chunks ((p, e) # cs) f =
     (case e of
        None \<Rightarrow> (case read_chunks cs f of (q, r) \<Rightarrow> (p @ q, r))
      | Some e \<Rightarrow> (p, if e = EOF then None else Some e))"

definition read_all :: "source \<Rightarrow> string \<times> io_err option" where
  "read_all src = read_chunks (src_chunks src) (src_end src)"

definition blob_query :: "((string \<Rightarrow> string option) \<Rightarrow> unit + 'a) \<Rightarrow> (unit + 'a) M" where
  "blob_query f = State (\<lambda>w. let w' = elapse w in (if outcome_of w = Done then f (w_blob w') else Inl (), w'))"

lemma wp_blob_query [wp_rules]:
  "wp (blob_query f) Q w \<longleftrightarrow> Q (if outcome_of w = Done then f (w_blob w) else Inl ()) (elapse w)"
  by (simp add: wp_def blob_query_def Let_def)

lemma quiet_blob_query [quiet_run]: "quiet w \<Longrightarrow> run_state (blob_query f) w = (f (w_blob w), w)"
  by (simp add: blob_query_def)

text \<open>A reader that was opened, as what reading it to the end gives.\<close>

type_synonym read_closer = "(unit + string) M"

definition read_object :: "string \<Rightarrow> (unit + string) M" where
  "read_object key = blob_query (\<lambda>m. case m key of None \<Rightarrow> Inl () | Some c \<Rightarrow> Inr c)"

section \<open>gcs.go\<close>

record gcs_store =
  gcs_bucket :: string

definition newGCS :: "string option \<Rightarrow> string \<Rightarrow> string + gcs_store" where
  "newGCS client_err bucket = (case client_err of Some e \<Rightarrow> Inl (''gcs: '' @ e) | None \<Rightarrow> Inr \<lparr>gcs_bucket = bucket\<rparr>)"

text \<open>
  The library's \<open>Writer\<close>: \<open>Write\<close> streams bytes, \<open>Close\<close> finalizes the object with those written. After
  a failed \<open>Write\<close> the writer is broken: \<open>Close\<close> fails and nothing is finalized.
\<close>

definition writer_Write :: "bool M" where
  "writer_Write = State (\<lambda>w. (outcome_of w = Done, elapse w))"

definition writer_Close :: "bool \<Rightarrow> string \<Rightarrow> string \<Rightarrow> (unit + unit) M" where
  "writer_Close working key written =
     (if working then blob_do (\<lambda>m. m(key \<mapsto> written)) else State (\<lambda>w. (Inl (), elapse w)))"

definition gcs_Put :: "string \<Rightarrow> source \<Rightarrow> (unit + unit) M" where
  "gcs_Put key r = (case read_all r of (p, read_err) \<Rightarrow> do {
     ok \<leftarrow> writer_Write;
     if ok \<and> read_err = None then writer_Close True key p
     else do { _ \<leftarrow> writer_Close ok key p; ret (Inl ()) } })"

definition gcs_Get :: "string \<Rightarrow> (unit + read_closer) M" where
  "gcs_Get key = attempt (read_object key) (\<lambda>_. ret (Inl ())) (\<lambda>c. ret (Inr (ret (Inr c))))"

datatype gcs_err = ErrObjectNotExist | ErrGCS

definition object_Delete :: "string \<Rightarrow> (gcs_err + unit) M" where
  "object_Delete key = State (\<lambda>w. let w' = elapse w; gone = w'\<lparr>w_blob := (w_blob w')(key := None)\<rparr> in
     (case outcome_of w of
        Lost \<Rightarrow> (Inl ErrGCS, w')
      | Unacknowledged \<Rightarrow> (Inl ErrGCS, gone)
      | Done \<Rightarrow> if w_blob w' key = None then (Inl ErrObjectNotExist, w') else (Inr (), gone)))"

definition gcs_Delete :: "string \<Rightarrow> (unit + unit) M" where
  "gcs_Delete key = attempt (object_Delete key)
     (\<lambda>e. if e = ErrObjectNotExist then ret (Inr ()) else ret (Inl ())) (\<lambda>_. ret (Inr ()))"

definition gcs_Ping :: "gcs_store \<Rightarrow> string option \<Rightarrow> string option" where
  "gcs_Ping g attrs_err = map_option (\<lambda>e. ''bucket '' @ gcs_bucket g @ '': '' @ e) attrs_err"

definition gcs_Describe :: "gcs_store \<Rightarrow> string" where
  "gcs_Describe g = ''gcs '' @ gcs_bucket g"

section \<open>s3.go\<close>

datatype bucket_lookup = BucketLookupAuto | BucketLookupPath

record minio_options =
  mo_AccessKey :: string
  mo_SecretKey :: string
  mo_Secure :: bool
  mo_BucketLookup :: bucket_lookup

record s3_store =
  s3_bucket :: string
  s3_host :: string
  s3_options :: minio_options

text \<open>\<open>url.Parse\<close> (the scheme and the host of the URL) and \<open>minio.New\<close> (an error or a client) are arguments.\<close>

definition newS3 :: "(string \<Rightarrow> string + string \<times> string) \<Rightarrow> (string \<Rightarrow> minio_options \<Rightarrow> string option) \<Rightarrow> blob_config \<Rightarrow>
    string + s3_store" where
  "newS3 url_Parse minio_New cfg =
     (case url_Parse (bc_Endpoint cfg) of
        Inl e \<Rightarrow> Inl (''S3_ENDPOINT: '' @ e)
      | Inr (scheme, host) \<Rightarrow>
          let lookup = (if bc_PathStyle cfg then BucketLookupPath else BucketLookupAuto);
              opts = \<lparr>mo_AccessKey = bc_AccessKey cfg, mo_SecretKey = bc_SecretKey cfg,
                mo_Secure = (scheme = ''https''), mo_BucketLookup = lookup\<rparr>
          in case minio_New host opts of
               Some e \<Rightarrow> Inl e
             | None \<Rightarrow> Inr \<lparr>s3_bucket = bc_Bucket cfg, s3_host = host, s3_options = opts\<rparr>)"

text \<open>\<open>PutObject\<close> of unknown length: the parts are dropped when the reader fails, else completed at once.\<close>

definition PutObject :: "string \<Rightarrow> source \<Rightarrow> (unit + unit) M" where
  "PutObject key r = (case read_all r of
       (p, None) \<Rightarrow> blob_do (\<lambda>m. m(key \<mapsto> p))
     | (p, Some e) \<Rightarrow> State (\<lambda>w. (Inl (), elapse w)))"

definition s3_Put :: "string \<Rightarrow> source \<Rightarrow> (unit + unit) M" where
  "s3_Put key r = PutObject key r"

text \<open>\<open>GetObject\<close> sends nothing: that the object is missing shows when it is read.\<close>

definition s3_Get :: "string \<Rightarrow> (unit + read_closer) M" where
  "s3_Get key = ret (Inr (read_object key))"

definition s3_Delete :: "string \<Rightarrow> (unit + unit) M" where
  "s3_Delete key = blob_do (\<lambda>m. m(key := None))"

definition s3_Ping :: "s3_store \<Rightarrow> string + bool \<Rightarrow> string option" where
  "s3_Ping s exists = (case exists of
       Inl e \<Rightarrow> Some e
     | Inr ok \<Rightarrow> if \<not> ok then Some (''bucket '' @ s3_bucket s @ '' does not exist'') else None)"

definition s3_Describe :: "s3_store \<Rightarrow> string" where
  "s3_Describe s = ''s3 '' @ s3_host s @ ''/'' @ s3_bucket s"

section \<open>The implementation a configuration asks for\<close>

datatype archive_client = GCSStore gcs_store | S3Store s3_store

text \<open>How the libraries answer when a client is made and when its bucket is asked for.\<close>

record client_libs =
  lib_NewClient :: "string option"
  lib_Attrs :: "string option"
  lib_url_Parse :: "string \<Rightarrow> string + string \<times> string"
  lib_minio_New :: "string \<Rightarrow> minio_options \<Rightarrow> string option"
  lib_BucketExists :: "string + bool"

definition client_New :: "client_libs \<Rightarrow> blob_store \<Rightarrow> string + archive_client" where
  "client_New libs st = (case st of
       GCS bucket \<Rightarrow> (case newGCS (lib_NewClient libs) bucket of Inl e \<Rightarrow> Inl e | Inr g \<Rightarrow> Inr (GCSStore g))
     | S3 cfg \<Rightarrow> (case newS3 (lib_url_Parse libs) (lib_minio_New libs) cfg of Inl e \<Rightarrow> Inl e | Inr s \<Rightarrow> Inr (S3Store s)))"

fun client_Ping :: "client_libs \<Rightarrow> archive_client \<Rightarrow> string option" where
  "client_Ping libs (GCSStore g) = gcs_Ping g (lib_Attrs libs)"
| "client_Ping libs (S3Store s) = s3_Ping s (lib_BucketExists libs)"

fun client_Describe :: "archive_client \<Rightarrow> string" where
  "client_Describe (GCSStore g) = gcs_Describe g"
| "client_Describe (S3Store s) = s3_Describe s"

fun client_Put :: "archive_client \<Rightarrow> string \<Rightarrow> source \<Rightarrow> (unit + unit) M" where
  "client_Put (GCSStore g) key r = gcs_Put key r"
| "client_Put (S3Store s) key r = s3_Put key r"

fun client_Delete :: "archive_client \<Rightarrow> string \<Rightarrow> (unit + unit) M" where
  "client_Delete (GCSStore g) key = gcs_Delete key"
| "client_Delete (S3Store s) key = s3_Delete key"

section \<open>What the callers rely on\<close>

text \<open>
  A \<open>Put\<close> leaves the archive as it was or with what was read under the key, whatever it answers; when it
  answers that it worked, it did, and the reader had ended well. \<open>Delete\<close> likewise. A key that is absent is
  no error. Neither touches another key or another service.
\<close>

locale object_store =
  fixes put :: "string \<Rightarrow> source \<Rightarrow> (unit + unit) M" and delete :: "string \<Rightarrow> (unit + unit) M"
  assumes put: "run_state (put key r) w = (res, w') \<Longrightarrow> w_blob w' \<in> {w_blob w, (w_blob w)(key \<mapsto> fst (read_all r))} \<and>
      (res = Inr () \<longrightarrow> snd (read_all r) = None \<and> w_blob w' = (w_blob w)(key \<mapsto> fst (read_all r))) \<and>
      w_db w' = w_db w \<and> w_redis w' = w_redis w \<and> w_now w \<le> w_now w'"
    and delete: "run_state (delete key) w = (res, w') \<Longrightarrow> w_blob w' \<in> {w_blob w, (w_blob w)(key := None)} \<and>
      (res = Inr () \<longrightarrow> w_blob w' key = None) \<and> w_db w' = w_db w \<and> w_redis w' = w_redis w \<and> w_now w \<le> w_now w'"
    and put_quiet: "quiet w \<Longrightarrow> snd (read_all r) = None \<Longrightarrow> result (put key r) w = Inr ()"
    and delete_quiet: "quiet w \<Longrightarrow> result (delete key) w = Inr ()"
begin

lemma put_other: "k \<noteq> key \<Longrightarrow> w_blob (final (put key r) w) k = w_blob w k"
  using put [of key r w "result (put key r) w" "final (put key r) w"] by (auto simp: result_def final_def)

lemma delete_other: "k \<noteq> key \<Longrightarrow> w_blob (final (delete key) w) k = w_blob w k"
  using delete [of key w "result (delete key) w" "final (delete key) w"] by (auto simp: result_def final_def)

text \<open>What was archived is read back, by whichever client, until something is put or deleted under its key.\<close>

lemma put_read:
  assumes "result (put key r) w = Inr ()" and "w_blob v = w_blob (final (put key r) w)" and "quiet v"
  shows "result (read_object key) v = Inr (fst (read_all r))"
proof -
  have "w_blob (final (put key r) w) = (w_blob w)(key \<mapsto> fst (read_all r))"
    using put [of key r w "result (put key r) w" "final (put key r) w"] assms(1) by (auto simp: result_def final_def)
  with assms(2,3) show ?thesis by (simp add: read_object_def result_def quiet_run)
qed

text \<open>Deleting is idempotent: after any number of attempts one that works leaves the archive without the key.\<close>

lemma delete_again:
  assumes "quiet v"
  shows "result (delete key) v = Inr () \<and> w_blob (final (delete key) v) = (w_blob v)(key := None)"
proof -
  have "result (delete key) v = Inr ()" using assms by (rule delete_quiet)
  with delete [of key v "result (delete key) v" "final (delete key) v"] show ?thesis
    by (auto simp: result_def final_def fun_eq_iff)
qed

end

interpretation s3: object_store s3_Put s3_Delete
proof unfold_locales
  show "w_blob w' \<in> {w_blob w, (w_blob w)(key \<mapsto> fst (read_all r))} \<and>
      (res = Inr () \<longrightarrow> snd (read_all r) = None \<and> w_blob w' = (w_blob w)(key \<mapsto> fst (read_all r))) \<and>
      w_db w' = w_db w \<and> w_redis w' = w_redis w \<and> w_now w \<le> w_now w'"
    if "run_state (s3_Put key r) w = (res, w')" for key r w res w'
    using that elapse_now [of w]
    by (auto simp: s3_Put_def PutObject_def blob_do_def Let_def split: prod.splits option.splits if_splits)
  show "w_blob w' \<in> {w_blob w, (w_blob w)(key := None)} \<and> (res = Inr () \<longrightarrow> w_blob w' key = None) \<and>
      w_db w' = w_db w \<and> w_redis w' = w_redis w \<and> w_now w \<le> w_now w'"
    if "run_state (s3_Delete key) w = (res, w')" for key w res w'
    using that elapse_now [of w] by (auto simp: s3_Delete_def blob_do_def Let_def split: if_splits)
qed (auto simp: s3_Put_def PutObject_def s3_Delete_def result_def quiet_run split: prod.splits)

interpretation gcs: object_store gcs_Put gcs_Delete
proof unfold_locales
  show "w_blob w' \<in> {w_blob w, (w_blob w)(key \<mapsto> fst (read_all r))} \<and>
      (res = Inr () \<longrightarrow> snd (read_all r) = None \<and> w_blob w' = (w_blob w)(key \<mapsto> fst (read_all r))) \<and>
      w_db w' = w_db w \<and> w_redis w' = w_redis w \<and> w_now w \<le> w_now w'"
    if "run_state (gcs_Put key r) w = (res, w')" for key r w res w'
    using that elapse_now [of w] elapse_now [of "elapse w"]
    by (auto simp: gcs_Put_def writer_Write_def writer_Close_def blob_do_def Let_def split: prod.splits if_splits)
  show "w_blob w' \<in> {w_blob w, (w_blob w)(key := None)} \<and> (res = Inr () \<longrightarrow> w_blob w' key = None) \<and>
      w_db w' = w_db w \<and> w_redis w' = w_redis w \<and> w_now w \<le> w_now w'"
    if "run_state (gcs_Delete key) w = (res, w')" for key w res w'
    using that elapse_now [of w]
    by (auto simp: gcs_Delete_def attempt_def object_Delete_def Let_def split: outcome.splits if_splits)
qed (auto simp: gcs_Put_def writer_Write_def writer_Close_def gcs_Delete_def attempt_def object_Delete_def Let_def result_def quiet_run
    split: prod.splits)

interpretation client: object_store "client_Put c" "client_Delete c" for c
proof (cases c)
  case (GCSStore g)
  then have "client_Put c = gcs_Put" "client_Delete c = gcs_Delete" by (simp_all add: fun_eq_iff)
  then show "object_store (client_Put c) (client_Delete c)" using gcs.object_store_axioms by simp
next
  case (S3Store s)
  then have "client_Put c = s3_Put" "client_Delete c = s3_Delete" by (simp_all add: fun_eq_iff)
  then show "object_store (client_Put c) (client_Delete c)" using s3.object_store_axioms by simp
qed

text \<open>The handlers' own \<open>Put\<close>, for a reader that ended well or not, keeps the same contract.\<close>

definition archive_Put :: "string \<Rightarrow> source \<Rightarrow> (unit + unit) M" where
  "archive_Put key r = (case read_all r of
       (p, None) \<Rightarrow> Put key p
     | (p, Some e) \<Rightarrow> do { Put_aborted key p; ret (Inl ()) })"

interpretation model: object_store archive_Put Delete
proof unfold_locales
  show "w_blob w' \<in> {w_blob w, (w_blob w)(key \<mapsto> fst (read_all r))} \<and>
      (res = Inr () \<longrightarrow> snd (read_all r) = None \<and> w_blob w' = (w_blob w)(key \<mapsto> fst (read_all r))) \<and>
      w_db w' = w_db w \<and> w_redis w' = w_redis w \<and> w_now w \<le> w_now w'"
    if "run_state (archive_Put key r) w = (res, w')" for key r w res w'
    using that elapse_now [of w]
    by (auto simp: archive_Put_def Put_def Put_aborted_def blob_do_def Let_def split: prod.splits option.splits if_splits)
  show "w_blob w' \<in> {w_blob w, (w_blob w)(key := None)} \<and> (res = Inr () \<longrightarrow> w_blob w' key = None) \<and>
      w_db w' = w_db w \<and> w_redis w' = w_redis w \<and> w_now w \<le> w_now w'"
    if "run_state (Delete key) w = (res, w')" for key w res w'
    using that elapse_now [of w] by (auto simp: Delete_def blob_do_def Let_def split: if_splits)
qed (auto simp: archive_Put_def Put_def Delete_def result_def quiet_run split: prod.splits)

end
