(* ===== verification/Handlers.thy ===== *)
theory Handlers
  imports Session Authz
begin

text \<open>
  \<open>internal/handlers/handlers.go\<close>: what the handlers share (the audit helper, the client's address,
  the slug of an organization's name), the health and metrics endpoints, and the JSON forms of
  the rows.
\<close>

section \<open>JSON forms\<close>

definition uuid_json :: "api \<Rightarrow> uuid \<Rightarrow> json" where
  "uuid_json a i = JStr (uuid_String a i)"

definition opt_json :: "('a \<Rightarrow> json) \<Rightarrow> 'a option \<Rightarrow> json" where
  "opt_json f x = (case x of None \<Rightarrow> JNull | Some y \<Rightarrow> f y)"

definition grant_json :: "api \<Rightarrow> access_grant \<Rightarrow> json" where
  "grant_json a g = JObj [(''id'', uuid_json a (g_ID g)), (''org_id'', uuid_json a (g_OrgID g)),
     (''upload_id'', opt_json (uuid_json a) (g_UploadID g)), (''subject_user_id'', uuid_json a (g_SubjectUserID g)),
     (''level'', JStr (g_Level g)), (''granted_by'', uuid_json a (g_GrantedBy g)),
     (''expires_at'', opt_json JTime (g_ExpiresAt g)), (''created_at'', JTime (g_CreatedAt g))]"

definition upload_fields :: "api \<Rightarrow> upload \<Rightarrow> (string \<times> json) list" where
  "upload_fields a u = [(''id'', uuid_json a (up_ID u)), (''org_id'', uuid_json a (up_OrgID u)),
     (''user_id'', uuid_json a (up_UserID u)), (''filename'', JStr (up_Filename u)), (''byte_size'', JInt (up_ByteSize u)),
     (''line_count'', JInt (up_LineCount u)), (''parsed_count'', JInt (up_ParsedCount u)), (''format'', JStr (up_Format u)),
     (''created_at'', JTime (up_CreatedAt u))]"

definition list_item_json :: "api \<Rightarrow> upload_list_item \<Rightarrow> json" where
  "list_item_json a l = JObj (upload_fields a (li_Upload l) @ [(''analysis_id'', opt_json (uuid_json a) (li_AnalysisID l)),
     (''analysis_status'', opt_json JStr (li_AnalysisStatus l)), (''overall_risk'', opt_json JStr (li_OverallRisk l))])"

definition toUserResponse :: "api \<Rightarrow> user \<Rightarrow> json" where
  "toUserResponse a u = JObj [(''id'', uuid_json a (u_ID u)), (''email'', JStr (u_Email u)), (''role'', JStr (u_Role u)),
     (''org_id'', uuid_json a (u_OrgID u))]"

section \<open>Helpers\<close>

definition audit :: "uuid \<Rightarrow> uuid option \<Rightarrow> string \<Rightarrow> string \<Rightarrow> uuid option \<Rightarrow> (string \<times> json) list \<Rightarrow> unit M" where
  "audit orgID actor action resourceType resourceID detail =
     attempt (Audit orgID actor action resourceType resourceID detail)
       (\<lambda>_. log_event LogError ''audit.failed'') (\<lambda>_. ret ())"

text \<open>\<open>net.SplitHostPort\<close>, the host only.\<close>

definition last_index :: "string \<Rightarrow> char \<Rightarrow> nat option" where
  "last_index s c = map_option (\<lambda>i. length s - 1 - i) (IndexByte (rev s) c)"

definition SplitHostPort :: "string \<Rightarrow> string option" where
  "SplitHostPort s = (case last_index s CHR '':'' of
       None \<Rightarrow> None
     | Some i \<Rightarrow>
         (if hd s = CHR ''[''
          then (case IndexByte s CHR '']'' of
              None \<Rightarrow> None
            | Some e \<Rightarrow>
                (if Suc e \<noteq> i \<or> CHR ''['' \<in> set (drop 1 s) \<or> CHR '']'' \<in> set (drop (Suc e) s) then None
                 else Some (take (e - 1) (drop 1 s))))
          else if CHR '':'' \<in> set (take i s) \<or> CHR ''['' \<in> set s \<or> CHR '']'' \<in> set s then None
          else Some (take i s)))"

definition clientIP :: "request \<Rightarrow> string" where
  "clientIP r =
     (let xff = Header_Get r ''X-Forwarded-For''; rip = Header_Get r ''X-Real-IP''
      in if xff \<noteq> []
         then (case IndexByte xff CHR '','' of
             Some i \<Rightarrow> if i > 0 then TrimSpace (take i xff) else TrimSpace xff
           | None \<Rightarrow> TrimSpace xff)
         else if rip \<noteq> [] then TrimSpace rip
         else case SplitHostPort (rq_RemoteAddr r) of None \<Rightarrow> rq_RemoteAddr r | Some host \<Rightarrow> host)"

section \<open>Health and metrics\<close>

definition health :: handler where
  "health r = ret (JSON 200 (Some (JObj [(''status'', JStr ''ok'')])))"

text \<open>The process's own figures (\<open>runtime.MemStats\<close>) are an argument.\<close>

definition metrics :: "api \<Rightarrow> json \<Rightarrow> handler" where
  "metrics a processMetrics r =
     (let token = Header_Get r ''X-Metrics-Token'';
          token = (if token = [] then TrimPrefix (Header_Get r ''Authorization'') ''Bearer '' else token)
      in if MetricsToken (api_Cfg a) = [] \<or> token \<noteq> MetricsToken (api_Cfg a)
         then ret (Fail 401 ''Not authenticated'')
         else ret (JSON 200 (Some processMetrics)))"

section \<open>slugify\<close>

text \<open>\<open>slugRe\<close> replaces every run of other characters by one hyphen.\<close>

definition slug_char :: "char \<Rightarrow> bool" where
  "slug_char c \<longleftrightarrow> is_lower c \<or> is_digit c"

fun slug_runs :: "bool \<Rightarrow> string \<Rightarrow> string" where
  "slug_runs in_run [] = []"
| "slug_runs in_run (c # s) =
     (if slug_char c then c # slug_runs False s
      else if in_run then slug_runs True s else CHR ''-'' # slug_runs True s)"

definition slugify :: "string \<Rightarrow> string" where
  "slugify s = Trim (slug_runs False (ToLower s)) ''-''"

lemma set_slug_runs: "c \<in> set (slug_runs b s) \<Longrightarrow> slug_char c \<or> c = CHR ''-''"
  by (induction b s rule: slug_runs.induct) (auto split: if_splits)

text \<open>The form of a slug: groups of lower-case letters and digits, single hyphens between them.\<close>

fun no_double :: "string \<Rightarrow> bool" where
  "no_double (x # y # s) \<longleftrightarrow> \<not> (x = CHR ''-'' \<and> y = CHR ''-'') \<and> no_double (y # s)"
| "no_double _ \<longleftrightarrow> True"

definition slug_form :: "string \<Rightarrow> bool" where
  "slug_form s \<longleftrightarrow> (\<forall>c\<in>set s. slug_char c \<or> c = CHR ''-'') \<and> no_double s \<and>
     (s \<noteq> [] \<longrightarrow> hd s \<noteq> CHR ''-'' \<and> last s \<noteq> CHR ''-'')"

lemma slug_char_dash [simp]: "\<not> slug_char CHR ''-''"
  by (simp add: slug_char_def is_lower_def is_digit_def code_def)

lemma no_double_Cons: "no_double (x # s) \<longleftrightarrow> no_double s \<and> (s \<noteq> [] \<and> x = CHR ''-'' \<longrightarrow> hd s \<noteq> CHR ''-'')"
  by (cases s) auto

lemma slug_runs_no_double:
  "no_double (slug_runs b s) \<and> (b \<and> slug_runs b s \<noteq> [] \<longrightarrow> hd (slug_runs b s) \<noteq> CHR ''-'')"
proof (induction b s rule: slug_runs.induct)
  case (2 b c s)
  then show ?case by (auto simp: no_double_Cons)
qed simp

lemma no_double_dropWhile: "no_double s \<Longrightarrow> no_double (dropWhile p s)"
  by (induction s) (auto simp: no_double_Cons)

lemma no_double_append: "no_double (s @ t) \<Longrightarrow> no_double s"
  by (induction s) (auto simp: no_double_Cons split: if_splits)

lemma dropWhile_rev_prefix: "\<exists>t. s = rev (dropWhile p (rev s)) @ t"
  by (metis rev_append rev_rev_ident takeWhile_dropWhile_id)

lemma no_double_trim: "no_double s \<Longrightarrow> no_double (trim_by p s)"
  unfolding trim_by_def by (metis dropWhile_rev_prefix no_double_append no_double_dropWhile)

lemma slugify_form: "slug_form (slugify s)"
proof -
  have "set (slugify s) \<subseteq> set (slug_runs False (ToLower s))"
    by (simp add: slugify_def Trim_def set_trim_by)
  moreover have "no_double (slugify s)"
    using slug_runs_no_double no_double_trim by (simp add: slugify_def Trim_def)
  moreover have "slugify s \<noteq> [] \<longrightarrow> hd (slugify s) \<noteq> CHR ''-'' \<and> last (slugify s) \<noteq> CHR ''-''"
    unfolding slugify_def Trim_def
    by (cases rule: trim_by_cases [of "\<lambda>c. c \<in> set ''-''" "slug_runs False (ToLower s)"]) auto
  ultimately show ?thesis using set_slug_runs by (auto simp: slug_form_def)
qed

lemma slug_runs_id:
  "\<forall>c\<in>set s. slug_char c \<or> c = CHR ''-'' \<Longrightarrow> no_double s \<Longrightarrow> \<not> b \<or> s = [] \<or> hd s \<noteq> CHR ''-'' \<Longrightarrow> slug_runs b s = s"
proof (induction b s rule: slug_runs.induct)
  case (2 b c s)
  then show ?case by (cases "slug_char c") (auto simp: no_double_Cons)
qed simp

lemma slug_form_id: "slug_form s \<Longrightarrow> slugify s = s"
proof -
  assume s: "slug_form s"
  have "lower_char c = c" if "slug_char c \<or> c = CHR ''-''" for c
    using that by (auto simp: slug_char_def lower_char_def is_upper_def is_lower_def is_digit_def code_def)
  then have "ToLower s = s" using s by (auto simp: ToLower_def slug_form_def intro!: map_idI)
  moreover have "slug_runs False s = s" using s by (intro slug_runs_id) (auto simp: slug_form_def)
  moreover have "Trim s ''-'' = s"
  proof (cases "s = []")
    case False
    with s have "dropWhile (\<lambda>c. c \<in> set ''-'') s = s" "dropWhile (\<lambda>c. c \<in> set ''-'') (rev s) = rev s"
      by (cases s, auto simp: slug_form_def) (cases s rule: rev_cases, auto)
    then show ?thesis by (simp add: Trim_def trim_by_def)
  qed (simp add: Trim_def trim_by_def)
  ultimately show ?thesis by (simp add: slugify_def)
qed

text \<open>
  The slug of any name is empty or a sequence of groups of lower-case letters and
  digits joined by single hyphens, and slugs are the fixed points of \<open>slugify\<close>: a name that is
  already a slug keeps it, so two organizations collide exactly when their slugs are equal.
\<close>

theorem slugify_normal_form:
  "slug_form (slugify s) \<and> slugify (slugify s) = slugify s \<and> (slug_form s \<longleftrightarrow> slugify s = s)"
  using slugify_form slug_form_id by metis

section \<open>The audit helper\<close>

lemma audit_vc [vc_rules]:
  assumes "\<And>w'. w_redis w' = w_redis w \<Longrightarrow> w_blob w' = w_blob w \<Longrightarrow> w_now w \<le> w_now w' \<Longrightarrow> w_db w' = w_db w \<Longrightarrow> Q () w'"
    and "\<And>w' row. w_redis w' = w_redis w \<Longrightarrow> w_blob w' = w_blob w \<Longrightarrow> w_now w \<le> w_now w' \<Longrightarrow>
      w_db w' = (w_db w)\<lparr>audit_log := audit_log (w_db w) @ [row], next_id := Suc (next_id (w_db w))\<rparr> \<Longrightarrow>
      al_OrgID row = org \<Longrightarrow> al_ActorUserID row = actor \<Longrightarrow> al_Action row = action \<Longrightarrow> al_ResourceID row = rid \<Longrightarrow>
      al_Detail row = detail \<Longrightarrow> Q () w'"
  shows "wp (audit org actor action rt rid detail) Q w"
proof (cases "outcome_of w")
  case Lost
  then show ?thesis
    by (simp add: audit_def Audit_def wp_rules) (rule assms(1); simp add: elapse_now)
next
  case Done
  then show ?thesis
    by (simp add: audit_def Audit_def wp_rules s_Audit_def) (rule assms(2), (simp add: elapse_now)+)
next
  case Unacknowledged
  then show ?thesis
    by (simp add: audit_def Audit_def wp_rules s_Audit_def) (rule assms(2), (simp add: elapse_now)+)
qed

end
