(* ===== verification/Handlers_Grants.thy ===== *)
theory Handlers_Grants
  imports Handlers
begin

text \<open>\<open>internal/handlers/grants.go\<close>: listing, issuing and revoking grants, and the list of visible uploads.\<close>

section \<open>Listing\<close>

definition listGrants :: "api \<Rightarrow> user \<Rightarrow> handler" where
  "listGrants a caller r =
     attempt (ListGrants (u_OrgID caller))
       (\<lambda>_. do { log_event LogError ''grants.list_failed''; ret (Fail 500 ''Could not list grants'') })
       (\<lambda>grants.
         let grants = (if \<not> IsAdmin (u_Role caller)
               then filter (\<lambda>g. g_GrantedBy g = u_ID caller \<or> g_SubjectUserID g = u_ID caller) grants
               else grants)
         in ret (JSON 200 (Some (JArr (map (grant_json a) grants)))))"

definition listUploads :: "api \<Rightarrow> user \<Rightarrow> handler" where
  "listUploads a caller r =
     attempt (ListVisibleUploads caller)
       (\<lambda>_. do { log_event LogError ''uploads.list_failed''; ret (Fail 500 ''Could not list uploads'') })
       (\<lambda>uploads. ret (JSON 200 (Some (JArr (map (list_item_json a) uploads)))))"

section \<open>Issuing\<close>

definition grantRequest :: "(string \<times> field_kind) list" where
  "grantRequest = [(''subject_user_id'', FString), (''upload_id'', FOptString), (''level'', FString),
     (''expires_at'', FOptTime)]"

text \<open>The second half of \<open>createGrant\<close>, once the permission rules are passed.\<close>

definition issueGrant :: "api \<Rightarrow> user \<Rightarrow> user \<Rightarrow> level \<Rightarrow> uuid option \<Rightarrow> time option \<Rightarrow> response M" where
  "issueGrant a caller subject level uploadID expiresAt =
     (if u_ID subject = u_ID caller then ret (Fail 400 ''You already have access to your own data'')
      else do {
        now \<leftarrow> time_Now;
        if expiresAt \<noteq> None \<and> the expiresAt < now then ret (Fail 400 ''expires_at is in the past'')
        else attempt (UpsertGrant \<lparr>g_ID = 0, g_OrgID = u_OrgID caller, g_UploadID = uploadID,
            g_SubjectUserID = u_ID subject, g_Level = level_String level, g_GrantedBy = u_ID caller,
            g_ExpiresAt = expiresAt, g_CreatedAt = 0\<rparr>)
          (\<lambda>_. do { log_event LogError ''grants.create_failed''; ret (Fail 500 ''Could not create grant'') })
          (\<lambda>grant. do {
             audit (u_OrgID caller) (Some (u_ID caller)) ''grant.created'' ''access_grant'' (Some (g_ID grant))
               [(''subject'', uuid_json a (u_ID subject)), (''level'', JStr (g_Level grant)),
                (''scope'', JStr (if uploadID \<noteq> None then ''upload'' else ''org''))];
             log_event Info ''grants.created'';
             ret (JSON 201 (Some (grant_json a grant))) }) })"

definition createGrant :: "api \<Rightarrow> user \<Rightarrow> handler" where
  "createGrant a caller r =
     (case Decode grantRequest r of
        Inl e \<Rightarrow> ret (Fail 400 e)
      | Inr req \<Rightarrow>
          (case ParseLevel (str_field ''level'' req) of
             None \<Rightarrow> ret (Fail 400 ''level must be one of: summary, dashboard, full'')
           | Some level \<Rightarrow>
               (case uuid_Parse a (str_field ''subject_user_id'' req) of
                  None \<Rightarrow> ret (Fail 400 ''subject_user_id must be a uuid'')
                | Some subjectID \<Rightarrow>
                    attempt (UserByID subjectID) (\<lambda>_. ret (Fail 404 ''No such user in this organization''))
                      (\<lambda>subject.
                        if u_OrgID subject \<noteq> u_OrgID caller then ret (Fail 404 ''No such user in this organization'')
                        else case opt_str_field ''upload_id'' req of
                            None \<Rightarrow>
                              (if \<not> IsAdmin (u_Role caller)
                               then ret (Fail 403 ''Only an administrator can issue an organization-wide grant'')
                               else issueGrant a caller subject level None (opt_time_field ''expires_at'' req))
                          | Some s \<Rightarrow>
                              (case uuid_Parse a s of
                                 None \<Rightarrow> ret (Fail 400 ''upload_id must be a uuid'')
                               | Some i \<Rightarrow>
                                   attempt (UploadByID i) (\<lambda>_. ret (Fail 404 ''Upload not found''))
                                     (\<lambda>up.
                                       if up_OrgID up \<noteq> u_OrgID caller then ret (Fail 404 ''Upload not found'')
                                       else if up_UserID up \<noteq> u_ID caller \<and> \<not> IsAdmin (u_Role caller)
                                       then ret (Fail 403 ''Only the uploader or an administrator can share this upload'')
                                       else if up_UserID up = u_ID subject
                                       then ret (Fail 400 ''That user already owns this upload'')
                                       else issueGrant a caller subject level (Some i)
                                              (opt_time_field ''expires_at'' req)))))))"

section \<open>Revoking\<close>

definition deleteGrant :: "api \<Rightarrow> user \<Rightarrow> handler" where
  "deleteGrant a caller r =
     (case uuid_Parse a (rq_PathID r) of
        None \<Rightarrow> ret (Fail 400 ''id must be a uuid'')
      | Some i \<Rightarrow>
          attempt (GrantByID (u_OrgID caller) i) (\<lambda>_. ret (Fail 404 ''Grant not found'')) (\<lambda>grant.
            if g_GrantedBy grant \<noteq> u_ID caller \<and> \<not> IsAdmin (u_Role caller)
            then ret (Fail 403 ''Only the granter or an administrator can revoke this'')
            else attempt (DeleteGrant (u_OrgID caller) i)
              (\<lambda>e. if e = ErrNotFound then ret (Fail 404 ''Grant not found'')
                   else ret (Fail 500 ''Could not revoke grant''))
              (\<lambda>_. do {
                 audit (u_OrgID caller) (Some (u_ID caller)) ''grant.revoked'' ''access_grant'' (Some i)
                   [(''subject'', uuid_json a (g_SubjectUserID grant)), (''level'', JStr (g_Level grant))];
                 ret NoContent })))"

section \<open>Who may grant what\<close>

text \<open>What a request to issue a grant may have written.\<close>

definition grant_allowed :: "user \<Rightarrow> db \<Rightarrow> time \<Rightarrow> access_grant \<Rightarrow> bool" where
  "grant_allowed caller d now g \<longleftrightarrow>
     g_OrgID g = u_OrgID caller \<and> g_GrantedBy g = u_ID caller \<and> g_SubjectUserID g \<noteq> u_ID caller \<and>
     valid_level (g_Level g) \<and>
     (\<exists>s\<in>set (users d). u_ID s = g_SubjectUserID g \<and> u_OrgID s = u_OrgID caller) \<and>
     (case g_ExpiresAt g of None \<Rightarrow> True | Some x \<Rightarrow> now \<le> x) \<and>
     (case g_UploadID g of
        None \<Rightarrow> IsAdmin (u_Role caller)
      | Some i \<Rightarrow> \<exists>up\<in>set (uploads d). up_ID up = i \<and> up_OrgID up = u_OrgID caller \<and>
          (up_UserID up = u_ID caller \<or> IsAdmin (u_Role caller)) \<and> up_UserID up \<noteq> g_SubjectUserID g)"

definition grant_step :: "user \<Rightarrow> time \<Rightarrow> db \<Rightarrow> db \<Rightarrow> bool" where
  "grant_step caller now d d' \<longleftrightarrow> access_grants d' = access_grants d \<or>
     (\<exists>g h t e now'. now \<le> now' \<and> grant_allowed caller d now' g \<and> s_UpsertGrant g d t = Inr (h, e) \<and>
        access_grants d' = access_grants e)"

lemma grant_step_other [simp]:
  "grant_step caller now d (d'\<lparr>audit_log := rows, next_id := n\<rparr>) = grant_step caller now d d'"
  by (simp add: grant_step_def)

lemma grant_step_refl [simp]: "access_grants d' = access_grants d \<Longrightarrow> grant_step caller now d d'"
  by (simp add: grant_step_def)

lemma s_UpsertGrant_row:
  assumes "s_UpsertGrant g d t = Inr (h, d')"
  shows "h \<in> set (access_grants d') \<and> grant_key h = grant_key g \<and> g_Level h = g_Level g \<and> g_ExpiresAt h = g_ExpiresAt g \<and>
    g_GrantedBy h = g_GrantedBy g"
  using assms
proof (cases rule: s_UpsertGrant_cases)
  case (update k)
  then have "h \<in> set (access_grants d')"
    by (auto simp: set_update_where grant_conflict_iff_key intro!: image_eqI [of _ _ k])
  with update(2,3) show ?thesis using grant_key_update [of g k] by (simp only:) (simp add: grant_update_def)
qed (auto simp: grant_key_def split: option.split)

lemma issueGrant_vc:
  assumes "\<exists>s\<in>set (users (w_db w)). u_ID s = u_ID subject \<and> u_OrgID s = u_OrgID caller"
    and "level \<noteq> LevelNone" and "now \<le> w_now w"
    and "case uploadID of None \<Rightarrow> IsAdmin (u_Role caller)
      | Some i \<Rightarrow> \<exists>up\<in>set (uploads (w_db w)). up_ID up = i \<and> up_OrgID up = u_OrgID caller \<and>
          (up_UserID up = u_ID caller \<or> IsAdmin (u_Role caller)) \<and> up_UserID up \<noteq> u_ID subject"
  shows "wp (issueGrant a caller subject level uploadID x) (\<lambda>r w'. grant_step caller now (w_db w) (w_db w') \<and>
    uploads (w_db w') = uploads (w_db w) \<and> users (w_db w') = users (w_db w) \<and>
    (rs_Status r = 201 \<longrightarrow> (\<exists>h\<in>set (access_grants (w_db w')). g_SubjectUserID h = u_ID subject \<and>
       g_UploadID h = uploadID \<and> (uploadID = None \<longrightarrow> g_OrgID h = u_OrgID caller) \<and>
       g_Level h = level_String level \<and> g_ExpiresAt h = x))) w"
proof -
  let ?g = "\<lparr>g_ID = 0, g_OrgID = u_OrgID caller, g_UploadID = uploadID, g_SubjectUserID = u_ID subject,
    g_Level = level_String level, g_GrantedBy = u_ID caller, g_ExpiresAt = x, g_CreatedAt = 0\<rparr>"
  have allowed: "grant_allowed caller (w_db w) (w_now w) ?g"
    if "u_ID subject \<noteq> u_ID caller" "\<not> (x \<noteq> None \<and> the x < w_now w)"
    using assms that by (auto simp: grant_allowed_def valid_level_String split: option.splits)
  have kept: "uploads d = uploads (w_db w) \<and> users d = users (w_db w)" if "s_UpsertGrant ?g (w_db w) t = Inr (h, d)" for h d t
    using that by (cases rule: s_UpsertGrant_cases) auto
  have row: "\<exists>h\<in>set (access_grants d). g_SubjectUserID h = u_ID subject \<and> g_UploadID h = uploadID \<and>
      (uploadID = None \<longrightarrow> g_OrgID h = u_OrgID caller) \<and> g_Level h = level_String level \<and> g_ExpiresAt h = x"
    if "s_UpsertGrant ?g (w_db w) t = Inr (h, d)" for h d t
    using s_UpsertGrant_row [OF that] by (intro bexI [of _ h]) (auto simp: grant_key_def split: option.splits)
  have post: "grant_step caller now (w_db w) d \<and> uploads d = uploads (w_db w) \<and> users d = users (w_db w) \<and>
      (\<exists>h\<in>set (access_grants d). g_SubjectUserID h = u_ID subject \<and> g_UploadID h = uploadID \<and>
      (uploadID = None \<longrightarrow> g_OrgID h = u_OrgID caller) \<and> g_Level h = level_String level \<and> g_ExpiresAt h = x)"
    if "s_UpsertGrant ?g (w_db w) t = Inr (h, d)" "u_ID subject \<noteq> u_ID caller" "x = None \<or> \<not> the x < w_now w" for h d t
    unfolding grant_step_def
    using allowed [OF that(2)] assms(3) that(1,3) row [OF that(1)] kept [OF that(1)] by metis
  show ?thesis
    unfolding issueGrant_def UpsertGrant_def
    by (intro vc_rules; simp; drule (2) post; simp)
qed

text \<open>What a successful request asked for is in the table.\<close>

definition granted_row :: "api \<Rightarrow> user \<Rightarrow> request \<Rightarrow> db \<Rightarrow> access_grant \<Rightarrow> bool" where
  "granted_row a caller r d h \<longleftrightarrow> h \<in> set (access_grants d) \<and> valid_level (g_Level h) \<and>
     (\<exists>req. Decode grantRequest r = Inr req \<and> uuid_Parse a (str_field ''subject_user_id'' req) = Some (g_SubjectUserID h) \<and>
        g_Level h = str_field ''level'' req \<and> g_ExpiresAt h = opt_time_field ''expires_at'' req \<and>
        (case opt_str_field ''upload_id'' req of
           None \<Rightarrow> g_UploadID h = None \<and> g_OrgID h = u_OrgID caller
         | Some s \<Rightarrow> uuid_Parse a s = g_UploadID h \<and> g_UploadID h \<noteq> None \<and>
             (\<exists>up\<in>set (uploads d). Some (up_ID up) = g_UploadID h \<and> up_OrgID up = u_OrgID caller)))"

lemma createGrant_vc:
  "wp (createGrant a caller r) (\<lambda>resp w'. grant_step caller (w_now w) (w_db w) (w_db w') \<and>
     uploads (w_db w') = uploads (w_db w) \<and> users (w_db w') = users (w_db w) \<and>
     (rs_Status resp = 201 \<longrightarrow> (\<exists>h. granted_row a caller r (w_db w') h))) w"
proof -
  have row: "\<exists>h. granted_row a caller r d h"
    if "Decode grantRequest r = Inr req" "uuid_Parse a (str_field ''subject_user_id'' req) = Some sid"
      "ParseLevel (str_field ''level'' req) = Some level"
      "\<exists>h\<in>set (access_grants d). g_SubjectUserID h = sid \<and> g_UploadID h = uploadID \<and>
         (uploadID = None \<longrightarrow> g_OrgID h = u_OrgID caller) \<and> g_Level h = level_String level \<and>
         g_ExpiresAt h = opt_time_field ''expires_at'' req"
      "case opt_str_field ''upload_id'' req of None \<Rightarrow> uploadID = None
       | Some s \<Rightarrow> uuid_Parse a s = uploadID \<and> uploadID \<noteq> None \<and>
          (\<exists>up\<in>set (uploads d). Some (up_ID up) = uploadID \<and> up_OrgID up = u_OrgID caller)"
    for req sid level d uploadID
  proof -
    from that(4) obtain h where "h \<in> set (access_grants d)" "g_SubjectUserID h = sid" "g_UploadID h = uploadID"
        "uploadID = None \<longrightarrow> g_OrgID h = u_OrgID caller" "g_Level h = level_String level"
        "g_ExpiresAt h = opt_time_field ''expires_at'' req"
      by (elim bexE conjE)
    with that(1-3,5) show ?thesis
      by (intro exI [of _ h]) (auto simp: granted_row_def valid_level_String dest!: ParseLevel_Some split: option.splits)
  qed
  show ?thesis
    unfolding createGrant_def UserByID_def UploadByID_def
    apply (intro vc_rules wp_mono [OF issueGrant_vc [where now = "w_now w"]])
        apply simp_all
    subgoal by (auto dest!: q_UserByID_Inr)
    subgoal by (auto dest!: ParseLevel_Some)
    subgoal for req level subjectID
      by (intro impI, rule row [of req subjectID level _ None]) (auto dest!: q_UserByID_Inr)
    subgoal by (auto dest!: q_UserByID_Inr)
    subgoal by (auto dest!: ParseLevel_Some)
    subgoal by (auto dest!: q_UploadByID_Inr)
    subgoal for req level subjectID x w1 s i
      by (intro impI, rule row [of req subjectID level _ "Some i"]) (auto dest!: q_UserByID_Inr q_UploadByID_Inr)
    done
qed

text \<open>
  Claim C11: whatever calls fail, a request to issue a grant either leaves the grants alone
  or upserts one that its caller may issue: in the caller's own organization, in the caller's
  name, to a colleague other than the caller, at a valid level and not already expired; on an
  upload only of that organization, and only by its uploader or an administrator, and not to
  the uploader; organization-wide only by an administrator.
\<close>

theorem createGrant_sound:
  assumes "run_state (createGrant a caller r) w = (resp, w')"
  shows "grant_step caller (w_now w) (w_db w) (w_db w')"
  using wpD [OF createGrant_vc assms] by blast

text \<open>
  Claim C33: a grant the service confirms is in force: at every later instant before its expiry
  (or for ever, without one), as long as the row stands, its subject's tier on the shared upload,
  or on every upload of the organization, is at least the level that was granted.
\<close>

theorem Grant_effective:
  assumes "run_state (createGrant a caller r) w = (resp, w')" and "rs_Status resp = 201" and "levels_valid d"
  shows "\<exists>h level. granted_row a caller r (w_db w') h \<and> ParseLevel (g_Level h) = Some level \<and>
    (\<forall>subject up t. h \<in> set (access_grants d) \<and> u_ID subject = g_SubjectUserID h \<and> u_OrgID subject = g_OrgID h \<and>
       up_OrgID up = g_OrgID h \<and> (g_UploadID h = None \<or> g_UploadID h = Some (up_ID up)) \<and>
       (g_ExpiresAt h = None \<or> (\<exists>x. g_ExpiresAt h = Some x \<and> t < x)) \<longrightarrow> level \<le> tier subject up d t)"
proof -
  obtain h where h: "granted_row a caller r (w_db w') h" using wpD [OF createGrant_vc assms(1)] assms(2) by blast
  then obtain level where level: "ParseLevel (g_Level h) = Some level" by (auto simp: granted_row_def ParseLevel_valid)
  have "level \<le> tier subject up d t"
    if "h \<in> set (access_grants d)" "u_ID subject = g_SubjectUserID h" "u_OrgID subject = g_OrgID h"
      "up_OrgID up = g_OrgID h" "g_UploadID h = None \<or> g_UploadID h = Some (up_ID up)"
      "g_ExpiresAt h = None \<or> (\<exists>x. g_ExpiresAt h = Some x \<and> t < x)" for subject up t
  proof -
    have "h \<in> set (live_grants (u_ID subject) (u_OrgID subject) (up_ID up) d t)"
      using that by (auto simp: set_live_grants grant_covers_def grant_live_def)
    then have "level \<in> grant_tiers subject (up_ID up) d t" using level by (auto simp: grant_tiers_def)
    then show ?thesis using that(3,4) by (auto simp: tier_def finite_grant_tiers)
  qed
  with h level show ?thesis by blast
qed

section \<open>Revoking\<close>

lemma s_DeleteGrant_Inr:
  "s_DeleteGrant org i d t = Inr (u, d') \<Longrightarrow>
     d' = d\<lparr>access_grants := delete_where (\<lambda>g. g_ID g = i \<and> g_OrgID g = org) (access_grants d)\<rparr>"
  by (auto simp: s_DeleteGrant_def Let_def split: if_splits)

lemma q_GrantByID_Inr: "q_GrantByID org i d t = Inr g \<Longrightarrow> g \<in> set (access_grants d) \<and> g_ID g = i \<and> g_OrgID g = org"
  by (auto simp: q_GrantByID_def dest: first_row_select_SomeD)

definition revoked :: "uuid \<Rightarrow> uuid \<Rightarrow> db \<Rightarrow> db \<Rightarrow> bool" where
  "revoked org i d d' \<longleftrightarrow>
     access_grants d' = delete_where (\<lambda>g. g_ID g = i \<and> g_OrgID g = org) (access_grants d) \<and> uploads d' = uploads d"

lemma deleteGrant_vc:
  "wp (deleteGrant a caller r) (\<lambda>resp w'.
     (access_grants (w_db w') = access_grants (w_db w) \<and> rs_Status resp \<noteq> 204 \<or>
      (\<exists>i g. uuid_Parse a (rq_PathID r) = Some i \<and> g \<in> set (access_grants (w_db w)) \<and> g_ID g = i \<and> g_OrgID g = u_OrgID caller \<and>
         (g_GrantedBy g = u_ID caller \<or> IsAdmin (u_Role caller)) \<and> revoked (u_OrgID caller) i (w_db w) (w_db w')))) w"
  unfolding deleteGrant_def GrantByID_def DeleteGrant_def
  by (intro vc_rules) (auto dest!: s_DeleteGrant_Inr q_GrantByID_Inr simp: revoked_def)

text \<open>
  Revoking removes only a grant of the caller's organization that the caller
  issued or, as an administrator, may revoke; and once the service confirms it, everyone's tier
  on every upload is what it is without that grant, at once and for as long as no new one is
  issued: no cached decision survives.
\<close>

theorem Revocation_effective:
  assumes "run_state (deleteGrant a caller r) w = (resp, w')" and "rs_Status resp = 204"
  shows "\<exists>i g. uuid_Parse a (rq_PathID r) = Some i \<and> g \<in> set (access_grants (w_db w)) \<and> g_ID g = i \<and>
    g_OrgID g = u_OrgID caller \<and> (g_GrantedBy g = u_ID caller \<or> IsAdmin (u_Role caller)) \<and>
    g \<notin> set (access_grants (w_db w')) \<and>
    (\<forall>subject up t. tier subject up (w_db w') t =
       tier subject up ((w_db w)\<lparr>access_grants := filter (\<lambda>h. \<not> (g_ID h = i \<and> g_OrgID h = g_OrgID g)) (access_grants (w_db w))\<rparr>) t)"
proof -
  from wpD [OF deleteGrant_vc assms(1)] assms(2) obtain i g
    where g: "uuid_Parse a (rq_PathID r) = Some i" "g \<in> set (access_grants (w_db w))" "g_ID g = i" "g_OrgID g = u_OrgID caller"
      "g_GrantedBy g = u_ID caller \<or> IsAdmin (u_Role caller)" "revoked (u_OrgID caller) i (w_db w) (w_db w')"
    by auto
  then have "access_grants (w_db w') = filter (\<lambda>h. \<not> (g_ID h = i \<and> g_OrgID h = g_OrgID g)) (access_grants (w_db w))"
    by (simp add: revoked_def delete_where_def)
  with g show ?thesis
    by (intro exI [of _ i] exI [of _ g]) (simp add: tier_def grant_tiers_def live_grants_def)
qed

section \<open>Witnesses\<close>

lemma sample_uuid_Parse [simp]: "uuid_Parse sample_api s = (if s = [] then None else digits_value 0 s)"
  by (simp add: sample_api_def)

lemma sample_grants [simp]:
  "g_ID eves_grant = 41" "g_OrgID eves_grant = 1" "g_UploadID eves_grant = Some 31" "g_SubjectUserID eves_grant = 14"
  "g_GrantedBy eves_grant = 13"
  by (simp_all add: eves_grant_def)

lemma sample_orgs [simp]: "o_ID org_acme = 1" "o_ID org_rival = 2"
  by (simp_all add: org_acme_def org_rival_def)

text \<open>The uploader of file 31 shares it in full with user 14, and revokes grant 41.\<close>

definition sample_share :: request where
  "sample_share = (sample_request ''POST'' ''/api/grants'')\<lparr>rq_Body := JsonBody (JObj
     [(''subject_user_id'', JStr ''14''), (''upload_id'', JStr ''31''), (''level'', JStr ''full'')])\<rparr>"

lemma sample_share_decode:
  "Decode grantRequest sample_share =
     Inr [(''subject_user_id'', JStr ''14''), (''upload_id'', JStr ''31''), (''level'', JStr ''full'')]"
  by (simp add: Decode_def sample_share_def decode_json_def grantRequest_def field_for_def select_def field_accepts_def)

lemma sample_share_run:
  "\<exists>resp w'. run_state (createGrant sample_api (user.truncate cyd) sample_share) sample_world = (resp, w') \<and> rs_Status resp = 201"
  by (simp add: createGrant_def sample_share_decode str_field_def opt_str_field_def opt_time_field_def values_of_def
      ParseLevel_def is_digit_def code_def quiet_run op_defs q_UserByID_def scanUser_def select_def q_UploadByID_def scanUpload_def
      issueGrant_def audit_def s_Audit_def s_UpsertGrant_def valid_level_iff level_String_def grant_refs_ok_def
      grant_conflict_def Let_def)

theorem createGrant_sound_witness:
  "\<exists>resp w'. run_state (createGrant sample_api (user.truncate cyd) sample_share) sample_world = (resp, w') \<and>
     grant_step (user.truncate cyd) (1000 * second) sample_db (w_db w')"
proof -
  obtain resp w' where "run_state (createGrant sample_api (user.truncate cyd) sample_share) sample_world = (resp, w')"
    using sample_share_run by blast
  with createGrant_sound [OF this] show ?thesis by auto
qed

theorem Grant_effective_witness:
  "\<exists>resp w' h. run_state (createGrant sample_api (user.truncate cyd) sample_share) sample_world = (resp, w') \<and>
     granted_row sample_api (user.truncate cyd) sample_share (w_db w') h"
proof -
  obtain resp w' where "run_state (createGrant sample_api (user.truncate cyd) sample_share) sample_world = (resp, w')"
      "rs_Status resp = 201"
    using sample_share_run by blast
  with Grant_effective [OF this sample_levels_valid] show ?thesis by blast
qed

definition sample_revoke :: request where
  "sample_revoke = (sample_request ''DELETE'' ''/api/grants/41'')\<lparr>rq_PathID := ''41''\<rparr>"

theorem Revocation_effective_witness:
  "\<exists>resp w'. run_state (deleteGrant sample_api (user.truncate cyd) sample_revoke) sample_world = (resp, w') \<and>
     rs_Status resp = 204 \<and> eves_grant \<notin> set (access_grants (w_db w'))"
proof -
  obtain resp w' where run: "run_state (deleteGrant sample_api (user.truncate cyd) sample_revoke) sample_world = (resp, w')"
      "rs_Status resp = 204"
    by (simp add: deleteGrant_def sample_revoke_def is_digit_def code_def quiet_run op_defs q_GrantByID_def select_def
        s_DeleteGrant_def affected_def audit_def s_Audit_def Let_def)
  from Revocation_effective [OF this] obtain g where "g \<in> {eves_grant}" "g \<notin> set (access_grants (w_db w'))" by auto
  with run show ?thesis by blast
qed

end
