(* ===== verification/Redis.thy ===== *)
theory Redis
  imports World
begin

text \<open>
  The Redis commands the gateway sends, as functions of the keyspace and the server's clock. An
  entry whose time is up is absent. A pipeline between \<open>MULTI\<close> and \<open>EXEC\<close> runs all its commands at
  one instant; one that fails does not stop the others.
\<close>

section \<open>Keys and their time to live\<close>

definition live :: "time \<Rightarrow> redis_entry \<Rightarrow> bool" where
  "live t e \<longleftrightarrow> (case re_expires e of None \<Rightarrow> True | Some x \<Rightarrow> t < x)"

definition lookup_live :: "redis \<Rightarrow> time \<Rightarrow> string \<Rightarrow> redis_entry option" where
  "lookup_live r t k = (case r k of None \<Rightarrow> None | Some e \<Rightarrow> if live t e then Some e else None)"

definition store_entry :: "string \<Rightarrow> redis_value \<Rightarrow> time option \<Rightarrow> redis \<Rightarrow> redis" where
  "store_entry k v x r = r(k \<mapsto> \<lparr>re_value = v, re_expires = x\<rparr>)"

definition remove_key :: "string \<Rightarrow> redis \<Rightarrow> redis" where
  "remove_key k r = r(k := None)"

section \<open>Commands\<close>

text \<open>A string that is a decimal integer counts as one.\<close>

definition as_int :: "redis_value \<Rightarrow> int option" where
  "as_int v = (case v of RInt n \<Rightarrow> Some n | RStr s \<Rightarrow> ParseInt 64 s | RList _ \<Rightarrow> None)"

definition cmd_get_int :: "string \<Rightarrow> redis \<Rightarrow> time \<Rightarrow> redis_err + (int option \<times> redis)" where
  "cmd_get_int k r t = (case lookup_live r t k of
       None \<Rightarrow> Inr (None, r)
     | Some e \<Rightarrow> (case as_int (re_value e) of Some n \<Rightarrow> Inr (Some n, r) | None \<Rightarrow> Inl RedisError))"

text \<open>\<open>TTL\<close> answers in seconds, rounded; -2 for no such key, -1 for no expiry (in nanoseconds).\<close>

definition cmd_ttl :: "string \<Rightarrow> redis \<Rightarrow> time \<Rightarrow> redis_err + (duration \<times> redis)" where
  "cmd_ttl k r t = Inr ((case lookup_live r t k of
       None \<Rightarrow> -2
     | Some e \<Rightarrow> (case re_expires e of None \<Rightarrow> -1 | Some x \<Rightarrow> (x - t + 500000000) div second * second)), r)"

definition cmd_exists :: "string \<Rightarrow> redis \<Rightarrow> time \<Rightarrow> redis_err + (int \<times> redis)" where
  "cmd_exists k r t = Inr ((if lookup_live r t k = None then 0 else 1), r)"

definition cmd_set :: "string \<Rightarrow> redis_value \<Rightarrow> duration \<Rightarrow> redis \<Rightarrow> time \<Rightarrow> redis_err + (unit \<times> redis)" where
  "cmd_set k v ttl r t = Inr ((), store_entry k v (Some (t + ttl)) r)"

definition cmd_setnx :: "string \<Rightarrow> redis_value \<Rightarrow> duration \<Rightarrow> redis \<Rightarrow> time \<Rightarrow> redis_err + (bool \<times> redis)" where
  "cmd_setnx k v ttl r t =
     (if lookup_live r t k = None then Inr (True, store_entry k v (Some (t + ttl)) r) else Inr (False, r))"

definition cmd_del :: "string list \<Rightarrow> redis \<Rightarrow> time \<Rightarrow> redis_err + (unit \<times> redis)" where
  "cmd_del ks r t = Inr ((), fold remove_key ks r)"

definition cmd_llen :: "string \<Rightarrow> redis \<Rightarrow> time \<Rightarrow> redis_err + (nat \<times> redis)" where
  "cmd_llen k r t = (case lookup_live r t k of
       None \<Rightarrow> Inr (0, r)
     | Some e \<Rightarrow> (case re_value e of RList xs \<Rightarrow> Inr (length xs, r) | _ \<Rightarrow> Inl RedisError))"

text \<open>Commands inside a pipeline: the new keyspace, and the reply.\<close>

definition pipe_incr :: "string \<Rightarrow> redis \<Rightarrow> time \<Rightarrow> (redis_err + int) \<times> redis" where
  "pipe_incr k r t = (case lookup_live r t k of
       None \<Rightarrow> (Inr 1, store_entry k (RInt 1) None r)
     | Some e \<Rightarrow> (case as_int (re_value e) of
           Some n \<Rightarrow> (Inr (n + 1), store_entry k (RInt (n + 1)) (re_expires e) r)
         | None \<Rightarrow> (Inl RedisError, r)))"

definition pipe_expire_nx :: "string \<Rightarrow> duration \<Rightarrow> redis \<Rightarrow> time \<Rightarrow> redis" where
  "pipe_expire_nx k ttl r t = (case lookup_live r t k of
       None \<Rightarrow> r
     | Some e \<Rightarrow> (case re_expires e of
           None \<Rightarrow> store_entry k (re_value e) (Some (t + ttl)) r
         | Some _ \<Rightarrow> r))"

definition pipe_lpush :: "string \<Rightarrow> json \<Rightarrow> redis \<Rightarrow> time \<Rightarrow> (redis_err + unit) \<times> redis" where
  "pipe_lpush k v r t = (case lookup_live r t k of
       None \<Rightarrow> (Inr (), store_entry k (RList [v]) None r)
     | Some e \<Rightarrow> (case re_value e of
           RList xs \<Rightarrow> (Inr (), store_entry k (RList (v # xs)) (re_expires e) r)
         | _ \<Rightarrow> (Inl RedisError, r)))"

section \<open>An interface: keys that expire\<close>

text \<open>
  What the users of a key with a time to live rely on: what was written under a key is found
  until its time is up and not after, and writing under one key does not disturb another.
\<close>

locale expiring_store =
  fixes find :: "'s \<Rightarrow> time \<Rightarrow> 'k \<Rightarrow> 'v option"
    and put :: "'k \<Rightarrow> 'v \<Rightarrow> time \<Rightarrow> 's \<Rightarrow> 's"
  assumes find_put: "find (put k v x s) t k' = (if k' = k then (if t < x then Some v else None) else find s t k')"
begin

text \<open>Take a key unless it is taken: the answer says whether this call took it.\<close>

definition claim :: "'k \<Rightarrow> 'v \<Rightarrow> duration \<Rightarrow> 's \<Rightarrow> time \<Rightarrow> bool \<times> 's" where
  "claim k v ttl s t = (if find s t k = None then (True, put k v (t + ttl) s) else (False, s))"

fun claims :: "'k \<Rightarrow> 'v \<Rightarrow> duration \<Rightarrow> 's \<Rightarrow> time list \<Rightarrow> bool list \<times> 's" where
  "claims k v ttl s [] = ([], s)"
| "claims k v ttl s (t # ts) =
     (case claim k v ttl s t of (b, s) \<Rightarrow> case claims k v ttl s ts of (bs, s) \<Rightarrow> (b # bs, s))"

lemma claimed_until:
  assumes "find s t0 k = None" and "t < t0 + ttl"
  shows "find (snd (claim k v ttl s t0)) t k = Some v"
  using assms by (simp add: claim_def find_put)

lemma no_second_claim:
  assumes "\<forall>t\<in>set ts. find s t k \<noteq> None"
  shows "claims k v ttl s ts = (replicate (length ts) False, s)"
  using assms by (induction ts) (auto simp: claim_def)

text \<open>However often it is tried while the first claim lasts, one call succeeds: the first.\<close>

lemma single_use:
  assumes "find s t0 k = None" and "\<forall>t\<in>set ts. t < t0 + ttl"
  shows "fst (claims k v ttl s (t0 # ts)) = True # replicate (length ts) False"
proof -
  have "claim k v ttl s t0 = (True, put k v (t0 + ttl) s)" using assms(1) by (simp add: claim_def)
  moreover have "\<forall>t\<in>set ts. find (put k v (t0 + ttl) s) t k \<noteq> None" using assms(2) by (simp add: find_put)
  ultimately show ?thesis by (simp add: no_second_claim)
qed

end

definition find_value :: "redis \<Rightarrow> time \<Rightarrow> string \<Rightarrow> redis_value option" where
  "find_value r t k = map_option re_value (lookup_live r t k)"

definition put_value :: "string \<Rightarrow> redis_value \<Rightarrow> time \<Rightarrow> redis \<Rightarrow> redis" where
  "put_value k v x r = store_entry k v (Some x) r"

interpretation redis_keys: expiring_store find_value put_value
  by unfold_locales (simp add: find_value_def put_value_def lookup_live_def store_entry_def live_def)

lemma setnx_claim: "cmd_setnx k v ttl r t = Inr (redis_keys.claim k v ttl r t)"
  by (simp add: cmd_setnx_def redis_keys.claim_def find_value_def put_value_def)

section \<open>Lemmas\<close>

lemma lookup_store [simp]:
  "lookup_live (store_entry k v x r) t k' =
    (if k' = k then (if live t \<lparr>re_value = v, re_expires = x\<rparr> then Some \<lparr>re_value = v, re_expires = x\<rparr> else None)
     else lookup_live r t k')"
  by (simp add: lookup_live_def store_entry_def)

lemma live_simps [simp]:
  "live t \<lparr>re_value = v, re_expires = None\<rparr>" "live t \<lparr>re_value = v, re_expires = Some x\<rparr> \<longleftrightarrow> t < x"
  by (simp_all add: live_def)

lemma lookup_remove [simp]: "lookup_live (remove_key k r) t k' = (if k' = k then None else lookup_live r t k')"
  by (simp add: lookup_live_def remove_key_def)

lemma lookup_live_mono: "lookup_live r t k = Some e \<Longrightarrow> s \<le> t \<Longrightarrow> lookup_live r s k = Some e"
  by (auto simp: lookup_live_def live_def split: option.splits if_splits)

end
