(* ===== verification/Ratelimit.thy ===== *)
theory Ratelimit
  imports Redis Services Samples
begin

text \<open>
  \<open>internal/ratelimit/ratelimit.go\<close>: two counters in Redis, by address and by account, the lock an
  account's counter raises, and the single-use marks behind TOTP codes. The limiter fails open:
  a Redis error lets the attempt pass.
\<close>

definition ipLimit :: int where "ipLimit = 20"
definition ipWindow :: duration where "ipWindow = 5 * minute"
definition acctLimit :: int where "acctLimit = 10"
definition acctWindow :: duration where "acctWindow = 30 * minute"
definition lockDuration :: duration where "lockDuration = 15 * minute"

record decision =
  d_Allowed :: bool
  d_IPThrottled :: bool
  d_AccountLocked :: bool
  d_RetryAfter :: duration

definition allow :: decision where
  "allow = \<lparr>d_Allowed = True, d_IPThrottled = False, d_AccountLocked = False, d_RetryAfter = 0\<rparr>"

definition accountKey :: "api \<Rightarrow> string \<Rightarrow> string" where
  "accountKey a account =
     ''rl:acct:'' @ hex_EncodeToString (take 8 (sha256_Sum a (bytes_of (ToLower (TrimSpace account)))))"

definition ipKey :: "string \<Rightarrow> string" where
  "ipKey ip = ''rl:ip:'' @ ip"

section \<open>Check\<close>

definition Check :: "api \<Rightarrow> string \<Rightarrow> string \<Rightarrow> decision M" where
  "Check a ip account =
     attempt (redis_do (cmd_get_int (ipKey ip)))
       (\<lambda>_. do { log_event LogError ''ratelimit.unavailable''; ret allow }) (\<lambda>count.
       let ipCount = (case count of None \<Rightarrow> 0 | Some n \<Rightarrow> n)
       in if ipCount \<ge> ipLimit
          then attempt (redis_do (cmd_ttl (ipKey ip)))
            (\<lambda>_. ret (allow\<lparr>d_Allowed := False, d_IPThrottled := True\<rparr>))
            (\<lambda>ttl. ret (allow\<lparr>d_Allowed := False, d_IPThrottled := True, d_RetryAfter := ttl\<rparr>))
          else attempt (redis_do (cmd_exists (accountKey a account @ '':lock'')))
            (\<lambda>_. ret allow)
            (\<lambda>locked. ret (if locked > 0 then allow\<lparr>d_Allowed := False, d_AccountLocked := True\<rparr> else allow)))"

section \<open>RecordFailure\<close>

text \<open>The pipeline: both counters go up, each window opens with its first failure.\<close>

definition failure_pipeline :: "string \<Rightarrow> string \<Rightarrow> redis \<Rightarrow> time \<Rightarrow> redis_err + ((redis_err + int) \<times> redis)" where
  "failure_pipeline ik ak r t =
     (case pipe_incr ik r t of (ipReply, r) \<Rightarrow>
        let r = pipe_expire_nx ik ipWindow r t
        in case pipe_incr ak r t of (acct, r) \<Rightarrow>
            let r = pipe_expire_nx ak acctWindow r t
            in Inr (case ipReply of Inl e \<Rightarrow> Inl e | Inr _ \<Rightarrow> acct, r))"

definition RecordFailure :: "api \<Rightarrow> string \<Rightarrow> string \<Rightarrow> unit M" where
  "RecordFailure a ip account =
     (let ak = accountKey a account
      in attempt (redis_do (failure_pipeline (ipKey ip) ak))
           (\<lambda>_. log_event LogError ''ratelimit.write_failed'') (\<lambda>reply.
           case reply of
             Inl _ \<Rightarrow> log_event LogError ''ratelimit.write_failed''
           | Inr acct \<Rightarrow>
               (if acct \<ge> acctLimit
                then attempt (redis_do (cmd_set (ak @ '':lock'') (RStr ''1'') lockDuration))
                  (\<lambda>_. log_event LogError ''ratelimit.lock_failed'') (\<lambda>_. ret ())
                else ret ())))"

definition Reset :: "api \<Rightarrow> string \<Rightarrow> unit M" where
  "Reset a account =
     (let ak = accountKey a account
      in attempt (redis_do (cmd_del [ak, ak @ '':lock'']))
           (\<lambda>_. log_event LogError ''ratelimit.reset_failed'') (\<lambda>_. ret ()))"

definition Consume :: "string \<Rightarrow> duration \<Rightarrow> (redis_err + bool) M" where
  "Consume key ttl = redis_do (cmd_setnx (''used:'' @ key) (RStr ''1'') ttl)"

declare Check_def [wp_rules, op_defs] RecordFailure_def [wp_rules, op_defs] Reset_def [wp_rules, op_defs] Consume_def [wp_rules, op_defs]

section \<open>The counters\<close>

lemma key_distinct [simp]:
  "ipKey ip \<noteq> accountKey a acct" "accountKey a acct \<noteq> ipKey ip"
  "ipKey ip \<noteq> accountKey a acct @ '':lock''" "accountKey a acct @ '':lock'' \<noteq> ipKey ip"
  by (simp_all add: ipKey_def accountKey_def)

lemma ipKey_inject [simp]: "ipKey i = ipKey j \<longleftrightarrow> i = j"
  by (simp add: ipKey_def)

text \<open>A counter that started at \<open>t0\<close> with a window of \<open>ttl\<close> and has counted \<open>n\<close> failures.\<close>

definition counter :: "redis \<Rightarrow> string \<Rightarrow> time \<Rightarrow> duration \<Rightarrow> int \<Rightarrow> bool" where
  "counter r k t0 ttl n \<longleftrightarrow> r k = Some \<lparr>re_value = RInt n, re_expires = Some (t0 + ttl)\<rparr>"

lemma counter_lookup:
  "counter r k t0 ttl n \<Longrightarrow> lookup_live r t k = (if t < t0 + ttl then Some \<lparr>re_value = RInt n, re_expires = Some (t0 + ttl)\<rparr> else None)"
  by (simp add: counter_def lookup_live_def)

lemma counter_store [simp]:
  "k \<noteq> k' \<Longrightarrow> counter (store_entry k' v x r) k t0 ttl n = counter r k t0 ttl n"
  by (simp add: counter_def store_entry_def)

lemma counter_store_same [simp]:
  "counter (store_entry k (RInt m) (Some x) r) k t0 ttl n \<longleftrightarrow> m = n \<and> x = t0 + ttl"
  by (auto simp: counter_def store_entry_def)

definition bump :: "string \<Rightarrow> duration \<Rightarrow> redis \<Rightarrow> time \<Rightarrow> redis" where
  "bump k ttl r t = pipe_expire_nx k ttl (snd (pipe_incr k r t)) t"

lemma bump_first:
  assumes "lookup_live r t k = None"
  shows "counter (bump k ttl r t) k t ttl 1"
  using assms by (simp add: bump_def pipe_incr_def pipe_expire_nx_def)

lemma bump_next:
  assumes "counter r k t0 ttl n" and "t < t0 + ttl"
  shows "counter (bump k ttl r t) k t0 ttl (n + 1)"
  using assms by (simp add: bump_def pipe_incr_def pipe_expire_nx_def counter_lookup as_int_def)

lemma bump_other [simp]: "k' \<noteq> k \<Longrightarrow> (bump k ttl r t) k' = r k'"
  by (simp add: bump_def pipe_incr_def pipe_expire_nx_def store_entry_def split: option.splits)

lemma failure_pipeline_bumps:
  assumes "ik \<noteq> ak"
  shows "\<exists>reply. failure_pipeline ik ak r t = Inr (reply, bump ak acctWindow (bump ik ipWindow r t) t)"
  by (simp add: failure_pipeline_def bump_def case_prod_beta Let_def)

lemma failure_pipeline_reply:
  assumes "ik \<noteq> ak" and "counter r ak t0 acctWindow n \<and> t < t0 + acctWindow \<or> lookup_live r t ak = None \<and> n = 0"
    and "\<forall>e. lookup_live r t ik = Some e \<longrightarrow> as_int (re_value e) \<noteq> None"
  shows "failure_pipeline ik ak r t = Inr (Inr (n + 1), bump ak acctWindow (bump ik ipWindow r t) t)"
proof -
  have "lookup_live (bump ik ipWindow r t) t ak = lookup_live r t ak"
    using assms(1) by (simp add: lookup_live_def)
  moreover have "\<exists>m. fst (pipe_incr ik r t) = Inr m"
    using assms(3) by (auto simp: pipe_incr_def split: option.splits)
  ultimately show ?thesis
    using assms(2)
    by (auto simp: failure_pipeline_def bump_def case_prod_beta Let_def pipe_incr_def [of ak] counter_lookup as_int_def
        split: option.splits sum.splits)
qed

section \<open>Throttling by address\<close>

text \<open>One recorded failure, and many of them at given instants, as Redis sees them.\<close>

definition failure_at :: "api \<Rightarrow> string \<times> string \<Rightarrow> time \<Rightarrow> redis \<Rightarrow> redis" where
  "failure_at a who t r = (case who of (ip, account) \<Rightarrow>
     case failure_pipeline (ipKey ip) (accountKey a account) r t of
       Inl _ \<Rightarrow> r
     | Inr (reply, r) \<Rightarrow> (case reply of
           Inl _ \<Rightarrow> r
         | Inr acct \<Rightarrow> if acct \<ge> acctLimit
             then store_entry (accountKey a account @ '':lock'') (RStr ''1'') (Some (t + lockDuration)) r else r))"

lemma RecordFailure_quiet:
  assumes "quiet w"
  shows "w_redis (final (RecordFailure a ip account) w) = failure_at a (ip, account) (w_now w) (w_redis w) \<and>
    w_now (final (RecordFailure a ip account) w) = w_now w \<and> quiet (final (RecordFailure a ip account) w)"
proof -
  obtain reply r where "failure_pipeline (ipKey ip) (accountKey a account) (w_redis w) (w_now w) = Inr (reply, r)"
    using failure_pipeline_bumps [of "ipKey ip" "accountKey a account" "w_redis w" "w_now w"] by auto
  with assms show ?thesis
    by (auto simp: RecordFailure_def final_def Let_def failure_at_def cmd_set_def quiet_run split: sum.splits)
qed

lemma Reset_quiet:
  assumes "quiet w"
  shows "final (Reset a account) w =
    w\<lparr>w_redis := remove_key (accountKey a account @ '':lock'') (remove_key (accountKey a account) (w_redis w))\<rparr>"
  using assms by (simp add: Reset_def final_def Let_def cmd_del_def quiet_run)

lemma Check_lock:
  assumes "quiet w" and "\<forall>n. cmd_get_int (ipKey ip) (w_redis w) (w_now w) = Inr (Some n, w_redis w) \<longrightarrow> n < ipLimit"
    and "cmd_get_int (ipKey ip) (w_redis w) (w_now w) \<noteq> Inl RedisError"
  shows "d_AccountLocked (result (Check a ip account) w) \<longleftrightarrow>
    lookup_live (w_redis w) (w_now w) (accountKey a account @ '':lock'') \<noteq> None"
proof -
  obtain n where n: "cmd_get_int (ipKey ip) (w_redis w) (w_now w) = Inr (n, w_redis w)"
    using assms(3) by (auto simp: cmd_get_int_def split: option.splits)
  with assms(2) have "(case n of None \<Rightarrow> 0 | Some n \<Rightarrow> n) < ipLimit"
    by (auto simp: ipLimit_def split: option.splits)
  with assms(1) n show ?thesis
    by (simp add: Check_def result_def Let_def quiet_run cmd_exists_def allow_def not_le)
qed

lemma failure_at_ip: "(failure_at a (ip, account) t r) (ipKey ip) = (bump (ipKey ip) ipWindow r t) (ipKey ip)"
proof -
  obtain reply where "failure_pipeline (ipKey ip) (accountKey a account) r t =
      Inr (reply, bump (accountKey a account) acctWindow (bump (ipKey ip) ipWindow r t) t)"
    using failure_pipeline_bumps [of "ipKey ip" "accountKey a account" r t] by auto
  then show ?thesis by (auto simp: failure_at_def store_entry_def split: sum.splits)
qed

lemma counter_failure:
  "counter (failure_at a (ip, account) t r) (ipKey ip) t0 ttl n \<longleftrightarrow> counter (bump (ipKey ip) ipWindow r t) (ipKey ip) t0 ttl n"
  by (simp add: counter_def failure_at_ip)

lemma failures_ip:
  assumes "counter r (ipKey ip) t0 ipWindow n" and "\<forall>(account, t)\<in>set fs. t < t0 + ipWindow"
  shows "counter (fold (\<lambda>(account, t). failure_at a (ip, account) t) fs r) (ipKey ip) t0 ipWindow (n + int (length fs))"
  using assms
proof (induction fs arbitrary: r n)
  case (Cons f fs)
  obtain account t where f: "f = (account, t)" by fastforce
  with Cons.prems have "counter (bump (ipKey ip) ipWindow r t) (ipKey ip) t0 ipWindow (n + 1)"
    by (intro bump_next) auto
  then have "counter (failure_at a (ip, account) t r) (ipKey ip) t0 ipWindow (n + 1)"
    by (simp add: counter_failure)
  then have "counter (fold (\<lambda>(account, t). failure_at a (ip, account) t) fs (failure_at a (ip, account) t r))
      (ipKey ip) t0 ipWindow (n + 1 + int (length fs))"
    using Cons.prems(2) by (intro Cons.IH) auto
  with f show ?case by (simp add: add.assoc)
qed simp

lemma Check_counter:
  assumes "quiet w" and "counter (w_redis w) (ipKey ip) t0 ipWindow n" and "w_now w < t0 + ipWindow"
  shows "d_IPThrottled (result (Check a ip account) w) \<longleftrightarrow> n \<ge> ipLimit"
  using assms
  by (simp add: Check_def result_def attempt_def redis_do_def Let_def cmd_get_int_def counter_lookup as_int_def
      cmd_ttl_def cmd_exists_def allow_def split: if_splits)

text \<open>
  Claim C38: the failures of one address are counted in a window anchored at the first of
  them, whatever accounts they target and however often they come: until five minutes after
  the first, an attempt from the address is throttled exactly when at least twenty failures
  have been recorded, and later failures do not extend the window.
\<close>

theorem Throttle_window:
  assumes "quiet w" and "lookup_live r t0 (ipKey ip) = None"
    and "\<forall>(account, t)\<in>set fs. t < t0 + ipWindow"
    and "w_redis w = fold (\<lambda>(account, t). failure_at a (ip, account) t) ((acct0, t0) # fs) r"
    and "w_now w < t0 + ipWindow"
  shows "d_IPThrottled (result (Check a ip account) w) \<longleftrightarrow> length fs + 1 \<ge> 20"
proof -
  have "counter (failure_at a (ip, acct0) t0 r) (ipKey ip) t0 ipWindow 1"
    using bump_first [OF assms(2)] by (simp add: counter_failure)
  then have "counter (w_redis w) (ipKey ip) t0 ipWindow (1 + int (length fs))"
    using failures_ip [OF _ assms(3)] assms(4) by simp
  from Check_counter [OF assms(1) this assms(5)] show ?thesis by (simp add: ipLimit_def)
qed

section \<open>Locking an account\<close>

lemma failure_at_acct:
  assumes "counter r (accountKey a account) t0 acctWindow n \<and> t < t0 + acctWindow \<or>
      lookup_live r t (accountKey a account) = None \<and> n = 0 \<and> t = t0"
    and "\<forall>e. lookup_live r t (ipKey ip) = Some e \<longrightarrow> as_int (re_value e) \<noteq> None"
  shows "counter (failure_at a (ip, account) t r) (accountKey a account) t0 acctWindow (n + 1) \<and>
    (n + 1 \<ge> acctLimit \<longrightarrow> lookup_live (failure_at a (ip, account) t r) s (accountKey a account @ '':lock'') =
      (if s < t + lockDuration then Some \<lparr>re_value = RStr ''1'', re_expires = Some (t + lockDuration)\<rparr> else None))"
proof -
  let ?ak = "accountKey a account" and ?ik = "ipKey ip"
  let ?r = "bump ?ak acctWindow (bump ?ik ipWindow r t) t"
  have run: "failure_pipeline ?ik ?ak r t = Inr (Inr (n + 1), ?r)"
    by (rule failure_pipeline_reply) (use assms in auto)
  have "counter (bump ?ik ipWindow r t) ?ak t0 acctWindow n = counter r ?ak t0 acctWindow n"
    by (simp add: counter_def)
  moreover have "lookup_live (bump ?ik ipWindow r t) t ?ak = lookup_live r t ?ak"
    by (simp add: lookup_live_def)
  ultimately have "counter ?r ?ak t0 acctWindow (n + 1)"
    using assms(1) bump_next bump_first by fastforce
  with run show ?thesis by (auto simp: failure_at_def)
qed

text \<open>
  The tenth failure on an account inside its window locks the account for fifteen
  minutes from that failure and no longer, for attempts from every address; a reset lifts the
  lock and forgets the account's failures, and leaves every address counter as it was.
\<close>

theorem Lock_and_reset:
  assumes "quiet w" and "counter (w_redis w) (accountKey a account) t0 acctWindow n" and "w_now w < t0 + acctWindow"
    and "n + 1 \<ge> acctLimit" and "\<forall>e. lookup_live (w_redis w) (w_now w) (ipKey ip) = Some e \<longrightarrow> as_int (re_value e) \<noteq> None"
    and "ip' \<noteq> ip" and "w_redis w (ipKey ip') = None"
  shows "(d_AccountLocked (result (Check a ip' account) ((final (RecordFailure a ip account) w)\<lparr>w_now := s\<rparr>)) \<longleftrightarrow>
        s < w_now w + lockDuration) \<and>
      \<not> d_AccountLocked (result (Check a ip' account) (final (Reset a account) (final (RecordFailure a ip account) w))) \<and>
      w_redis (final (Reset a account) w) (accountKey a account) = None \<and>
      w_redis (final (Reset a account) w) (ipKey j) = w_redis w (ipKey j)"
proof -
  let ?ak = "accountKey a account"
  let ?w1 = "final (RecordFailure a ip account) w"
  have w1: "w_redis ?w1 = failure_at a (ip, account) (w_now w) (w_redis w)" "w_now ?w1 = w_now w" "quiet ?w1"
    using RecordFailure_quiet [OF assms(1)] by blast+
  obtain reply where run: "failure_pipeline (ipKey ip) ?ak (w_redis w) (w_now w) =
      Inr (reply, bump ?ak acctWindow (bump (ipKey ip) ipWindow (w_redis w) (w_now w)) (w_now w))"
    using failure_pipeline_bumps [of "ipKey ip" ?ak] by auto
  have none: "w_redis ?w1 (ipKey ip') = None"
    unfolding w1(1) using run assms(6,7) by (auto simp: failure_at_def store_entry_def split: sum.splits)
  have lock: "lookup_live (w_redis ?w1) s (?ak @ '':lock'') \<noteq> None \<longleftrightarrow> s < w_now w + lockDuration" for s
    unfolding w1(1) using failure_at_acct [OF _ assms(5), of _ account t0 n] assms(2-4) by simp
  have "d_AccountLocked (result (Check a ip' account) (?w1\<lparr>w_now := s\<rparr>)) \<longleftrightarrow> s < w_now w + lockDuration"
    by (subst Check_lock) (use w1 none lock in \<open>simp_all add: cmd_get_int_def lookup_live_def [of _ _ "ipKey ip'"]\<close>)
  moreover have "\<not> d_AccountLocked (result (Check a ip' account) (final (Reset a account) ?w1))"
    by (subst Check_lock)
      (use w1 none in \<open>simp_all add: Reset_quiet cmd_get_int_def lookup_live_def [of _ _ "ipKey ip'"] remove_key_def
        lookup_live_def [of _ _ "?ak @ '':lock''"]\<close>)
  ultimately show ?thesis using assms(1) by (simp add: Reset_quiet remove_key_def)
qed

text \<open>
  However many requests present the same single-use key while its mark lasts, and in
  whatever order they reach Redis, exactly the first is told that the key is fresh.
\<close>

theorem Consume_once:
  assumes "quiet w" and "lookup_live (w_redis w) (w_now w) (''used:'' @ key) = None"
    and "\<forall>t\<in>set ts. t < w_now w + ttl"
  shows "result (Consume key ttl) w = Inr True \<and>
    (\<forall>t\<in>set ts. result (Consume key ttl) ((final (Consume key ttl) w)\<lparr>w_now := t\<rparr>) = Inr False) \<and>
    fst (redis_keys.claims (''used:'' @ key) (RStr ''1'') ttl (w_redis w) (w_now w # ts)) = True # replicate (length ts) False"
proof -
  have free: "find_value (w_redis w) (w_now w) (''used:'' @ key) = None" using assms(2) by (simp add: find_value_def)
  have "result (Consume key ttl) w = Inr True"
    using assms(1,2) by (simp add: Consume_def result_def quiet_run cmd_setnx_def)
  moreover have "result (Consume key ttl) ((final (Consume key ttl) w)\<lparr>w_now := t\<rparr>) = Inr False" if "t \<in> set ts" for t
    using assms that by (simp add: Consume_def result_def final_def quiet_run cmd_setnx_def)
  ultimately show ?thesis using redis_keys.single_use [OF free assms(3)] by blast
qed

section \<open>Witnesses\<close>

theorem Throttle_window_witness:
  "d_IPThrottled (result (Check sample_api ''10.0.0.1'' ''ann@acme'')
     (sample_world\<lparr>w_redis := fold (\<lambda>(account, t). failure_at sample_api (''10.0.0.1'', account) t)
        ((''ann@acme'', 1000 * second) # replicate 19 (''bob@acme'', 1001 * second)) (\<lambda>_. None), w_now := 1002 * second\<rparr>))"
  using Throttle_window [of "sample_world\<lparr>w_redis := fold (\<lambda>(account, t). failure_at sample_api (''10.0.0.1'', account) t)
        ((''ann@acme'', 1000 * second) # replicate 19 (''bob@acme'', 1001 * second)) (\<lambda>_. None), w_now := 1002 * second\<rparr>"
      "\<lambda>_. None" "1000 * second" "''10.0.0.1''" "replicate 19 (''bob@acme'', 1001 * second)" sample_api "''ann@acme''" "''ann@acme''"]
  by (simp add: lookup_live_def ipWindow_def)

definition almost_locked :: world where
  "almost_locked = sample_world\<lparr>w_redis := (\<lambda>_. None)(accountKey sample_api ''ann@acme'' \<mapsto>
     \<lparr>re_value = RInt 9, re_expires = Some (1000 * second + acctWindow)\<rparr>)\<rparr>"

theorem Lock_and_reset_witness:
  "d_AccountLocked (result (Check sample_api ''10.0.0.2'' ''ann@acme'')
     ((final (RecordFailure sample_api ''10.0.0.1'' ''ann@acme'') almost_locked)\<lparr>w_now := 1100 * second\<rparr>))"
  using Lock_and_reset [of almost_locked sample_api "''ann@acme''" "1000 * second" 9 "''10.0.0.1''" "''10.0.0.2''" "1100 * second"]
  by (simp add: almost_locked_def counter_def acctWindow_def acctLimit_def lookup_live_def lockDuration_def)

theorem Consume_once_witness:
  "result (Consume ''totp:11:123456'' (90 * second)) sample_world = Inr True \<and>
   result (Consume ''totp:11:123456'' (90 * second))
     ((final (Consume ''totp:11:123456'' (90 * second)) sample_world)\<lparr>w_now := 1010 * second\<rparr>) = Inr False"
  using Consume_once [of sample_world "''totp:11:123456''" "[1010 * second]" "90 * second"]
  by (simp add: lookup_live_def sample_redis)

end
