(* ===== verification/Store_MFA.thy ===== *)
theory Store_MFA
  imports World
begin

text \<open>\<open>internal/store/mfa.go\<close>: the second factor of a user, its recovery codes, and the organization's policy.\<close>

record mfa_state =
  m_Enabled :: bool
  m_Secret :: "bytes option"
  m_OrgRequire :: bool

text \<open>The state the error returns leave, \<open>MFAState{}\<close>.\<close>

definition no_mfa :: mfa_state where
  "no_mfa = \<lparr>m_Enabled = False, m_Secret = None, m_OrgRequire = False\<rparr>"

definition q_MFAState :: "uuid \<Rightarrow> db \<Rightarrow> time \<Rightarrow> store_err + mfa_state" where
  "q_MFAState userID d t = or_error ErrNotFound
     (Option.bind (first_row (select (\<lambda>u. u_ID u = userID) (users d))) (\<lambda>u.
      map_option (\<lambda>org. \<lparr>m_Enabled = u_totp_enabled u, m_Secret = u_totp_secret u, m_OrgRequire = o_require_mfa org\<rparr>)
        (first_row (select (\<lambda>org. o_ID org = u_OrgID u) (organizations d)))))"

definition MFAState :: "uuid \<Rightarrow> (store_err + mfa_state) M" where
  "MFAState userID = db_query (q_MFAState userID)"

definition stage_secret :: "bytes \<Rightarrow> user_row \<Rightarrow> user_row" where
  "stage_secret sealed u = u\<lparr>u_totp_secret := Some sealed, u_totp_enabled := False, u_totp_confirmed_at := None\<rparr>"

definition s_StagePendingSecret :: "uuid \<Rightarrow> bytes \<Rightarrow> db \<Rightarrow> time \<Rightarrow> store_err + (unit \<times> db)" where
  "s_StagePendingSecret userID sealed d t =
     Inr ((), d\<lparr>users := update_where (\<lambda>u. u_ID u = userID) (stage_secret sealed) (users d)\<rparr>)"

definition StagePendingSecret :: "uuid \<Rightarrow> bytes \<Rightarrow> (store_err + unit) M" where
  "StagePendingSecret userID sealed = db_exec (s_StagePendingSecret userID sealed)"

section \<open>Turning the factor on and off\<close>

definition s_enable_totp :: "uuid \<Rightarrow> db \<Rightarrow> time \<Rightarrow> store_err + (unit \<times> db)" where
  "s_enable_totp userID d t =
     Inr ((), d\<lparr>users := update_where (\<lambda>u. u_ID u = userID \<and> u_totp_secret u \<noteq> None)
       (\<lambda>u. u\<lparr>u_totp_enabled := True, u_totp_confirmed_at := Some t\<rparr>) (users d)\<rparr>)"

definition s_delete_codes :: "uuid \<Rightarrow> db \<Rightarrow> time \<Rightarrow> store_err + (unit \<times> db)" where
  "s_delete_codes userID d t =
     Inr ((), d\<lparr>mfa_recovery_codes := delete_where (\<lambda>c. rc_user_id c = userID) (mfa_recovery_codes d)\<rparr>)"

definition s_insert_code :: "uuid \<Rightarrow> string \<Rightarrow> db \<Rightarrow> time \<Rightarrow> store_err + (unit \<times> db)" where
  "s_insert_code userID h d t =
     (if \<forall>u\<in>set (users d). u_ID u \<noteq> userID then Inl ErrDriver
      else Inr ((), d\<lparr>mfa_recovery_codes := mfa_recovery_codes d @
        [\<lparr>rc_ID = next_id d, rc_user_id = userID, rc_code_hash = h, rc_used_at = None\<rparr>], next_id := Suc (next_id d)\<rparr>))"

fun insert_codes :: "uuid \<Rightarrow> string list \<Rightarrow> tx \<Rightarrow> (store_err + tx) M" where
  "insert_codes userID [] t = ret (Inr t)"
| "insert_codes userID (h # hs) t =
     attempt (tx_exec t (s_insert_code userID h)) (\<lambda>e. ret (Inl e)) (\<lambda>(_, t). insert_codes userID hs t)"

definition ActivateMFA :: "uuid \<Rightarrow> string list \<Rightarrow> (store_err + unit) M" where
  "ActivateMFA userID codeHashes =
     attempt tx_begin (\<lambda>e. ret (Inl e)) (\<lambda>t.
     attempt (tx_exec t (s_enable_totp userID)) (\<lambda>e. ret (Inl e)) (\<lambda>(_, t).
     attempt (tx_exec t (s_delete_codes userID)) (\<lambda>e. ret (Inl e)) (\<lambda>(_, t).
     attempt (insert_codes userID codeHashes t) (\<lambda>e. ret (Inl e)) (\<lambda>t. tx_commit t))))"

definition s_disable_totp :: "uuid \<Rightarrow> db \<Rightarrow> time \<Rightarrow> store_err + (unit \<times> db)" where
  "s_disable_totp userID d t =
     Inr ((), d\<lparr>users := update_where (\<lambda>u. u_ID u = userID)
       (\<lambda>u. u\<lparr>u_totp_enabled := False, u_totp_secret := None, u_totp_confirmed_at := None\<rparr>) (users d)\<rparr>)"

definition DisableMFA :: "uuid \<Rightarrow> (store_err + unit) M" where
  "DisableMFA userID =
     attempt tx_begin (\<lambda>e. ret (Inl e)) (\<lambda>t.
     attempt (tx_exec t (s_disable_totp userID)) (\<lambda>e. ret (Inl e)) (\<lambda>(_, t).
     attempt (tx_exec t (s_delete_codes userID)) (\<lambda>e. ret (Inl e)) (\<lambda>(_, t). tx_commit t)))"

section \<open>Recovery codes\<close>

text \<open>
  The result is a Go map, which is ranged over in no particular order; here the rows in the order
  of the table.
\<close>

definition q_UnusedRecoveryHashes :: "uuid \<Rightarrow> db \<Rightarrow> time \<Rightarrow> store_err + (uuid \<times> string) list" where
  "q_UnusedRecoveryHashes userID d t =
     Inr (map (\<lambda>c. (rc_ID c, rc_code_hash c))
       (select (\<lambda>c. rc_user_id c = userID \<and> rc_used_at c = None) (mfa_recovery_codes d)))"

definition UnusedRecoveryHashes :: "uuid \<Rightarrow> (store_err + (uuid \<times> string) list) M" where
  "UnusedRecoveryHashes userID = db_query (q_UnusedRecoveryHashes userID)"

definition s_BurnRecoveryCode :: "uuid \<Rightarrow> db \<Rightarrow> time \<Rightarrow> store_err + (unit \<times> db)" where
  "s_BurnRecoveryCode i d t =
     (let p = (\<lambda>c. rc_ID c = i \<and> rc_used_at c = None)
      in if affected p (mfa_recovery_codes d) = 0 then Inl ErrNoRecoveryCode
         else Inr ((), d\<lparr>mfa_recovery_codes := update_where p (\<lambda>c. c\<lparr>rc_used_at := Some t\<rparr>) (mfa_recovery_codes d)\<rparr>))"

definition BurnRecoveryCode :: "uuid \<Rightarrow> (store_err + unit) M" where
  "BurnRecoveryCode i = db_exec (s_BurnRecoveryCode i)"

definition s_SetOrgRequireMFA :: "uuid \<Rightarrow> bool \<Rightarrow> db \<Rightarrow> time \<Rightarrow> store_err + (unit \<times> db)" where
  "s_SetOrgRequireMFA orgID required d t =
     Inr ((), d\<lparr>organizations := update_where (\<lambda>r. o_ID r = orgID) (\<lambda>r. r\<lparr>o_require_mfa := required\<rparr>) (organizations d)\<rparr>)"

definition SetOrgRequireMFA :: "uuid \<Rightarrow> bool \<Rightarrow> (store_err + unit) M" where
  "SetOrgRequireMFA orgID required = db_exec (s_SetOrgRequireMFA orgID required)"

declare MFAState_def [wp_rules, op_defs] StagePendingSecret_def [wp_rules, op_defs] ActivateMFA_def [wp_rules, op_defs] DisableMFA_def [wp_rules, op_defs]
  UnusedRecoveryHashes_def [wp_rules, op_defs] BurnRecoveryCode_def [wp_rules, op_defs] SetOrgRequireMFA_def [wp_rules, op_defs]

section \<open>A recovery code is spent once\<close>

definition unused_code :: "uuid \<Rightarrow> db \<Rightarrow> bool" where
  "unused_code i d \<longleftrightarrow> (\<exists>c\<in>set (mfa_recovery_codes d). rc_ID c = i \<and> rc_used_at c = None)"

definition burn_db :: "uuid \<Rightarrow> time \<Rightarrow> db \<Rightarrow> db" where
  "burn_db i t d = d\<lparr>mfa_recovery_codes := update_where (\<lambda>c. rc_ID c = i \<and> rc_used_at c = None)
     (\<lambda>c. c\<lparr>rc_used_at := Some t\<rparr>) (mfa_recovery_codes d)\<rparr>"

lemma burn_db_tables [simp]:
  "users (burn_db i t d) = users d" "organizations (burn_db i t d) = organizations d" "uploads (burn_db i t d) = uploads d"
  "access_grants (burn_db i t d) = access_grants d" "audit_log (burn_db i t d) = audit_log d"
  by (simp_all add: burn_db_def)

lemma Burn_eq: "s_BurnRecoveryCode i d t =
    (if unused_code i d then Inr ((), burn_db i t d) else Inl ErrNoRecoveryCode)"
  by (auto simp add: s_BurnRecoveryCode_def Let_def affected_0_iff unused_code_def burn_db_def)

lemma Burn_ok_iff: "(\<exists>d'. s_BurnRecoveryCode i d t = Inr ((), d')) \<longleftrightarrow> unused_code i d"
  by (simp add: Burn_eq)

lemma Burn_spends: "s_BurnRecoveryCode i d t = Inr (u, d') \<Longrightarrow> \<not> unused_code i d'"
  by (auto simp: Burn_eq burn_db_def unused_code_def set_update_where split: if_splits)

lemma Burn_Inl: "s_BurnRecoveryCode i d t = Inl e \<Longrightarrow> \<not> unused_code i d"
  by (simp add: Burn_eq split: if_splits)

text \<open>Requests race for a code: each one burns it in a statement of its own.\<close>

fun burn_race :: "uuid \<Rightarrow> time list \<Rightarrow> db \<Rightarrow> bool list \<times> db" where
  "burn_race i [] d = ([], d)"
| "burn_race i (t # ts) d = (case s_BurnRecoveryCode i d t of
       Inl _ \<Rightarrow> (case burn_race i ts d of (bs, d) \<Rightarrow> (False # bs, d))
     | Inr (_, d) \<Rightarrow> (case burn_race i ts d of (bs, d) \<Rightarrow> (True # bs, d)))"

lemma burn_race_spent: "\<not> unused_code i d \<Longrightarrow> burn_race i ts d = (replicate (length ts) False, d)"
  by (induction ts) (simp_all add: Burn_eq)

text \<open>
  Claim C30: of any number of requests that spend the same unused recovery code, however their
  statements interleave, exactly the first succeeds, and the code is used afterwards.
\<close>

theorem Recovery_code_once:
  assumes "unused_code i d" and "ts \<noteq> []"
  shows "fst (burn_race i ts d) = True # replicate (length ts - 1) False \<and> \<not> unused_code i (snd (burn_race i ts d))"
proof -
  obtain t ts' where ts: "ts = t # ts'" using assms(2) by (cases ts) auto
  obtain d' where d': "s_BurnRecoveryCode i d t = Inr ((), d')" using assms(1) Burn_ok_iff by blast
  then have "burn_race i ts' d' = (replicate (length ts') False, d')" "\<not> unused_code i d'"
    using burn_race_spent Burn_spends by blast+
  with ts d' show ?thesis by simp
qed

theorem Recovery_code_once_witness:
  "fst (burn_race 7 [10, 20, 30] (empty_db\<lparr>mfa_recovery_codes :=
     [\<lparr>rc_ID = 7, rc_user_id = 11, rc_code_hash = ''h'', rc_used_at = None\<rparr>]\<rparr>)) = [True, False, False]"
  using Recovery_code_once [of 7 "empty_db\<lparr>mfa_recovery_codes := [\<lparr>rc_ID = 7, rc_user_id = 11, rc_code_hash = ''h'', rc_used_at = None\<rparr>]\<rparr>"
    "[10, 20, 30]"]
  by (simp add: unused_code_def numeral_eq_Suc)

section \<open>What the statements do to a user\<close>

text \<open>Activation: enabled only on a secret, and with exactly the given codes, all unused; or nothing at all.\<close>

definition codes_of :: "uuid \<Rightarrow> db \<Rightarrow> (string \<times> time option) list" where
  "codes_of i d = map (\<lambda>c. (rc_code_hash c, rc_used_at c)) (select (\<lambda>c. rc_user_id c = i) (mfa_recovery_codes d))"

fun inserted_codes :: "uuid \<Rightarrow> string list \<Rightarrow> db \<Rightarrow> db" where
  "inserted_codes i [] d = d"
| "inserted_codes i (h # hs) d = inserted_codes i hs (d\<lparr>mfa_recovery_codes := mfa_recovery_codes d @
     [\<lparr>rc_ID = next_id d, rc_user_id = i, rc_code_hash = h, rc_used_at = None\<rparr>], next_id := Suc (next_id d)\<rparr>)"

lemma inserted_codes_tables [simp]:
  "users (inserted_codes i hs d) = users d" "audit_log (inserted_codes i hs d) = audit_log d"
  "organizations (inserted_codes i hs d) = organizations d" "uploads (inserted_codes i hs d) = uploads d"
  "access_grants (inserted_codes i hs d) = access_grants d"
  by (induction hs arbitrary: d) simp_all

lemma inserted_codes_of [simp]:
  "codes_of j (inserted_codes i hs d) = codes_of j d @ (if j = i then map (\<lambda>h. (h, None)) hs else [])"
  by (induction hs arbitrary: d) (auto simp: codes_of_def select_def)

lemma insert_codes_wp:
  "(\<forall>t'. tx_db t' = inserted_codes i hs (tx_db t) \<and> tx_now t' = tx_now t \<longrightarrow> (\<forall>w'. w_db w' = w_db w \<longrightarrow> Q (Inr t') w')) \<Longrightarrow>
   (\<forall>e w'. w_db w' = w_db w \<longrightarrow> Q (Inl e) w') \<Longrightarrow> wp (insert_codes i hs t) Q w"
proof (induction hs arbitrary: t w)
  case Nil
  then show ?case by (simp add: wp_rules)
next
  case (Cons h hs)
  have "wp (insert_codes i hs (t\<lparr>tx_db := d\<rparr>)) Q (elapse w)"
    if "s_insert_code i h (tx_db t) (tx_now t) = Inr (u, d)" for u d
  proof (rule Cons.IH)
    show "\<forall>t'. tx_db t' = inserted_codes i hs (tx_db (t\<lparr>tx_db := d\<rparr>)) \<and> tx_now t' = tx_now (t\<lparr>tx_db := d\<rparr>) \<longrightarrow>
        (\<forall>w'. w_db w' = w_db (elapse w) \<longrightarrow> Q (Inr t') w')"
      using that Cons.prems(1) by (simp add: s_insert_code_def split: if_splits)
  qed (use Cons.prems(2) in simp)
  with Cons.prems(2) show ?case by (auto simp: wp_rules split: sum.splits)
qed

text \<open>The database an activation leaves when it commits.\<close>

definition activated :: "uuid \<Rightarrow> string list \<Rightarrow> time \<Rightarrow> db \<Rightarrow> db" where
  "activated i hs t d = inserted_codes i hs (d\<lparr>
     users := update_where (\<lambda>u. u_ID u = i \<and> u_totp_secret u \<noteq> None)
       (\<lambda>u. u\<lparr>u_totp_enabled := True, u_totp_confirmed_at := Some t\<rparr>) (users d),
     mfa_recovery_codes := delete_where (\<lambda>c. rc_user_id c = i) (mfa_recovery_codes d)\<rparr>)"

lemma ActivateMFA_wp:
  "wp (ActivateMFA i hs) (\<lambda>r w'. (\<exists>t\<ge>w_now w. w_db w' = activated i hs t (w_db w)) \<or> r \<noteq> Inr () \<and> w_db w' = w_db w) w"
proof -
  have now: "w_now w \<le> w_now (elapse w)" by (rule elapse_now)
  show ?thesis
    unfolding ActivateMFA_def
    by (auto simp: wp_rules s_enable_totp_def s_delete_codes_def intro!: insert_codes_wp)
      (use now in \<open>auto simp: wp_rules activated_def split: outcome.splits\<close>)
qed

lemma codes_of_activated: "codes_of j (activated i hs t d) = (if j = i then map (\<lambda>h. (h, None)) hs else codes_of j d)"
proof -
  have "filter (\<lambda>c. rc_user_id c = j) (delete_where (\<lambda>c. rc_user_id c = i) rows) =
      (if j = i then [] else filter (\<lambda>c. rc_user_id c = j) rows)" for rows :: "recovery_row list"
    by (auto simp: delete_where_def filter_empty_conv intro: filter_cong)
  then show ?thesis unfolding activated_def inserted_codes_of by (simp add: codes_of_def select_def)
qed

text \<open>The database that switching the factor off leaves.\<close>

definition disabled :: "uuid \<Rightarrow> db \<Rightarrow> db" where
  "disabled i d = d\<lparr>
     users := update_where (\<lambda>u. u_ID u = i)
       (\<lambda>u. u\<lparr>u_totp_enabled := False, u_totp_secret := None, u_totp_confirmed_at := None\<rparr>) (users d),
     mfa_recovery_codes := delete_where (\<lambda>c. rc_user_id c = i) (mfa_recovery_codes d)\<rparr>"

lemma DisableMFA_wp: "wp (DisableMFA i) (\<lambda>r w'. w_db w' = disabled i (w_db w) \<or> r \<noteq> Inr () \<and> w_db w' = w_db w) w"
  by (simp add: DisableMFA_def wp_rules s_disable_totp_def s_delete_codes_def disabled_def split: outcome.split)

lemma users_disabled: "users (disabled i d) = update_where (\<lambda>u. u_ID u = i)
    (\<lambda>u. u\<lparr>u_totp_enabled := False, u_totp_secret := None, u_totp_confirmed_at := None\<rparr>) (users d)"
  by (simp add: disabled_def)

end
