(* ===== verification/Handlers_Auth.thy ===== *)
theory Handlers_Auth
  imports Handlers_Grants Ratelimit Store_MFA
begin

text \<open>\<open>internal/handlers/auth.go\<close>: registration, the password step of login, logout, and the caller's own view.\<close>

definition minPasswordLen :: nat where "minPasswordLen = 10"
definition invalidCredentials :: string where "invalidCredentials = ''Invalid email or password''"

definition dummyHash :: string where
  "dummyHash = ''$argon2id$v=19$m=65536,t=3,p=4$AAAAAAAAAAAAAAAAAAAAAA$AAAAAAAAAAAAAAAAAAAAAAAAAAAAAAAAAAAAAAAAAAA''"

section \<open>register\<close>

definition registerRequest :: "(string \<times> field_kind) list" where
  "registerRequest = [(''org_name'', FString), (''email'', FString), (''password'', FString)]"

definition register :: "api \<Rightarrow> handler" where
  "register a r =
     (case Decode registerRequest r of
        Inl e \<Rightarrow> ret (Fail 400 e)
      | Inr req \<Rightarrow>
          (let email = TrimSpace (str_field ''email'' req); orgName = TrimSpace (str_field ''org_name'' req);
               password = str_field ''password'' req; slug = slugify orgName
           in if orgName = [] \<or> \<not> Contains email ''@''
              then ret (Fail 400 ''Organization name and a valid email are required'')
              else if length password < minPasswordLen then ret (Fail 400 ''Password must be at least 10 characters'')
              else if slug = [] then ret (Fail 400 ''Organization name must contain letters or digits'')
              else attempt (HashPassword a password)
                (\<lambda>e. if e = PwPanic then ret panicked
                     else do { log_event LogError ''auth.hash_failed''; ret (Fail 500 ''Could not create account'') })
                (\<lambda>hash.
                  attempt (CreateOrgWithOwner orgName slug email hash)
                    (\<lambda>e. if is_ErrEmailTaken e then ret (Fail 409 ''That email is already registered'')
                         else if e = ErrSlugTaken then ret (Fail 409 ''An organization with that name already exists'')
                         else do { log_event LogError ''auth.register_failed''; ret (Fail 500 ''Could not create account'') })
                    (\<lambda>(_, user). do {
                       token \<leftarrow> Issue a user;
                       case token of
                         None \<Rightarrow> ret (Fail 500 ''Could not create session'')
                       | Some token \<Rightarrow> do {
                           log_event Info ''auth.registered'';
                           ret (with_cookies [SetCookie a token] (JSON 201 (Some (toUserResponse a user)))) } }))))"

section \<open>login\<close>

definition recordLoginFailure :: "api \<Rightarrow> string \<Rightarrow> string \<Rightarrow> unit M" where
  "recordLoginFailure a ip account =
     (if api_Limiter a \<and> LoginRateEnabled (api_Cfg a) then RecordFailure a ip account else ret ())"

text \<open>An error of \<open>MFAState\<close> is ignored here, which leaves the zero state.\<close>

definition completeLogin :: "api \<Rightarrow> user \<Rightarrow> response M" where
  "completeLogin a user = do {
     token \<leftarrow> Issue a user;
     case token of
       None \<Rightarrow> ret (Fail 500 ''Could not create session'')
     | Some token \<Rightarrow> do {
         (if api_Limiter a then Reset a (u_Email user) else ret ());
         st \<leftarrow> MFAState (u_ID user);
         state \<leftarrow> ret (case st of Inl _ \<Rightarrow> no_mfa | Inr s \<Rightarrow> s);
         ret (with_cookies [ClearMFACookie a, SetCookie a token] (JSON 200 (Some (JObj
           [(''id'', uuid_json a (u_ID user)), (''email'', JStr (u_Email user)), (''role'', JStr (u_Role user)),
            (''org_id'', uuid_json a (u_OrgID user)), (''mfa_enabled'', JBool (m_Enabled state)),
            (''mfa_required'', JBool (m_OrgRequire state \<and> \<not> m_Enabled state))])))) } }"

definition loginRequest :: "(string \<times> field_kind) list" where
  "loginRequest = [(''email'', FString), (''password'', FString)]"

text \<open>After the throttle: look the user up, verify the password, ask for the second factor or log in.\<close>

definition checkPassword :: "api \<Rightarrow> string \<Rightarrow> string \<Rightarrow> string \<Rightarrow> response M" where
  "checkPassword a ip email password =
     attempt (UserByEmail email)
       (\<lambda>_. if VerifyPassword a password dummyHash = Inl PwPanic then ret panicked
            else do { recordLoginFailure a ip email; ret (Fail 401 invalidCredentials) })
       (\<lambda>user.
         if VerifyPassword a password (u_PasswordHash user) = Inl PwPanic then ret panicked
         else if VerifyPassword a password (u_PasswordHash user) \<noteq> Inr True
         then do { recordLoginFailure a ip (u_Email user); ret (Fail 401 invalidCredentials) }
         else attempt (MFAState (u_ID user)) (\<lambda>_. ret (Fail 500 ''Could not complete sign in''))
           (\<lambda>state.
             if m_Enabled state
             then do {
               pending \<leftarrow> IssueMFAPending a user;
               case pending of
                 None \<Rightarrow> ret (Fail 500 ''Could not create session'')
               | Some pending \<Rightarrow>
                   ret (with_cookies [ClearCookie a, SetMFACookie a pending]
                     (JSON 200 (Some (JObj [(''mfa_required'', JBool True)])))) }
             else completeLogin a user))"

definition login :: "api \<Rightarrow> handler" where
  "login a r =
     (case Decode loginRequest r of
        Inl e \<Rightarrow> ret (Fail 400 e)
      | Inr req \<Rightarrow>
          (let email = TrimSpace (str_field ''email'' req); ip = clientIP r
           in do {
             d \<leftarrow> (if api_Limiter a \<and> LoginRateEnabled (api_Cfg a) then Check a ip email else ret allow);
             if d_IPThrottled d
             then do {
               log_event Warn ''auth.throttled'';
               resp \<leftarrow> ret (Fail 429 ''Too many attempts. Try again shortly.'');
               ret (if d_RetryAfter d > 0
                    then with_header ''Retry-After'' (Itoa (nat (d_RetryAfter d div second) + 1)) resp else resp) }
             else if d_AccountLocked d
             then do { log_event Warn ''auth.locked''; ret (Fail 401 invalidCredentials) }
             else checkPassword a ip email (str_field ''password'' req) }))"

section \<open>logout and me\<close>

definition logout :: "api \<Rightarrow> handler" where
  "logout a r = ret (with_cookies [ClearCookie a] NoContent)"

definition me :: "api \<Rightarrow> user \<Rightarrow> handler" where
  "me a caller r = do {
     org \<leftarrow> OrgByID (u_OrgID caller);
     state \<leftarrow> MFAState (u_ID caller);
     ret (JSON 200 (Some (JObj
       ([(''id'', uuid_json a (u_ID caller)), (''email'', JStr (u_Email caller)), (''role'', JStr (u_Role caller)),
         (''org_id'', uuid_json a (u_OrgID caller))] @
        (case org of Inl _ \<Rightarrow> [] | Inr o' \<Rightarrow> [(''org_name'', JStr (o_Name o')), (''org_slug'', JStr (o_Slug o'))]) @
        (case state of Inl _ \<Rightarrow> []
         | Inr s \<Rightarrow> [(''mfa_enabled'', JBool (m_Enabled s)), (''org_require_mfa'', JBool (m_OrgRequire s))]))))) }"

section \<open>What a login gives away, and to whom\<close>

lemma vc_Check [vc_rules]:
  "(\<And>r w'. w_db w' = w_db w \<Longrightarrow> w_blob w' = w_blob w \<Longrightarrow> w_now w \<le> w_now w' \<Longrightarrow> Q r w') \<Longrightarrow> wp (Check a ip acct) Q w"
  unfolding Check_def Let_def by (intro vc_rules) simp_all

lemma vc_RecordFailure [vc_rules]:
  "(\<And>w'. w_db w' = w_db w \<Longrightarrow> w_blob w' = w_blob w \<Longrightarrow> w_now w \<le> w_now w' \<Longrightarrow> P () w') \<Longrightarrow> wp (RecordFailure a ip acct) P w"
  unfolding RecordFailure_def Let_def by (intro vc_rules) simp_all

lemma vc_Reset [vc_rules]:
  "(\<And>w'. w_db w' = w_db w \<Longrightarrow> w_blob w' = w_blob w \<Longrightarrow> w_now w \<le> w_now w' \<Longrightarrow> P () w') \<Longrightarrow> wp (Reset a acct) P w"
  unfolding Reset_def Let_def by (intro vc_rules) simp_all

lemma vc_recordLoginFailure [vc_rules]:
  "(\<And>w'. w_db w' = w_db w \<Longrightarrow> w_blob w' = w_blob w \<Longrightarrow> w_now w \<le> w_now w' \<Longrightarrow> P () w') \<Longrightarrow>
   wp (recordLoginFailure a ip acct) P w"
  unfolding recordLoginFailure_def by (intro vc_rules) simp_all

lemma vc_Consume [vc_rules]:
  "(\<And>e w'. w_db w' = w_db w \<Longrightarrow> w_blob w' = w_blob w \<Longrightarrow> w_now w \<le> w_now w' \<Longrightarrow> R (Inl e) w') \<Longrightarrow>
   (\<And>x w'. w_db w' = w_db w \<Longrightarrow> w_blob w' = w_blob w \<Longrightarrow> w_now w \<le> w_now w' \<Longrightarrow> R (Inr x) w') \<Longrightarrow> wp (Consume key ttl) R w"
  unfolding Consume_def by (rule vc_redis_do)

lemma run_issue: "run_state (issue a u p ttl) w = (result (issue a u p ttl) w, w)"
  by (simp add: issue_def result_def time_Now_def)

lemma vc_issue:
  "(\<And>tok. result (Issue a u) w = Some tok \<Longrightarrow> Q (Some tok) w) \<Longrightarrow> Q None w \<Longrightarrow> wp (Issue a u) Q w"
  "(\<And>tok. result (IssueMFAPending a u) w = Some tok \<Longrightarrow> Q (Some tok) w) \<Longrightarrow> Q None w \<Longrightarrow> wp (IssueMFAPending a u) Q w"
  unfolding Issue_def IssueMFAPending_def
  by (cases "result (issue a u PurposeSession TokenTTL) w"; simp add: wp_def run_issue)
    (cases "result (issue a u PurposeMFA MFATokenTTL) w"; simp add: wp_def run_issue)

declare vc_issue [vc_rules]

lemma q_UserByEmail_Inr:
  assumes "q_UserByEmail e d t = Inr u"
  shows "\<exists>r\<in>set (users d). user.truncate r = u \<and> citext_eq (u_Email r) e"
  using assms by (auto simp: q_UserByEmail_def scanUser_def dest!: first_row_select_SomeD)

text \<open>What the cookies of an answer to a login entitle to, and what had to be shown for them.\<close>

definition login_ok :: "api \<Rightarrow> request \<Rightarrow> db \<Rightarrow> time \<Rightarrow> response \<Rightarrow> bool" where
  "login_ok a r d now resp \<longleftrightarrow> (\<exists>req user t st.
     Decode loginRequest r = Inr req \<and> q_UserByEmail (TrimSpace (str_field ''email'' req)) d t = Inr user \<and>
     VerifyPassword a (str_field ''password'' req) (u_PasswordHash user) = Inr True \<and>
     q_MFAState (u_ID user) d t = Inr st \<and>
     (\<exists>w0 tok. now \<le> w_now w0 \<and>
       (if m_Enabled st
        then result (IssueMFAPending a user) w0 = Some tok \<and> rs_Cookies resp = [ClearCookie a, SetMFACookie a tok]
        else result (Issue a user) w0 = Some tok \<and> rs_Cookies resp = [ClearMFACookie a, SetCookie a tok])))"

lemma q_UserByEmail_time: "q_UserByEmail e d t = q_UserByEmail e d s"
  by (simp add: q_UserByEmail_def)

lemma q_MFAState_time: "q_MFAState e d t = q_MFAState e d s"
  by (simp add: q_MFAState_def)

lemma no_cookies [simp]:
  "rs_Cookies (Fail n e) = []" "rs_Cookies panicked = []"
  by (simp_all add: Fail_def JSON_def panicked_def)

lemma completeLogin_vc:
  "(\<And>resp w'. w_db w' = w_db w \<Longrightarrow> rs_Status resp \<noteq> 401 \<Longrightarrow> rs_Cookies resp = [] \<Longrightarrow> Q resp w') \<Longrightarrow>
   (\<And>resp w' tok. w_db w' = w_db w \<Longrightarrow> rs_Status resp \<noteq> 401 \<Longrightarrow> result (Issue a user) w = Some tok \<Longrightarrow>
      rs_Cookies resp = [ClearMFACookie a, SetCookie a tok] \<Longrightarrow> Q resp w') \<Longrightarrow>
   wp (completeLogin a user) Q w"
  unfolding completeLogin_def MFAState_def by (intro vc_rules) (simp_all add: Fail_def JSON_def with_cookies_def)

lemma login_okI:
  assumes "Decode loginRequest r = Inr req" and "q_UserByEmail (TrimSpace (str_field ''email'' req)) d t = Inr user"
    and "VerifyPassword a (str_field ''password'' req) (u_PasswordHash user) = Inr True"
    and "q_MFAState (u_ID user) d s = Inr st" and "now \<le> w_now w0"
    and "if m_Enabled st
        then result (IssueMFAPending a user) w0 = Some tok \<and> rs_Cookies resp = [ClearCookie a, SetMFACookie a tok]
        else result (Issue a user) w0 = Some tok \<and> rs_Cookies resp = [ClearMFACookie a, SetCookie a tok]"
  shows "login_ok a r d now resp"
  unfolding login_ok_def
  by (intro exI [of _ req] exI [of _ user] exI [of _ t] exI [of _ st] exI [of _ w0] exI [of _ tok] conjI)
    (use assms q_MFAState_time [of "u_ID user" d t s] in simp_all)

lemma login_vc:
  "wp (login a r) (\<lambda>resp w'. w_db w' = w_db w \<and> (rs_Status resp = 401 \<longrightarrow> resp = Fail 401 invalidCredentials) \<and>
     (rs_Cookies resp \<noteq> [] \<longrightarrow> login_ok a r (w_db w) (w_now w) resp)) w"
  unfolding login_def checkPassword_def UserByEmail_def MFAState_def Let_def
  by ((intro vc_rules completeLogin_vc)[1], simp_all) ((erule (3) login_okI; simp add: JSON_def)+)

text \<open>The limiter lets an attempt pass.\<close>

definition passes :: "api \<Rightarrow> string \<Rightarrow> string \<Rightarrow> world \<Rightarrow> bool" where
  "passes a ip email w \<longleftrightarrow> (let d = result (Check a ip email) w in \<not> d_IPThrottled d \<and> \<not> d_AccountLocked d)"

lemma Check_quiet: "quiet w \<Longrightarrow> w_redis (final (Check a ip email) w) = w_redis w \<and> w_now (final (Check a ip email) w) = w_now w \<and>
    w_db (final (Check a ip email) w) = w_db w \<and> quiet (final (Check a ip email) w)"
  by (simp add: Check_def final_def Let_def quiet_run cmd_get_int_def cmd_ttl_def cmd_exists_def log_event_def attempt_def
      split: option.split sum.split)

lemma run_split: "run_state m w = (result m w, final m w)"
  by (simp add: result_def final_def)

lemma run_login:
  assumes "Decode loginRequest r = Inr req" and "email = TrimSpace (str_field ''email'' req)"
    and "api_Limiter a \<and> LoginRateEnabled (api_Cfg a) \<longrightarrow> passes a (clientIP r) email w"
  shows "run_state (login a r) w = run_state (checkPassword a (clientIP r) email (str_field ''password'' req))
    (if api_Limiter a \<and> LoginRateEnabled (api_Cfg a) then final (Check a (clientIP r) email) w else w)"
  using assms by (simp add: login_def Let_def run_split [of "Check _ _ _"] passes_def allow_def run_simps)

text \<open>
  When a login is due: no call fails, the library signs, the limiter lets the attempt pass, a user has
  the address, and their hash verifies the password.
\<close>

definition login_due :: "api \<Rightarrow> request \<Rightarrow> world \<Rightarrow> bool" where
  "login_due a r w \<longleftrightarrow> quiet w \<and> (\<forall>c. jwt_Sign a (JWTSecret (api_Cfg a)) c \<noteq> None) \<and>
     (\<exists>req email user st. Decode loginRequest r = Inr req \<and> email = TrimSpace (str_field ''email'' req) \<and>
        (api_Limiter a \<and> LoginRateEnabled (api_Cfg a) \<longrightarrow> passes a (clientIP r) email w) \<and>
        q_UserByEmail email (w_db w) (w_now w) = Inr user \<and>
        VerifyPassword a (str_field ''password'' req) (u_PasswordHash user) = Inr True \<and>
        q_MFAState (u_ID user) (w_db w) (w_now w) = Inr st)"

lemma issues:
  assumes "\<forall>c. jwt_Sign a (JWTSecret (api_Cfg a)) c \<noteq> None"
  shows "\<exists>tok. run_state (Issue a u) w = (Some tok, w)" "\<exists>tok. run_state (IssueMFAPending a u) w = (Some tok, w)"
  using assms by (simp_all add: Issue_def IssueMFAPending_def issue_def time_Now_def run_simps)

lemma completeLogin_due:
  assumes "quiet w" and "\<forall>c. jwt_Sign a (JWTSecret (api_Cfg a)) c \<noteq> None"
  shows "\<exists>resp w'. run_state (completeLogin a user) w = (resp, w') \<and> rs_Status resp = 200 \<and> rs_Cookies resp \<noteq> []"
proof -
  obtain tok where "run_state (Issue a user) w = (Some tok, w)" using issues(1) [OF assms(2)] by blast
  then show ?thesis
    using Reset_quiet [OF assms(1), of a "u_Email user"] assms(1)
    by (auto simp: completeLogin_def MFAState_def quiet_run run_split [of "Reset _ _"] JSON_def with_cookies_def)
qed

lemma login_due_cookies:
  assumes "login_due a r w" and "run_state (login a r) w = (resp, w')"
  shows "rs_Status resp = 200 \<and> rs_Cookies resp \<noteq> []"
proof -
  from assms(1) obtain req email user st where q: "quiet w" and sign: "\<forall>c. jwt_Sign a (JWTSecret (api_Cfg a)) c \<noteq> None"
    and req: "Decode loginRequest r = Inr req" "email = TrimSpace (str_field ''email'' req)"
      "api_Limiter a \<and> LoginRateEnabled (api_Cfg a) \<longrightarrow> passes a (clientIP r) email w"
    and user: "q_UserByEmail email (w_db w) (w_now w) = Inr user"
      "VerifyPassword a (str_field ''password'' req) (u_PasswordHash user) = Inr True"
      "q_MFAState (u_ID user) (w_db w) (w_now w) = Inr st"
    unfolding login_due_def by blast
  define v where "v = (if api_Limiter a \<and> LoginRateEnabled (api_Cfg a) then final (Check a (clientIP r) email) w else w)"
  have v: "quiet v" "w_db v = w_db w" "w_now v = w_now w"
    using Check_quiet [OF q, of a "clientIP r" email] q by (simp_all add: v_def)
  obtain tok where "run_state (IssueMFAPending a user) v = (Some tok, v)" using issues(2) [OF sign] by blast
  moreover obtain resp1 w1 where "run_state (completeLogin a user) v = (resp1, w1)" "rs_Status resp1 = 200" "rs_Cookies resp1 \<noteq> []"
    using completeLogin_due [OF v(1) sign] by blast
  ultimately show ?thesis
    using assms(2) user v
    by (auto simp: run_login [OF req] v_def [symmetric] checkPassword_def UserByEmail_def MFAState_def quiet_run JSON_def with_cookies_def
        split: if_splits)
qed

text \<open>
  Claim C27: whatever calls fail, a login changes no table, and sets a cookie only for a user whose
  email was given and whose stored hash verifies the password that was given. With a second factor
  in force the cookies are the pending one and the removal of any session; without, a session. And
  such a user does get in: when no call fails and the limiter lets the attempt pass, the answer is 200 and
  carries those cookies.
\<close>

theorem Login_sound:
  assumes "run_state (login a r) w = (resp, w')"
  shows "w_db w' = w_db w \<and> (rs_Cookies resp \<noteq> [] \<longrightarrow> login_ok a r (w_db w) (w_now w) resp) \<and>
    (login_due a r w \<longrightarrow> rs_Status resp = 200 \<and> rs_Cookies resp \<noteq> [])"
  using wpD [OF login_vc assms] login_due_cookies [OF _ assms] by blast

section \<open>A failed login\<close>

lemma zero_salt: "raw_EncodeToString base64_std (replicate 16 0) = ''AAAAAAAAAAAAAAAAAAAAAA''"
  by code_simp

lemma zero_key: "raw_EncodeToString base64_std (replicate 32 0) = ''AAAAAAAAAAAAAAAAAAAAAAAAAAAAAAAAAAAAAAAAAAA''"
  by code_simp

lemma dummyHash_phc: "dummyHash = phc (replicate 16 0) (replicate 32 0)"
  unfolding phc_def zero_salt zero_key by (simp add: dummyHash_def Itoa_params)

lemma dummy_no_panic: "argon2_ok a \<Longrightarrow> VerifyPassword a pw dummyHash \<noteq> Inl PwPanic"
  using argon2_key [of a pw "replicate 16 0"] by (auto simp: dummyHash_phc Verify_phc argonKeyLen_def)

text \<open>
  Claim C28: an attempt the limiter lets pass, for an address no user has or with a password
  that does not verify, is answered the same either way, and leaves exactly one failure of that
  client and account on the limiter's counters. An attempt on a locked account is answered the same too, but
  is not counted: the counters stay as they are, those of the client as well.
\<close>

theorem Login_failure_uniform:
  assumes "quiet w" and "api_Limiter a" and "LoginRateEnabled (api_Cfg a)" and "Decode loginRequest r = Inr req"
    and "email = TrimSpace (str_field ''email'' req)" and "argon2_ok a"
    and "VerifyPassword a (str_field ''password'' req) (u_PasswordHash user) \<noteq> Inl PwPanic"
  shows "(passes a (clientIP r) email w \<and> q_UserByEmail email (w_db w) (w_now w) = Inl e \<longrightarrow>
      result (login a r) w = Fail 401 invalidCredentials \<and>
      w_redis (final (login a r) w) = failure_at a (clientIP r, email) (w_now w) (w_redis w)) \<and>
    (passes a (clientIP r) email w \<and> q_UserByEmail email (w_db w) (w_now w) = Inr user \<and>
       VerifyPassword a (str_field ''password'' req) (u_PasswordHash user) \<noteq> Inr True \<longrightarrow>
      result (login a r) w = Fail 401 invalidCredentials \<and>
      w_redis (final (login a r) w) = failure_at a (clientIP r, u_Email user) (w_now w) (w_redis w)) \<and>
    (d_AccountLocked (result (Check a (clientIP r) email) w) \<and> \<not> d_IPThrottled (result (Check a (clientIP r) email) w) \<longrightarrow>
      result (login a r) w = Fail 401 invalidCredentials \<and> w_redis (final (login a r) w) = w_redis w)"
proof -
  let ?w = "final (Check a (clientIP r) email) w"
  have w: "w_redis ?w = w_redis w" "w_now ?w = w_now w" "w_db ?w = w_db w" "quiet ?w"
    using Check_quiet [OF assms(1)] by blast+
  have no_panic: "VerifyPassword a (str_field ''password'' req) dummyHash \<noteq> Inl PwPanic"
    using dummy_no_panic [OF assms(6)] .
  have locked: "result (login a r) w = Fail 401 invalidCredentials \<and> w_redis (final (login a r) w) = w_redis w"
    if "\<not> d_IPThrottled (result (Check a (clientIP r) email) w)" "d_AccountLocked (result (Check a (clientIP r) email) w)"
    using assms(2-5) that w by (simp add: login_def Let_def result_def [of "_ \<bind> _"] final_def [of "_ \<bind> _"] run_split [of "Check _ _ _"] log_event_def)
  have passed: "run_state (login a r) w = run_state (checkPassword a (clientIP r) email (str_field ''password'' req)) ?w"
    if "passes a (clientIP r) email w"
    using assms(2-5) that by (simp add: login_def Let_def run_split [of "Check _ _ _"] passes_def)
  have unknown: "run_state (checkPassword a (clientIP r) email (str_field ''password'' req)) ?w =
      (Fail 401 invalidCredentials, final (RecordFailure a (clientIP r) email) ?w)"
    if "q_UserByEmail email (w_db w) (w_now w) = Inl e"
    using that no_panic assms(2,3,7) w by (simp add: checkPassword_def UserByEmail_def quiet_run recordLoginFailure_def run_split [of "RecordFailure _ _ _"])
  have wrong: "run_state (checkPassword a (clientIP r) email (str_field ''password'' req)) ?w =
      (Fail 401 invalidCredentials, final (RecordFailure a (clientIP r) (u_Email user)) ?w)"
    if "q_UserByEmail email (w_db w) (w_now w) = Inr user"
      "VerifyPassword a (str_field ''password'' req) (u_PasswordHash user) \<noteq> Inr True"
    using that no_panic assms(2,3,7) w by (simp add: checkPassword_def UserByEmail_def quiet_run recordLoginFailure_def run_split [of "RecordFailure _ _ _"])
  show ?thesis
    using locked passed unknown wrong RecordFailure_quiet [OF w(4), of a "clientIP r"] w(1,2)
    by (simp add: result_def [of "login a r"] final_def [of "login a r"])
qed

section \<open>Witnesses\<close>

lemma HashPassword_quiet:
  assumes "quiet w" and "argon2_ok a"
  shows "\<exists>h. run_state (HashPassword a pw) w = (Inr h, w\<lparr>w_rpos := w_rpos w + argonSaltLen\<rparr>)"
  using argon2_key [OF assms(2), of pw "map (\<lambda>i. w_random w (w_rpos w + i) mod 256) [0..<argonSaltLen]"] assms(1)
  by (auto simp: HashPassword_def quiet_run)

text \<open>The first user has a password here, and a hash of it.\<close>

definition ann_hash :: string where
  "ann_hash = phc (replicate 16 0) (take 32 (bytes_of ''correct horse'' @ replicate 32 0))"

definition login_world :: world where
  "login_world = sample_world\<lparr>w_db := sample_db\<lparr>users := [ann\<lparr>u_PasswordHash := ann_hash\<rparr>, bob, cyd, eve, dan]\<rparr>\<rparr>"

lemma ann_password: "VerifyPassword sample_api pw ann_hash = Inr (take 32 (bytes_of pw @ replicate 32 0) = take 32 (bytes_of ''correct horse'' @ replicate 32 0))"
proof -
  have "is_bytes (take 32 (bytes_of ''correct horse'' @ replicate 32 0))"
    by (auto simp: bytes_of_def code_def dest!: in_set_takeD)
  then show ?thesis
    by (simp add: ann_hash_def Verify_phc sample_api_def sample_IDKey_def argonTime_def argonThreads_def bytes_of_def)
qed

lemma ann_passwords:
  "VerifyPassword sample_api ''correct horse'' ann_hash = Inr True" "VerifyPassword sample_api ''wrong horse'' ann_hash = Inr False"
  by (simp_all add: ann_password bytes_of_def code_def)

definition sample_login :: "string \<Rightarrow> string \<Rightarrow> request" where
  "sample_login email pw = (sample_request ''POST'' ''/api/auth/login'')\<lparr>rq_Body := JsonBody (JObj
     [(''email'', JStr email), (''password'', JStr pw)]), rq_RemoteAddr := ''10.0.0.9:4711''\<rparr>"

lemma sample_login_decode:
  "Decode loginRequest (sample_login email pw) = Inr [(''email'', JStr email), (''password'', JStr pw)]"
  by (simp add: Decode_def sample_login_def decode_json_def loginRequest_def field_for_def select_def field_accepts_def)

lemma login_emails: "TrimSpace ''nobody@acme'' = ''nobody@acme''" "TrimSpace ''ann@acme'' = ''ann@acme''"
  by code_simp+

lemma login_world_simps:
  "quiet login_world" "w_redis login_world = (\<lambda>_. None)" "w_now login_world = 1000 * second"
  "q_UserByEmail ''nobody@acme'' (w_db login_world) t = Inl ErrNotFound"
  "q_UserByEmail ''ann@acme'' (w_db login_world) t = Inr (user.truncate (ann\<lparr>u_PasswordHash := ann_hash\<rparr>))"
  "q_MFAState 11 (w_db login_world) t = Inr \<lparr>m_Enabled = False, m_Secret = None, m_OrgRequire = False\<rparr>"
  by (simp_all add: login_world_def sample_redis q_UserByEmail_def q_MFAState_def scanUser_def select_def sample_people citext_eq_def
      ToLower_def lower_char_def is_upper_def code_def org_acme_def org_rival_def user.defs)

lemma login_passes: "w_redis w = (\<lambda>_. None) \<Longrightarrow> quiet w \<Longrightarrow> passes sample_api ip email w"
  by (simp add: passes_def Check_def result_def Let_def quiet_run cmd_get_int_def cmd_exists_def lookup_live_def allow_def ipLimit_def)

text \<open>With the right password there is a session.\<close>

theorem Login_sound_witness:
  "\<exists>resp w' tok. run_state (login sample_api (sample_login ''ann@acme'' ''correct horse'')) login_world = (resp, w') \<and>
     rs_Status resp = 200 \<and> rs_Cookies resp = [ClearMFACookie sample_api, SetCookie sample_api tok]"
proof -
  let ?r = "sample_login ''ann@acme'' ''correct horse''"
  obtain resp w' where run: "run_state (login sample_api ?r) login_world = (resp, w')"
    by (cases "run_state (login sample_api ?r) login_world")
  have given: "str_field ''email'' [(''email'', JStr e), (''password'', JStr p)] = e" "str_field ''password'' [(''email'', JStr e), (''password'', JStr p)] = p" for e p
    by (simp_all add: str_field_def values_of_def)
  have sign: "jwt_Sign sample_api k c \<noteq> None" for k c by (simp add: sample_api_def sample_sign_def)
  have "\<exists>st. q_MFAState (u_ID (user.truncate (ann\<lparr>u_PasswordHash := ann_hash\<rparr>))) (w_db login_world) (w_now login_world) = Inr st"
    by (simp add: login_world_simps user.defs sample_people)
  moreover have "VerifyPassword sample_api ''correct horse'' (u_PasswordHash (user.truncate (ann\<lparr>u_PasswordHash := ann_hash\<rparr>))) = Inr True"
    by (simp add: ann_passwords user.defs)
  ultimately have "login_due sample_api ?r login_world"
    unfolding login_due_def sample_login_decode
    using login_world_simps(1,5) login_passes [OF login_world_simps(2,1)] sign by (auto simp: given login_emails)
  with Login_sound [OF run] have ok: "rs_Status resp = 200" "login_ok sample_api ?r (w_db login_world) (w_now login_world) resp" by auto
  from ok(2) obtain tok where "rs_Cookies resp = [ClearMFACookie sample_api, SetCookie sample_api tok]"
    unfolding login_ok_def sample_login_decode
    by (auto simp: login_world_simps login_emails given user.defs sample_people)
  with run ok(1) show ?thesis by blast
qed

definition ann_lock :: redis where
  "ann_lock = (\<lambda>_. None)(accountKey sample_api ''ann@acme'' @ '':lock'' \<mapsto> \<lparr>re_value = RStr ''1'', re_expires = Some (2000 * second)\<rparr>)"

text \<open>An unknown address, a wrong password, and a locked account.\<close>

theorem Login_failure_uniform_witness:
  "(result (login sample_api (sample_login ''nobody@acme'' ''wrong horse'')) login_world = Fail 401 invalidCredentials \<and>
    w_redis (final (login sample_api (sample_login ''nobody@acme'' ''wrong horse'')) login_world) =
      failure_at sample_api (''10.0.0.9'', ''nobody@acme'') (1000 * second) (\<lambda>_. None)) \<and>
   (result (login sample_api (sample_login ''ann@acme'' ''wrong horse'')) login_world = Fail 401 invalidCredentials \<and>
    w_redis (final (login sample_api (sample_login ''ann@acme'' ''wrong horse'')) login_world) =
      failure_at sample_api (''10.0.0.9'', ''ann@acme'') (1000 * second) (\<lambda>_. None)) \<and>
   (result (login sample_api (sample_login ''ann@acme'' ''wrong horse'')) (login_world\<lparr>w_redis := ann_lock\<rparr>) = Fail 401 invalidCredentials \<and>
    w_redis (final (login sample_api (sample_login ''ann@acme'' ''wrong horse'')) (login_world\<lparr>w_redis := ann_lock\<rparr>)) = ann_lock)"
proof -
  let ?ann = "user.truncate (ann\<lparr>u_PasswordHash := ann_hash\<rparr>)"
  have enabled: "LoginRateEnabled sample_config"
    by (simp add: sample_config_def) code_simp
  have ip: "clientIP (sample_login email pw) = ''10.0.0.9''" for email pw
    by (simp add: clientIP_def sample_login_def sample_request_def Header_Get_def Let_def) code_simp
  have hash: "u_PasswordHash ?ann = ann_hash" "u_Email ann = ''ann@acme''" by (simp_all add: user.defs sample_people)
  have locked: "d_AccountLocked (result (Check sample_api ip ''ann@acme'') (login_world\<lparr>w_redis := ann_lock\<rparr>))"
    "\<not> d_IPThrottled (result (Check sample_api ip ''ann@acme'') (login_world\<lparr>w_redis := ann_lock\<rparr>))" for ip
    by (simp_all add: Check_def result_def Let_def quiet_run login_world_simps cmd_get_int_def cmd_exists_def lookup_live_def allow_def
        ipLimit_def ann_lock_def)
  note fails = Login_failure_uniform [OF _ _ _ sample_login_decode refl sample_argon2_ok, where user = ?ann and e = ErrNotFound]
  show ?thesis
    using fails [of login_world "''nobody@acme''" "''wrong horse''"] fails [of login_world "''ann@acme''" "''wrong horse''"]
      fails [of "login_world\<lparr>w_redis := ann_lock\<rparr>" "''ann@acme''" "''wrong horse''"]
    by (simp add: str_field_def values_of_def login_emails hash ip login_world_simps login_passes ann_passwords enabled locked)
qed

end
