(* ===== verification/Mfa.thy ===== *)
theory Mfa
  imports Samples
begin

text \<open>
  \<open>internal/mfa/mfa.go\<close>: TOTP secrets, their encryption at rest, and recovery codes. The TOTP
  algorithm and AES-GCM are parameters of \<open>Services\<close>.
\<close>

definition Issuer :: string where "Issuer = ''LogMonitor''"
definition RecoveryCodeQty :: nat where "RecoveryCodeQty = 10"

datatype mfa_err = ErrNoKey | ErrCipher

definition GenerateSecret :: "api \<Rightarrow> string \<Rightarrow> (unit + (string \<times> string)) M" where
  "GenerateSecret a accountEmail = do {
     rnd \<leftarrow> rand_Read 20;
     ret (case rnd of None \<Rightarrow> Inl () | Some rnd \<Rightarrow> or_error () (totp_Generate a Issuer accountEmail rnd)) }"

text \<open>The callers look at the verdict and the code only, an error counts as invalid.\<close>

definition Validate :: "api \<Rightarrow> string \<Rightarrow> string \<Rightarrow> (bool \<times> string) M" where
  "Validate a passcode secret = do {
     let passcode = TrimSpace (ReplaceAll passcode CHR '' '' []);
     now \<leftarrow> time_Now;
     ret (case totp_ValidateCustom a passcode secret now of
         Some True \<Rightarrow> (True, passcode)
       | _ \<Rightarrow> (False, [])) }"

section \<open>Encryption at rest\<close>

definition nonceSize :: nat where "nonceSize = 12"

definition Encrypt :: "api \<Rightarrow> string \<Rightarrow> bytes \<Rightarrow> (mfa_err + bytes) M" where
  "Encrypt a secret key =
     (if length key \<noteq> 32 then ret (Inl ErrNoKey)
      else do {
        nonce \<leftarrow> rand_Read nonceSize;
        ret (case nonce of None \<Rightarrow> Inl ErrCipher | Some nonce \<Rightarrow> Inr (nonce @ gcm_Seal a key nonce (bytes_of secret))) })"

definition Decrypt :: "api \<Rightarrow> bytes \<Rightarrow> bytes \<Rightarrow> mfa_err + string" where
  "Decrypt a sealed key =
     (if length key \<noteq> 32 then Inl ErrNoKey
      else if length sealed < nonceSize then Inl ErrCipher
      else case gcm_Open a key (take nonceSize sealed) (drop nonceSize sealed) of
          None \<Rightarrow> Inl ErrCipher
        | Some out \<Rightarrow> Inr (string_of out))"

declare GenerateSecret_def [wp_rules, op_defs] Validate_def [wp_rules, op_defs]

text \<open>
  A TOTP secret that was sealed under the server's key is read back unchanged, and
  nothing is sealed or opened without a key of exactly 32 bytes.
\<close>

theorem Secret_roundtrip:
  assumes "gcm_ok a"
  shows "(result (Encrypt a secret key) w = Inr sealed \<longrightarrow> length key = 32 \<and> Decrypt a sealed key = Inr secret) \<and>
    (length key \<noteq> 32 \<longrightarrow> result (Encrypt a secret key) w = Inl ErrNoKey \<and> Decrypt a sealed key = Inl ErrNoKey)"
proof -
  have "length key = 32 \<and> Decrypt a sealed key = Inr secret" if "result (Encrypt a secret key) w = Inr sealed"
  proof -
    define nonce where "nonce = map (\<lambda>i. w_random w (w_rpos w + i) mod 256) [0..<nonceSize]"
    have "sealed = nonce @ gcm_Seal a key nonce (bytes_of secret) \<and> length key = 32"
      using that by (auto simp: Encrypt_def result_def rand_Read_def Let_def nonce_def split: if_splits)
    moreover have "length nonce = nonceSize" by (simp add: nonce_def)
    ultimately show ?thesis using assms by (simp add: Decrypt_def gcm_ok_def)
  qed
  moreover have "result (Encrypt a secret key) w = Inl ErrNoKey \<and> Decrypt a sealed key = Inl ErrNoKey" if "length key \<noteq> 32"
    using that by (simp add: Encrypt_def Decrypt_def result_def)
  ultimately show ?thesis by blast
qed

theorem Secret_roundtrip_witness:
  "\<exists>sealed. result (Encrypt sample_api ''JBSWY3DP'' (replicate 32 170)) sample_world = Inr sealed \<and>
     Decrypt sample_api sealed (replicate 32 170) = Inr ''JBSWY3DP''"
proof -
  obtain sealed where "result (Encrypt sample_api ''JBSWY3DP'' (replicate 32 170)) sample_world = Inr sealed"
    by (simp add: Encrypt_def result_def quiet_run)
  with Secret_roundtrip [OF sample_gcm_ok, of "''JBSWY3DP''" "replicate 32 170" sample_world sealed] show ?thesis by blast
qed

section \<open>Recovery codes\<close>

definition codeAlphabet :: string where
  "codeAlphabet = ''ABCDEFGHJKMNPQRSTUVWXYZ23456789!''"

definition recovery_code :: "bytes \<Rightarrow> string" where
  "recovery_code buf =
     (let s = ReplaceAll (base32_EncodeToString codeAlphabet buf) CHR ''!'' ''7''
      in take 8 s @ ''-'' @ take 8 (drop 8 s))"

fun generate_codes :: "nat \<Rightarrow> string list option M" where
  "generate_codes 0 = ret (Some [])"
| "generate_codes (Suc n) = do {
     buf \<leftarrow> rand_Read 10;
     case buf of
       None \<Rightarrow> ret None
     | Some buf \<Rightarrow> do { rest \<leftarrow> generate_codes n; ret (map_option ((#) (recovery_code buf)) rest) } }"

definition GenerateRecoveryCodes :: "string list option M" where
  "GenerateRecoveryCodes = generate_codes RecoveryCodeQty"

definition NormalizeRecoveryCode :: "string \<Rightarrow> string" where
  "NormalizeRecoveryCode s = ToUpper (TrimSpace (ReplaceAll s CHR '' '' []))"

text \<open>The characters a code is written with: none that is mistaken for another.\<close>

definition code_chars :: string where
  "code_chars = ''ABCDEFGHJKMNPQRSTUVWXYZ23456789''"

definition well_formed_code :: "string \<Rightarrow> bool" where
  "well_formed_code c \<longleftrightarrow> length c = 17 \<and> c ! 8 = CHR ''-'' \<and> set (take 8 c) \<subseteq> set code_chars \<and> set (drop 9 c) \<subseteq> set code_chars"

lemma quintets_bounded: "is_bytes b \<Longrightarrow> \<forall>d\<in>set (quintets b). d < 32"
proof (induction b rule: quintets.induct)
  case (1 a b c d' e bs)
  then have "a < 256" "b < 256" "c < 256" "d' < 256" "e < 256" by auto
  then have "a div 8 < 32" "a mod 8 * 4 + b div 64 < 32" "b div 2 mod 32 < 32" "b mod 2 * 16 + c div 16 < 32"
    "c mod 16 * 2 + d' div 128 < 32" "d' div 4 mod 32 < 32" "d' mod 4 * 8 + e div 32 < 32" "e mod 32 < 32"
    by linarith+
  moreover have "\<forall>d\<in>set (quintets bs). d < 32" using 1 by simp
  ultimately show ?case by (simp only: quintets.simps list.set ball_simps)
qed auto

lemma length_quintets_10: "length b = 10 \<Longrightarrow> length (quintets b) = 16"
proof -
  assume "length b = 10"
  then obtain a0 a1 a2 a3 a4 a5 a6 a7 a8 a9 where "b = [a0, a1, a2, a3, a4, a5, a6, a7, a8, a9]"
    by (auto simp: length_Suc_conv eval_nat_numeral)
  then show ?thesis by simp
qed

lemma ReplaceAll_1: "ReplaceAll s o' [n] = map (\<lambda>c. if c = o' then n else c) s"
  by (induction s) (simp_all add: ReplaceAll_def)

lemma codeAlphabet_chars: "d < 32 \<Longrightarrow> (if codeAlphabet ! d = CHR ''!'' then CHR ''7'' else codeAlphabet ! d) \<in> set code_chars"
proof -
  assume "d < 32"
  then have "d < length codeAlphabet" by (simp add: codeAlphabet_def)
  then have "codeAlphabet ! d \<in> set codeAlphabet" by (rule nth_mem)
  then show ?thesis by (auto simp: codeAlphabet_def code_chars_def)
qed

lemma recovery_code_well_formed:
  assumes "is_bytes b" and "length b = 10"
  shows "well_formed_code (recovery_code b)"
proof -
  define s where "s = ReplaceAll (base32_EncodeToString codeAlphabet b) CHR ''!'' ''7''"
  have len: "length s = 16" using assms(2) by (simp add: s_def ReplaceAll_1 base32_EncodeToString_def length_quintets_10)
  have "s = map (\<lambda>d. if codeAlphabet ! d = CHR ''!'' then CHR ''7'' else codeAlphabet ! d) (quintets b)"
    by (simp add: s_def ReplaceAll_1 base32_EncodeToString_def)
  then have "set s \<subseteq> set code_chars"
    using quintets_bounded [OF assms(1)] codeAlphabet_chars by (auto simp only: set_map)
  then have "set (take 8 s) \<subseteq> set code_chars" "set (take 8 (drop 8 s)) \<subseteq> set code_chars"
    by (auto dest!: in_set_takeD in_set_dropD)
  moreover have "recovery_code b = take 8 s @ ''-'' @ take 8 (drop 8 s)" by (simp add: recovery_code_def s_def Let_def)
  ultimately show ?thesis using len by (simp add: well_formed_code_def nth_append)
qed

lemma generate_codes_wp:
  "wp (generate_codes n) (\<lambda>r w'. w_db w' = w_db w \<and> w_redis w' = w_redis w \<and>
     (\<forall>cs. r = Some cs \<longrightarrow> length cs = n \<and> (\<forall>c\<in>set cs. well_formed_code c))) w"
proof (induction n arbitrary: w)
  case (Suc n)
  let ?buf = "map (\<lambda>i. w_random w (w_rpos w + i) mod 256) [0..<10]"
  have code: "well_formed_code (recovery_code ?buf)" by (rule recovery_code_well_formed) auto
  show ?case
    by (auto simp: wp_rules intro!: wp_mono [OF Suc.IH] code)
qed (simp add: wp_rules)

lemma well_formed_chars: "well_formed_code c \<Longrightarrow> set c \<subseteq> insert (CHR ''-'') (set code_chars)"
proof -
  assume c: "well_formed_code c"
  then have "c = take 8 c @ c ! 8 # drop (Suc 8) c" by (intro id_take_nth_drop) (simp add: well_formed_code_def)
  then have "set c = set (take 8 c) \<union> insert (c ! 8) (set (drop 9 c))"
    by (metis (no_types) Suc_numeral list.simps(15) semiring_norm(5) set_append semiring_norm(8) semiring_norm(2) semiring_norm(10))
  with c show ?thesis by (auto simp: well_formed_code_def)
qed

lemma code_chars_plain:
  "x \<in> set (CHR ''-'' # code_chars) \<Longrightarrow> \<not> is_space x \<and> upper_char x = x \<and> x \<noteq> CHR '' ''"
  by (auto simp: code_chars_def is_space_def upper_char_def is_lower_def code_def)

lemma trim_by_none: "\<forall>c\<in>set s. \<not> p c \<Longrightarrow> trim_by p s = s"
proof -
  assume a: "\<forall>c\<in>set s. \<not> p c"
  then have "dropWhile p s = s" by (cases s) auto
  moreover have "dropWhile p (rev s) = rev s" using a by (cases s rule: rev_cases) auto
  ultimately show "trim_by p s = s" by (simp add: trim_by_def)
qed

lemma ReplaceAll_none: "old \<notin> set s \<Longrightarrow> ReplaceAll s old new = s"
  by (induction s) (auto simp: ReplaceAll_def)

lemma Normalize_code: "well_formed_code c \<Longrightarrow> NormalizeRecoveryCode c = c"
proof -
  assume "well_formed_code c"
  then have plain: "\<not> is_space x \<and> upper_char x = x \<and> x \<noteq> CHR '' ''" if "x \<in> set c" for x
    using code_chars_plain [of x] well_formed_chars that by auto
  have "ReplaceAll c CHR '' '' [] = c" by (rule ReplaceAll_none) (use plain in auto)
  moreover have "TrimSpace c = c" unfolding TrimSpace_def by (rule trim_by_none) (use plain in auto)
  moreover have "ToUpper c = c" unfolding ToUpper_def by (rule map_idI) (use plain in auto)
  ultimately show ?thesis by (simp add: NormalizeRecoveryCode_def)
qed

text \<open>
  Enrolment hands out exactly ten codes of two groups of eight characters,
  none of them I, L, O, 0 or 1; typing a code back in as printed is already the normal form
  that is hashed and compared.
\<close>

theorem Recovery_codes_readable:
  assumes "result GenerateRecoveryCodes w = Some cs"
  shows "length cs = 10 \<and> (\<forall>c\<in>set cs. length c = 17 \<and> c ! 8 = CHR ''-'' \<and>
    set c \<inter> {CHR ''I'', CHR ''L'', CHR ''O'', CHR ''0'', CHR ''1'', CHR ''!''} = {} \<and> NormalizeRecoveryCode c = c)"
proof -
  have cs: "length cs = 10" "\<forall>c\<in>set cs. well_formed_code c"
    using generate_codes_wp [of 10 w] assms by (simp_all add: wp_iff GenerateRecoveryCodes_def RecoveryCodeQty_def)
  have "set c \<inter> {CHR ''I'', CHR ''L'', CHR ''O'', CHR ''0'', CHR ''1'', CHR ''!''} = {}" if "well_formed_code c" for c
    using well_formed_chars [OF that] by (auto simp: code_chars_def)
  with cs show ?thesis by (auto simp: Normalize_code well_formed_code_def)
qed

lemma generate_codes_quiet: "quiet w \<Longrightarrow> \<exists>cs w'. run_state (generate_codes n) w = (Some cs, w') \<and> quiet w'"
proof (induction n arbitrary: w)
  case (Suc n)
  from Suc.prems Suc.IH [of "w\<lparr>w_rpos := w_rpos w + 10\<rparr>"] show ?case by (auto simp: quiet_run)
qed simp

theorem Recovery_codes_readable_witness:
  "\<exists>cs. result GenerateRecoveryCodes sample_world = Some cs \<and> length cs = 10"
proof -
  obtain cs where "result GenerateRecoveryCodes sample_world = Some cs"
    using generate_codes_quiet [OF sample_quiet, of RecoveryCodeQty] by (auto simp: result_def GenerateRecoveryCodes_def)
  with Recovery_codes_readable [OF this] show ?thesis by blast
qed

end
