(* ===== verification/Handlers_MFA.thy ===== *)
theory Handlers_MFA
  imports Handlers_Auth Mfa
begin

text \<open>
  \<open>internal/handlers/mfa.go\<close>: enrolment, the second step of login, and the ways a second factor is
  removed. A missing limiter is a nil pointer: the handlers that use it unguarded panic.
\<close>

section \<open>Enrolment\<close>

definition enrollMFA :: "api \<Rightarrow> user \<Rightarrow> handler" where
  "enrollMFA a caller r =
     (if length (TOTPEncryptionKey (api_Cfg a)) \<noteq> 32
      then ret (Fail 503 ''Multi-factor authentication is not configured on this server'')
      else attempt (GenerateSecret a (u_Email caller)) (\<lambda>_. ret (Fail 500 ''Could not start enrolment'')) (\<lambda>(secret, uri).
        attempt (Encrypt a secret (TOTPEncryptionKey (api_Cfg a))) (\<lambda>_. ret (Fail 500 ''Could not start enrolment'')) (\<lambda>sealed.
        attempt (StagePendingSecret (u_ID caller) sealed)
          (\<lambda>_. do { log_event LogError ''mfa.stage_failed''; ret (Fail 500 ''Could not start enrolment'') })
          (\<lambda>_. ret (JSON 200 (Some (JObj [(''provisioning_uri'', JStr uri), (''secret'', JStr secret)])))))))"

definition codeRequest :: "(string \<times> field_kind) list" where
  "codeRequest = [(''code'', FString)]"

text \<open>The hashes of the codes, one by one; the first failure ends the loop.\<close>

fun hash_codes :: "api \<Rightarrow> string list \<Rightarrow> (pw_err + string list) M" where
  "hash_codes a [] = ret (Inr [])"
| "hash_codes a (c # cs) =
     attempt (HashPassword a (NormalizeRecoveryCode c)) (\<lambda>e. ret (Inl e)) (\<lambda>h.
     attempt (hash_codes a cs) (\<lambda>e. ret (Inl e)) (\<lambda>hs. ret (Inr (h # hs))))"

definition totp_key :: "api \<Rightarrow> uuid \<Rightarrow> string \<Rightarrow> string" where
  "totp_key a i step = ''totp:'' @ uuid_String a i @ '':'' @ step"

definition issueCodes :: "api \<Rightarrow> user \<Rightarrow> response M" where
  "issueCodes a caller = do {
     codes \<leftarrow> GenerateRecoveryCodes;
     case codes of
       None \<Rightarrow> ret (Fail 500 ''Could not generate recovery codes'')
     | Some codes \<Rightarrow>
         attempt (hash_codes a codes)
           (\<lambda>e. ret (if e = PwPanic then panicked else Fail 500 ''Could not store recovery codes'')) (\<lambda>hashes.
         attempt (ActivateMFA (u_ID caller) hashes)
           (\<lambda>_. do { log_event LogError ''mfa.activate_failed'';
                     ret (Fail 500 ''Could not enable multi-factor authentication'') }) (\<lambda>_. do {
             audit (u_OrgID caller) (Some (u_ID caller)) ''mfa.enabled'' ''user'' (Some (u_ID caller)) [];
             ret (JSON 200 (Some (JObj [(''enabled'', JBool True), (''recovery_codes'', JArr (map JStr codes))]))) })) }"

definition activateMFA :: "api \<Rightarrow> user \<Rightarrow> handler" where
  "activateMFA a caller r =
     (case Decode codeRequest r of
        Inl e \<Rightarrow> ret (Fail 400 e)
      | Inr req \<Rightarrow>
          attempt (MFAState (u_ID caller)) (\<lambda>_. ret (Fail 400 ''Start enrolment first'')) (\<lambda>state.
            case m_Secret state of
              None \<Rightarrow> ret (Fail 400 ''Start enrolment first'')
            | Some sealed \<Rightarrow>
                (case Decrypt a sealed (TOTPEncryptionKey (api_Cfg a)) of
                   Inl _ \<Rightarrow> ret (Fail 500 ''Could not read the stored secret'')
                 | Inr secret \<Rightarrow> do {
                     (ok, step) \<leftarrow> Validate a (str_field ''code'' req) secret;
                     if \<not> ok then ret (Fail 400 ''That code is not valid'')
                     else if \<not> api_Limiter a then ret panicked
                     else do {
                       fresh \<leftarrow> Consume (totp_key a (u_ID caller) step) (90 * second);
                       if fresh = Inr False then ret (Fail 400 ''That code has already been used'')
                       else issueCodes a caller } })))"

section \<open>Step two of login\<close>

text \<open>The first unused code whose hash the input verifies against; \<open>Inl\<close> is a panic.\<close>

fun match_code :: "api \<Rightarrow> string \<Rightarrow> (uuid \<times> string) list \<Rightarrow> unit + uuid option" where
  "match_code a candidate [] = Inr None"
| "match_code a candidate ((i, h) # hashes) =
     (if VerifyPassword a candidate h = Inl PwPanic then Inl ()
      else if VerifyPassword a candidate h \<noteq> Inr True then match_code a candidate hashes
      else Inr (Some i))"

definition burnRecoveryCode :: "api \<Rightarrow> user \<Rightarrow> string \<Rightarrow> (unit + bool) M" where
  "burnRecoveryCode a u input =
     (let candidate = NormalizeRecoveryCode input
      in if candidate = [] then ret (Inr False)
         else attempt (UnusedRecoveryHashes (u_ID u)) (\<lambda>_. ret (Inr False)) (\<lambda>hashes.
           case match_code a candidate hashes of
             Inl _ \<Rightarrow> ret (Inl ())
           | Inr None \<Rightarrow> ret (Inr False)
           | Inr (Some i) \<Rightarrow> attempt (BurnRecoveryCode i) (\<lambda>_. ret (Inr False)) (\<lambda>_. ret (Inr True))))"

definition verifyMFA :: "api \<Rightarrow> handler" where
  "verifyMFA a r =
     attempt (PendingUser a r) (\<lambda>_. ret unauthorized) (\<lambda>u.
       case Decode codeRequest r of
         Inl e \<Rightarrow> ret (Fail 400 e)
       | Inr req \<Rightarrow>
           attempt (MFAState (u_ID u)) (\<lambda>_. ret (Fail 400 ''Multi-factor authentication is not enabled'')) (\<lambda>state.
             if \<not> m_Enabled state then ret (Fail 400 ''Multi-factor authentication is not enabled'')
             else case m_Secret state of
                 None \<Rightarrow> ret (Fail 400 ''Multi-factor authentication is not enabled'')
               | Some sealed \<Rightarrow>
                   (case Decrypt a sealed (TOTPEncryptionKey (api_Cfg a)) of
                      Inl _ \<Rightarrow> ret (Fail 500 ''Could not read the stored secret'')
                    | Inr secret \<Rightarrow> do {
                        (ok, step) \<leftarrow> Validate a (str_field ''code'' req) secret;
                        if ok
                        then (if \<not> api_Limiter a then ret panicked
                              else do {
                                fresh \<leftarrow> Consume (totp_key a (u_ID u) step) (90 * second);
                                if fresh = Inr False
                                then do { log_event Warn ''mfa.replay''; ret (Fail 401 ''That code has already been used'') }
                                else completeLogin a u })
                        else attempt (burnRecoveryCode a u (str_field ''code'' req)) (\<lambda>_. ret panicked) (\<lambda>burned.
                          if burned
                          then do {
                            audit (u_OrgID u) (Some (u_ID u)) ''mfa.recovery_code_used'' ''user'' (Some (u_ID u)) [];
                            completeLogin a u }
                          else if \<not> api_Limiter a then ret panicked
                          else do {
                            RecordFailure a (clientIP r) (u_Email u);
                            ret (Fail 401 ''That code is not valid'') }) })))"

section \<open>Removing the factor\<close>

definition disableMFA :: "api \<Rightarrow> user \<Rightarrow> handler" where
  "disableMFA a caller r =
     (case Decode codeRequest r of
        Inl e \<Rightarrow> ret (Fail 400 e)
      | Inr req \<Rightarrow>
          attempt (MFAState (u_ID caller)) (\<lambda>_. ret (Fail 400 ''Multi-factor authentication is not enabled'')) (\<lambda>state.
            if \<not> m_Enabled state then ret (Fail 400 ''Multi-factor authentication is not enabled'')
            else if m_OrgRequire state then ret (Fail 403 ''Your organization requires multi-factor authentication'')
            else case Decrypt a (case m_Secret state of None \<Rightarrow> [] | Some s \<Rightarrow> s) (TOTPEncryptionKey (api_Cfg a)) of
                Inl _ \<Rightarrow> ret (Fail 500 ''Could not read the stored secret'')
              | Inr secret \<Rightarrow> do {
                  (ok, step) \<leftarrow> Validate a (str_field ''code'' req) secret;
                  attempt (if ok then ret (Inr True) else burnRecoveryCode a caller (str_field ''code'' req))
                    (\<lambda>_. ret panicked) (\<lambda>accepted.
                    if \<not> accepted then ret (Fail 401 ''That code is not valid'')
                    else attempt (DisableMFA (u_ID caller)) (\<lambda>_. ret (Fail 500 ''Could not disable multi-factor authentication''))
                      (\<lambda>_. do {
                        audit (u_OrgID caller) (Some (u_ID caller)) ''mfa.disabled'' ''user'' (Some (u_ID caller)) [];
                        ret NoContent })) }))"

definition resetMemberMFA :: "api \<Rightarrow> user \<Rightarrow> handler" where
  "resetMemberMFA a caller r =
     (if \<not> IsAdmin (u_Role caller)
      then ret (Fail 403 ''Only an administrator can reset multi-factor authentication'')
      else case uuid_Parse a (rq_PathID r) of
          None \<Rightarrow> ret (Fail 400 ''id must be a uuid'')
        | Some targetID \<Rightarrow>
            (if targetID = u_ID caller
             then ret (Fail 403 ''You cannot reset your own second factor; ask another administrator'')
             else attempt (UserByID targetID) (\<lambda>_. ret (Fail 404 ''No such user in this organization'')) (\<lambda>target.
               if u_OrgID target \<noteq> u_OrgID caller then ret (Fail 404 ''No such user in this organization'')
               else attempt (DisableMFA (u_ID target)) (\<lambda>_. ret (Fail 500 ''Could not reset multi-factor authentication''))
                 (\<lambda>_. do {
                   audit (u_OrgID caller) (Some (u_ID caller)) ''mfa.reset_by_admin'' ''user'' (Some (u_ID target))
                     [(''target_email'', JStr (u_Email target))];
                   log_event Warn ''mfa.admin_reset'';
                   ret NoContent }))))"

definition policyRequest :: "(string \<times> field_kind) list" where
  "policyRequest = [(''require_mfa'', FBool)]"

definition setOrgMFAPolicy :: "api \<Rightarrow> user \<Rightarrow> handler" where
  "setOrgMFAPolicy a caller r =
     (if \<not> IsAdmin (u_Role caller) then ret (Fail 403 ''Only an administrator can change this policy'')
      else case Decode policyRequest r of
          Inl e \<Rightarrow> ret (Fail 400 e)
        | Inr req \<Rightarrow>
            (let required = bool_field ''require_mfa'' req
             in attempt (SetOrgRequireMFA (u_OrgID caller) required) (\<lambda>_. ret (Fail 500 ''Could not update the policy''))
               (\<lambda>_. do {
                 audit (u_OrgID caller) (Some (u_ID caller)) ''org.mfa_policy_changed'' ''organization'' (Some (u_OrgID caller))
                   [(''require_mfa'', JBool required)];
                 ret (JSON 200 (Some (JObj [(''require_mfa'', JBool required)]))) })))"

section \<open>Verification conditions of the parts\<close>

definition code_input :: "request \<Rightarrow> string option" where
  "code_input r = (case Decode codeRequest r of Inl _ \<Rightarrow> None | Inr req \<Rightarrow> Some (str_field ''code'' req))"

definition totp_valid :: "api \<Rightarrow> string \<Rightarrow> string \<Rightarrow> time \<Rightarrow> bool" where
  "totp_valid a input secret now \<longleftrightarrow> totp_ValidateCustom a (TrimSpace (ReplaceAll input CHR '' '' [])) secret now = Some True"

lemma Validate_run:
  "run_state (Validate a input secret) w =
    (if totp_valid a input secret (w_now w) then (True, TrimSpace (ReplaceAll input CHR '' '' [])) else (False, []), w)"
  by (auto simp: Validate_def time_Now_def totp_valid_def Let_def split: option.split)

lemma vc_Validate [vc_rules]:
  "(\<And>step. totp_valid a input secret (w_now w) \<Longrightarrow> Q (True, step) w) \<Longrightarrow>
   (\<And>step. \<not> totp_valid a input secret (w_now w) \<Longrightarrow> Q (False, step) w) \<Longrightarrow> wp (Validate a input secret) Q w"
  by (simp add: wp_def Validate_run)

lemma match_code_SomeD:
  "match_code a cand hs = Inr (Some i) \<Longrightarrow> \<exists>h. (i, h) \<in> set hs \<and> VerifyPassword a cand h = Inr True"
  by (induction a cand hs rule: match_code.induct) (auto split: if_splits)

text \<open>An unused recovery code of a user that the input verifies against.\<close>

definition recovery_match :: "api \<Rightarrow> uuid \<Rightarrow> string \<Rightarrow> db \<Rightarrow> uuid \<Rightarrow> bool" where
  "recovery_match a u input d i \<longleftrightarrow> (\<exists>c\<in>set (mfa_recovery_codes d). rc_ID c = i \<and> rc_user_id c = u \<and> rc_used_at c = None \<and>
     VerifyPassword a (NormalizeRecoveryCode input) (rc_code_hash c) = Inr True)"

lemma vc_burnRecoveryCode [vc_rules]:
  assumes "\<And>w'. w_db w' = w_db w \<Longrightarrow> w_now w \<le> w_now w' \<Longrightarrow> Q (Inl ()) w'"
    and "\<And>w'. w_db w' = w_db w \<Longrightarrow> w_now w \<le> w_now w' \<Longrightarrow> Q (Inr False) w'"
    and "\<And>b i t w'. recovery_match a (u_ID u) input (w_db w) i \<Longrightarrow> w_db w' = burn_db i t (w_db w) \<Longrightarrow> w_now w \<le> w_now w' \<Longrightarrow>
      Q (Inr b) w'"
  shows "wp (burnRecoveryCode a u input) Q w"
proof -
  have found: "recovery_match a (u_ID u) input d i"
    if "q_UnusedRecoveryHashes (u_ID u) d t = Inr hs" "match_code a (NormalizeRecoveryCode input) hs = Inr (Some i)" for d t hs i
    using that by (auto simp: q_UnusedRecoveryHashes_def recovery_match_def dest!: match_code_SomeD)
  have burnt: "d' = burn_db i t d" if "s_BurnRecoveryCode i d t = Inr (x, d')" for i t d x d'
    using that by (simp add: Burn_eq split: if_splits)
  show ?thesis
    unfolding burnRecoveryCode_def UnusedRecoveryHashes_def BurnRecoveryCode_def Let_def
    by ((intro vc_rules)[1], simp_all add: assms) (rule assms(3), erule (1) found, drule burnt, simp, simp)+
qed

lemma vc_HashPassword [vc_rules]:
  "argon2_ok a \<Longrightarrow> (\<And>e w'. w_db w' = w_db w \<Longrightarrow> Q (Inl e) w') \<Longrightarrow>
   (\<And>h w'. w_db w' = w_db w \<Longrightarrow> VerifyPassword a pw h = Inr True \<Longrightarrow> Q (Inr h) w') \<Longrightarrow> wp (HashPassword a pw) Q w"
  apply (rule wp_mono, erule HashPassword_verifies)
  subgoal for r w' by (cases r) auto
  done

text \<open>The hashes are those of the codes, in order.\<close>

definition hashes_of :: "api \<Rightarrow> string list \<Rightarrow> string list \<Rightarrow> bool" where
  "hashes_of a cs hs \<longleftrightarrow> list_all2 (\<lambda>c h. VerifyPassword a (NormalizeRecoveryCode c) h = Inr True) cs hs"

lemma vc_hash_codes:
  assumes "argon2_ok a" and "\<And>e w'. w_db w' = w_db w \<Longrightarrow> Q (Inl e) w'"
    and "\<And>hs w'. w_db w' = w_db w \<Longrightarrow> hashes_of a cs hs \<Longrightarrow> Q (Inr hs) w'"
  shows "wp (hash_codes a cs) Q w"
  using assms(2,3)
proof (induction cs arbitrary: w Q)
  case Nil
  then show ?case by (simp add: wp_return hashes_of_def)
next
  case (Cons c cs)
  show ?case
    unfolding hash_codes.simps
    by (intro vc_rules assms(1) Cons.IH) (simp_all add: Cons.prems hashes_of_def)
qed

lemma vc_GenerateRecoveryCodes [vc_rules]:
  assumes "\<And>w'. w_db w' = w_db w \<Longrightarrow> Q None w'"
    and "\<And>cs w'. w_db w' = w_db w \<Longrightarrow> length cs = RecoveryCodeQty \<Longrightarrow> Q (Some cs) w'"
  shows "wp GenerateRecoveryCodes Q w"
  unfolding GenerateRecoveryCodes_def
  apply (rule wp_mono [OF generate_codes_wp])
  subgoal for r w' using assms by (cases r) auto
  done

lemma vc_ActivateMFA [vc_rules]:
  "(\<And>t w'. w_now w \<le> t \<Longrightarrow> w_db w' = activated i hs t (w_db w) \<Longrightarrow> Q (Inr ()) w') \<Longrightarrow>
   (\<And>e t w'. w_now w \<le> t \<Longrightarrow> w_db w' = activated i hs t (w_db w) \<Longrightarrow> Q (Inl e) w') \<Longrightarrow>
   (\<And>e w'. w_db w' = w_db w \<Longrightarrow> Q (Inl e) w') \<Longrightarrow> wp (ActivateMFA i hs) Q w"
  apply (rule wp_mono [OF ActivateMFA_wp])
  subgoal for r w' by (cases r) auto
  done

lemma codes_of_other [simp]: "codes_of i (d\<lparr>audit_log := rows, next_id := n\<rparr>) = codes_of i d"
  by (simp add: codes_of_def)

section \<open>Activation\<close>

definition activation_ok :: "api \<Rightarrow> user \<Rightarrow> request \<Rightarrow> db \<Rightarrow> time \<Rightarrow> bool" where
  "activation_ok a caller r d now \<longleftrightarrow> (\<exists>t st sealed secret input now'. q_MFAState (u_ID caller) d t = Inr st \<and>
     m_Secret st = Some sealed \<and> Decrypt a sealed (TOTPEncryptionKey (api_Cfg a)) = Inr secret \<and>
     code_input r = Some input \<and> now \<le> now' \<and> totp_valid a input secret now')"

text \<open>The codes an answer shows are the unused codes of the user.\<close>

definition codes_shown :: "api \<Rightarrow> user \<Rightarrow> response \<Rightarrow> db \<Rightarrow> bool" where
  "codes_shown a caller resp d \<longleftrightarrow> (\<exists>cs hs.
     rs_Body resp = Some (JObj [(''enabled'', JBool True), (''recovery_codes'', JArr (map JStr cs))]) \<and>
     length cs = RecoveryCodeQty \<and> hashes_of a cs hs \<and> codes_of (u_ID caller) d = map (\<lambda>h. (h, None)) hs)"

lemma issueCodes_vc:
  assumes "argon2_ok a"
  shows "wp (issueCodes a caller) (\<lambda>resp w'. rs_Status resp = 200 \<longrightarrow> codes_shown a caller resp (w_db w')) w"
  unfolding issueCodes_def codes_shown_def
  by ((intro vc_rules vc_hash_codes assms)[1], simp_all add: codes_of_activated) blast+

lemma activateMFA_vc:
  assumes "argon2_ok a"
  shows "wp (activateMFA a caller r) (\<lambda>resp w'.
      (users (w_db w') \<noteq> users (w_db w) \<or> mfa_recovery_codes (w_db w') \<noteq> mfa_recovery_codes (w_db w) \<longrightarrow>
         activation_ok a caller r (w_db w) (w_now w)) \<and>
      (rs_Status resp = 200 \<longrightarrow> codes_shown a caller resp (w_db w'))) w"
proof -
  have ok: "activation_ok a caller r (w_db w) (w_now w)"
    if "Decode codeRequest r = Inr req" "q_MFAState (u_ID caller) (w_db w) t = Inr st" "m_Secret st = Some sealed"
      "Decrypt a sealed (TOTPEncryptionKey (api_Cfg a)) = Inr secret" "totp_valid a (str_field ''code'' req) secret now'"
      "w_now w \<le> now'" for req t st sealed secret now'
    unfolding activation_ok_def code_input_def using that by (auto intro!: exI)
  show ?thesis
    unfolding activateMFA_def MFAState_def
    by ((intro vc_rules wp_mono [OF issueCodes_vc [OF assms]])[1], simp_all) (rule impI, erule (5) ok)+
qed

text \<open>
  Claim C31: the second factor is turned on, and recovery codes are issued, only against a
  valid code of the secret that was staged; and a confirmed activation shows ten codes, which
  are then exactly the unused recovery codes of the user: each one, as it is shown, verifies
  against the hash stored for it.
\<close>

theorem Activation_sound:
  assumes "argon2_ok a" and "run_state (activateMFA a caller r) w = (resp, w')"
  shows "(users (w_db w') \<noteq> users (w_db w) \<or> mfa_recovery_codes (w_db w') \<noteq> mfa_recovery_codes (w_db w) \<longrightarrow>
      activation_ok a caller r (w_db w) (w_now w)) \<and>
    (rs_Status resp = 200 \<longrightarrow> codes_shown a caller resp (w_db w'))"
  using wpD [OF activateMFA_vc [OF assms(1)] assms(2)] by blast

section \<open>Who completes a login\<close>

definition mfa_session_ok :: "api \<Rightarrow> request \<Rightarrow> db \<Rightarrow> time \<Rightarrow> response \<Rightarrow> db \<Rightarrow> bool" where
  "mfa_session_ok a r d now resp d' \<longleftrightarrow> (\<exists>c i u st sealed secret input t.
     token_claims a MFACookieName r now = Some c \<and> cl_Purpose c = PurposeMFA \<and> uuid_Parse a (cl_Subject c) = Some i \<and>
     q_UserByID i d t = Inr u \<and> q_MFAState (u_ID u) d t = Inr st \<and> m_Enabled st \<and> m_Secret st = Some sealed \<and>
     Decrypt a sealed (TOTPEncryptionKey (api_Cfg a)) = Inr secret \<and> code_input r = Some input \<and>
     (\<exists>w0 tok. now \<le> w_now w0 \<and> result (Issue a u) w0 = Some tok \<and> rs_Cookies resp = [ClearMFACookie a, SetCookie a tok]) \<and>
     ((\<exists>now'\<ge>now. totp_valid a input secret now') \<and> d' = d \<or>
      (\<exists>rc t'. recovery_match a (u_ID u) input d rc \<and> mfa_recovery_codes d' = mfa_recovery_codes (burn_db rc t' d))))"

lemma PendingUser_vc [vc_rules]:
  "(\<And>e w'. w_db w' = w_db w \<Longrightarrow> w_now w \<le> w_now w' \<Longrightarrow> Q (Inl e) w') \<Longrightarrow>
   (\<And>c i u w'. w_db w' = w_db w \<Longrightarrow> w_now w \<le> w_now w' \<Longrightarrow> token_claims a MFACookieName r (w_now w) = Some c \<Longrightarrow>
      cl_Purpose c = PurposeMFA \<Longrightarrow> uuid_Parse a (cl_Subject c) = Some i \<Longrightarrow> q_UserByID i (w_db w) (w_now w') = Inr u \<Longrightarrow>
      Q (Inr u) w') \<Longrightarrow> wp (PendingUser a r) Q w"
  unfolding PendingUser_def parse_def UserByID_def
  by (intro vc_rules) (simp_all add: token_claims_def)

lemma q_UserByID_time: "q_UserByID i d t = q_UserByID i d s"
  by (simp add: q_UserByID_def)

lemma mfa_session_okI:
  assumes "token_claims a MFACookieName r now = Some c" and "cl_Purpose c = PurposeMFA"
    and "uuid_Parse a (cl_Subject c) = Some i" and "q_UserByID i d t = Inr u" and "Decode codeRequest r = Inr req"
    and "q_MFAState (u_ID u) d s = Inr st" and "m_Enabled st" and "m_Secret st = Some sealed"
    and "Decrypt a sealed (TOTPEncryptionKey (api_Cfg a)) = Inr secret"
    and "result (Issue a u) w0 = Some tok" and "rs_Cookies resp = [ClearMFACookie a, SetCookie a tok]" and "now \<le> w_now w0"
    and "(\<exists>now'\<ge>now. totp_valid a (str_field ''code'' req) secret now') \<and> d' = d \<or>
      (\<exists>rc t'. recovery_match a (u_ID u) (str_field ''code'' req) d rc \<and>
         mfa_recovery_codes d' = mfa_recovery_codes (burn_db rc t' d))"
  shows "mfa_session_ok a r d now resp d'"
  unfolding mfa_session_ok_def code_input_def
  by (intro exI [of _ c] exI [of _ i] exI [of _ u] exI [of _ st] exI [of _ sealed] exI [of _ secret]
      exI [of _ "str_field ''code'' req"] exI [of _ t] exI [of _ w0] exI [of _ tok] conjI)
    (use assms q_MFAState_time [of "u_ID u" d t s] in simp_all)

lemma mfa_session_totp:
  assumes "token_claims a MFACookieName r now = Some c" and "cl_Purpose c = PurposeMFA"
    and "uuid_Parse a (cl_Subject c) = Some i" and "q_UserByID i d t = Inr u" and "Decode codeRequest r = Inr req"
    and "q_MFAState (u_ID u) d s = Inr st" and "m_Enabled st" and "m_Secret st = Some sealed"
    and "Decrypt a sealed (TOTPEncryptionKey (api_Cfg a)) = Inr secret"
    and "totp_valid a (str_field ''code'' req) secret now'"
    and "result (Issue a u) w0 = Some tok" and "rs_Cookies resp = [ClearMFACookie a, SetCookie a tok]" and "now \<le> w_now w0"
    and "now \<le> now'"
  shows "mfa_session_ok a r d now resp d"
  using assms by (intro mfa_session_okI [OF assms(1-9,11-13)]) blast

lemma mfa_session_recovery:
  assumes "token_claims a MFACookieName r now = Some c" and "cl_Purpose c = PurposeMFA"
    and "uuid_Parse a (cl_Subject c) = Some i" and "q_UserByID i d t = Inr u" and "Decode codeRequest r = Inr req"
    and "q_MFAState (u_ID u) d s = Inr st" and "m_Enabled st" and "m_Secret st = Some sealed"
    and "Decrypt a sealed (TOTPEncryptionKey (api_Cfg a)) = Inr secret"
    and "recovery_match a (u_ID u) (str_field ''code'' req) d rc"
    and "result (Issue a u) w0 = Some tok" and "rs_Cookies resp = [ClearMFACookie a, SetCookie a tok]" and "now \<le> w_now w0"
    and "mfa_recovery_codes d' = mfa_recovery_codes (burn_db rc t' d)"
  shows "mfa_session_ok a r d now resp d'"
  using assms by (intro mfa_session_okI [OF assms(1-9,11-13)]) blast

lemma verifyMFA_vc:
  "wp (verifyMFA a r) (\<lambda>resp w'. rs_Cookies resp \<noteq> [] \<longrightarrow> mfa_session_ok a r (w_db w) (w_now w) resp (w_db w')) w"
  unfolding verifyMFA_def MFAState_def
  by ((intro vc_rules completeLogin_vc)[1], simp_all add: unauthorized_def)
    ((erule (11) mfa_session_totp | erule (11) mfa_session_recovery), simp, simp)+

text \<open>
  Claim C10: the second step of login opens a session only for a request with a pending token
  of a user whose factor is in force, and only when the code it carries is a valid TOTP code of
  that user's secret at the time, or verifies against a recovery code of that user that was unused
  and is used afterwards.
\<close>

theorem Second_factor_sound:
  assumes "run_state (verifyMFA a r) w = (resp, w')" and "rs_Cookies resp \<noteq> []"
  shows "mfa_session_ok a r (w_db w) (w_now w) resp (w_db w')"
  using wpD [OF verifyMFA_vc assms(1)] assms(2) by blast

section \<open>A code is good for one login\<close>

text \<open>A request that comes to the point where its TOTP code is accepted.\<close>

definition totp_accepts :: "api \<Rightarrow> request \<Rightarrow> world \<Rightarrow> user \<Rightarrow> string \<Rightarrow> bool" where
  "totp_accepts a r w u step \<longleftrightarrow> (\<exists>c i st sealed secret input.
     token_claims a MFACookieName r (w_now w) = Some c \<and> cl_Purpose c = PurposeMFA \<and> uuid_Parse a (cl_Subject c) = Some i \<and>
     q_UserByID i (w_db w) (w_now w) = Inr u \<and> q_MFAState (u_ID u) (w_db w) (w_now w) = Inr st \<and> m_Enabled st \<and>
     m_Secret st = Some sealed \<and> Decrypt a sealed (TOTPEncryptionKey (api_Cfg a)) = Inr secret \<and>
     code_input r = Some input \<and> totp_valid a input secret (w_now w) \<and> step = TrimSpace (ReplaceAll input CHR '' '' []))"

lemma verify_accepted:
  assumes "quiet w" and "api_Limiter a" and "totp_accepts a r w u step"
  shows "run_state (verifyMFA a r) w =
    (case run_state (Consume (totp_key a (u_ID u) step) (90 * second)) w of (fresh, w1) \<Rightarrow>
       if fresh = Inr False then (Fail 401 ''That code has already been used'', w1\<lparr>w_log := w_log w1 @ [(Warn, ''mfa.replay'')]\<rparr>)
       else run_state (completeLogin a u) w1)"
proof -
  from assms(3) obtain c i st sealed secret input where t: "token_claims a MFACookieName r (w_now w) = Some c"
      "cl_Purpose c = PurposeMFA" "uuid_Parse a (cl_Subject c) = Some i" "q_UserByID i (w_db w) (w_now w) = Inr u"
      "q_MFAState (u_ID u) (w_db w) (w_now w) = Inr st" "m_Enabled st" "m_Secret st = Some sealed"
      "Decrypt a sealed (TOTPEncryptionKey (api_Cfg a)) = Inr secret" "code_input r = Some input"
      "totp_valid a input secret (w_now w)" "step = TrimSpace (ReplaceAll input CHR '' '' [])"
    unfolding totp_accepts_def by (elim exE conjE)
  from t(9) obtain req where req: "Decode codeRequest r = Inr req" "str_field ''code'' req = input"
    by (auto simp: code_input_def split: sum.splits)
  from t(1) obtain tok where tok: "Cookie r MFACookieName = Some tok" "jwt_Parse a (JWTSecret (api_Cfg a)) tok (w_now w) = Some c"
    by (cases "Cookie r MFACookieName") (simp_all add: token_claims_def)
  have pending: "run_state (PendingUser a r) w = (Inr u, w)"
    using assms(1) t(2-4) tok by (simp add: PendingUser_def parse_def UserByID_def quiet_run)
  show ?thesis
    unfolding verifyMFA_def run_simps pending
    using assms(1,2) t req by (simp add: MFAState_def quiet_run Validate_run log_event_def case_prod_beta)
qed

lemma completeLogin_quiet:
  assumes "quiet w"
  shows "quiet (final (completeLogin a u) w) \<and>
    lookup_live (w_redis (final (completeLogin a u) w)) t (''used:'' @ k) = lookup_live (w_redis w) t (''used:'' @ k)"
proof -
  have "''used:'' @ k \<noteq> accountKey a x" "''used:'' @ k \<noteq> accountKey a x @ '':lock''" for x
    by (simp_all add: accountKey_def)
  then show ?thesis
    using assms Reset_quiet [OF assms]
    by (simp add: completeLogin_def Issue_def issue_def final_def [of "_ \<bind> _"] MFAState_def quiet_run run_split [of "Reset _ _"]
        split: option.split)
qed

text \<open>
  Claim C29: once a TOTP code has opened a session, the same code of the same user is refused for
  ninety seconds, whoever presents it and with whatever pending token, even where it is still valid.
\<close>

theorem TOTP_no_replay:
  assumes "quiet w" and "api_Limiter a" and "totp_accepts a r w u step" and "run_state (verifyMFA a r) w = (resp, w1)"
    and "rs_Cookies resp \<noteq> []" and "t < w_now w + 90 * second" and "totp_accepts a r' (w1\<lparr>w_now := t\<rparr>) v step" and "u_ID v = u_ID u"
  shows "result (verifyMFA a r') (w1\<lparr>w_now := t\<rparr>) = Fail 401 ''That code has already been used''"
proof -
  let ?key = "''used:'' @ totp_key a (u_ID u) step"
  obtain fresh w2 where c: "run_state (Consume (totp_key a (u_ID u) step) (90 * second)) w = (fresh, w2)"
    by (cases "run_state (Consume (totp_key a (u_ID u) step) (90 * second)) w")
  with verify_accepted [OF assms(1-3)] assms(4,5) have fresh: "fresh \<noteq> Inr False" and
    w1: "run_state (completeLogin a u) w2 = (resp, w1)" by (auto split: if_splits)
  have w2: "quiet w2" "lookup_live (w_redis w2) t ?key \<noteq> None"
    using c fresh assms(1,6) by (auto simp: Consume_def quiet_run cmd_setnx_def split: if_splits)
  have w1': "w1 = final (completeLogin a u) w2" using w1 by (simp add: final_def)
  have q: "quiet (w1\<lparr>w_now := t\<rparr>)" and live: "lookup_live (w_redis w1) t ?key \<noteq> None"
    using completeLogin_quiet [OF w2(1)] w2(2) unfolding w1' by simp_all
  from q live obtain w3 where "run_state (Consume (totp_key a (u_ID u) step) (90 * second)) (w1\<lparr>w_now := t\<rparr>) = (Inr False, w3)"
    by (simp add: Consume_def quiet_run cmd_setnx_def)
  then show ?thesis using verify_accepted [OF q assms(2,7)] assms(8) by (simp add: result_def)
qed

section \<open>Who removes a factor\<close>

lemma vc_DisableMFA [vc_rules]:
  "(\<And>w'. w_db w' = disabled i (w_db w) \<Longrightarrow> Q (Inr ()) w') \<Longrightarrow> (\<And>e w'. w_db w' = disabled i (w_db w) \<Longrightarrow> Q (Inl e) w') \<Longrightarrow>
   (\<And>e w'. w_db w' = w_db w \<Longrightarrow> Q (Inl e) w') \<Longrightarrow> wp (DisableMFA i) Q w"
  apply (rule wp_mono [OF DisableMFA_wp])
  subgoal for r w' by (cases r) auto
  done

definition disable_ok :: "api \<Rightarrow> user \<Rightarrow> request \<Rightarrow> db \<Rightarrow> time \<Rightarrow> bool" where
  "disable_ok a caller r d now \<longleftrightarrow> (\<exists>t st secret input. q_MFAState (u_ID caller) d t = Inr st \<and> m_Enabled st \<and>
     \<not> m_OrgRequire st \<and> code_input r = Some input \<and>
     Decrypt a (case m_Secret st of None \<Rightarrow> [] | Some s \<Rightarrow> s) (TOTPEncryptionKey (api_Cfg a)) = Inr secret \<and>
     ((\<exists>now'\<ge>now. totp_valid a input secret now') \<or> (\<exists>rc. recovery_match a (u_ID caller) input d rc)))"

lemma disable_totp:
  assumes "Decode codeRequest r = Inr req" and "q_MFAState (u_ID caller) d t = Inr st" and "m_Enabled st" and "\<not> m_OrgRequire st"
    and "Decrypt a (case m_Secret st of None \<Rightarrow> [] | Some s \<Rightarrow> s) (TOTPEncryptionKey (api_Cfg a)) = Inr secret"
    and "totp_valid a (str_field ''code'' req) secret now'" and "now \<le> now'"
  shows "disable_ok a caller r d now"
  unfolding disable_ok_def code_input_def using assms by (auto intro!: exI)

lemma disable_recovery:
  assumes "Decode codeRequest r = Inr req" and "q_MFAState (u_ID caller) d t = Inr st" and "m_Enabled st" and "\<not> m_OrgRequire st"
    and "Decrypt a (case m_Secret st of None \<Rightarrow> [] | Some s \<Rightarrow> s) (TOTPEncryptionKey (api_Cfg a)) = Inr secret"
    and "recovery_match a (u_ID caller) (str_field ''code'' req) d rc"
  shows "disable_ok a caller r d now"
  unfolding disable_ok_def code_input_def
  by (intro exI [of _ t] exI [of _ st] exI [of _ secret] exI [of _ "str_field ''code'' req"] conjI disjI2 exI [of _ rc])
    (use assms in simp_all)

text \<open>Only the row of one user changes, that user's factor is off, and no recovery code of theirs is left.\<close>

definition factor_off :: "uuid \<Rightarrow> db \<Rightarrow> db \<Rightarrow> bool" where
  "factor_off i d d' \<longleftrightarrow> users d' = users (disabled i d) \<and> codes_of i d' = []"

lemma factor_off_simps [simp]:
  "factor_off i d (disabled i d)" "factor_off i d (disabled i (burn_db rc t d))"
  "factor_off i d (d'\<lparr>audit_log := rows, next_id := n\<rparr>) = factor_off i d d'"
  by (simp_all add: factor_off_def users_disabled disabled_def codes_of_def select_def delete_where_def)

text \<open>Only the row of one user changes: a new secret is in it, and the factor is off until it is confirmed.\<close>

definition factor_restaged :: "uuid \<Rightarrow> db \<Rightarrow> db \<Rightarrow> bool" where
  "factor_restaged i d d' \<longleftrightarrow> (\<exists>sealed. users d' = update_where (\<lambda>u. u_ID u = i) (stage_secret sealed) (users d))"

lemma disableMFA_vc:
  "wp (disableMFA a caller r) (\<lambda>resp w'. users (w_db w') = users (w_db w) \<and> rs_Status resp \<noteq> 204 \<or>
     factor_off (u_ID caller) (w_db w) (w_db w') \<and> disable_ok a caller r (w_db w) (w_now w)) w"
  unfolding disableMFA_def MFAState_def
  by ((intro vc_rules)[1], simp_all) ((rule disjI2)?, (erule (5) disable_totp, simp | erule (5) disable_recovery))+

definition reset_ok :: "api \<Rightarrow> user \<Rightarrow> request \<Rightarrow> db \<Rightarrow> db \<Rightarrow> bool" where
  "reset_ok a caller r d d' \<longleftrightarrow> IsAdmin (u_Role caller) \<and>
     (\<exists>target\<in>set (users d). uuid_Parse a (rq_PathID r) = Some (u_ID target) \<and> u_ID target \<noteq> u_ID caller \<and>
       u_OrgID target = u_OrgID caller \<and> factor_off (u_ID target) d d')"

lemma resetMemberMFA_vc:
  "wp (resetMemberMFA a caller r) (\<lambda>resp w'. users (w_db w') = users (w_db w) \<and> rs_Status resp \<noteq> 204 \<or>
     reset_ok a caller r (w_db w) (w_db w')) w"
  unfolding resetMemberMFA_def UserByID_def reset_ok_def
  by ((intro vc_rules)[1], simp_all) (drule q_UserByID_Inr, (auto)[1])+

lemma vc_GenerateSecret [vc_rules]:
  assumes "\<And>e w'. w_db w' = w_db w \<Longrightarrow> Q (Inl e) w'" and "\<And>secret uri w'. w_db w' = w_db w \<Longrightarrow> Q (Inr (secret, uri)) w'"
  shows "wp (GenerateSecret a email) Q w"
proof -
  have "Q r w'" if "w_db w' = w_db w" for r w' using assms that by (cases r) auto
  then show ?thesis unfolding GenerateSecret_def by (intro vc_rules) simp_all
qed

lemma vc_Encrypt [vc_rules]:
  assumes "\<And>e w'. w_db w' = w_db w \<Longrightarrow> Q (Inl e) w'" and "\<And>sealed w'. w_db w' = w_db w \<Longrightarrow> Q (Inr sealed) w'"
  shows "wp (Encrypt a s k) Q w"
proof -
  have "Q r w'" if "w_db w' = w_db w" for r w' using assms that by (cases r) auto
  then show ?thesis unfolding Encrypt_def by (intro vc_rules) simp_all
qed

lemma enrollMFA_vc:
  "wp (enrollMFA a caller r) (\<lambda>resp w'. users (w_db w') = users (w_db w) \<and> rs_Status resp \<noteq> 200 \<or>
     factor_restaged (u_ID caller) (w_db w) (w_db w')) w"
  unfolding enrollMFA_def StagePendingSecret_def
  by ((intro vc_rules)[1], simp_all) (auto simp: s_StagePendingSecret_def factor_restaged_def)

text \<open>
  Claim C32: what the three operations that switch a second factor off do to it. A request to
  disable it changes no user but its caller, and that one only against a valid or an unused recovery
  code and where the organization does not require the factor. A reset changes no user but a
  colleague in the organization of the administrator who asks for it, never the administrator. An
  enrolment changes no user but its caller, whose factor is off afterwards, for no code at all, with a new
  secret in place of the one that was in force. When the answer says that it was done, it was.
\<close>

theorem Factor_removal:
  "(run_state (disableMFA a caller r) w = (resp, w') \<longrightarrow> users (w_db w') = users (w_db w) \<and> rs_Status resp \<noteq> 204 \<or>
      factor_off (u_ID caller) (w_db w) (w_db w') \<and> disable_ok a caller r (w_db w) (w_now w)) \<and>
   (run_state (resetMemberMFA a caller r) w = (resp, w') \<longrightarrow> users (w_db w') = users (w_db w) \<and> rs_Status resp \<noteq> 204 \<or>
      reset_ok a caller r (w_db w) (w_db w')) \<and>
   (run_state (enrollMFA a caller r) w = (resp, w') \<longrightarrow> users (w_db w') = users (w_db w) \<and> rs_Status resp \<noteq> 200 \<or>
      factor_restaged (u_ID caller) (w_db w) (w_db w'))"
  using wpD [OF disableMFA_vc] wpD [OF resetMemberMFA_vc] wpD [OF enrollMFA_vc] by blast

section \<open>Witnesses\<close>

definition enrolled :: "user_row \<Rightarrow> user_row" where
  "enrolled u = u\<lparr>u_totp_secret := Some (replicate 12 0 @ bytes_of ''SECRET''), u_totp_enabled := True\<rparr>"

definition mfa_world :: world where
  "mfa_world = sample_world\<lparr>w_db := sample_db\<lparr>users := [enrolled ann, bob, cyd, eve, dan]\<rparr>\<rparr>"

definition code_request :: "(string \<times> string) list \<Rightarrow> request" where
  "code_request cs = (sample_request ''POST'' ''/api/auth/mfa/verify'')\<lparr>rq_Cookies := cs,
     rq_Body := JsonBody (JObj [(''code'', JStr ''123456'')])\<rparr>"

lemma mfa_world_simps [simp]:
  "quiet mfa_world" "w_now mfa_world = 1000 * second" "users (w_db mfa_world) = [enrolled ann, bob, cyd, eve, dan]"
  "organizations (w_db mfa_world) = [org_acme, org_rival]" "w_redis mfa_world = (\<lambda>_. None)"
  by (simp_all add: mfa_world_def sample_redis)

lemma code_request_input: "code_input (code_request cs) = Some ''123456''"
  by (simp add: code_input_def Decode_def code_request_def decode_json_def codeRequest_def field_for_def select_def
      field_accepts_def str_field_def values_of_def)

lemma Cookie_code_request: "Cookie (code_request [(n, v)]) n = Some v"
  by (simp add: Cookie_def code_request_def select_def)

lemma enrolled_simps [simp]: "user.truncate (enrolled u) = user.truncate u" "u_ID (enrolled u) = u_ID u"
  "u_OrgID (enrolled u) = u_OrgID u" "u_totp_enabled (enrolled u)"
  "u_totp_secret (enrolled u) = Some (replicate 12 0 @ bytes_of ''SECRET'')"
  by (simp_all add: enrolled_def user.truncate_def)

lemma sample_decrypt: "Decrypt sample_api (replicate 12 0 @ bytes_of ''SECRET'') (TOTPEncryptionKey sample_config) = Inr ''SECRET''"
  by (simp add: Decrypt_def nonceSize_def sample_api_def sample_config_def Load_sample)

lemma pending_token:
  obtains tok where "\<And>now. now < 1300 * second \<Longrightarrow> token_claims sample_api MFACookieName (code_request [(MFACookieName, tok)]) now =
    Some \<lparr>cl_OrgID = Itoa 1, cl_Role = RoleOwner, cl_Purpose = PurposeMFA, cl_Subject = Itoa 11,
      cl_IssuedAt = 1000 * second, cl_ExpiresAt = 1300 * second\<rparr>"
proof -
  obtain tok where "result (issue sample_api (user.truncate ann) PurposeMFA MFATokenTTL) sample_world = Some tok"
    using sample_issue by blast
  from Issue_claims [OF sample_jwt_ok this] show ?thesis
    by (intro that [of tok]) (simp add: token_claims_def Cookie_code_request MFATokenTTL_def whole_second_def)
qed

lemma sample_totp: "TrimSpace (ReplaceAll ''123456'' CHR '' '' []) = ''123456''" by code_simp

lemma sample_accepts:
  assumes "token_claims sample_api MFACookieName r (w_now w) = Some c" and "cl_Purpose c = PurposeMFA" and "cl_Subject c = Itoa 11"
    and "w_db w = w_db mfa_world" and "code_input r = Some ''123456''"
  shows "totp_accepts sample_api r w (user.truncate ann) ''123456''"
proof -
  have parse: "uuid_Parse sample_api (Itoa 11) = Some 11" using sample_uuid_ok by (simp add: uuid_ok_def del: sample_uuid_ok)
  have valid: "totp_valid sample_api ''123456'' ''SECRET'' (w_now w)" by (simp add: totp_valid_def sample_totp sample_api_def)
  have "q_UserByID 11 (w_db w) (w_now w) = Inr (user.truncate ann)"
    using assms(4) by (simp add: q_UserByID_def scanUser_def select_def)
  moreover have "q_MFAState 11 (w_db w) (w_now w) =
      Inr \<lparr>m_Enabled = True, m_Secret = Some (replicate 12 0 @ bytes_of ''SECRET''), m_OrgRequire = False\<rparr>"
    using assms(4) by (simp add: q_MFAState_def select_def org_acme_def)
  ultimately show ?thesis
    unfolding totp_accepts_def using assms(1-3,5) parse valid sample_decrypt
    by (intro exI [of _ c] exI [of _ "11"] exI conjI) (assumption | simp add: sample_totp)+
qed

lemma sample_verify:
  obtains r resp w1 c where "run_state (verifyMFA sample_api r) mfa_world = (resp, w1)" and "rs_Cookies resp \<noteq> []"
    and "w_db w1 = w_db mfa_world" and "totp_accepts sample_api r mfa_world (user.truncate ann) ''123456''"
    and "totp_accepts sample_api r (w1\<lparr>w_now := 1001 * second\<rparr>) (user.truncate ann) ''123456''"
proof -
  obtain tok where tok: "\<And>now. now < 1300 * second \<Longrightarrow> token_claims sample_api MFACookieName (code_request [(MFACookieName, tok)]) now =
    Some \<lparr>cl_OrgID = Itoa 1, cl_Role = RoleOwner, cl_Purpose = PurposeMFA, cl_Subject = Itoa 11,
      cl_IssuedAt = 1000 * second, cl_ExpiresAt = 1300 * second\<rparr>"
    using pending_token by blast
  let ?r = "code_request [(MFACookieName, tok)]"
  have acc: "totp_accepts sample_api ?r mfa_world (user.truncate ann) ''123456''"
    by (rule sample_accepts [OF tok]) (simp_all add: code_request_input)
  obtain resp w1 where run: "run_state (verifyMFA sample_api ?r) mfa_world = (resp, w1)" and "rs_Cookies resp \<noteq> []"
      and db: "w_db w1 = w_db mfa_world"
    unfolding verify_accepted [OF mfa_world_simps(1) sample_api_simps(2) acc]
    by (simp add: Consume_def quiet_run cmd_setnx_def lookup_live_def completeLogin_def Issue_def issue_def sample_api_def
        sample_sign_def Reset_def MFAState_def Let_def cmd_del_def)
  moreover have "totp_accepts sample_api ?r (w1\<lparr>w_now := 1001 * second\<rparr>) (user.truncate ann) ''123456''"
    by (rule sample_accepts [OF tok]) (simp_all add: code_request_input db)
  ultimately show ?thesis using acc that by blast
qed

theorem Second_factor_sound_witness:
  "\<exists>r resp w'. run_state (verifyMFA sample_api r) mfa_world = (resp, w') \<and> rs_Cookies resp \<noteq> [] \<and>
     mfa_session_ok sample_api r (w_db mfa_world) (1000 * second) resp (w_db w')"
  using sample_verify Second_factor_sound by (metis mfa_world_simps(2))

theorem TOTP_no_replay_witness:
  "\<exists>r w1. result (verifyMFA sample_api r) (w1\<lparr>w_now := 1001 * second\<rparr>) = Fail 401 ''That code has already been used''"
proof -
  obtain r resp w1 where "run_state (verifyMFA sample_api r) mfa_world = (resp, w1)" "rs_Cookies resp \<noteq> []"
      "totp_accepts sample_api r mfa_world (user.truncate ann) ''123456''"
      "totp_accepts sample_api r (w1\<lparr>w_now := 1001 * second\<rparr>) (user.truncate ann) ''123456''"
    using sample_verify by blast
  from TOTP_no_replay [OF mfa_world_simps(1) sample_api_simps(2) this(3,1,2) _ this(4)] show ?thesis by auto
qed

lemma hash_codes_quiet:
  "quiet w \<Longrightarrow> argon2_ok a \<Longrightarrow> \<exists>hs n. run_state (hash_codes a cs) w = (Inr hs, w\<lparr>w_rpos := n\<rparr>)"
proof (induction cs arbitrary: w)
  case Nil
  show ?case by (rule exI [of _ "[]"], rule exI [of _ "w_rpos w"]) (simp add: quiet_run)
next
  case (Cons c cs)
  obtain h where h: "run_state (HashPassword a (NormalizeRecoveryCode c)) w = (Inr h, w\<lparr>w_rpos := w_rpos w + argonSaltLen\<rparr>)"
    using HashPassword_quiet [OF Cons.prems] by blast
  obtain hs n where "run_state (hash_codes a cs) (w\<lparr>w_rpos := w_rpos w + argonSaltLen\<rparr>) = (Inr hs, w\<lparr>w_rpos := n\<rparr>)"
    using Cons.IH [of "w\<lparr>w_rpos := w_rpos w + argonSaltLen\<rparr>"] Cons.prems by auto
  with h show ?case by (auto simp: quiet_run)
qed

lemma insert_codes_quiet:
  "quiet w \<Longrightarrow> \<exists>u\<in>set (users (tx_db t)). u_ID u = i \<Longrightarrow> \<exists>t'. run_state (insert_codes i hs t) w = (Inr t', w)"
proof (induction hs arbitrary: t)
  case (Cons h hs)
  then show ?case by (auto simp: quiet_run s_insert_code_def)
qed (simp add: quiet_run)

lemma ActivateMFA_quiet:
  assumes "quiet w" and "\<exists>u\<in>set (users (w_db w)). u_ID u = i"
  shows "\<exists>w'. run_state (ActivateMFA i hs) w = (Inr (), w')"
proof -
  let ?t = "\<lparr>tx_db = (w_db w)\<lparr>users := update_where (\<lambda>u. u_ID u = i \<and> u_totp_secret u \<noteq> None)
      (\<lambda>u. u\<lparr>u_totp_enabled := True, u_totp_confirmed_at := Some (w_now w)\<rparr>) (users (w_db w)),
    mfa_recovery_codes := delete_where (\<lambda>c. rc_user_id c = i) (mfa_recovery_codes (w_db w))\<rparr>, tx_now = w_now w\<rparr>"
  have "\<exists>u\<in>set (users (tx_db ?t)). u_ID u = i" using assms(2) by (simp add: bex_update_where)
  from insert_codes_quiet [OF assms(1) this, of hs] assms(1) show ?thesis
    by (auto simp: ActivateMFA_def quiet_run s_enable_totp_def s_delete_codes_def)
qed

lemma issueCodes_quiet:
  assumes "quiet w" and "argon2_ok a" and "\<exists>u\<in>set (users (w_db w)). u_ID u = u_ID caller"
  shows "\<exists>resp w'. run_state (issueCodes a caller) w = (resp, w') \<and> rs_Status resp = 200"
proof -
  obtain cs w1 where cs: "run_state GenerateRecoveryCodes w = (Some cs, w1)" "quiet w1"
    using generate_codes_quiet [OF assms(1)] unfolding GenerateRecoveryCodes_def by blast
  have w1: "w_db w1 = w_db w" using wpD [OF generate_codes_wp cs(1) [unfolded GenerateRecoveryCodes_def]] by simp
  obtain hs n where hs: "run_state (hash_codes a cs) w1 = (Inr hs, w1\<lparr>w_rpos := n\<rparr>)"
    using hash_codes_quiet [OF cs(2) assms(2)] by blast
  obtain w2 where "run_state (ActivateMFA (u_ID caller) hs) (w1\<lparr>w_rpos := n\<rparr>) = (Inr (), w2)"
    using ActivateMFA_quiet [of "w1\<lparr>w_rpos := n\<rparr>" "u_ID caller" hs] cs(2) assms(3) w1 by auto
  with cs hs show ?thesis by (simp add: issueCodes_def run_simps run_split [of "audit _ _ _ _ _ _"] JSON_def)
qed

text \<open>The owner confirms a staged secret with a valid code.\<close>

definition staged_world :: world where
  "staged_world = sample_world\<lparr>w_db := sample_db\<lparr>users := [(enrolled ann)\<lparr>u_totp_enabled := False\<rparr>, bob, cyd, eve, dan]\<rparr>\<rparr>"

theorem Activation_sound_witness:
  "\<exists>resp w'. run_state (activateMFA sample_api (user.truncate ann) (code_request [])) staged_world = (resp, w') \<and>
     rs_Status resp = 200 \<and> codes_shown sample_api (user.truncate ann) resp (w_db w')"
proof -
  have w: "quiet staged_world" "users (w_db staged_world) = [(enrolled ann)\<lparr>u_totp_enabled := False\<rparr>, bob, cyd, eve, dan]"
    "w_redis staged_world = (\<lambda>_. None)" "w_now staged_world = 1000 * second"
    by (simp_all add: staged_world_def sample_redis)
  have st: "q_MFAState 11 (w_db staged_world) t =
      Inr \<lparr>m_Enabled = False, m_Secret = Some (replicate 12 0 @ bytes_of ''SECRET''), m_OrgRequire = False\<rparr>" for t
    by (simp add: staged_world_def q_MFAState_def select_def org_acme_def)
  have valid: "totp_valid sample_api ''123456'' ''SECRET'' now" for now by (simp add: totp_valid_def sample_totp sample_api_def)
  obtain req where req: "Decode codeRequest (code_request []) = Inr req" "str_field ''code'' req = ''123456''"
    using code_request_input [of "[]"] by (auto simp: code_input_def split: sum.splits)
  have issued_codes: "\<exists>resp w'. run_state (issueCodes sample_api (user.truncate ann)) (staged_world\<lparr>w_redis := r\<rparr>) = (resp, w') \<and>
      rs_Status resp = 200" for r
    by (rule issueCodes_quiet) (simp_all add: w)
  have "\<exists>resp w'. run_state (activateMFA sample_api (user.truncate ann) (code_request [])) staged_world = (resp, w') \<and> rs_Status resp = 200"
    using valid issued_codes by (simp add: activateMFA_def req MFAState_def w(1,3,4) quiet_run st sample_decrypt Validate_run Consume_def
        cmd_setnx_def lookup_live_def)
  then obtain resp w' where run: "run_state (activateMFA sample_api (user.truncate ann) (code_request [])) staged_world = (resp, w')"
    and ok: "rs_Status resp = 200" by blast
  from Activation_sound [OF sample_argon2_ok run] ok run show ?thesis by blast
qed

text \<open>
  The owner switches the factor off with a valid code; an administrator resets it; and the owner loses it by
  asking to enrol again.
\<close>

lemma mfa_levels: "q_MFAState 11 (w_db mfa_world) t =
    Inr \<lparr>m_Enabled = True, m_Secret = Some (replicate 12 0 @ bytes_of ''SECRET''), m_OrgRequire = False\<rparr>"
  "q_UserByID 11 (w_db mfa_world) t = Inr (user.truncate ann)"
  by (simp_all add: q_MFAState_def q_UserByID_def scanUser_def select_def org_acme_def)

definition reset_request :: request where
  "reset_request = (sample_request ''DELETE'' ''/api/users/11/mfa'')\<lparr>rq_PathID := ''11''\<rparr>"

theorem Factor_removal_witness:
  "(\<exists>resp w'. run_state (disableMFA sample_api (user.truncate ann) (code_request [])) mfa_world = (resp, w') \<and>
     rs_Status resp = 204 \<and> factor_off 11 (w_db mfa_world) (w_db w') \<and>
     disable_ok sample_api (user.truncate ann) (code_request []) (w_db mfa_world) (1000 * second)) \<and>
   (\<exists>resp w'. run_state (resetMemberMFA sample_api (user.truncate bob) reset_request) mfa_world = (resp, w') \<and>
     rs_Status resp = 204 \<and> reset_ok sample_api (user.truncate bob) reset_request (w_db mfa_world) (w_db w')) \<and>
   (\<exists>resp w'. run_state (enrollMFA sample_api (user.truncate ann) (code_request [])) mfa_world = (resp, w') \<and>
     rs_Status resp = 200 \<and> factor_restaged 11 (w_db mfa_world) (w_db w'))"
proof -
  have valid: "totp_valid sample_api ''123456'' ''SECRET'' now" for now by (simp add: totp_valid_def sample_totp sample_api_def)
  obtain req where req: "Decode codeRequest (code_request []) = Inr req" "str_field ''code'' req = ''123456''"
    using code_request_input [of "[]"] by (auto simp: code_input_def split: sum.splits)
  have id: "rq_PathID reset_request = ''11''" by (simp add: reset_request_def)
  have key: "length (TOTPEncryptionKey sample_config) = 32" by (simp add: sample_config_def Load_sample)
  have gen: "totp_Generate sample_api i e rnd = Some (''SECRET'', ''otpauth://totp/'' @ i @ '':'' @ e)" for i e rnd
    by (simp add: sample_api_def)
  have "\<exists>resp w'. run_state (disableMFA sample_api (user.truncate ann) (code_request [])) mfa_world = (resp, w') \<and> rs_Status resp = 204"
    using valid by (simp add: disableMFA_def req MFAState_def DisableMFA_def s_disable_totp_def s_delete_codes_def run_split [of "audit _ _ _ _ _ _"] quiet_run mfa_levels sample_decrypt Validate_run)
  then obtain d1 w1 where dis: "run_state (disableMFA sample_api (user.truncate ann) (code_request [])) mfa_world = (d1, w1)" "rs_Status d1 = 204"
    by blast
  have "\<exists>resp w'. run_state (resetMemberMFA sample_api (user.truncate bob) reset_request) mfa_world = (resp, w') \<and> rs_Status resp = 204"
    by (simp add: resetMemberMFA_def id is_digit_def code_def IsAdmin_def UserByID_def DisableMFA_def s_disable_totp_def s_delete_codes_def run_split [of "audit _ _ _ _ _ _"] quiet_run mfa_levels)
  then obtain d2 w2 where res: "run_state (resetMemberMFA sample_api (user.truncate bob) reset_request) mfa_world = (d2, w2)" "rs_Status d2 = 204"
    by blast
  have "\<exists>resp w'. run_state (enrollMFA sample_api (user.truncate ann) (code_request [])) mfa_world = (resp, w') \<and> rs_Status resp = 200"
    by (simp add: enrollMFA_def key gen or_error_def GenerateSecret_def Encrypt_def StagePendingSecret_def s_StagePendingSecret_def quiet_run JSON_def)
  then obtain d3 w3 where enr: "run_state (enrollMFA sample_api (user.truncate ann) (code_request [])) mfa_world = (d3, w3)" "rs_Status d3 = 200"
    by blast
  show ?thesis
    using Factor_removal [of sample_api "user.truncate ann" "code_request []" mfa_world d1 w1] dis
      Factor_removal [of sample_api "user.truncate bob" reset_request mfa_world d2 w2] res
      Factor_removal [of sample_api "user.truncate ann" "code_request []" mfa_world d3 w3] enr
    by auto
qed

end
