(* ===== verification/Handlers_Org.thy ===== *)
theory Handlers_Org
  imports Handlers_Auth
begin

text \<open>\<open>internal/handlers/org.go\<close>: the members of an organization, and how one is added.\<close>

definition listOrgUsers :: "api \<Rightarrow> user \<Rightarrow> handler" where
  "listOrgUsers a caller r =
     attempt (ListOrgUsers (u_OrgID caller))
       (\<lambda>_. do { log_event LogError ''org.list_failed''; ret (Fail 500 ''Could not list users'') })
       (\<lambda>us. ret (JSON 200 (Some (JArr (map (toUserResponse a) us)))))"

definition inviteRequest :: "(string \<times> field_kind) list" where
  "inviteRequest = [(''email'', FString), (''password'', FString), (''role'', FString)]"

text \<open>The role asked for, or the status and message of the refusal.\<close>

definition invited_role :: "user \<Rightarrow> string \<Rightarrow> (nat \<times> string) + role" where
  "invited_role caller role =
     (if role = [] then Inr RoleMember
      else if role = RoleMember \<or> role = RoleAdmin then Inr role
      else if role = RoleOwner
      then (if u_Role caller \<noteq> RoleOwner then Inl (403, ''Only the organization owner can create another owner'')
            else Inr role)
      else Inl (400, ''Role must be one of: member, admin, owner''))"

definition inviteMember :: "api \<Rightarrow> user \<Rightarrow> handler" where
  "inviteMember a caller r =
     (if \<not> IsAdmin (u_Role caller) then ret (Fail 403 ''Only an administrator can invite members'')
      else case Decode inviteRequest r of
          Inl e \<Rightarrow> ret (Fail 400 e)
        | Inr req \<Rightarrow>
            (let email = TrimSpace (str_field ''email'' req); password = str_field ''password'' req
             in if \<not> Contains email ''@'' then ret (Fail 400 ''A valid email is required'')
                else if length password < minPasswordLen then ret (Fail 400 ''Password must be at least 10 characters'')
                else case invited_role caller (str_field ''role'' req) of
                    Inl (status, msg) \<Rightarrow> ret (Fail status msg)
                  | Inr role \<Rightarrow>
                      attempt (HashPassword a password)
                        (\<lambda>e. ret (if e = PwPanic then panicked else Fail 500 ''Could not create account'')) (\<lambda>hash.
                      attempt (CreateMember (u_OrgID caller) email hash role)
                        (\<lambda>e. if is_ErrEmailTaken e then ret (Fail 409 ''That email is already registered'')
                             else do { log_event LogError ''org.invite_failed''; ret (Fail 500 ''Could not create account'') })
                        (\<lambda>u. do {
                          audit (u_OrgID caller) (Some (u_ID caller)) ''member.invited'' ''user'' (Some (u_ID u))
                            [(''email'', JStr (u_Email u)), (''role'', JStr (u_Role u))];
                          ret (JSON 201 (Some (toUserResponse a u))) }))))"

section \<open>Who is let into an organization\<close>

text \<open>What a request may add to the users: one row, in the caller's organization, of no higher role than the caller's.\<close>

definition member_added :: "api \<Rightarrow> user \<Rightarrow> db \<Rightarrow> db \<Rightarrow> bool" where
  "member_added a caller d d' \<longleftrightarrow> (\<exists>u. users d' = users d @ [u] \<and> u_OrgID u = u_OrgID caller \<and> IsAdmin (u_Role caller) \<and>
     (u_Role u = RoleOwner \<longrightarrow> u_Role caller = RoleOwner) \<and> valid_role (u_Role u) \<and> \<not> u_totp_enabled u \<and>
     (\<forall>v\<in>set (users d). \<not> citext_eq (u_Email v) (u_Email u)))"

lemma invited_role_Inr: "invited_role caller role = Inr r \<Longrightarrow> (r = RoleOwner \<longrightarrow> u_Role caller = RoleOwner) \<and> valid_role r"
  by (auto simp: invited_role_def valid_role_def split: if_splits)

lemma member_added_insert:
  assumes "insert_user (u_OrgID caller) email hash role d t = Inr (u, d')" and "IsAdmin (u_Role caller)"
    and "invited_role caller asked = Inr role"
  shows "member_added a caller d d'"
  using insert_user_db [OF assms(1)] invited_role_Inr [OF assms(3)] assms(2) by (auto simp: member_added_def)

lemma member_added_audit [simp]:
  "member_added a caller d (d'\<lparr>audit_log := rows, next_id := n\<rparr>) = member_added a caller d d'"
  by (simp add: member_added_def)

lemma inviteMember_vc:
  "wp (inviteMember a caller r) (\<lambda>resp w'. users (w_db w') = users (w_db w) \<or> member_added a caller (w_db w) (w_db w')) w"
  unfolding inviteMember_def CreateMember_def Let_def
  by ((intro vc_rules vc_HashPassword_frame)[1], simp_all) (rule disjI2, erule (2) member_added_insert)+

text \<open>
  Claim C37: an invitation adds at most one user: in the caller's own organization, by an
  administrator of it, an owner only by an owner, with an email no user has, and without a second
  factor.
\<close>

theorem Invite_sound:
  assumes "run_state (inviteMember a caller r) w = (resp, w')"
  shows "users (w_db w') = users (w_db w) \<or> member_added a caller (w_db w) (w_db w')"
  using wpD [OF inviteMember_vc assms] by blast

section \<open>Registration\<close>

definition org_registered :: "string \<Rightarrow> string \<Rightarrow> string \<Rightarrow> db \<Rightarrow> db \<Rightarrow> bool" where
  "org_registered name slug email d d' \<longleftrightarrow> (\<exists>o' u.
     organizations d' = organizations d @ [o'] \<and> users d' = users d @ [u] \<and> o_Name o' = name \<and> o_Slug o' = slug \<and>
     u_OrgID u = o_ID o' \<and> u_Role u = RoleOwner \<and> u_Email u = email \<and>
     (\<forall>v\<in>set (users d). \<not> citext_eq (u_Email v) email) \<and> (\<forall>v\<in>set (organizations d). \<not> citext_eq (o_Slug v) slug))"

lemma org_registered_inserts:
  assumes "insert_org name slug d t = Inr (og, d')" and "insert_user (o_ID og) email hash RoleOwner d' t = Inr (ow, d'')"
  shows "org_registered name slug email d d''"
  using insert_org_db [OF assms(1)] insert_user_db [OF assms(2)] by (auto simp: org_registered_def organization.truncate_def)

lemma CreateOrgWithOwner_wp:
  "wp (CreateOrgWithOwner name slug email hash) (\<lambda>r w'. w_db w' = w_db w \<and> (\<forall>x. r \<noteq> Inr x) \<or>
     org_registered name slug email (w_db w) (w_db w')) w"
  unfolding CreateOrgWithOwner_def
  by (auto simp: wp_rules split: outcome.splits sum.splits intro: org_registered_inserts)

lemma vc_CreateOrgWithOwner [vc_rules]:
  assumes "\<And>e w'. w_db w' = w_db w \<Longrightarrow> Q (Inl e) w'"
    and "\<And>e w'. org_registered name slug email (w_db w) (w_db w') \<Longrightarrow> Q (Inl e) w'"
    and "\<And>x w'. org_registered name slug email (w_db w) (w_db w') \<Longrightarrow> Q (Inr x) w'"
  shows "wp (CreateOrgWithOwner name slug email hash) Q w"
  apply (rule wp_mono [OF CreateOrgWithOwner_wp])
  subgoal for r w' using assms by (cases r) auto
  done

lemma register_vc:
  "wp (register a r) (\<lambda>resp w'. (w_db w' = w_db w \<and> rs_Status resp \<noteq> 201) \<or>
     (\<exists>req. Decode registerRequest r = Inr req \<and> minPasswordLen \<le> length (str_field ''password'' req) \<and>
        org_registered (TrimSpace (str_field ''org_name'' req)) (slugify (TrimSpace (str_field ''org_name'' req)))
          (TrimSpace (str_field ''email'' req)) (w_db w) (w_db w'))) w"
  unfolding register_def Let_def by ((intro vc_rules vc_HashPassword_frame)[1], simp_all add: not_less)

text \<open>
  Claim C36: registration writes an organization together with its owner, or nothing at all,
  whichever call fails on the way; a confirmed registration did, with a password of at least ten
  bytes, an email no user has and a slug no organization has.
\<close>

theorem Register_atomic:
  assumes "run_state (register a r) w = (resp, w')"
  shows "(w_db w' = w_db w \<and> rs_Status resp \<noteq> 201) \<or>
     (\<exists>req. Decode registerRequest r = Inr req \<and> minPasswordLen \<le> length (str_field ''password'' req) \<and>
        org_registered (TrimSpace (str_field ''org_name'' req)) (slugify (TrimSpace (str_field ''org_name'' req)))
          (TrimSpace (str_field ''email'' req)) (w_db w) (w_db w'))"
  using wpD [OF register_vc assms] .

section \<open>Witnesses\<close>

definition sample_invite :: request where
  "sample_invite = (sample_request ''POST'' ''/api/org/users'')\<lparr>rq_Body := JsonBody (JObj
     [(''email'', JStr ''fay@acme''), (''password'', JStr ''correct horse'')])\<rparr>"

text \<open>The owner invites a member.\<close>

theorem Invite_sound_witness:
  "\<exists>resp w'. run_state (inviteMember sample_api (user.truncate ann) sample_invite) sample_world = (resp, w') \<and>
     rs_Status resp = 201 \<and> member_added sample_api (user.truncate ann) sample_db (w_db w')"
proof -
  have req: "Decode inviteRequest sample_invite = Inr [(''email'', JStr ''fay@acme''), (''password'', JStr ''correct horse'')]"
    by (simp add: Decode_def sample_invite_def decode_json_def inviteRequest_def field_for_def select_def field_accepts_def)
  have email: "TrimSpace ''fay@acme'' = ''fay@acme''" "Contains ''fay@acme'' ''@''" by code_simp+
  obtain h where hash: "run_state (HashPassword sample_api ''correct horse'') sample_world =
      (Inr h, sample_world\<lparr>w_rpos := w_rpos sample_world + argonSaltLen\<rparr>)"
    using HashPassword_quiet [OF sample_quiet sample_argon2_ok] by blast
  have "\<exists>u d. insert_user 1 ''fay@acme'' h RoleMember sample_db (1000 * second) = Inr (u, d) \<and> length (users d) = 6"
    by (simp add: insert_user_def Let_def valid_role_def org_acme_def sample_people citext_eq_def ToLower_def lower_char_def is_upper_def code_def)
  then have "\<exists>resp w'. run_state (inviteMember sample_api (user.truncate ann) sample_invite) sample_world = (resp, w') \<and>
      rs_Status resp = 201 \<and> length (users (w_db w')) = 6"
    by (elim exE conjE) (simp add: inviteMember_def req IsAdmin_def str_field_def values_of_def email minPasswordLen_def invited_role_def hash
        CreateMember_def quiet_run audit_def Audit_def s_Audit_def JSON_def Let_def)
  then obtain resp w' where run: "run_state (inviteMember sample_api (user.truncate ann) sample_invite) sample_world = (resp, w')"
    and ok: "rs_Status resp = 201" "length (users (w_db w')) = 6" by blast
  from Invite_sound [OF run] run ok show ?thesis by auto
qed

definition sample_register :: request where
  "sample_register = (sample_request ''POST'' ''/api/auth/register'')\<lparr>rq_Body := JsonBody (JObj
     [(''org_name'', JStr ''New Co''), (''email'', JStr ''gus@new''), (''password'', JStr ''correct horse'')])\<rparr>"

text \<open>A third organization is registered with its owner.\<close>

theorem Register_atomic_witness:
  "\<exists>resp w'. run_state (register sample_api sample_register) sample_world = (resp, w') \<and> rs_Status resp = 201 \<and>
     org_registered ''New Co'' ''new-co'' ''gus@new'' sample_db (w_db w')"
proof -
  have req: "Decode registerRequest sample_register =
      Inr [(''org_name'', JStr ''New Co''), (''email'', JStr ''gus@new''), (''password'', JStr ''correct horse'')]"
    by (simp add: Decode_def sample_register_def decode_json_def registerRequest_def field_for_def select_def field_accepts_def)
  have words: "TrimSpace ''gus@new'' = ''gus@new''" "Contains ''gus@new'' ''@''" "TrimSpace ''New Co'' = ''New Co''" "slugify ''New Co'' = ''new-co''"
    by code_simp+
  obtain h where hash: "run_state (HashPassword sample_api ''correct horse'') sample_world =
      (Inr h, sample_world\<lparr>w_rpos := w_rpos sample_world + argonSaltLen\<rparr>)"
    using HashPassword_quiet [OF sample_quiet sample_argon2_ok] by blast
  obtain og d1 where org: "insert_org ''New Co'' ''new-co'' sample_db (1000 * second) = Inr (og, d1)" "o_ID og = 100"
      "users d1 = users sample_db" "organizations d1 = organizations sample_db @ [\<lparr>o_ID = 100, o_Name = ''New Co'', o_Slug = ''new-co'',
        o_CreatedAt = 1000 * second, o_require_mfa = False\<rparr>]"
    by (simp add: insert_org_def org_acme_def org_rival_def citext_eq_def ToLower_def lower_char_def is_upper_def code_def organization.defs)
  have "\<exists>u d. insert_user 100 ''gus@new'' h RoleOwner d1 (1000 * second) = Inr (u, d)"
    by (simp add: insert_user_def Let_def valid_role_def org sample_people citext_eq_def ToLower_def lower_char_def is_upper_def code_def)
  then obtain u d2 where user: "insert_user 100 ''gus@new'' h RoleOwner d1 (1000 * second) = Inr (u, d2)" by blast
  have sign: "\<exists>tok. run_state (Issue sample_api u) w = (Some tok, w)" for w
    by (rule issues) (simp add: sample_api_def sample_sign_def)
  then obtain tok where tok: "run_state (Issue sample_api u) (sample_world\<lparr>w_rpos := w_rpos sample_world + argonSaltLen, w_db := d2\<rparr>) =
      (Some tok, sample_world\<lparr>w_rpos := w_rpos sample_world + argonSaltLen, w_db := d2\<rparr>)" by blast
  have "\<exists>resp w'. run_state (register sample_api sample_register) sample_world = (resp, w') \<and> rs_Status resp = 201"
    using org(1,2) user tok by (simp add: register_def req str_field_def values_of_def words minPasswordLen_def hash CreateOrgWithOwner_def
        quiet_run log_event_def JSON_def with_cookies_def Let_def)
  then obtain resp w' where run: "run_state (register sample_api sample_register) sample_world = (resp, w')" and ok: "rs_Status resp = 201" by blast
  from Register_atomic [OF run] ok run show ?thesis by (simp add: req str_field_def values_of_def words)
qed

end
