(* ===== verification/GoConv.thy ===== *)
theory GoConv
  imports Encoding Complex_Main
begin

text \<open>
  Conversions of Go's standard library the parser calls: \<open>strconv.Atoi\<close> and \<open>ParseFloat\<close>,
  \<open>netip.ParseAddr\<close> with \<open>Addr.String\<close>, and \<open>utf8.ValidString\<close>, which PostgreSQL applies to text.
\<close>

section \<open>strconv.Atoi\<close>

text \<open>The value that comes with an ignored error: 0 for a syntax error, the nearest bound for a range error.\<close>

definition Atoi_value :: "string \<Rightarrow> int" where
  "Atoi_value s =
     (case ParseInt 64 s of
        Some n \<Rightarrow> n
      | None \<Rightarrow>
          (let neg = (s \<noteq> [] \<and> hd s = CHR ''-'');
               ds = (if s \<noteq> [] \<and> (hd s = CHR ''-'' \<or> hd s = CHR ''+'') then tl s else s)
           in if ds = [] \<or> \<not> list_all is_digit ds then 0
              else if neg then - (2 ^ 63) else 2 ^ 63 - 1))"

section \<open>strconv.ParseFloat\<close>

datatype float64 = Finite rat | PosInf | NegInf | NaN

text \<open>Rounding \<open>n / d\<close> to 53 significant bits, ties to even; \<open>None\<close> is a range error.\<close>

function blen :: "int \<Rightarrow> int" where
  "blen n = (if n \<le> 0 then 0 else 1 + blen (n div 2))"
  by auto

termination
  by (relation "measure nat") auto

declare blen.simps [simp del]

definition round_half_even :: "int \<Rightarrow> int \<Rightarrow> int" where
  "round_half_even n d =
     (let q = n div d; r = n mod d in if 2 * r > d \<or> 2 * r = d \<and> odd q then q + 1 else q)"

definition pow2 :: "int \<Rightarrow> rat" where
  "pow2 e = (if e \<ge> 0 then of_int (2 ^ nat e) else 1 / of_int (2 ^ nat (- e)))"

definition round_float64 :: "int \<Rightarrow> int \<Rightarrow> rat option" where
  "round_float64 n d =
     (if n = 0 then Some 0
      else let e0 = blen n - blen d;
               e = (if n * 2 ^ nat (- e0) \<ge> d * 2 ^ nat e0 then e0 else e0 - 1);
               sh = max (e - 52) (-1074);
               m = round_half_even (n * 2 ^ nat (- sh)) (d * 2 ^ nat sh);
               v = of_int m * pow2 sh
           in if v \<ge> pow2 1024 then None else Some v)"

definition is_hex :: "char \<Rightarrow> bool" where
  "is_hex c \<longleftrightarrow> is_digit c \<or> 97 \<le> code (lower_char c) \<and> code (lower_char c) \<le> 102"

definition hex_val :: "char \<Rightarrow> nat" where
  "hex_val c = (if is_digit c then code c - 48 else code (lower_char c) - 87)"

text \<open>\<open>underscoreOK\<close>: an underscore stands between digits, or between the base prefix and a digit.\<close>

fun underscores_ok :: "bool \<Rightarrow> char \<Rightarrow> string \<Rightarrow> bool" where
  "underscores_ok hex saw [] \<longleftrightarrow> saw \<noteq> CHR ''_''"
| "underscores_ok hex saw (c # s) \<longleftrightarrow>
     (if is_digit c \<or> hex \<and> is_hex c then underscores_ok hex (CHR ''0'') s
      else if c = CHR ''_'' then saw = CHR ''0'' \<and> underscores_ok hex (CHR ''_'') s
      else saw \<noteq> CHR ''_'' \<and> underscores_ok hex (CHR ''!'') s)"

definition drop_sign :: "string \<Rightarrow> bool \<times> string" where
  "drop_sign s = (if s \<noteq> [] \<and> hd s = CHR ''-'' then (True, tl s)
     else if s \<noteq> [] \<and> hd s = CHR ''+'' then (False, tl s) else (False, s))"

definition has_hex_prefix :: "string \<Rightarrow> bool" where
  "has_hex_prefix s \<longleftrightarrow> length s \<ge> 2 \<and> s ! 0 = CHR ''0'' \<and> lower_char (s ! 1) = CHR ''x''"

text \<open>The exponent behind \<open>e\<close> or \<open>p\<close>: an optional sign and at least one digit.\<close>

definition read_exponent :: "string \<Rightarrow> int option" where
  "read_exponent s =
     (case drop_sign s of (neg, ds) \<Rightarrow>
        if ds = [] \<or> \<not> is_digit (hd ds) \<or> \<not> list_all (\<lambda>c. is_digit c \<or> c = CHR ''_'') ds then None
        else let n = foldl (\<lambda>n c. 10 * n + int (hex_val c)) 0 (filter is_digit ds)
             in Some (if neg then - n else n))"

text \<open>\<open>readFloat\<close> and the rounding: numerator and denominator of the exact value, then the nearest float.\<close>

definition ParseFloat :: "string \<Rightarrow> float64 option" where
  "ParseFloat s =
     (if s = [] then None
      else case drop_sign s of (neg, u) \<Rightarrow>
        if ToLower u = ''inf'' \<or> ToLower u = ''infinity'' then Some (if neg then NegInf else PosInf)
        else if ToLower s = ''nan'' then Some NaN
        else
          let hex = has_hex_prefix u;
              base = (if hex then 16 else 10) :: int;
              body = (if hex then drop 2 u else u);
              mant = takeWhile (\<lambda>c. c = CHR ''.'' \<or> c = CHR ''_'' \<or> is_digit c \<or> hex \<and> is_hex c) body;
              rest = drop (length mant) body;
              (int_part, frac_part, dot) = Cut mant ''.'';
              ds = filter is_hex mant;
              fd = length (filter is_hex frac_part);
              n = foldl (\<lambda>n c. base * n + int (hex_val c)) 0 ds;
              ex = (if rest = [] then (if hex then None else Some 0)
                    else if lower_char (hd rest) = (if hex then CHR ''p'' else CHR ''e'') then read_exponent (tl rest)
                    else None);
              plain = (if hex then drop 2 u else u)
          in if ds = [] \<or> Count mant CHR ''.'' > 1 \<or>
                (CHR ''_'' \<in> set u \<and> \<not> underscores_ok hex (if hex then CHR ''0'' else CHR ''^'') plain)
             then None
             else case ex of
                None \<Rightarrow> None
              | Some e \<Rightarrow>
                  (let b = (if hex then 2 else 10) :: int;
                       num = n * b ^ nat e; den = base ^ fd * b ^ nat (- e)
                   in map_option (\<lambda>v. Finite (if neg then - v else v)) (round_float64 num den)))"

text \<open>
  \<open>int64(f)\<close> truncates. What it gives for a value out of range is left to the implementation; the
  model has what \<open>CVTTSD2SI\<close> gives on amd64.
\<close>

definition int64_of :: "float64 \<Rightarrow> int" where
  "int64_of f = (case f of
       Finite q \<Rightarrow> (let n = (if q \<ge> 0 then \<lfloor>q\<rfloor> else - \<lfloor>- q\<rfloor>)
                   in if - (2 ^ 63) \<le> n \<and> n < 2 ^ 63 then n else - (2 ^ 63))
     | _ \<Rightarrow> - (2 ^ 63))"

section \<open>netip\<close>

text \<open>An address: the four bytes of IPv4, or the eight groups of IPv6 and its zone.\<close>

datatype addr = V4 "nat list" | V6 "nat list" string

definition parse_octet :: "string \<Rightarrow> nat option" where
  "parse_octet s =
     (if s = [] \<or> \<not> list_all is_digit s \<or> (length s > 1 \<and> hd s = CHR ''0'') then None
      else let n = foldl (\<lambda>n c. 10 * n + hex_val c) 0 s in if n > 255 then None else Some n)"

definition parseIPv4Fields :: "string \<Rightarrow> nat list option" where
  "parseIPv4Fields s =
     (let parts = map parse_octet (Split s CHR ''.'')
      in if length parts = 4 \<and> None \<notin> set parts then Some (map the parts) else None)"

text \<open>
  The loop of \<open>parseIPv6\<close> over the groups: those read so far, the position of the ellipsis, the
  rest. The value is the groups, the ellipsis and whether the text was used up.
\<close>

function (sequential) parse_groups :: "nat list \<Rightarrow> nat option \<Rightarrow> string \<Rightarrow> (nat list \<times> nat option \<times> string) option" where
  "parse_groups gs ell s =
     (if length gs \<ge> 8 then Some (gs, ell, s)
      else
        let h = takeWhile is_hex s; r = drop (length h) s
        in if h = [] \<or> length h > 4 then None
           else if r \<noteq> [] \<and> hd r = CHR ''.''
           then (if ell = None \<and> length gs \<noteq> 6 \<or> length gs > 6 then None
                 else case parseIPv4Fields s of
                    Some [a, b, c, d] \<Rightarrow> Some (gs @ [a * 256 + b, c * 256 + d], ell, [])
                  | _ \<Rightarrow> None)
           else
             let gs = gs @ [foldl (\<lambda>n c. 16 * n + hex_val c) 0 h]
             in if r = [] then Some (gs, ell, [])
                else if hd r \<noteq> CHR '':'' \<or> length r = 1 then None
                else if r ! 1 = CHR '':''
                then (if ell \<noteq> None then None
                      else if length r = 2 then Some (gs, Some (length gs), [])
                      else parse_groups gs (Some (length gs)) (drop 2 r))
                else parse_groups gs ell (drop 1 r))"
  by pat_completeness auto

termination
  by (relation "measure (\<lambda>(gs, ell, s). 8 - length gs)") auto

declare parse_groups.simps [simp del]

definition parseIPv6 :: "string \<Rightarrow> addr option" where
  "parseIPv6 inp =
     (case Cut inp ''%'' of (s, zone, found) \<Rightarrow>
        if found \<and> zone = [] then None
        else
          let lead = prefix ''::'' s; t = (if lead then drop 2 s else s)
          in if lead \<and> t = [] then Some (V6 (replicate 8 0) zone)
             else case parse_groups [] (if lead then Some 0 else None) t of
                None \<Rightarrow> None
              | Some (gs, ell, rest) \<Rightarrow>
                  if rest \<noteq> [] then None
                  else case ell of
                     None \<Rightarrow> (if length gs < 8 then None else Some (V6 gs zone))
                   | Some k \<Rightarrow> (if length gs \<ge> 8 then None
                               else Some (V6 (take k gs @ replicate (8 - length gs) 0 @ drop k gs) zone)))"

definition ParseAddr :: "string \<Rightarrow> addr option" where
  "ParseAddr s =
     (case filter (\<lambda>c. c = CHR ''.'' \<or> c = CHR '':'' \<or> c = CHR ''%'') s of
        [] \<Rightarrow> None
      | c # _ \<Rightarrow> if c = CHR ''.'' then map_option V4 (parseIPv4Fields s)
                else if c = CHR '':'' then parseIPv6 s else None)"

fun hex_string :: "nat \<Rightarrow> string" where
  "hex_string n = (if n < 16 then [''0123456789abcdef'' ! n]
     else hex_string (n div 16) @ [''0123456789abcdef'' ! (n mod 16)])"

declare hex_string.simps [simp del]

text \<open>The first of the longest runs of at least two zero groups, as start and end.\<close>

definition zero_run :: "nat list \<Rightarrow> nat \<times> nat" where
  "zero_run gs = foldl (\<lambda>(st, en) i.
     let j = i + length (takeWhile (\<lambda>g. g = 0) (drop i gs))
     in if j - i \<ge> 2 \<and> j - i > en - st then (i, j) else (st, en)) (255, 255) [0..<8]"

definition string6 :: "nat list \<Rightarrow> string" where
  "string6 gs = (case zero_run gs of (st, en) \<Rightarrow>
     if st = 255 then Join (map hex_string gs) '':''
     else Join (map hex_string (take st gs)) '':'' @ ''::'' @ Join (map hex_string (drop en gs)) '':'')"

fun addr_String :: "addr \<Rightarrow> string" where
  "addr_String (V4 bs) = Join (map Itoa bs) ''.''"
| "addr_String (V6 gs zone) =
     (if take 6 gs = [0, 0, 0, 0, 0, 65535]
      then ''::ffff:'' @ Join (map Itoa [gs ! 6 div 256, gs ! 6 mod 256, gs ! 7 div 256, gs ! 7 mod 256]) ''.''
      else string6 gs) @ (if zone = [] then [] else ''%'' @ zone)"

section \<open>utf8.ValidString\<close>

definition continuation :: "char \<Rightarrow> bool" where
  "continuation c \<longleftrightarrow> 128 \<le> code c \<and> code c < 192"

fun ValidString :: "string \<Rightarrow> bool" where
  "ValidString [] = True"
| "ValidString (c # s) =
     (if code c < 128 then ValidString s
      else case s of
        d # s1 \<Rightarrow>
          (if 194 \<le> code c \<and> code c < 224 then continuation d \<and> ValidString s1
           else case s1 of
             e # s2 \<Rightarrow>
               (if 224 \<le> code c \<and> code c < 240
                then continuation d \<and> continuation e \<and> (code c = 224 \<longrightarrow> code d \<ge> 160) \<and> (code c = 237 \<longrightarrow> code d < 160) \<and> ValidString s2
                else case s2 of
                  f # s3 \<Rightarrow> 240 \<le> code c \<and> code c < 245 \<and> continuation d \<and> continuation e \<and> continuation f \<and>
                     (code c = 240 \<longrightarrow> code d \<ge> 144) \<and> (code c = 244 \<longrightarrow> code d < 144) \<and> ValidString s3
                | [] \<Rightarrow> False)
           | [] \<Rightarrow> False)
      | [] \<Rightarrow> False)"

section \<open>Addresses are read back\<close>

lemma digits_foldl: "digits_value n s = Some k \<Longrightarrow> foldl (\<lambda>n c. 10 * n + hex_val c) n s = k \<and> list_all is_digit s"
  by (induction s arbitrary: n) (auto simp: hex_val_def split: if_splits)

lemma Itoa_digits: "list_all is_digit (Itoa n)" "Itoa n \<noteq> []" "foldl (\<lambda>n c. 10 * n + hex_val c) 0 (Itoa n) = n"
  using digits_foldl [OF digits_value_Itoa [of n]] by (auto simp: Itoa.simps [of n])

lemma code_digit: "n < 10 \<Longrightarrow> code (char_of (48 + n :: nat)) = 48 + n"
  by (simp add: code_def of_char_of)

lemma Itoa_head: "n > 0 \<Longrightarrow> hd (Itoa n) \<noteq> CHR ''0''"
proof (induction n rule: Itoa.induct)
  case (1 n)
  show ?case
  proof (cases "n < 10")
    case True
    have z: "code CHR ''0'' = 48" by (simp add: code_def)
    have "char_of (48 + n) \<noteq> CHR ''0''"
    proof
      assume "char_of (48 + n) = CHR ''0''"
      with code_digit [OF True] z have "48 + n = 48" by simp
      with 1(2) show False by simp
    qed
    with True show ?thesis by (simp add: Itoa.simps [of n])
  next
    case False
    with 1(1) show ?thesis by (simp add: Itoa.simps [of n] Itoa_digits(2))
  qed
qed

lemma parse_octet_Itoa: "n < 256 \<Longrightarrow> parse_octet (Itoa n) = Some n"
proof -
  assume n: "n < 256"
  have "\<not> (length (Itoa n) > 1 \<and> hd (Itoa n) = CHR ''0'')"
    using Itoa_head [of n] by (cases "n = 0") (auto simp: Itoa.simps [of 0])
  with n show ?thesis by (simp add: parse_octet_def Itoa_digits Let_def)
qed

lemma not_digit_chars [simp]: "\<not> is_digit CHR ''.''" "\<not> is_digit CHR '':''" "\<not> is_digit CHR ''%''"
  "\<not> is_hex CHR ''.''" "\<not> is_hex CHR '':''" "\<not> is_hex CHR ''%''"
  by (simp_all add: is_digit_def is_hex_def code_def lower_char_def is_upper_def)

lemma Itoa_not_in: "\<not> is_digit c \<Longrightarrow> c \<notin> set (Itoa n)"
  using Itoa_digits(1) [of n] by (auto simp: list_all_iff)

lemma parseIPv4Fields_String:
  assumes "length bs = 4" "\<forall>b\<in>set bs. b < 256"
  shows "parseIPv4Fields (Join (map Itoa bs) ''.'') = Some bs"
proof -
  have "Split (Join (map Itoa bs) ''.'') CHR ''.'' = map Itoa bs"
    using assms(1) by (intro Split_Join) (auto simp: Itoa_not_in)
  moreover have "map (\<lambda>b. parse_octet (Itoa b)) bs = map Some bs"
    using assms(2) by (simp add: parse_octet_Itoa)
  ultimately show ?thesis using assms(1) by (auto simp: parseIPv4Fields_def Let_def o_def intro!: map_idI)
qed

lemma set_Join: "set (Join ws sep) \<subseteq> \<Union> (set ` set ws) \<union> set sep"
  by (induction ws sep rule: Join.induct) auto

lemma ParseAddr_V4:
  assumes "length bs = 4" "\<forall>b\<in>set bs. b < 256"
  shows "ParseAddr (addr_String (V4 bs)) = Some (V4 bs)"
proof -
  let ?s = "Join (map Itoa bs) ''.''"
  have only: "c = CHR ''.''" if "c \<in> set ?s" "\<not> is_digit c" for c
    using set_Join [of "map Itoa bs" "''.''"] that by (auto simp: Itoa_not_in)
  then have f: "filter (\<lambda>c. c = CHR ''.'' \<or> c = CHR '':'' \<or> c = CHR ''%'') ?s = filter (\<lambda>c. c = CHR ''.'') ?s"
    using only [of "CHR '':''"] only [of "CHR ''%''"] by (intro filter_cong) auto
  have "CHR ''.'' \<in> set ?s"
    using assms(1) by (auto simp: numeral_eq_Suc length_Suc_conv)
  then have "filter (\<lambda>c. c = CHR ''.'') ?s \<noteq> []" by (auto simp: filter_empty_conv)
  then obtain cs where "filter (\<lambda>c. c = CHR ''.'' \<or> c = CHR '':'' \<or> c = CHR ''%'') ?s = CHR ''.'' # cs"
    unfolding f by (cases "filter (\<lambda>c. c = CHR ''.'') ?s") (auto dest: filter_eq_ConsD)
  with parseIPv4Fields_String [OF assms] show ?thesis by (simp add: ParseAddr_def)
qed

end
