(* ===== verification/Store_Ingest.thy ===== *)
theory Store_Ingest
  imports Store_Uploads GoTime GoConv "HOL-Library.List_Lexorder"
begin

text \<open>
  \<open>internal/store/ingest.go\<close>: the writes of an ingest, all inside the transaction the handler
  opened: partitions, \<open>COPY\<close>, the rollups, the upload row. The column types and keys are those of
  migrations 000002, 000005 and 000009; the session's time zone is UTC.
\<close>

record ingest_batch =
  ib_UploadID :: uuid
  ib_OrgID :: uuid
  ib_UserID :: uuid

section \<open>CopyEntries\<close>

definition nullable :: "string \<Rightarrow> string option" where
  "nullable s = (if s = [] then None else Some s)"

text \<open>\<open>timestamptz\<close> keeps microseconds.\<close>

definition timestamptz :: "time \<Rightarrow> time" where
  "timestamptz t = t div 1000 * 1000"

definition copy_row :: "ingest_batch \<Rightarrow> entry \<Rightarrow> log_entry" where
  "copy_row b e = \<lparr>l_upload_id = ib_UploadID b, l_org_id = ib_OrgID b, l_user_id = ib_UserID b, l_line_no = e_LineNo e,
     l_ts = map_option timestamptz (e_TS e),
     l_client_ip = (if e_ClientIP e = [] then None else map_option addr_String (ParseAddr (e_ClientIP e))),
     l_username = nullable (e_Username e), l_host = nullable (e_Host e), l_url = nullable (e_URL e),
     l_category = nullable (e_Category e), l_action = nullable (e_Action e), l_req_bytes = e_ReqBytes e,
     l_resp_bytes = e_RespBytes e, l_user_agent = nullable (e_UserAgent e), l_threat_name = nullable (e_ThreatName e),
     l_raw = e_Raw e, l_resp_code = e_RespCode e, l_method = nullable (e_Method e), l_latency_ms = e_LatencyMS e,
     l_cache_status = nullable (e_CacheStatus e), l_reason = nullable (e_Reason e)\<rparr>"

text \<open>What the columns accept: \<open>text\<close> without the zero byte and in UTF-8, \<open>integer\<close> in 32 bits, \<open>bigint\<close> in 64.\<close>

definition text_ok :: "string \<Rightarrow> bool" where
  "text_ok s \<longleftrightarrow> CHR 0x00 \<notin> set s \<and> ValidString s"

definition int4_ok :: "int \<Rightarrow> bool" where
  "int4_ok n \<longleftrightarrow> - (2 ^ 31) \<le> n \<and> n < 2 ^ 31"

text \<open>
  The range of \<open>timestamptz\<close>, 4714 BC to 294276 AD. An instant beyond it is refused (that the
  driver's count of microseconds wraps at 64 bits for the most distant ones is left out).
\<close>

definition timestamptz_ok :: "time \<Rightarrow> bool" where
  "timestamptz_ok t \<longleftrightarrow> - 210866803200 * second \<le> t \<and> t < 9224318016000 * second"

definition int8_ok :: "int \<Rightarrow> bool" where
  "int8_ok n \<longleftrightarrow> - (2 ^ 63) \<le> n \<and> n < 2 ^ 63"

definition row_ok :: "log_entry \<Rightarrow> bool" where
  "row_ok l \<longleftrightarrow> int4_ok (l_line_no l) \<and> pred_option timestamptz_ok (l_ts l) \<and> pred_option int4_ok (l_resp_code l) \<and> pred_option int4_ok (l_latency_ms l) \<and>
     text_ok (l_raw l) \<and>
     list_all (pred_option text_ok) [l_username l, l_host l, l_url l, l_category l, l_action l, l_user_agent l,
       l_threat_name l, l_method l, l_cache_status l, l_reason l]"

definition s_CopyEntries :: "ingest_batch \<Rightarrow> entry list \<Rightarrow> db \<Rightarrow> time \<Rightarrow> store_err + (nat \<times> db)" where
  "s_CopyEntries b entries d t =
     (let rows = map (copy_row b) entries
      in if list_all row_ok rows then Inr (length rows, d\<lparr>log_entries := log_entries d @ rows\<rparr>) else Inl ErrDriver)"

definition CopyEntries :: "tx \<Rightarrow> ingest_batch \<Rightarrow> entry list \<Rightarrow> (store_err + (nat \<times> tx)) M" where
  "CopyEntries t b entries = (if entries = [] then ret (Inr (0, t)) else tx_exec t (s_CopyEntries b entries))"

section \<open>EnsurePartitions\<close>

text \<open>
  A partition is a year and a month. One can be created only while no row of its month lies in
  the default partition, that is, while no row of that month exists at all.
\<close>

definition month_of :: "time \<Rightarrow> int \<times> int" where
  "month_of t = (case civil_from_days (t div day) of (y, m, _) \<Rightarrow> (y, m))"

definition month_index :: "int \<times> int \<Rightarrow> int" where
  "month_index ym = fst ym * 12 + (snd ym - 1)"

definition index_month :: "int \<Rightarrow> int \<times> int" where
  "index_month k = (k div 12, k mod 12 + 1)"

definition in_month :: "int \<times> int \<Rightarrow> log_entry \<Rightarrow> bool" where
  "in_month ym l \<longleftrightarrow> (case l_ts l of None \<Rightarrow> False | Some t \<Rightarrow> month_of t = ym)"

definition create_partition :: "int \<times> int \<Rightarrow> db \<Rightarrow> store_err + db" where
  "create_partition ym d =
     (if ym \<in> set (partitions d) then Inr d
      else if list_ex (in_month ym) (log_entries d) then Inl (ErrConstraint ''log_entries_default'')
      else Inr (d\<lparr>partitions := partitions d @ [ym]\<rparr>))"

fun create_partitions :: "(int \<times> int) list \<Rightarrow> db \<Rightarrow> store_err + db" where
  "create_partitions [] d = Inr d"
| "create_partitions (ym # yms) d =
     (case create_partition ym d of Inl e \<Rightarrow> Inl e | Inr d' \<Rightarrow> create_partitions yms d')"

definition s_EnsurePartitions :: "time \<Rightarrow> time \<Rightarrow> db \<Rightarrow> time \<Rightarrow> store_err + (unit \<times> db)" where
  "s_EnsurePartitions from to d t =
     (case create_partitions (map index_month [month_index (month_of from)..month_index (month_of to)]) d of
        Inl e \<Rightarrow> Inl e | Inr d' \<Rightarrow> Inr ((), d'))"

definition EnsurePartitions :: "tx \<Rightarrow> time option \<Rightarrow> time option \<Rightarrow> (store_err + (unit \<times> tx)) M" where
  "EnsurePartitions t from to =
     (case (from, to) of
        (Some f, Some u) \<Rightarrow> tx_exec t (s_EnsurePartitions f u)
      | _ \<Rightarrow> ret (Inr ((), t)))"

section \<open>BuildRollups\<close>

definition grain_unit :: "string \<Rightarrow> duration" where
  "grain_unit grain = (if grain = ''minute'' then minute else hour)"

definition date_trunc :: "string \<Rightarrow> time \<Rightarrow> time" where
  "date_trunc grain t = t div grain_unit grain * grain_unit grain"

text \<open>\<open>percentile_disc(p / 100)\<close>: the first value at or past that share of the sorted ones.\<close>

definition percentile_disc :: "nat \<Rightarrow> 'a::linorder list \<Rightarrow> 'a option" where
  "percentile_disc p xs =
     (if xs = [] then None else Some (sort xs ! ((p * length xs + 99) div 100 - 1)))"

definition non_null :: "'a option list \<Rightarrow> 'a list" where
  "non_null xs = map the (filter (\<lambda>x. x \<noteq> None) xs)"

definition coalesce :: "'a \<Rightarrow> 'a option \<Rightarrow> 'a" where
  "coalesce z x = (case x of None \<Rightarrow> z | Some y \<Rightarrow> y)"

text \<open>\<open>GROUP BY key\<close>: the groups in the order their keys occur first.\<close>

definition group_by :: "('a \<Rightarrow> 'k) \<Rightarrow> 'a list \<Rightarrow> ('k \<times> 'a list) list" where
  "group_by key rows = map (\<lambda>k. (k, filter (\<lambda>r. key r = k) rows)) (rev (remdups (rev (map key rows))))"

text \<open>\<open>ON CONFLICT (key) DO UPDATE\<close> of every other column.\<close>

definition upsert :: "('a \<Rightarrow> 'k) \<Rightarrow> 'a \<Rightarrow> 'a list \<Rightarrow> 'a list" where
  "upsert key row table =
     (if list_ex (\<lambda>r. key r = key row) table then map (\<lambda>r. if key r = key row then row else r) table
      else table @ [row])"

definition is_error :: "log_entry \<Rightarrow> bool" where
  "is_error l \<longleftrightarrow> (case l_resp_code l of None \<Rightarrow> False | Some c \<Rightarrow> c \<ge> 400)"

definition is_hit :: "log_entry \<Rightarrow> bool" where
  "is_hit l \<longleftrightarrow> (case l_cache_status l of None \<Rightarrow> False | Some s \<Rightarrow> Contains (ToUpper s) ''HIT'')"

definition rollup_key :: "string \<Rightarrow> log_entry \<Rightarrow> uuid \<times> uuid \<times> uuid \<times> string \<times> time" where
  "rollup_key grain l =
     (l_org_id l, l_user_id l, l_upload_id l, coalesce [] (l_host l), date_trunc grain (the (l_ts l)))"

definition rollup_row :: "string \<Rightarrow> (uuid \<times> uuid \<times> uuid \<times> string \<times> time) \<times> log_entry list \<Rightarrow> entry_rollup" where
  "rollup_row grain g =
     (case g of ((org, usr, up, host, bucket), rows) \<Rightarrow>
       let lat = non_null (map l_latency_ms rows)
       in \<lparr>r_org_id = org, r_user_id = usr, r_upload_id = up, r_host = host, r_grain = grain, r_bucket_start = bucket,
           r_requests = int (length rows),
           r_bytes_in = sum_list (non_null (map l_resp_bytes rows)),
           r_bytes_out = sum_list (non_null (map l_req_bytes rows)),
           r_errors = int (length (filter is_error rows)),
           r_cache_hits = int (length (filter is_hit rows)),
           r_cache_total = int (length (filter (\<lambda>l. l_cache_status l \<noteq> None) rows)),
           r_latency_p50 = percentile_disc 50 lat, r_latency_p95 = percentile_disc 95 lat,
           r_latency_p99 = percentile_disc 99 lat, r_latency_count = int (length lat)\<rparr>)"

definition rollup_pk :: "entry_rollup \<Rightarrow> uuid \<times> uuid \<times> uuid \<times> string \<times> time \<times> string" where
  "rollup_pk r = (r_org_id r, r_user_id r, r_upload_id r, r_grain r, r_bucket_start r, r_host r)"

definition dated_rows :: "uuid \<Rightarrow> db \<Rightarrow> log_entry list" where
  "dated_rows i d = select (\<lambda>l. l_upload_id l = i \<and> l_ts l \<noteq> None) (log_entries d)"

definition rollup_rows :: "string \<Rightarrow> uuid \<Rightarrow> db \<Rightarrow> entry_rollup list" where
  "rollup_rows grain i d = map (rollup_row grain) (group_by (rollup_key grain) (dated_rows i d))"

definition has_upload :: "uuid \<Rightarrow> db \<Rightarrow> bool" where
  "has_upload i d \<longleftrightarrow> list_ex (\<lambda>u. up_ID u = i) (uploads d)"

text \<open>\<open>SUM\<close> is exact; the columns the sums go to are \<open>bigint\<close>.\<close>

definition rollup_ok :: "entry_rollup \<Rightarrow> bool" where
  "rollup_ok r \<longleftrightarrow> int8_ok (r_bytes_in r) \<and> int8_ok (r_bytes_out r)"

definition s_BuildRollups :: "string \<Rightarrow> ingest_batch \<Rightarrow> db \<Rightarrow> time \<Rightarrow> store_err + (unit \<times> db)" where
  "s_BuildRollups grain b d t =
     (let rows = rollup_rows grain (ib_UploadID b) d
      in if \<not> list_all rollup_ok rows then Inl ErrDriver
         else if rows \<noteq> [] \<and> \<not> has_upload (ib_UploadID b) d then Inl (ErrConstraint ''entry_rollups_upload_id_fkey'')
         else Inr ((), d\<lparr>entry_rollups := fold (upsert rollup_pk) rows (entry_rollups d)\<rparr>))"

definition status_key :: "log_entry \<Rightarrow> uuid \<times> uuid \<times> uuid \<times> time \<times> int" where
  "status_key l = (l_org_id l, l_user_id l, l_upload_id l, date_trunc ''hour'' (the (l_ts l)), the (l_resp_code l))"

text \<open>\<open>MIN\<close> over text, here by the bytes of the strings.\<close>

definition min_text :: "string list \<Rightarrow> string option" where
  "min_text ss = (case ss of [] \<Rightarrow> None | _ \<Rightarrow> Some (string_of (hd (sort_key id (map bytes_of ss)))))"

definition status_row :: "(uuid \<times> uuid \<times> uuid \<times> time \<times> int) \<times> log_entry list \<Rightarrow> status_rollup" where
  "status_row g =
     (case g of ((org, usr, up, bucket, status), rows) \<Rightarrow>
       \<lparr>s_org_id = org, s_user_id = usr, s_upload_id = up, s_bucket_start = bucket, s_resp_code = status,
        s_reason = min_text (non_null (map l_reason rows)), s_requests = int (length rows),
        s_latency_p95 = percentile_disc 95 (non_null (map l_latency_ms rows))\<rparr>)"

definition status_pk :: "status_rollup \<Rightarrow> uuid \<times> uuid \<times> uuid \<times> time \<times> int" where
  "status_pk r = (s_org_id r, s_user_id r, s_upload_id r, s_bucket_start r, s_resp_code r)"

definition status_rows :: "uuid \<Rightarrow> db \<Rightarrow> status_rollup list" where
  "status_rows i d = map status_row (group_by status_key (select (\<lambda>l. l_resp_code l \<noteq> None) (dated_rows i d)))"

definition s_buildStatusRollups :: "ingest_batch \<Rightarrow> db \<Rightarrow> time \<Rightarrow> store_err + (unit \<times> db)" where
  "s_buildStatusRollups b d t =
     (let rows = status_rows (ib_UploadID b) d
      in if rows \<noteq> [] \<and> \<not> has_upload (ib_UploadID b) d then Inl (ErrConstraint ''status_rollups_upload_id_fkey'')
         else Inr ((), d\<lparr>status_rollups := fold (upsert status_pk) rows (status_rollups d)\<rparr>))"

definition BuildRollups :: "tx \<Rightarrow> ingest_batch \<Rightarrow> (store_err + (unit \<times> tx)) M" where
  "BuildRollups t b =
     attempt (tx_exec t (s_BuildRollups ''minute'' b)) (\<lambda>e. ret (Inl e)) (\<lambda>(_, t).
     attempt (tx_exec t (s_BuildRollups ''hour'' b)) (\<lambda>e. ret (Inl e)) (\<lambda>(_, t).
       tx_exec t (s_buildStatusRollups b)))"

section \<open>CreateUpload\<close>

definition s_CreateUpload :: "upload \<Rightarrow> db \<Rightarrow> time \<Rightarrow> store_err + (upload \<times> db)" where
  "s_CreateUpload u d t =
     (let u = u\<lparr>up_CreatedAt := t\<rparr>
      in if \<not> text_ok (up_Filename u) then Inl ErrDriver
         else if has_upload (up_ID u) d then Inl (ErrConstraint ''uploads_pkey'')
         else if \<not> list_ex (\<lambda>r. u_ID r = up_UserID u) (users d) \<or> \<not> list_ex (\<lambda>r. o_ID r = up_OrgID u) (organizations d)
         then Inl (ErrConstraint ''uploads_fkey'')
         else Inr (u, d\<lparr>uploads := uploads d @ [u]\<rparr>))"

definition CreateUpload :: "tx \<Rightarrow> upload \<Rightarrow> (store_err + (upload \<times> tx)) M" where
  "CreateUpload t u = tx_exec t (s_CreateUpload u)"

definition Begin :: "(store_err + tx) M" where
  "Begin = tx_begin"

section \<open>Partitions cover what is copied\<close>

text \<open>Every dated row lies in a partition of its month; the default one holds undated rows only.\<close>

definition partitioned :: "db \<Rightarrow> bool" where
  "partitioned d \<longleftrightarrow> (\<forall>l\<in>set (log_entries d). \<forall>t. l_ts l = Some t \<longrightarrow> month_of t \<in> set (partitions d))"

lemma month_of_timestamptz [simp]: "month_of (timestamptz t) = month_of t"
proof -
  have d: "day = 86400000000 * 1000" "day = 1000 * 86400000000" by simp_all
  have "t div 1000 * 1000 div (86400000000 * 1000) = t div 1000 div 86400000000"
    by (rule div_mult_mult2) simp
  also have "\<dots> = t div (1000 * 86400000000)" by (rule zdiv_zmult2_eq [symmetric]) simp
  finally have "t div 1000 * 1000 div day = t div day" unfolding d(1) by (simp only: mult.commute)
  then show ?thesis unfolding month_of_def timestamptz_def by (simp only:)
qed

lemma index_month_of [simp]: "index_month (month_index (month_of t)) = month_of t"
proof (cases "civil_from_days (t div day)")
  case (fields y m d)
  with civil_month_range [OF fields] show ?thesis
    by (simp add: index_month_def month_index_def month_of_def div_add1_eq mod_add_eq)
qed

lemma month_index_number: "month_index (month_of t) = month_number (civil_from_days (t div day))"
  unfolding month_of_def by (cases "civil_from_days (t div day)") (simp add: month_index_def month_number_def)

lemma month_index_mono: "s \<le> t \<Longrightarrow> month_index (month_of s) \<le> month_index (month_of t)"
  unfolding month_index_number by (rule civil_month_mono [OF zdiv_mono1]) simp_all

lemma partitioned_more: "partitioned d \<Longrightarrow> partitioned (d\<lparr>partitions := partitions d @ ps\<rparr>)"
  by (auto simp: partitioned_def)

lemma create_partitions_ok:
  "partitioned d \<Longrightarrow> \<exists>ps. create_partitions yms d = Inr (d\<lparr>partitions := partitions d @ ps\<rparr>) \<and> set yms \<subseteq> set (partitions d @ ps)"
proof (induction yms arbitrary: d)
  case Nil
  show ?case by (rule exI [of _ "[]"]) simp
next
  case (Cons ym yms)
  have free: "\<not> list_ex (in_month ym) (log_entries d)" if "ym \<notin> set (partitions d)"
    using that Cons.prems by (auto simp: list_ex_iff in_month_def partitioned_def split: option.splits)
  then obtain qs where qs: "create_partition ym d = Inr (d\<lparr>partitions := partitions d @ qs\<rparr>)" "ym \<in> set (partitions d @ qs)"
  proof (cases "ym \<in> set (partitions d)")
    case True
    then show ?thesis using that [of "[]"] by (simp add: create_partition_def)
  next
    case False
    with free show ?thesis
      using that [of "[ym]"] by (simp add: create_partition_def)
  qed
  from Cons.IH [OF partitioned_more [OF Cons.prems, of qs]] obtain ps where
    "create_partitions yms (d\<lparr>partitions := partitions d @ qs\<rparr>) = Inr (d\<lparr>partitions := partitions d @ qs @ ps\<rparr>)"
    "set yms \<subseteq> set (partitions d @ qs @ ps)" by auto
  with qs show ?case by (intro exI [of _ "qs @ ps"]) auto
qed

lemma month_in_span:
  assumes "from \<le> t" "t \<le> to"
  shows "month_of t \<in> set (map index_month [month_index (month_of from)..month_index (month_of to)])"
  unfolding set_map
proof (rule image_eqI)
  show "month_of t = index_month (month_index (month_of t))" by (rule index_month_of [symmetric])
  show "month_index (month_of t) \<in> set [month_index (month_of from)..month_index (month_of to)]"
    using month_index_mono [OF assms(1)] month_index_mono [OF assms(2)] by (simp only: set_upto atLeastAtMost_iff)
qed

section \<open>The rollups agree with the rows\<close>

lemma set_group_by: "set (group_by key rows) = (\<lambda>k. (k, filter (\<lambda>r. key r = k) rows)) ` key ` set rows"
  by (auto simp: group_by_def)

lemma distinct_group_by: "distinct (map fst (group_by key rows))"
  by (simp add: group_by_def o_def)

lemma sum_over_keys:
  assumes "finite K" "key ` set rows \<subseteq> K"
  shows "(\<Sum>k\<in>K. sum_list (map f (filter (\<lambda>r. key r = k) rows))) = sum_list (map (f :: 'a \<Rightarrow> int) rows)"
  using assms(2)
proof (induction rows)
  case (Cons r rows)
  have "(\<Sum>k\<in>K. sum_list (map f (filter (\<lambda>r. key r = k) (r # rows)))) =
    (\<Sum>k\<in>K. (if key r = k then f r else 0) + sum_list (map f (filter (\<lambda>r. key r = k) rows)))"
    by (intro sum.cong) auto
  also have "\<dots> = f r + sum_list (map f rows)"
    using Cons assms(1) by (simp add: sum.distrib)
  finally show ?case by simp
qed simp

text \<open>A total over all groups is the total over all rows.\<close>

lemma group_by_sum:
  assumes "\<And>k rs. g (k, rs) = (\<Sum>r\<leftarrow>rs. f r)"
  shows "(\<Sum>x\<leftarrow>group_by key rows. g x) = (\<Sum>r\<leftarrow>rows. (f r :: int))"
proof -
  have "(\<Sum>x\<leftarrow>group_by key rows. g x) = (\<Sum>k\<leftarrow>rev (remdups (rev (map key rows))). \<Sum>r\<leftarrow>filter (\<lambda>r. key r = k) rows. f r)"
    by (simp add: group_by_def o_def assms)
  also have "\<dots> = (\<Sum>k\<in>key ` set rows. \<Sum>r\<leftarrow>filter (\<lambda>r. key r = k) rows. f r)"
    by (simp add: sum_list_distinct_conv_sum_set)
  also have "\<dots> = (\<Sum>r\<leftarrow>rows. f r)" by (rule sum_over_keys) auto
  finally show ?thesis .
qed

lemma length_filter_sum: "int (length (filter p xs)) = (\<Sum>x\<leftarrow>xs. if p x then 1 else 0)"
  by (induction xs) auto

lemma sum_non_null: "sum_list (non_null (map f xs)) = (\<Sum>x\<leftarrow>xs. coalesce 0 (f x))"
  by (induction xs) (auto simp: non_null_def coalesce_def split: option.splits)

text \<open>What the dashboard adds up is what the rows say.\<close>

lemma rollup_totals:
  "(\<Sum>r\<leftarrow>rollup_rows grain i d. r_requests r) = int (length (dated_rows i d))"
  "(\<Sum>r\<leftarrow>rollup_rows grain i d. r_errors r) = int (length (filter is_error (dated_rows i d)))"
  "(\<Sum>r\<leftarrow>rollup_rows grain i d. r_bytes_in r) = (\<Sum>l\<leftarrow>dated_rows i d. coalesce 0 (l_resp_bytes l))"
  "(\<Sum>r\<leftarrow>rollup_rows grain i d. r_bytes_out r) = (\<Sum>l\<leftarrow>dated_rows i d. coalesce 0 (l_req_bytes l))"
  "(\<Sum>r\<leftarrow>rollup_rows grain i d. r_cache_hits r) = int (length (filter is_hit (dated_rows i d)))"
proof -
  have sum: "(\<Sum>r\<leftarrow>rollup_rows grain i d. h r) = (\<Sum>l\<leftarrow>dated_rows i d. f l)"
    if "\<And>k rs. h (rollup_row grain (k, rs)) = (\<Sum>r\<leftarrow>rs. f r)" for h :: "entry_rollup \<Rightarrow> int" and f :: "log_entry \<Rightarrow> int"
    using group_by_sum [of "\<lambda>x. h (rollup_row grain x)" f "rollup_key grain" "dated_rows i d"] that
    by (simp add: rollup_rows_def o_def)
  show "(\<Sum>r\<leftarrow>rollup_rows grain i d. r_requests r) = int (length (dated_rows i d))"
    using sum [of r_requests "\<lambda>_. 1"] by (simp add: rollup_row_def Let_def sum_list_triv split: prod.splits)
  show "(\<Sum>r\<leftarrow>rollup_rows grain i d. r_errors r) = int (length (filter is_error (dated_rows i d)))"
    using sum [of r_errors "\<lambda>l. if is_error l then 1 else 0"]
    by (simp add: rollup_row_def Let_def length_filter_sum split: prod.splits)
  show "(\<Sum>r\<leftarrow>rollup_rows grain i d. r_cache_hits r) = int (length (filter is_hit (dated_rows i d)))"
    using sum [of r_cache_hits "\<lambda>l. if is_hit l then 1 else 0"]
    by (simp add: rollup_row_def Let_def length_filter_sum split: prod.splits)
  show "(\<Sum>r\<leftarrow>rollup_rows grain i d. r_bytes_in r) = (\<Sum>l\<leftarrow>dated_rows i d. coalesce 0 (l_resp_bytes l))"
    using sum [of r_bytes_in "\<lambda>l. coalesce 0 (l_resp_bytes l)"]
    by (simp add: rollup_row_def Let_def sum_non_null split: prod.splits)
  show "(\<Sum>r\<leftarrow>rollup_rows grain i d. r_bytes_out r) = (\<Sum>l\<leftarrow>dated_rows i d. coalesce 0 (l_req_bytes l))"
    using sum [of r_bytes_out "\<lambda>l. coalesce 0 (l_req_bytes l)"]
    by (simp add: rollup_row_def Let_def sum_non_null split: prod.splits)
qed

text \<open>No sum of a bucket exceeds the sum of the sizes over all rows, so small uploads always fit.\<close>

definition sizes :: "(log_entry \<Rightarrow> int option) \<Rightarrow> log_entry list \<Rightarrow> int" where
  "sizes f ls = (\<Sum>l\<leftarrow>ls. \<bar>coalesce 0 (f l)\<bar>)"

lemma sum_filter_le_sizes: "\<bar>sum_list (non_null (map f (filter p ls)))\<bar> \<le> sizes f ls"
  by (induction ls) (auto simp: sizes_def non_null_def coalesce_def split: option.splits)

lemma rollup_rows_ok:
  assumes "sizes l_resp_bytes (dated_rows i d) < 2 ^ 63" "sizes l_req_bytes (dated_rows i d) < 2 ^ 63"
  shows "list_all rollup_ok (rollup_rows g i d)"
proof -
  have "int8_ok (sum_list (non_null (map f (filter p (dated_rows i d)))))" if "sizes f (dated_rows i d) < 2 ^ 63" for f p
    using sum_filter_le_sizes [of f p "dated_rows i d"] that unfolding int8_ok_def by linarith
  with assms show ?thesis
    by (auto simp: list_all_iff rollup_rows_def set_group_by rollup_row_def Let_def rollup_ok_def split: prod.splits)
qed

text \<open>The rows of a grain have distinct keys, so on a table without them they are inserted as they are.\<close>

lemma rollup_pk_row: "rollup_pk (rollup_row grain ((org, usr, up, host, bucket), rs)) = (org, usr, up, grain, bucket, host)"
  by (simp add: rollup_pk_def rollup_row_def Let_def)

lemma fold_upsert_fresh:
  assumes "distinct (map key rows)" "\<forall>r\<in>set rows. \<forall>x\<in>set table. key x \<noteq> key r"
  shows "fold (upsert key) rows table = table @ rows"
  using assms
proof (induction rows arbitrary: table)
  case (Cons r rows)
  then have "upsert key r table = table @ [r]" by (auto simp: upsert_def list_ex_iff)
  moreover have "\<forall>q\<in>set rows. \<forall>x\<in>set (table @ [r]). key x \<noteq> key q"
    using Cons.prems by (auto simp: image_iff)
  ultimately show ?case using Cons.IH [of "table @ [r]"] Cons.prems(1) by simp
qed simp

lemma distinct_rollup_pk: "distinct (map rollup_pk (rollup_rows grain i d))"
proof -
  have "inj_on (\<lambda>x. rollup_pk (rollup_row grain x)) (set (group_by (rollup_key grain) (dated_rows i d)))"
    by (rule inj_onI) (auto simp: set_group_by rollup_pk_row rollup_key_def)
  moreover have "distinct (group_by (rollup_key grain) (dated_rows i d))"
    using distinct_group_by [of "rollup_key grain" "dated_rows i d"] by (simp add: distinct_map)
  ultimately show ?thesis by (simp add: rollup_rows_def o_def distinct_map)
qed

end
