(* ===== verification/Store_Analyses.thy ===== *)
theory Store_Analyses
  imports World "HOL-Library.Product_Lexorder"
begin

text \<open>\<open>internal/store/analyses.go\<close>: analyses of uploads and their findings, with the constraints of their table.\<close>

section \<open>Writing\<close>

text \<open>The check constraint \<open>baseline_window_matches_scope\<close>, and the labels of the enum.\<close>

definition window_matches_scope :: "string \<Rightarrow> int option \<Rightarrow> bool" where
  "window_matches_scope scope window \<longleftrightarrow>
     scope = ''file'' \<and> window = None \<or> scope = ''history'' \<and> window \<noteq> None"

definition s_CreateAnalysis :: "uuid \<Rightarrow> uuid \<Rightarrow> string \<Rightarrow> int option \<Rightarrow> db \<Rightarrow> time \<Rightarrow> store_err + (analysis \<times> db)" where
  "s_CreateAnalysis orgID uploadID scope window d t =
     (if \<not> window_matches_scope scope window \<or> (\<forall>r\<in>set (organizations d). o_ID r \<noteq> orgID) \<or>
         (\<forall>u\<in>set (uploads d). up_ID u \<noteq> uploadID)
      then Inl ErrDriver
      else let an = \<lparr>a_ID = next_id d, a_OrgID = orgID, a_UploadID = uploadID, a_Status = ''queued'', a_Scope = scope,
             a_BaselineWindowDays = window, a_OverallRisk = None, a_Summary = None, a_Timeline = JNull, a_Model = None,
             a_InputTokens = None, a_OutputTokens = None, a_Error = None, a_CreatedAt = t, a_StartedAt = None,
             a_FinishedAt = None\<rparr>
           in Inr (an, d\<lparr>analyses := analyses d @ [an], next_id := Suc (next_id d)\<rparr>))"

definition CreateAnalysis :: "uuid \<Rightarrow> uuid \<Rightarrow> string \<Rightarrow> int option \<Rightarrow> (store_err + analysis) M" where
  "CreateAnalysis orgID uploadID scope window = db_exec (s_CreateAnalysis orgID uploadID scope window)"

definition s_FailAnalysis :: "uuid \<Rightarrow> string \<Rightarrow> db \<Rightarrow> time \<Rightarrow> store_err + (unit \<times> db)" where
  "s_FailAnalysis i message d t =
     Inr ((), d\<lparr>analyses := update_where (\<lambda>an. a_ID an = i)
       (\<lambda>an. an\<lparr>a_Status := ''failed'', a_Error := Some message, a_FinishedAt := Some t\<rparr>) (analyses d)\<rparr>)"

definition FailAnalysis :: "uuid \<Rightarrow> string \<Rightarrow> (store_err + unit) M" where
  "FailAnalysis i message = db_exec (s_FailAnalysis i message)"

section \<open>Reading\<close>

definition scanAnalysis :: "analysis option \<Rightarrow> store_err + analysis" where
  "scanAnalysis row = or_error ErrNotFound row"

definition q_AnalysisByID :: "uuid \<Rightarrow> db \<Rightarrow> time \<Rightarrow> store_err + analysis" where
  "q_AnalysisByID i d t = scanAnalysis (first_row (select (\<lambda>an. a_ID an = i) (analyses d)))"

definition AnalysisByID :: "uuid \<Rightarrow> (store_err + analysis) M" where
  "AnalysisByID i = db_query (q_AnalysisByID i)"

definition q_LatestAnalysisFor :: "uuid \<Rightarrow> db \<Rightarrow> time \<Rightarrow> store_err + analysis" where
  "q_LatestAnalysisFor uploadID d t =
     scanAnalysis (first_row (order_desc a_CreatedAt (select (\<lambda>an. a_UploadID an = uploadID) (analyses d))))"

definition LatestAnalysisFor :: "uuid \<Rightarrow> (store_err + analysis) M" where
  "LatestAnalysisFor uploadID = db_query (q_LatestAnalysisFor uploadID)"

text \<open>The enums \<open>urgency_level\<close> and \<open>severity\<close>, in the order of their labels.\<close>

definition label_rank :: "string list \<Rightarrow> string \<Rightarrow> nat" where
  "label_rank labels l = length (takeWhile (\<lambda>x. x \<noteq> l) labels)"

definition urgency_rank :: "string \<Rightarrow> nat" where
  "urgency_rank = label_rank [''monitor'', ''this_week'', ''today'', ''immediate'']"

definition severity_rank :: "string \<Rightarrow> nat" where
  "severity_rank = label_rank [''info'', ''low'', ''medium'', ''high'', ''critical'']"

definition triage_key :: "('a) anomaly_scheme \<Rightarrow> nat \<times> nat \<times> rat" where
  "triage_key f = (urgency_rank (an_Urgency f), severity_rank (an_Severity f), an_Confidence f)"

definition q_Anomalies :: "uuid \<Rightarrow> db \<Rightarrow> time \<Rightarrow> store_err + anomaly list" where
  "q_Anomalies analysisID d t =
     Inr (map anomaly.truncate (order_desc triage_key (select (\<lambda>f. an_analysis_id f = analysisID) (anomalies d))))"

definition Anomalies :: "uuid \<Rightarrow> (store_err + anomaly list) M" where
  "Anomalies analysisID = db_query (q_Anomalies analysisID)"

definition q_CountEntries :: "uuid \<Rightarrow> db \<Rightarrow> time \<Rightarrow> store_err + nat" where
  "q_CountEntries uploadID d t = Inr (affected (\<lambda>l. l_upload_id l = uploadID) (log_entries d))"

definition CountEntries :: "uuid \<Rightarrow> (store_err + nat) M" where
  "CountEntries uploadID = db_query (q_CountEntries uploadID)"

declare CreateAnalysis_def [wp_rules, op_defs] FailAnalysis_def [wp_rules, op_defs] AnalysisByID_def [wp_rules, op_defs]
  LatestAnalysisFor_def [wp_rules, op_defs] Anomalies_def [wp_rules, op_defs] CountEntries_def [wp_rules, op_defs]

section \<open>Lemmas\<close>

lemma s_CreateAnalysis_db:
  assumes "s_CreateAnalysis org up scope window d t = Inr (an, d')"
  shows "d' = d\<lparr>analyses := analyses d @ [an], next_id := Suc (next_id d)\<rparr> \<and> a_ID an = next_id d \<and> a_OrgID an = org \<and>
    a_UploadID an = up \<and> a_Status an = ''queued'' \<and> a_Scope an = scope \<and> a_BaselineWindowDays an = window \<and>
    window_matches_scope scope window"
  using assms by (auto simp: s_CreateAnalysis_def Let_def split: if_splits)

lemma q_AnalysisByID_Inr: "q_AnalysisByID i d t = Inr an \<Longrightarrow> an \<in> set (analyses d) \<and> a_ID an = i"
  by (auto simp: q_AnalysisByID_def scanAnalysis_def dest: first_row_select_SomeD)

lemma q_Anomalies_org: "q_Anomalies i d t = Inr fs \<Longrightarrow> f \<in> set fs \<Longrightarrow>
    \<exists>row\<in>set (anomalies d). an_analysis_id row = i \<and> anomaly.truncate row = f"
  by (auto simp: q_Anomalies_def)

end
