(* ===== verification/Store_Dashboard.thy ===== *)
theory Store_Dashboard
  imports Store_Ingest Store_Analyses
begin

text \<open>
  \<open>internal/store/dashboard.go\<close>, with \<open>ProcessingStats\<close> of \<open>analyses.go\<close>: the read queries of the
  dashboard, as functions of the tables. A float is the number a \<open>float64\<close> holds.
\<close>

section \<open>Whose data a query covers\<close>

record scope =
  sc_OrgID :: uuid
  sc_UserID :: "uuid option"
  sc_From :: time
  sc_To :: time

text \<open>
  The predicate every query shares. The bounds are sent as \<open>timestamptz\<close>, in microseconds. A row
  without a time satisfies no bound.
\<close>

definition whereNoTime :: "scope \<Rightarrow> ('r \<Rightarrow> uuid) \<Rightarrow> ('r \<Rightarrow> uuid) \<Rightarrow> 'r \<Rightarrow> bool" where
  "whereNoTime sc org usr r \<longleftrightarrow> org r = sc_OrgID sc \<and> (case sc_UserID sc of None \<Rightarrow> True | Some u \<Rightarrow> usr r = u)"

definition where_clause :: "scope \<Rightarrow> ('r \<Rightarrow> uuid) \<Rightarrow> ('r \<Rightarrow> uuid) \<Rightarrow> ('r \<Rightarrow> time option) \<Rightarrow> 'r \<Rightarrow> bool" where
  "where_clause sc org usr ts r \<longleftrightarrow> whereNoTime sc org usr r \<and>
     (case ts r of None \<Rightarrow> False | Some t \<Rightarrow> timestamptz (sc_From sc) \<le> t \<and> t < timestamptz (sc_To sc))"

definition rollup_in :: "scope \<Rightarrow> entry_rollup \<Rightarrow> bool" where
  "rollup_in sc = where_clause sc r_org_id r_user_id (Some \<circ> r_bucket_start)"

definition entry_in :: "scope \<Rightarrow> log_entry \<Rightarrow> bool" where
  "entry_in sc = where_clause sc l_org_id l_user_id l_ts"

definition upload_in :: "scope \<Rightarrow> upload \<Rightarrow> bool" where
  "upload_in sc = where_clause sc up_OrgID up_UserID (Some \<circ> up_CreatedAt)"

definition status_in :: "scope \<Rightarrow> status_rollup \<Rightarrow> bool" where
  "status_in sc = where_clause sc s_org_id s_user_id (Some \<circ> s_bucket_start)"

definition timing_in :: "scope \<Rightarrow> timing_row \<Rightarrow> bool" where
  "timing_in sc = where_clause sc t_org_id t_user_id (Some \<circ> t_created_at)"

section \<open>Arithmetic in float64\<close>

definition to_float64 :: "int \<Rightarrow> rat" where
  "to_float64 n = (let v = (case round_float64 \<bar>n\<bar> 1 of None \<Rightarrow> 0 | Some v \<Rightarrow> v) in if n < 0 then - v else v)"

definition div_float64 :: "rat \<Rightarrow> rat \<Rightarrow> rat" where
  "div_float64 x y = (case quotient_of (x / y) of (n, d) \<Rightarrow>
     let v = (case round_float64 \<bar>n\<bar> d of None \<Rightarrow> 0 | Some v \<Rightarrow> v) in if n < 0 then - v else v)"

section \<open>Summary\<close>

record summary =
  su_Requests :: int
  su_Errors :: int
  su_SuccessRate :: "rat option"
  su_BytesIn :: int
  su_BytesOut :: int
  su_CacheHits :: int
  su_CacheTotal :: int
  su_CacheHitRate :: "rat option"
  su_LatencyP50 :: "int option"
  su_LatencyP95 :: "int option"
  su_LatencyP99 :: "int option"
  su_Hosts :: int
  su_Uploads :: int
  su_DataStart :: "time option"
  su_DataEnd :: "time option"
  su_Empty :: bool

definition sum_of :: "('r \<Rightarrow> int) \<Rightarrow> 'r list \<Rightarrow> int" where
  "sum_of f rows = sum_list (map f rows)"

definition scan_int8 :: "int list \<Rightarrow> store_err + int list" where
  "scan_int8 ns = (if list_all int8_ok ns then Inr ns else Inl ErrDriver)"

definition hour_rollups :: "scope \<Rightarrow> db \<Rightarrow> entry_rollup list" where
  "hour_rollups sc d = select (\<lambda>r. r_grain r = ''hour'' \<and> rollup_in sc r) (entry_rollups d)"

definition q_summary_counts :: "scope \<Rightarrow> db \<Rightarrow> time \<Rightarrow> store_err + int list" where
  "q_summary_counts sc d t =
     (let rs = hour_rollups sc d
      in scan_int8 [sum_of r_requests rs, sum_of r_errors rs, sum_of r_bytes_in rs, sum_of r_bytes_out rs,
           sum_of r_cache_hits rs, sum_of r_cache_total rs, int (length (remdups (map r_host rs)))])"

definition latencies :: "log_entry list \<Rightarrow> int list" where
  "latencies ls = non_null (map l_latency_ms ls)"

definition q_summary_latency :: "scope \<Rightarrow> db \<Rightarrow> time \<Rightarrow> store_err + (int option \<times> int option \<times> int option)" where
  "q_summary_latency sc d t =
     (let ls = latencies (select (entry_in sc) (log_entries d))
      in Inr (percentile_disc 50 ls, percentile_disc 95 ls, percentile_disc 99 ls))"

definition q_summary_uploads :: "scope \<Rightarrow> db \<Rightarrow> time \<Rightarrow> store_err + int" where
  "q_summary_uploads sc d t = Inr (int (length (select (upload_in sc) (uploads d))))"

definition min_of :: "'a::linorder list \<Rightarrow> 'a option" where
  "min_of xs = (if xs = [] then None else Some (Min (set xs)))"

definition max_of :: "'a::linorder list \<Rightarrow> 'a option" where
  "max_of xs = (if xs = [] then None else Some (Max (set xs)))"

definition q_summary_span :: "scope \<Rightarrow> db \<Rightarrow> time \<Rightarrow> store_err + (time option \<times> time option)" where
  "q_summary_span sc d t =
     (let bs = map r_bucket_start (select (whereNoTime sc r_org_id r_user_id) (entry_rollups d))
      in Inr (min_of bs, max_of bs))"

definition DashboardSummary :: "scope \<Rightarrow> (store_err + summary) M" where
  "DashboardSummary sc =
     attempt (db_query (q_summary_counts sc)) (\<lambda>e. ret (Inl e)) (\<lambda>counts.
     attempt (db_query (q_summary_latency sc)) (\<lambda>e. ret (Inl e)) (\<lambda>(p50, p95, p99).
     attempt (db_query (q_summary_uploads sc)) (\<lambda>e. ret (Inl e)) (\<lambda>ups.
     attempt (db_query (q_summary_span sc)) (\<lambda>e. ret (Inl e)) (\<lambda>(start, stop).
       let requests = counts ! 0; errors = counts ! 1; hits = counts ! 4; total = counts ! 5
       in ret (Inr \<lparr>su_Requests = requests, su_Errors = errors,
            su_SuccessRate = (if requests > 0 then Some (div_float64 (to_float64 (requests - errors)) (to_float64 requests)) else None),
            su_BytesIn = counts ! 2, su_BytesOut = counts ! 3, su_CacheHits = hits, su_CacheTotal = total,
            su_CacheHitRate = (if total > 0 then Some (div_float64 (to_float64 hits) (to_float64 total)) else None),
            su_LatencyP50 = p50, su_LatencyP95 = p95, su_LatencyP99 = p99, su_Hosts = counts ! 6, su_Uploads = ups,
            su_DataStart = start, su_DataEnd = stop, su_Empty = (requests = 0 \<and> ups = 0)\<rparr>)))))"

section \<open>Series\<close>

record series_point =
  sp_Bucket :: time
  sp_Requests :: int
  sp_Errors :: int
  sp_BytesIn :: int
  sp_BytesOut :: int
  sp_CacheHits :: int
  sp_CacheTotal :: int
  sp_LatencyP50 :: "int option"
  sp_LatencyP95 :: "int option"
  sp_LatencyP99 :: "int option"

definition series_grain :: "string \<Rightarrow> string" where
  "series_grain grain = (if grain \<noteq> ''minute'' \<and> grain \<noteq> ''hour'' then ''hour'' else grain)"

text \<open>The bucket of the two halves is joined: the sums over hosts, and the percentiles of its rows.\<close>

definition series_point_of :: "scope \<Rightarrow> string \<Rightarrow> db \<Rightarrow> time \<times> entry_rollup list \<Rightarrow> series_point" where
  "series_point_of sc grain d g =
     (case g of (bucket, rs) \<Rightarrow>
       let ls = latencies (select (\<lambda>l. entry_in sc l \<and> map_option (date_trunc grain) (l_ts l) = Some bucket) (log_entries d))
       in \<lparr>sp_Bucket = bucket, sp_Requests = sum_of r_requests rs, sp_Errors = sum_of r_errors rs,
           sp_BytesIn = sum_of r_bytes_in rs, sp_BytesOut = sum_of r_bytes_out rs,
           sp_CacheHits = sum_of r_cache_hits rs, sp_CacheTotal = sum_of r_cache_total rs,
           sp_LatencyP50 = percentile_disc 50 ls, sp_LatencyP95 = percentile_disc 95 ls, sp_LatencyP99 = percentile_disc 99 ls\<rparr>)"

definition series_point_ok :: "series_point \<Rightarrow> bool" where
  "series_point_ok p \<longleftrightarrow> list_all int8_ok [sp_Requests p, sp_Errors p, sp_BytesIn p, sp_BytesOut p, sp_CacheHits p, sp_CacheTotal p]"

definition q_DashboardSeries :: "scope \<Rightarrow> string \<Rightarrow> db \<Rightarrow> time \<Rightarrow> store_err + series_point list" where
  "q_DashboardSeries sc grain d t =
     (let grain = series_grain grain;
          counts = group_by r_bucket_start (select (\<lambda>r. r_grain r = grain \<and> rollup_in sc r) (entry_rollups d));
          points = map (series_point_of sc grain d) (order_asc fst counts)
      in if list_all series_point_ok points then Inr points else Inl ErrDriver)"

definition DashboardSeries :: "scope \<Rightarrow> string \<Rightarrow> (store_err + series_point list) M" where
  "DashboardSeries sc grain = db_query (q_DashboardSeries sc grain)"

section \<open>Top\<close>

record top_row =
  tr_Label :: string
  tr_Requests :: int
  tr_Errors :: int
  tr_Bytes :: int

definition topDimensions :: "(string \<times> (log_entry \<Rightarrow> string option)) list" where
  "topDimensions = [(''host'', l_host), (''url'', l_url), (''user'', l_username), (''ip'', l_client_ip), (''category'', l_category)]"

definition clamp_limit :: "int \<Rightarrow> nat \<Rightarrow> nat \<Rightarrow> nat" where
  "clamp_limit limit most usual = (if limit \<le> 0 \<or> limit > int most then usual else nat limit)"

definition top_row_of :: "string \<times> log_entry list \<Rightarrow> top_row" where
  "top_row_of g = (case g of (label, ls) \<Rightarrow>
     \<lparr>tr_Label = label, tr_Requests = int (length ls), tr_Errors = int (length (filter is_error ls)),
      tr_Bytes = sum_list (map (\<lambda>l. coalesce 0 (l_req_bytes l) + coalesce 0 (l_resp_bytes l)) ls)\<rparr>)"

text \<open>\<open>COALESCE(req_bytes,0) + COALESCE(resp_bytes,0)\<close> is a sum of two \<open>bigint\<close>s.\<close>

definition top_rows_ok :: "log_entry list \<Rightarrow> top_row list \<Rightarrow> bool" where
  "top_rows_ok ls rows \<longleftrightarrow> list_all (\<lambda>l. int8_ok (coalesce 0 (l_req_bytes l) + coalesce 0 (l_resp_bytes l))) ls \<and>
     list_all (int8_ok \<circ> tr_Bytes) rows"

definition q_DashboardTop :: "scope \<Rightarrow> (log_entry \<Rightarrow> string option) \<Rightarrow> nat \<Rightarrow> db \<Rightarrow> time \<Rightarrow> store_err + top_row list" where
  "q_DashboardTop sc col limit d t =
     (let ls = select (\<lambda>l. entry_in sc l \<and> col l \<noteq> None) (log_entries d);
          rows = take limit (order_desc tr_Requests (map top_row_of (group_by (the \<circ> col) ls)))
      in if top_rows_ok ls rows then Inr rows else Inl ErrDriver)"

datatype top_err = UnknownDimension string | TopFailed store_err

definition DashboardTop :: "scope \<Rightarrow> string \<Rightarrow> int \<Rightarrow> (top_err + top_row list) M" where
  "DashboardTop sc dimension limit =
     (case map_of topDimensions dimension of
        None \<Rightarrow> ret (Inl (UnknownDimension dimension))
      | Some col \<Rightarrow>
          attempt (db_query (q_DashboardTop sc col (clamp_limit limit 100 10)))
            (\<lambda>e. ret (Inl (TopFailed e))) (\<lambda>rows. ret (Inr rows)))"

section \<open>Findings\<close>

text \<open>\<open>anomalies\<close> joined with their analysis and its upload.\<close>

type_synonym finding = "anomaly_row \<times> analysis \<times> upload"

definition findings_join :: "db \<Rightarrow> finding list" where
  "findings_join d = concat (map (\<lambda>an. concat (map (\<lambda>a. map (\<lambda>up. (an, a, up))
     (select (\<lambda>up. up_ID up = a_UploadID a) (uploads d)))
     (select (\<lambda>a. a_ID a = an_analysis_id an) (analyses d)))) (anomalies d))"

record finding_count =
  fc_Severity :: string
  fc_Urgency :: string
  fc_Count :: int

definition finding_in :: "scope \<Rightarrow> finding \<Rightarrow> bool" where
  "finding_in sc f = (case f of (an, a, up) \<Rightarrow>
     a_OrgID a = sc_OrgID sc \<and> timestamptz (sc_From sc) \<le> a_CreatedAt a \<and> a_CreatedAt a < timestamptz (sc_To sc) \<and>
     (case sc_UserID sc of None \<Rightarrow> True | Some u \<Rightarrow> up_UserID up = u))"

definition q_FindingBreakdown :: "scope \<Rightarrow> db \<Rightarrow> time \<Rightarrow> store_err + finding_count list" where
  "q_FindingBreakdown sc d t =
     Inr (map (\<lambda>((sev, urg), fs). \<lparr>fc_Severity = sev, fc_Urgency = urg, fc_Count = int (length fs)\<rparr>)
       (group_by (\<lambda>(an, _, _). (an_Severity an, an_Urgency an)) (select (finding_in sc) (findings_join d))))"

definition FindingBreakdown :: "scope \<Rightarrow> (store_err + finding_count list) M" where
  "FindingBreakdown sc = db_query (q_FindingBreakdown sc)"

section \<open>The audit trail\<close>

record audit_entry =
  ae_ID :: uuid
  ae_ActorUserID :: "uuid option"
  ae_ActorEmail :: "string option"
  ae_Action :: string
  ae_ResourceType :: string
  ae_ResourceID :: "uuid option"
  ae_Detail :: "(string \<times> json) list"
  ae_CreatedAt :: time

definition audit_entry_of :: "db \<Rightarrow> audit_row \<Rightarrow> audit_entry" where
  "audit_entry_of d al = \<lparr>ae_ID = al_ID al, ae_ActorUserID = al_ActorUserID al,
     ae_ActorEmail = Option.bind (al_ActorUserID al) (\<lambda>i. map_option u_Email (first_row (select (\<lambda>u. u_ID u = i) (users d)))),
     ae_Action = al_Action al, ae_ResourceType = al_ResourceType al, ae_ResourceID = al_ResourceID al,
     ae_Detail = al_Detail al, ae_CreatedAt = al_CreatedAt al\<rparr>"

definition q_ListAudit :: "uuid \<Rightarrow> nat \<Rightarrow> db \<Rightarrow> time \<Rightarrow> store_err + audit_entry list" where
  "q_ListAudit orgID limit d t =
     Inr (map (audit_entry_of d) (take limit (order_desc al_CreatedAt (select (\<lambda>al. al_OrgID al = orgID) (audit_log d)))))"

definition ListAudit :: "uuid \<Rightarrow> int \<Rightarrow> (store_err + audit_entry list) M" where
  "ListAudit orgID limit = db_query (q_ListAudit orgID (clamp_limit limit 200 50))"

section \<open>Response codes\<close>

record status_breakdown =
  sb_Code :: int
  sb_Class :: string
  sb_Reason :: "string option"
  sb_Requests :: int
  sb_Share :: rat
  sb_P95Ms :: "int option"

definition statusClass :: "int \<Rightarrow> string" where
  "statusClass c = (if c \<ge> 500 then ''server_error'' else if c \<ge> 400 then ''client_error''
     else if c \<ge> 300 then ''redirect'' else ''success'')"

definition status_group :: "int \<times> status_rollup list \<Rightarrow> status_breakdown" where
  "status_group g = (case g of (c, rs) \<Rightarrow>
     \<lparr>sb_Code = c, sb_Class = statusClass c,
      sb_Reason = Option.bind (first_row (order_desc s_requests (select (\<lambda>r. s_reason r \<noteq> None) rs))) s_reason,
      sb_Requests = sum_of s_requests rs, sb_Share = 0, sb_P95Ms = max_of (non_null (map s_latency_p95 rs))\<rparr>)"

definition q_StatusCodes :: "scope \<Rightarrow> db \<Rightarrow> time \<Rightarrow> store_err + status_breakdown list" where
  "q_StatusCodes sc d t =
     (let out = map status_group (order_asc fst (group_by s_resp_code (select (status_in sc) (status_rollups d))))
      in if list_all (int8_ok \<circ> sb_Requests) out then Inr out else Inl ErrDriver)"

definition with_shares :: "status_breakdown list \<Rightarrow> status_breakdown list" where
  "with_shares out = (let total = sum_list (map sb_Requests out)
     in map (\<lambda>b. if total > 0 then b\<lparr>sb_Share := div_float64 (to_float64 (sb_Requests b)) (to_float64 total)\<rparr> else b) out)"

definition StatusCodes :: "scope \<Rightarrow> (store_err + status_breakdown list) M" where
  "StatusCodes sc = attempt (db_query (q_StatusCodes sc)) (\<lambda>e. ret (Inl e)) (\<lambda>out. ret (Inr (with_shares out)))"

section \<open>Processing times\<close>

record processing_stat =
  ps_Stage :: string
  ps_Count :: int
  ps_P50 :: rat
  ps_P95 :: rat
  ps_P99 :: rat

definition processing_stat_of :: "string \<times> timing_row list \<Rightarrow> processing_stat" where
  "processing_stat_of g = (case g of (stage, rs) \<Rightarrow>
     let ds = map t_duration_ms rs
     in \<lparr>ps_Stage = stage, ps_Count = int (length rs), ps_P50 = coalesce 0 (percentile_disc 50 ds),
         ps_P95 = coalesce 0 (percentile_disc 95 ds), ps_P99 = coalesce 0 (percentile_disc 99 ds)\<rparr>)"

definition q_ProcessingStats :: "scope \<Rightarrow> db \<Rightarrow> time \<Rightarrow> store_err + processing_stat list" where
  "q_ProcessingStats sc d t =
     Inr (map processing_stat_of (order_asc (bytes_of \<circ> fst) (group_by t_stage (select (timing_in sc) (analysis_timings d)))))"

definition ProcessingStats :: "scope \<Rightarrow> (store_err + processing_stat list) M" where
  "ProcessingStats sc = db_query (q_ProcessingStats sc)"

section \<open>The worklist\<close>

record action_item =
  ai_AnomalyID :: uuid
  ai_Filename :: string
  ai_Kind :: string
  ai_Severity :: string
  ai_Urgency :: string
  ai_Confidence :: rat
  ai_Explanation :: string
  ai_Recommendation :: "string option"
  ai_Entries :: int

definition action_item_of :: "finding \<Rightarrow> action_item" where
  "action_item_of f = (case f of (an, _, up) \<Rightarrow>
     \<lparr>ai_AnomalyID = an_ID an, ai_Filename = up_Filename up, ai_Kind = an_Kind an, ai_Severity = an_Severity an,
      ai_Urgency = an_Urgency an, ai_Confidence = an_Confidence an, ai_Explanation = an_Explanation an,
      ai_Recommendation = an_Recommendation an, ai_Entries = int (length (coalesce [] (an_EntryIDs an)))\<rparr>)"

text \<open>\<open>visibilityClause\<close> of \<open>search.go\<close>, on the joined upload.\<close>

definition visible_findings :: "user \<Rightarrow> db \<Rightarrow> time \<Rightarrow> finding list" where
  "visible_findings caller d t = select (\<lambda>(_, _, up). visible caller d t up) (findings_join d)"

definition q_ActionPlan :: "user \<Rightarrow> nat \<Rightarrow> db \<Rightarrow> time \<Rightarrow> store_err + action_item list" where
  "q_ActionPlan caller limit d t =
     Inr (map action_item_of (take limit (order_desc (\<lambda>(an, _, _). triage_key an) (visible_findings caller d t))))"

definition ActionPlan :: "user \<Rightarrow> int \<Rightarrow> (store_err + action_item list) M" where
  "ActionPlan caller limit = db_query (q_ActionPlan caller (clamp_limit limit 100 25))"

section \<open>Lemmas\<close>

declare DashboardSeries_def [wp_rules, op_defs] FindingBreakdown_def [wp_rules, op_defs] ListAudit_def [wp_rules, op_defs]
  ProcessingStats_def [wp_rules, op_defs] ActionPlan_def [wp_rules, op_defs]

lemma clamp_limit_bounds: "0 < usual \<Longrightarrow> usual \<le> most \<Longrightarrow> 0 < clamp_limit limit most usual \<and> clamp_limit limit most usual \<le> most"
  by (auto simp: clamp_limit_def)

lemma set_findings_join:
  "(an, a, up) \<in> set (findings_join d) \<longleftrightarrow> an \<in> set (anomalies d) \<and> a \<in> set (analyses d) \<and> up \<in> set (uploads d) \<and>
     a_ID a = an_analysis_id an \<and> up_ID up = a_UploadID a"
  by (auto simp: findings_join_def)

lemma set_visible_findings:
  "(an, a, up) \<in> set (visible_findings caller d t) \<longleftrightarrow> (an, a, up) \<in> set (findings_join d) \<and> visible caller d t up"
  by (auto simp: visible_findings_def)

end
