(* ===== verification/Store_Search.thy ===== *)
theory Store_Search
  imports Store_Dashboard
begin

text \<open>
  \<open>internal/store/search.go\<close>. PostgreSQL's text search and \<open>pgvector\<close>'s distance are arguments:
  \<open>fts query finding\<close> is the rank of a finding that matches, \<open>metric embedding row\<close> the cosine
  distance of a stored embedding.
\<close>

record search_hit =
  sh_AnomalyID :: uuid
  sh_AnalysisID :: uuid
  sh_UploadID :: uuid
  sh_Filename :: string
  sh_Kind :: string
  sh_Severity :: string
  sh_Urgency :: string
  sh_Confidence :: rat
  sh_Explanation :: string
  sh_Rank :: rat

type_synonym fts = "string \<Rightarrow> anomaly_row \<Rightarrow> rat option"
type_synonym distance = "string \<Rightarrow> embedding_row \<Rightarrow> rat"

definition hit_of :: "finding \<Rightarrow> rat \<Rightarrow> search_hit" where
  "hit_of f rank = (case f of (an, a, up) \<Rightarrow>
     \<lparr>sh_AnomalyID = an_ID an, sh_AnalysisID = a_ID a, sh_UploadID = up_ID up, sh_Filename = up_Filename up,
      sh_Kind = an_Kind an, sh_Severity = an_Severity an, sh_Urgency = an_Urgency an, sh_Confidence = an_Confidence an,
      sh_Explanation = an_Explanation an, sh_Rank = rank\<rparr>)"

definition q_SearchFindingsText :: "fts \<Rightarrow> user \<Rightarrow> string \<Rightarrow> nat \<Rightarrow> db \<Rightarrow> time \<Rightarrow> store_err + search_hit list" where
  "q_SearchFindingsText fts caller query limit d t =
     (let found = select (\<lambda>(an, _, _). fts query an \<noteq> None) (visible_findings caller d t)
      in Inr (map (\<lambda>(an, a, up). hit_of (an, a, up) (the (fts query an)))
           (take limit (order_desc (\<lambda>(an, _, _). (the (fts query an), an_Confidence an)) found))))"

definition SearchFindingsText :: "fts \<Rightarrow> user \<Rightarrow> string \<Rightarrow> int \<Rightarrow> (store_err + search_hit list) M" where
  "SearchFindingsText fts caller query limit = db_query (q_SearchFindingsText fts caller query (clamp_limit limit 100 20))"

definition q_SearchFindingsVector :: "distance \<Rightarrow> user \<Rightarrow> string \<Rightarrow> nat \<Rightarrow> db \<Rightarrow> time \<Rightarrow> store_err + search_hit list" where
  "q_SearchFindingsVector metric caller embedding limit d t =
     (let pairs = concat (map (\<lambda>fe. map (\<lambda>f. (fe, f))
            (select (\<lambda>(an, _, _). fe_anomaly_id fe = Some (an_ID an)) (visible_findings caller d t))) (finding_embeddings d))
      in Inr (map (\<lambda>(fe, f). hit_of f (1 - metric embedding fe)) (take limit (order_asc (\<lambda>(fe, _). metric embedding fe) pairs))))"

definition SearchFindingsVector :: "distance \<Rightarrow> user \<Rightarrow> string \<Rightarrow> int \<Rightarrow> (store_err + search_hit list) M" where
  "SearchFindingsVector metric caller embedding limit =
     db_query (q_SearchFindingsVector metric caller embedding (clamp_limit limit 100 20))"

definition q_HasEmbeddings :: "uuid \<Rightarrow> db \<Rightarrow> time \<Rightarrow> store_err + bool" where
  "q_HasEmbeddings orgID d t = Inr (affected (\<lambda>fe. fe_org_id fe = orgID) (finding_embeddings d) > 0)"

definition HasEmbeddings :: "uuid \<Rightarrow> (store_err + bool) M" where
  "HasEmbeddings orgID = db_query (q_HasEmbeddings orgID)"

declare SearchFindingsText_def [wp_rules, op_defs] SearchFindingsVector_def [wp_rules, op_defs] HasEmbeddings_def [wp_rules, op_defs]

lemma sh_Rank_hit [simp]: "sh_Rank (hit_of f rank) = rank"
  by (cases f) (simp add: hit_of_def)

lemma text_hits:
  assumes "q_SearchFindingsText fts caller query limit d t = Inr hs" "h \<in> set hs"
  shows "\<exists>an a up. (an, a, up) \<in> set (visible_findings caller d t) \<and> fts query an = Some (sh_Rank h) \<and> h = hit_of (an, a, up) (sh_Rank h)"
proof -
  from assms obtain an a up where "h = hit_of (an, a, up) (the (fts query an))" "(an, a, up) \<in> set (visible_findings caller d t)"
    "fts query an \<noteq> None"
    by (auto simp: q_SearchFindingsText_def Let_def order_desc_def dest!: in_set_takeD)
  then show ?thesis by auto
qed

text \<open>When the limit is not reached, every finding that matches is a hit.\<close>

lemma text_hits_complete:
  assumes "q_SearchFindingsText fts caller query limit d t = Inr hs" "length hs < limit"
    and "(an, a, up) \<in> set (visible_findings caller d t)" "fts query an = Some r"
  shows "hit_of (an, a, up) r \<in> set hs"
proof -
  let ?found = "select (\<lambda>(an, _, _). fts query an \<noteq> None) (visible_findings caller d t)"
  let ?sorted = "order_desc (\<lambda>(an, _, _). (the (fts query an), an_Confidence an)) ?found"
  have hs: "hs = map (\<lambda>(an, a, up). hit_of (an, a, up) (the (fts query an))) (take limit ?sorted)"
    using assms(1) by (simp add: q_SearchFindingsText_def Let_def)
  with assms(2) have "take limit ?sorted = ?sorted" by simp
  moreover have "(an, a, up) \<in> set ?sorted" using assms(3,4) by (simp add: order_desc_def)
  ultimately show ?thesis unfolding hs using assms(4) by force
qed

lemma vector_hits_complete:
  assumes "q_SearchFindingsVector metric caller embedding limit d t = Inr hs" "length hs < limit"
    and "(an, a, up) \<in> set (visible_findings caller d t)" "fe \<in> set (finding_embeddings d)" "fe_anomaly_id fe = Some (an_ID an)"
  shows "hit_of (an, a, up) (1 - metric embedding fe) \<in> set hs"
proof -
  let ?pairs = "concat (map (\<lambda>fe. map (\<lambda>f. (fe, f))
    (select (\<lambda>(an, _, _). fe_anomaly_id fe = Some (an_ID an)) (visible_findings caller d t))) (finding_embeddings d))"
  let ?sorted = "order_asc (\<lambda>(fe, _). metric embedding fe) ?pairs"
  have hs: "hs = map (\<lambda>(fe, f). hit_of f (1 - metric embedding fe)) (take limit ?sorted)"
    using assms(1) by (simp add: q_SearchFindingsVector_def Let_def)
  with assms(2) have "take limit ?sorted = ?sorted" by simp
  moreover have "(fe, an, a, up) \<in> set ?sorted" using assms(3-5) by auto
  ultimately show ?thesis unfolding hs by force
qed

text \<open>The hit of a search by meaning has an embedding, and its rank is the distance of it.\<close>

lemma vector_hits:
  assumes "q_SearchFindingsVector metric caller embedding limit d t = Inr hs" "h \<in> set hs"
  shows "\<exists>f fe. f \<in> set (visible_findings caller d t) \<and> fe \<in> set (finding_embeddings d) \<and> fe_anomaly_id fe = Some (an_ID (fst f)) \<and>
    h = hit_of f (1 - metric embedding fe)"
  using assms by (fastforce simp: q_SearchFindingsVector_def Let_def dest!: in_set_takeD)

end
