(* ===== verification/Handlers_Dashboard.thy ===== *)
theory Handlers_Dashboard
  imports Handlers Store_Search
begin

text \<open>
  \<open>internal/handlers/dashboard.go\<close> and \<open>search.go\<close>: the read endpoints. \<open>scopeFrom\<close> decides whose
  data a dashboard request covers; the worklist and the search are bounded by what the caller
  may see.
\<close>

section \<open>The scope of a request\<close>

definition defaultWindowDays :: int where "defaultWindowDays = 30"

text \<open>A \<open>statusError\<close>: the status and the message.\<close>

type_synonym status_error = "nat \<times> string"

definition errBadRequest :: "string \<Rightarrow> status_error" where "errBadRequest m = (400, m)"
definition errForbidden :: "string \<Rightarrow> status_error" where "errForbidden m = (403, m)"

definition failWith :: "status_error \<Rightarrow> response" where
  "failWith e = Fail (fst e) (snd e)"

definition time_param :: "request \<Rightarrow> string \<Rightarrow> time \<Rightarrow> status_error + time" where
  "time_param r k t0 =
     (let v = Query_Get r k
      in if v = [] then Inr t0
         else case time_Parse layout_RFC3339 v of
             None \<Rightarrow> Inl (errBadRequest (k @ '' must be an RFC3339 timestamp''))
           | Some (t, _) \<Rightarrow> Inr t)"

definition scopeFrom :: "request \<Rightarrow> user \<Rightarrow> (status_error + scope) M" where
  "scopeFrom r caller = do {
     now \<leftarrow> time_Now;
     ret (case time_param r ''from'' (now - defaultWindowDays * day) of
         Inl e \<Rightarrow> Inl e
       | Inr from \<Rightarrow>
           (case time_param r ''to'' (now + minute) of
              Inl e \<Rightarrow> Inl e
            | Inr to \<Rightarrow>
                if to < from then Inl (errBadRequest ''to is before from'')
                else if Query_Get r ''scope'' = ''org''
                then (if \<not> IsAdmin (u_Role caller)
                      then Inl (errForbidden ''Only an administrator can view organization-wide figures'')
                      else Inr \<lparr>sc_OrgID = u_OrgID caller, sc_UserID = None, sc_From = from, sc_To = to\<rparr>)
                else Inr \<lparr>sc_OrgID = u_OrgID caller, sc_UserID = Some (u_ID caller), sc_From = from, sc_To = to\<rparr>)) }"

definition scopeLabel :: "scope \<Rightarrow> string" where
  "scopeLabel sc = (if sc_UserID sc = None then ''org'' else ''self'')"

section \<open>JSON forms\<close>

definition summary_json :: "summary \<Rightarrow> json" where
  "summary_json s = JObj [(''requests'', JInt (su_Requests s)), (''errors'', JInt (su_Errors s)),
     (''success_rate'', opt_json JFloat (su_SuccessRate s)), (''bytes_in'', JInt (su_BytesIn s)), (''bytes_out'', JInt (su_BytesOut s)),
     (''cache_hits'', JInt (su_CacheHits s)), (''cache_total'', JInt (su_CacheTotal s)),
     (''cache_hit_rate'', opt_json JFloat (su_CacheHitRate s)), (''latency_p50_ms'', opt_json JInt (su_LatencyP50 s)),
     (''latency_p95_ms'', opt_json JInt (su_LatencyP95 s)), (''latency_p99_ms'', opt_json JInt (su_LatencyP99 s)),
     (''hosts'', JInt (su_Hosts s)), (''uploads'', JInt (su_Uploads s)), (''data_start'', opt_json JTime (su_DataStart s)),
     (''data_end'', opt_json JTime (su_DataEnd s)), (''empty'', JBool (su_Empty s))]"

definition point_json :: "series_point \<Rightarrow> json" where
  "point_json p = JObj [(''bucket'', JTime (sp_Bucket p)), (''requests'', JInt (sp_Requests p)), (''errors'', JInt (sp_Errors p)),
     (''bytes_in'', JInt (sp_BytesIn p)), (''bytes_out'', JInt (sp_BytesOut p)), (''cache_hits'', JInt (sp_CacheHits p)),
     (''cache_total'', JInt (sp_CacheTotal p)), (''latency_p50_ms'', opt_json JInt (sp_LatencyP50 p)),
     (''latency_p95_ms'', opt_json JInt (sp_LatencyP95 p)), (''latency_p99_ms'', opt_json JInt (sp_LatencyP99 p))]"

definition top_json :: "top_row \<Rightarrow> json" where
  "top_json t = JObj [(''label'', JStr (tr_Label t)), (''requests'', JInt (tr_Requests t)), (''errors'', JInt (tr_Errors t)),
     (''bytes'', JInt (tr_Bytes t))]"

definition finding_count_json :: "finding_count \<Rightarrow> json" where
  "finding_count_json f = JObj [(''severity'', JStr (fc_Severity f)), (''urgency'', JStr (fc_Urgency f)), (''count'', JInt (fc_Count f))]"

definition audit_entry_json :: "api \<Rightarrow> audit_entry \<Rightarrow> json" where
  "audit_entry_json a e = JObj [(''id'', uuid_json a (ae_ID e)), (''actor_user_id'', opt_json (uuid_json a) (ae_ActorUserID e)),
     (''actor_email'', opt_json JStr (ae_ActorEmail e)), (''action'', JStr (ae_Action e)), (''resource_type'', JStr (ae_ResourceType e)),
     (''resource_id'', opt_json (uuid_json a) (ae_ResourceID e)), (''detail'', JObj (ae_Detail e)), (''created_at'', JTime (ae_CreatedAt e))]"

definition status_json :: "status_breakdown \<Rightarrow> json" where
  "status_json b = JObj [(''code'', JInt (sb_Code b)), (''class'', JStr (sb_Class b)), (''reason'', opt_json JStr (sb_Reason b)),
     (''requests'', JInt (sb_Requests b)), (''share'', JFloat (sb_Share b)), (''latency_p95_ms'', opt_json JInt (sb_P95Ms b))]"

definition action_json :: "api \<Rightarrow> action_item \<Rightarrow> json" where
  "action_json a i = JObj [(''anomaly_id'', uuid_json a (ai_AnomalyID i)), (''filename'', JStr (ai_Filename i)), (''kind'', JStr (ai_Kind i)),
     (''severity'', JStr (ai_Severity i)), (''urgency'', JStr (ai_Urgency i)), (''confidence'', JFloat (ai_Confidence i)),
     (''explanation'', JStr (ai_Explanation i)), (''recommendation'', opt_json JStr (ai_Recommendation i)), (''entries'', JInt (ai_Entries i))]"

definition hit_json :: "api \<Rightarrow> search_hit \<Rightarrow> json" where
  "hit_json a h = JObj [(''anomaly_id'', uuid_json a (sh_AnomalyID h)), (''analysis_id'', uuid_json a (sh_AnalysisID h)),
     (''upload_id'', uuid_json a (sh_UploadID h)), (''filename'', JStr (sh_Filename h)), (''kind'', JStr (sh_Kind h)),
     (''severity'', JStr (sh_Severity h)), (''urgency'', JStr (sh_Urgency h)), (''confidence'', JFloat (sh_Confidence h)),
     (''explanation'', JStr (sh_Explanation h)), (''rank'', JFloat (sh_Rank h))]"

section \<open>Dashboard\<close>

definition dashboardSummary :: "user \<Rightarrow> handler" where
  "dashboardSummary caller r =
     attempt (scopeFrom r caller) (\<lambda>e. ret (failWith e)) (\<lambda>sc.
     attempt (DashboardSummary sc)
       (\<lambda>_. do { log_event LogError ''dashboard.summary_failed''; ret (Fail 500 ''Could not load the summary'') }) (\<lambda>summary.
     attempt (FindingBreakdown sc)
       (\<lambda>_. do { log_event LogError ''dashboard.findings_failed''; ret (Fail 500 ''Could not load findings'') }) (\<lambda>findings.
     ret (JSON 200 (Some (JObj [(''summary'', summary_json summary), (''findings'', JArr (map finding_count_json findings)),
       (''scope'', JStr (scopeLabel sc)), (''from'', JTime (sc_From sc)), (''to'', JTime (sc_To sc))]))))))"

definition dashboardSeries :: "user \<Rightarrow> handler" where
  "dashboardSeries caller r =
     attempt (scopeFrom r caller) (\<lambda>e. ret (failWith e)) (\<lambda>sc.
     attempt (DashboardSeries sc (Query_Get r ''grain''))
       (\<lambda>_. do { log_event LogError ''dashboard.series_failed''; ret (Fail 500 ''Could not load the series'') }) (\<lambda>points.
     ret (JSON 200 (Some (JObj [(''points'', JArr (map point_json points)), (''scope'', JStr (scopeLabel sc))])))))"

definition dashboardTop :: "user \<Rightarrow> handler" where
  "dashboardTop caller r =
     attempt (scopeFrom r caller) (\<lambda>e. ret (failWith e)) (\<lambda>sc.
       let dimension = Query_Get r ''dimension'';
           dimension = (if dimension = [] then ''host'' else dimension);
           limit = Atoi_value (Query_Get r ''limit'')
       in attempt (DashboardTop sc dimension limit)
            (\<lambda>_. ret (Fail 400 ''dimension must be one of: host, url, user, ip, category''))
            (\<lambda>rows. ret (JSON 200 (Some (JObj [(''rows'', JArr (map top_json rows)), (''dimension'', JStr dimension)])))))"

definition statusCodes :: "user \<Rightarrow> handler" where
  "statusCodes caller r =
     attempt (scopeFrom r caller) (\<lambda>e. ret (failWith e)) (\<lambda>sc.
     attempt (StatusCodes sc)
       (\<lambda>_. do { log_event LogError ''dashboard.status_failed''; ret (Fail 500 ''Could not load the status breakdown'') })
       (\<lambda>rows. ret (JSON 200 (Some (JObj [(''codes'', JArr (map status_json rows))])))))"

definition actionPlan :: "api \<Rightarrow> user \<Rightarrow> handler" where
  "actionPlan a caller r =
     attempt (ActionPlan caller (Atoi_value (Query_Get r ''limit'')))
       (\<lambda>_. do { log_event LogError ''dashboard.plan_failed''; ret (Fail 500 ''Could not load the action plan'') })
       (\<lambda>items. ret (JSON 200 (Some (JObj [(''items'', JArr (map (action_json a) items))]))))"

definition listAudit :: "api \<Rightarrow> user \<Rightarrow> handler" where
  "listAudit a caller r =
     (if \<not> IsAdmin (u_Role caller) then ret (Fail 403 ''Only an administrator can view the audit log'')
      else attempt (ListAudit (u_OrgID caller) (Atoi_value (Query_Get r ''limit'')))
        (\<lambda>_. do { log_event LogError ''audit.list_failed''; ret (Fail 500 ''Could not load the audit log'') })
        (\<lambda>entries. ret (JSON 200 (Some (JArr (map (audit_entry_json a) entries))))))"

section \<open>Search\<close>

definition search :: "api \<Rightarrow> fts \<Rightarrow> user \<Rightarrow> handler" where
  "search a fts caller r =
     (let query = TrimSpace (Query_Get r ''q'')
      in if query = [] then ret (Fail 400 ''q is required'')
         else if length query > 500 then ret (Fail 400 ''q is too long'')
         else attempt (SearchFindingsText fts caller query (Atoi_value (Query_Get r ''limit'')))
           (\<lambda>_. do { log_event LogError ''search.failed''; ret (Fail 500 ''Search failed'') })
           (\<lambda>hits. do {
              hasVectors \<leftarrow> HasEmbeddings (u_OrgID caller);
              ret (JSON 200 (Some (JObj [(''query'', JStr query), (''mode'', JStr ''text''), (''hits'', JArr (map (hit_json a) hits)),
                (''count'', JInt (int (length hits))),
                (''semantic_available'', JBool (case hasVectors of Inl _ \<Rightarrow> False | Inr b \<Rightarrow> b))]))) }))"

end
