(* ===== verification/Queue.thy ===== *)
theory Queue
  imports Redis Samples
begin

text \<open>\<open>internal/queue/queue.go\<close>: an upload's rows cut into jobs for the workers, published in one Redis transaction.\<close>

definition queueKey :: string where "queueKey = ''logmonitor:jobs''"
definition pendingTTL :: duration where "pendingTTL = hour"
definition DefaultShardSize :: int where "DefaultShardSize = 25000"

record job =
  j_Kind :: string
  j_AnalysisID :: string
  j_UploadID :: string
  j_OrgID :: string
  j_UserID :: string
  j_Shard :: int
  j_ShardCount :: int
  j_Offset :: int
  j_Limit :: int
  j_Scope :: string
  j_BaselineWindowDays :: "int option"

definition job_json :: "job \<Rightarrow> json" where
  "job_json j = JObj [(''kind'', JStr (j_Kind j)), (''analysis_id'', JStr (j_AnalysisID j)), (''upload_id'', JStr (j_UploadID j)),
     (''org_id'', JStr (j_OrgID j)), (''user_id'', JStr (j_UserID j)), (''shard'', JInt (j_Shard j)),
     (''shard_count'', JInt (j_ShardCount j)), (''offset'', JInt (j_Offset j)), (''limit'', JInt (j_Limit j)),
     (''scope'', JStr (j_Scope j)),
     (''baseline_window_days'', case j_BaselineWindowDays j of None \<Rightarrow> JNull | Some n \<Rightarrow> JInt n)]"

definition Depth :: "(redis_err + nat) M" where
  "Depth = redis_do (cmd_llen queueKey)"

text \<open>The shard size in force, and the number of shards.\<close>

definition shard_size :: "int \<Rightarrow> int" where
  "shard_size n = (if n \<le> 0 then DefaultShardSize else n)"

definition shard_count :: "int \<Rightarrow> int \<Rightarrow> int" where
  "shard_count entryCount sz = (let shards = (entryCount + sz - 1) div sz in if shards < 1 then 1 else shards)"

definition shard_job :: "job \<Rightarrow> int \<Rightarrow> int \<Rightarrow> nat \<Rightarrow> job" where
  "shard_job base shards sz i = base\<lparr>j_Kind := ''map'', j_Shard := int i, j_ShardCount := shards,
     j_Offset := int i * sz, j_Limit := sz\<rparr>"

definition shard_jobs :: "job \<Rightarrow> int \<Rightarrow> int \<Rightarrow> job list" where
  "shard_jobs base entryCount sz =
     map (shard_job base (shard_count entryCount sz) sz) [0..<nat (shard_count entryCount sz)]"

definition pendingKey :: "string \<Rightarrow> string" where
  "pendingKey analysisID = ''logmonitor:pending:'' @ analysisID"

text \<open>The transaction: the counter, then one push for each job; the reply is the first error of any command.\<close>

fun push_all :: "json list \<Rightarrow> redis \<Rightarrow> time \<Rightarrow> (redis_err + unit) \<times> redis" where
  "push_all [] r t = (Inr (), r)"
| "push_all (p # ps) r t = (case pipe_lpush queueKey p r t of (reply, r) \<Rightarrow>
     case push_all ps r t of (replies, r) \<Rightarrow> (case reply of Inl e \<Rightarrow> Inl e | Inr _ \<Rightarrow> replies, r))"

definition publish_pipeline :: "string \<Rightarrow> int \<Rightarrow> json list \<Rightarrow> redis \<Rightarrow> time \<Rightarrow> redis_err + ((redis_err + unit) \<times> redis)" where
  "publish_pipeline analysisID shards payloads r t =
     Inr (push_all payloads (store_entry (pendingKey analysisID) (RInt shards) (Some (t + pendingTTL)) r) t)"

definition PublishAnalysis :: "job \<Rightarrow> int \<Rightarrow> int \<Rightarrow> (redis_err + int) M" where
  "PublishAnalysis base entryCount shardSize =
     (let sz = shard_size shardSize;
          shards = shard_count entryCount sz;
          payloads = map job_json (shard_jobs base entryCount sz)
      in attempt (redis_do (publish_pipeline (j_AnalysisID base) shards payloads)) (\<lambda>e. ret (Inl e)) (\<lambda>reply.
           case reply of Inl e \<Rightarrow> ret (Inl e) | Inr _ \<Rightarrow> ret (Inr shards)))"

declare Depth_def [wp_rules, op_defs] PublishAnalysis_def [wp_rules, op_defs]

section \<open>The shards cover the rows, once each\<close>

lemma shard_size_pos: "0 < shard_size n"
  by (simp add: shard_size_def DefaultShardSize_def)

lemma shard_count_pos: "1 \<le> shard_count n sz"
  by (simp add: shard_count_def Let_def)

text \<open>A row belongs to a job when its index lies in the window of the job.\<close>

definition in_shard :: "int \<Rightarrow> job \<Rightarrow> bool" where
  "in_shard k j \<longleftrightarrow> j_Offset j \<le> k \<and> k < j_Offset j + j_Limit j"

lemma in_shard_job: "0 < sz \<Longrightarrow> in_shard k (shard_job base shards sz i) \<longleftrightarrow> int i = k div sz"
proof
  assume "0 < sz" "in_shard k (shard_job base shards sz i)"
  then have "int i * sz \<le> k" "k < int i * sz + sz" by (simp_all add: in_shard_def shard_job_def)
  then show "int i = k div sz"
    using \<open>0 < sz\<close> int_div_pos_eq [of k sz "int i" "k - int i * sz"] by (simp add: mult.commute)
next
  assume "0 < sz" "int i = k div sz"
  then have "(k div sz) * sz \<le> k \<and> k < (k div sz) * sz + sz"
    using pos_mod_sign [of sz k] pos_mod_bound [of sz k] div_mult_mod_eq [of k sz] by linarith
  then show "in_shard k (shard_job base shards sz i)"
    using \<open>int i = k div sz\<close> by (simp add: in_shard_def shard_job_def)
qed

lemma row_in_range:
  assumes "0 < sz" and "0 \<le> k" and "k < n"
  shows "0 \<le> k div sz \<and> k div sz < shard_count n sz"
proof -
  have "k div sz \<le> (n - 1) div sz" using assms by (intro zdiv_mono1) auto
  moreover have "(n + sz - 1) div sz = (n - 1) div sz + 1"
    using assms(1) div_add_self2 [of sz "n - 1"] by (simp add: algebra_simps)
  ultimately show ?thesis using assms by (simp add: shard_count_def Let_def pos_imp_zdiv_nonneg_iff)
qed

lemma push_all_queue:
  assumes "lookup_live r t queueKey = None \<and> q = [] \<or> (\<exists>x. lookup_live r t queueKey = Some \<lparr>re_value = RList q, re_expires = x\<rparr>)"
  shows "\<exists>r' x. push_all ps r t = (Inr (), r') \<and>
    (ps \<noteq> [] \<longrightarrow> lookup_live r' t queueKey = Some \<lparr>re_value = RList (rev ps @ q), re_expires = x\<rparr>) \<and> (\<forall>k. k \<noteq> queueKey \<longrightarrow> r' k = r k)"
  using assms
proof (induction ps arbitrary: r q)
  case (Cons p ps)
  obtain r1 where r1: "pipe_lpush queueKey p r t = (Inr (), r1)" "\<forall>k. k \<noteq> queueKey \<longrightarrow> r1 k = r k"
      "\<exists>x. lookup_live r1 t queueKey = Some \<lparr>re_value = RList (p # q), re_expires = x\<rparr>"
    using Cons.prems
    by (auto simp: pipe_lpush_def) (auto simp: store_entry_def lookup_live_def live_def split: option.splits if_splits)
  from Cons.IH [of r1 "p # q"] r1(3) obtain r' x where "push_all ps r1 t = (Inr (), r')"
      "ps \<noteq> [] \<longrightarrow> lookup_live r' t queueKey = Some \<lparr>re_value = RList (rev ps @ p # q), re_expires = x\<rparr>" "\<forall>k. k \<noteq> queueKey \<longrightarrow> r' k = r1 k"
    by blast
  with r1 show ?case by (cases ps) auto
qed auto

text \<open>The queue as the workers see it: absent, or a list.\<close>

definition queued :: "redis \<Rightarrow> time \<Rightarrow> json list \<Rightarrow> bool" where
  "queued r t q \<longleftrightarrow> lookup_live r t queueKey = None \<and> q = [] \<or>
     (\<exists>x. lookup_live r t queueKey = Some \<lparr>re_value = RList q, re_expires = x\<rparr>)"

lemma shard_jobs_nonempty: "shard_jobs base n sz \<noteq> []"
  using shard_count_pos [of n sz] by (simp add: shard_jobs_def)

lemma Publish_quiet:
  assumes "quiet w" and "queued (w_redis w) (w_now w) q"
  shows "\<exists>r. run_state (PublishAnalysis base n s) w = (Inr (shard_count n (shard_size s)), w\<lparr>w_redis := r\<rparr>) \<and>
    queued r (w_now w) (rev (map job_json (shard_jobs base n (shard_size s))) @ q) \<and>
    r (pendingKey (j_AnalysisID base)) =
      Some \<lparr>re_value = RInt (shard_count n (shard_size s)), re_expires = Some (w_now w + pendingTTL)\<rparr>"
proof -
  let ?sz = "shard_size s" and ?key = "pendingKey (j_AnalysisID base)"
  let ?r = "store_entry ?key (RInt (shard_count n ?sz)) (Some (w_now w + pendingTTL)) (w_redis w)"
  have key: "?key \<noteq> queueKey" by (simp add: pendingKey_def queueKey_def)
  then have "lookup_live ?r (w_now w) queueKey = lookup_live (w_redis w) (w_now w) queueKey" by (simp add: lookup_live_def store_entry_def)
  with assms(2) obtain r' x where push: "push_all (map job_json (shard_jobs base n ?sz)) ?r (w_now w) = (Inr (), r')"
      "lookup_live r' (w_now w) queueKey = Some \<lparr>re_value = RList (rev (map job_json (shard_jobs base n ?sz)) @ q), re_expires = x\<rparr>"
      "r' ?key = ?r ?key"
    using push_all_queue [of ?r "w_now w" q "map job_json (shard_jobs base n ?sz)"] key shard_jobs_nonempty [of base n ?sz]
    by (auto simp: queued_def)
  then show ?thesis
    using assms(1)
    by (intro exI [of _ r']) (simp add: PublishAnalysis_def Let_def quiet_run publish_pipeline_def queued_def store_entry_def)
qed

text \<open>
  Publishing an analysis of an upload with \<open>n\<close> rows puts its jobs, in order, on the
  queue together with a counter of exactly as many; every row of the upload falls into the window
  of exactly one job, whatever shard size is configured, and there is a job even for an upload
  with no rows.
\<close>

theorem Publish_partition:
  assumes "quiet w" and "queued (w_redis w) (w_now w) q"
  shows "\<exists>jobs r. run_state (PublishAnalysis base n s) w = (Inr (int (length jobs)), w\<lparr>w_redis := r\<rparr>) \<and> jobs \<noteq> [] \<and>
    queued r (w_now w) (rev (map job_json jobs) @ q) \<and>
    lookup_live r (w_now w) (pendingKey (j_AnalysisID base)) =
      Some \<lparr>re_value = RInt (int (length jobs)), re_expires = Some (w_now w + pendingTTL)\<rparr> \<and>
    (\<forall>j\<in>set jobs. j_AnalysisID j = j_AnalysisID base \<and> j_UploadID j = j_UploadID base \<and> j_Scope j = j_Scope base) \<and>
    (\<forall>k. 0 \<le> k \<and> k < n \<longrightarrow> (\<exists>!i. i < length jobs \<and> in_shard k (jobs ! i)))"
proof -
  let ?sz = "shard_size s"
  let ?jobs = "shard_jobs base n ?sz"
  have len: "int (length ?jobs) = shard_count n ?sz" using shard_count_pos [of n ?sz] by (simp add: shard_jobs_def)
  have cover: "\<exists>!i. i < length ?jobs \<and> in_shard k (?jobs ! i)" if "0 \<le> k" "k < n" for k
  proof (rule ex1I [of _ "nat (k div ?sz)"])
    have range: "0 \<le> k div ?sz" "k div ?sz < shard_count n ?sz" using row_in_range [OF shard_size_pos that] by auto
    then have "nat (k div ?sz) < length ?jobs" using len by linarith
    then show "nat (k div ?sz) < length ?jobs \<and> in_shard k (?jobs ! nat (k div ?sz))"
      using range by (simp add: shard_jobs_def in_shard_job [OF shard_size_pos])
  next
    fix i assume "i < length ?jobs \<and> in_shard k (?jobs ! i)"
    then have "int i = k div ?sz" by (auto simp: shard_jobs_def in_shard_job [OF shard_size_pos])
    then show "i = nat (k div ?sz)" by simp
  qed
  obtain r where "run_state (PublishAnalysis base n s) w = (Inr (int (length ?jobs)), w\<lparr>w_redis := r\<rparr>)"
      "queued r (w_now w) (rev (map job_json ?jobs) @ q)"
      "r (pendingKey (j_AnalysisID base)) = Some \<lparr>re_value = RInt (int (length ?jobs)), re_expires = Some (w_now w + pendingTTL)\<rparr>"
    using Publish_quiet [OF assms, of base n s] unfolding len by blast
  with cover show ?thesis
    by (intro exI [of _ ?jobs] exI [of _ r])
      (auto simp: shard_jobs_nonempty lookup_live_def pendingTTL_def, auto simp: shard_jobs_def shard_job_def)
qed

definition sample_job :: job where
  "sample_job = \<lparr>j_Kind = [], j_AnalysisID = ''51'', j_UploadID = ''31'', j_OrgID = ''1'', j_UserID = ''13'', j_Shard = 0,
     j_ShardCount = 0, j_Offset = 0, j_Limit = 0, j_Scope = ''file'', j_BaselineWindowDays = None\<rparr>"

theorem Publish_partition_witness:
  "\<exists>jobs r. run_state (PublishAnalysis sample_job 60000 0) sample_world = (Inr (int (length jobs)), sample_world\<lparr>w_redis := r\<rparr>) \<and>
     (\<exists>!i. i < length jobs \<and> in_shard 59999 (jobs ! i))"
proof -
  have "queued (w_redis sample_world) (w_now sample_world) []" by (simp add: queued_def lookup_live_def sample_redis)
  from Publish_partition [OF sample_quiet this, of sample_job 60000 0] obtain jobs r
    where run: "run_state (PublishAnalysis sample_job 60000 0) sample_world = (Inr (int (length jobs)), sample_world\<lparr>w_redis := r\<rparr>)"
      and "\<forall>k. 0 \<le> k \<and> k < 60000 \<longrightarrow> (\<exists>!i. i < length jobs \<and> in_shard k (jobs ! i))"
    by (elim exE conjE)
  from this(2) have "\<exists>!i. i < length jobs \<and> in_shard 59999 (jobs ! i)" by (elim allE [of _ 59999]) simp
  with run show ?thesis by blast
qed

end
