(* ===== verification/Handlers_Analyses.thy ===== *)
theory Handlers_Analyses
  imports Handlers Queue Store_Analyses
begin

text \<open>\<open>internal/handlers/analyses.go\<close>: starting an analysis of an upload and reading one.\<close>

datatype launch_err = ErrNoQueue | ErrCreate | ErrEnqueue

definition normaliseScope :: "string \<Rightarrow> int option \<Rightarrow> string + (string \<times> int option)" where
  "normaliseScope scope window =
     (if scope \<noteq> ''history'' then Inr (''file'', None)
      else let days = (case window of None \<Rightarrow> 30 | Some n \<Rightarrow> if n \<le> 0 then 30 else n)
        in if days > 365 then Inl ''baseline_window_days cannot exceed 365'' else Inr (''history'', Some days))"

definition analysis_job :: "api \<Rightarrow> analysis \<Rightarrow> upload \<Rightarrow> string \<Rightarrow> int option \<Rightarrow> job" where
  "analysis_job a an up scope window = \<lparr>j_Kind = [], j_AnalysisID = uuid_String a (a_ID an), j_UploadID = uuid_String a (up_ID up),
     j_OrgID = uuid_String a (up_OrgID up), j_UserID = uuid_String a (up_UserID up), j_Shard = 0, j_ShardCount = 0,
     j_Offset = 0, j_Limit = 0, j_Scope = scope, j_BaselineWindowDays = window\<rparr>"

text \<open>The text of the driver's error, which follows \<open>could not enqueue:\<close> in the row, is not modelled.\<close>

definition launchAnalysis :: "api \<Rightarrow> upload \<Rightarrow> string \<Rightarrow> int option \<Rightarrow> int \<Rightarrow> (launch_err + (analysis \<times> int)) M" where
  "launchAnalysis a up scope window entries =
     (if \<not> api_Queue a then ret (Inl ErrNoQueue)
      else attempt (CreateAnalysis (up_OrgID up) (up_ID up) scope window) (\<lambda>_. ret (Inl ErrCreate)) (\<lambda>an.
        attempt (PublishAnalysis (analysis_job a an up scope window) entries (ShardSize (api_Cfg a)))
          (\<lambda>_. do { _ \<leftarrow> FailAnalysis (a_ID an) ''could not enqueue: ''; ret (Inl ErrEnqueue) })
          (\<lambda>shards. do { log_event Info ''analysis.queued''; ret (Inr (an, shards)) })))"

definition failAuthz :: "authz_err \<Rightarrow> response" where
  "failAuthz e = (case e of
       AuthzForbidden \<Rightarrow> Fail 403 ''You do not have access to this''
     | AuthzNotFound \<Rightarrow> Fail 404 ''Not found''
     | AuthzStore _ \<Rightarrow> Fail 500 ''Something went wrong'')"

definition analyzeRequest :: "(string \<times> field_kind) list" where
  "analyzeRequest = [(''scope'', FString), (''baseline_window_days'', FOptInt)]"

definition errNoQueue_msg :: string where
  "errNoQueue_msg = ''the analysis queue is unavailable; no worker can pick this up''"

definition startAnalysis :: "api \<Rightarrow> user \<Rightarrow> handler" where
  "startAnalysis a caller r =
     (case uuid_Parse a (rq_PathID r) of
        None \<Rightarrow> ret (Fail 400 ''id must be a uuid'')
      | Some uploadID \<Rightarrow>
          attempt (Require (uuid_String a) caller uploadID LevelFull) (\<lambda>e. ret (failAuthz e)) (\<lambda>(_, up).
            case DecodeOptional analyzeRequest r of
              Inl e \<Rightarrow> ret (Fail 400 e)
            | Inr req \<Rightarrow>
                (case normaliseScope (str_field ''scope'' req) (opt_int_field ''baseline_window_days'' req) of
                   Inl e \<Rightarrow> ret (Fail 400 e)
                 | Inr (scope, window) \<Rightarrow>
                     attempt (CountEntries uploadID)
                       (\<lambda>_. do { log_event LogError ''analysis.count_failed''; ret (Fail 500 ''Could not start the analysis'') })
                       (\<lambda>entries.
                       attempt (launchAnalysis a up scope window (int entries))
                         (\<lambda>e. if e = ErrNoQueue then ret (Fail 503 errNoQueue_msg)
                              else do { log_event LogError ''analysis.start_failed''; ret (Fail 500 ''Could not start the analysis'') })
                         (\<lambda>(an, shards). ret (JSON 202 (Some (JObj [(''id'', uuid_json a (a_ID an)), (''status'', JStr (a_Status an)),
                            (''scope'', JStr scope), (''shards'', JInt shards), (''entries'', JInt (int entries))]))))))))"

definition analysis_json :: "api \<Rightarrow> analysis \<Rightarrow> json" where
  "analysis_json a an = JObj [(''id'', uuid_json a (a_ID an)), (''org_id'', uuid_json a (a_OrgID an)),
     (''upload_id'', uuid_json a (a_UploadID an)), (''status'', JStr (a_Status an)), (''scope'', JStr (a_Scope an)),
     (''baseline_window_days'', opt_json JInt (a_BaselineWindowDays an)), (''overall_risk'', opt_json JStr (a_OverallRisk an)),
     (''summary'', opt_json JStr (a_Summary an)), (''timeline'', a_Timeline an), (''model'', opt_json JStr (a_Model an)),
     (''input_tokens'', opt_json JInt (a_InputTokens an)), (''output_tokens'', opt_json JInt (a_OutputTokens an)),
     (''error'', opt_json JStr (a_Error an)), (''created_at'', JTime (a_CreatedAt an)),
     (''started_at'', opt_json JTime (a_StartedAt an)), (''finished_at'', opt_json JTime (a_FinishedAt an))]"

definition anomaly_json :: "api \<Rightarrow> anomaly \<Rightarrow> json" where
  "anomaly_json a f = JObj [(''id'', uuid_json a (an_ID f)), (''kind'', JStr (an_Kind f)), (''severity'', JStr (an_Severity f)),
     (''urgency'', JStr (an_Urgency f)), (''action_required'', JBool (an_ActionRequired f)),
     (''action_label'', opt_json JStr (an_ActionLabel f)), (''confidence'', JFloat (an_Confidence f)),
     (''explanation'', JStr (an_Explanation f)), (''recommendation'', opt_json JStr (an_Recommendation f)),
     (''entry_ids'', opt_json (\<lambda>is. JArr (map JInt is)) (an_EntryIDs f))]"

text \<open>The rows a finding cites are withheld below the full tier.\<close>

definition redact :: "level \<Rightarrow> anomaly \<Rightarrow> anomaly" where
  "redact lvl f = (if lvl < LevelFull then f\<lparr>an_EntryIDs := None\<rparr> else f)"

definition getAnalysis :: "api \<Rightarrow> user \<Rightarrow> handler" where
  "getAnalysis a caller r =
     (case uuid_Parse a (rq_PathID r) of
        None \<Rightarrow> ret (Fail 400 ''id must be a uuid'')
      | Some i \<Rightarrow>
          attempt (AnalysisByID i) (\<lambda>_. ret (Fail 404 ''Analysis not found'')) (\<lambda>an.
          attempt (Require (uuid_String a) caller (a_UploadID an) LevelSummary) (\<lambda>e. ret (failAuthz e)) (\<lambda>(lvl, _).
          attempt (Anomalies i)
            (\<lambda>_. do { log_event LogError ''analysis.anomalies_failed''; ret (Fail 500 ''Could not load findings'') })
            (\<lambda>fs. ret (JSON 200 (Some (JObj [(''analysis'', analysis_json a an),
               (''anomalies'', JArr (map (anomaly_json a \<circ> redact lvl) fs)), (''level'', JStr (level_String lvl))])))))))"

section \<open>The scope of an analysis\<close>

lemma normaliseScope_window:
  "normaliseScope scope window = Inr (sc, wd) \<Longrightarrow> window_matches_scope sc wd \<and> (\<forall>n. wd = Some n \<longrightarrow> 1 \<le> n \<and> n \<le> 365)"
  by (auto simp: normaliseScope_def window_matches_scope_def Let_def split: if_splits option.splits)

section \<open>Starting an analysis\<close>

text \<open>What an attempt to start one may leave in the table: nothing, or one row of its upload, queued or failed.\<close>

definition analysis_added :: "upload \<Rightarrow> string \<Rightarrow> int option \<Rightarrow> db \<Rightarrow> db \<Rightarrow> bool" where
  "analysis_added up scope window d d' \<longleftrightarrow> (\<exists>an. analyses d' = analyses d @ [an] \<and> a_OrgID an = up_OrgID up \<and>
     a_UploadID an = up_ID up \<and> a_Scope an = scope \<and> a_BaselineWindowDays an = window \<and> a_Status an \<in> {''queued'', ''failed''})"

definition same_but_analyses :: "db \<Rightarrow> db \<Rightarrow> bool" where
  "same_but_analyses d d' \<longleftrightarrow> organizations d' = organizations d \<and> users d' = users d \<and> uploads d' = uploads d \<and>
     access_grants d' = access_grants d \<and> audit_log d' = audit_log d \<and> log_entries d' = log_entries d"

text \<open>Ids are new: no row of the table carries the next one.\<close>

definition analysis_ids_fresh :: "db \<Rightarrow> bool" where
  "analysis_ids_fresh d \<longleftrightarrow> (\<forall>an\<in>set (analyses d). a_ID an < next_id d)"

lemma fail_new:
  assumes "s_CreateAnalysis org i scope window d t = Inr (an, d')" and "analysis_ids_fresh d"
    and "s_FailAnalysis (a_ID an) msg d' t' = Inr (u, e)"
  shows "\<exists>an'. analyses e = analyses d @ [an'] \<and> a_OrgID an' = org \<and> a_UploadID an' = i \<and> a_Scope an' = scope \<and>
    a_BaselineWindowDays an' = window \<and> a_Status an' = ''failed'' \<and> same_but_analyses d e"
proof -
  note new = s_CreateAnalysis_db [OF assms(1)]
  have "update_where (\<lambda>x. a_ID x = a_ID an) f (analyses d) = analyses d" for f
    using assms(2) new by (auto simp: update_where_def analysis_ids_fresh_def intro!: map_idI)
  with new assms(3) show ?thesis by (auto simp: s_FailAnalysis_def update_where_def same_but_analyses_def)
qed

text \<open>
  What is on the queue when publishing succeeded: the jobs of the analysis, the last one pushed in front,
  before whatever was queued, and the counter of as many shards.
\<close>

definition published :: "job \<Rightarrow> int \<Rightarrow> int \<Rightarrow> redis \<Rightarrow> time \<Rightarrow> bool" where
  "published base n s r t \<longleftrightarrow> (\<exists>q. queued r t (rev (map job_json (shard_jobs base n (shard_size s))) @ q)) \<and>
     lookup_live r t (pendingKey (j_AnalysisID base)) =
       Some \<lparr>re_value = RInt (shard_count n (shard_size s)), re_expires = Some (t + pendingTTL)\<rparr>"

lemma push_all_queued:
  assumes "push_all ps r t = (Inr (), r')" and "ps \<noteq> []"
  shows "\<exists>q. queued r' t (rev ps @ q) \<and> (\<forall>k. k \<noteq> queueKey \<longrightarrow> r' k = r k)"
proof -
  have "\<exists>q. lookup_live r t queueKey = None \<and> q = [] \<or> (\<exists>x. lookup_live r t queueKey = Some \<lparr>re_value = RList q, re_expires = x\<rparr>)"
  proof (cases "lookup_live r t queueKey")
    case (Some e)
    from assms obtain p qs where "ps = p # qs" by (cases ps) auto
    with assms(1) Some obtain q where "re_value e = RList q"
      by (cases "re_value e") (auto simp: pipe_lpush_def split: prod.splits)
    with Some show ?thesis by (intro exI [of _ q]) (cases e, simp)
  qed simp
  then obtain q where "lookup_live r t queueKey = None \<and> q = [] \<or> (\<exists>x. lookup_live r t queueKey = Some \<lparr>re_value = RList q, re_expires = x\<rparr>)" ..
  from push_all_queue [OF this, of ps] assms show ?thesis by (auto simp: queued_def)
qed

lemma publish_pipeline_published:
  assumes "publish_pipeline (j_AnalysisID base) (shard_count n (shard_size s)) (map job_json (shard_jobs base n (shard_size s))) r t = Inr (Inr (), r')"
  shows "published base n s r' t"
proof -
  from assms have "push_all (map job_json (shard_jobs base n (shard_size s)))
      (store_entry (pendingKey (j_AnalysisID base)) (RInt (shard_count n (shard_size s))) (Some (t + pendingTTL)) r) t = (Inr (), r')"
    by (simp add: publish_pipeline_def)
  from push_all_queued [OF this] obtain q where "queued r' t (rev (map job_json (shard_jobs base n (shard_size s))) @ q)"
    and other: "\<forall>k. k \<noteq> queueKey \<longrightarrow> r' k = store_entry (pendingKey (j_AnalysisID base)) (RInt (shard_count n (shard_size s))) (Some (t + pendingTTL)) r k"
    by (auto simp: shard_jobs_nonempty)
  moreover have "pendingKey (j_AnalysisID base) \<noteq> queueKey" by (simp add: pendingKey_def queueKey_def)
  with other have "lookup_live r' t (pendingKey (j_AnalysisID base)) =
      Some \<lparr>re_value = RInt (shard_count n (shard_size s)), re_expires = Some (t + pendingTTL)\<rparr>"
    by (simp add: lookup_live_def store_entry_def pendingTTL_def)
  ultimately show ?thesis unfolding published_def by blast
qed

lemma vc_PublishAnalysis:
  assumes "\<And>e w'. w_db w' = w_db w \<Longrightarrow> Q (Inl e) w'"
    and "\<And>w' t. w_db w' = w_db w \<Longrightarrow> published base n s (w_redis w') t \<Longrightarrow> Q (Inr (shard_count n (shard_size s))) w'"
  shows "wp (PublishAnalysis base n s) Q w"
  unfolding PublishAnalysis_def Let_def wp_attempt wp_redis_do
  by (auto simp: wp_return split: outcome.splits sum.splits intro!: assms publish_pipeline_published)

text \<open>An analysis that was accepted: its row, and its jobs.\<close>

definition launched :: "api \<Rightarrow> upload \<Rightarrow> string \<Rightarrow> int option \<Rightarrow> int \<Rightarrow> db \<Rightarrow> analysis \<Rightarrow> int \<Rightarrow> world \<Rightarrow> bool" where
  "launched a up scope window n d an shards w' \<longleftrightarrow> analyses (w_db w') = analyses d @ [an] \<and> a_Status an = ''queued'' \<and>
     a_OrgID an = up_OrgID up \<and> a_UploadID an = up_ID up \<and> a_Scope an = scope \<and> a_BaselineWindowDays an = window \<and>
     shards = shard_count n (shard_size (ShardSize (api_Cfg a))) \<and>
     (\<exists>t. published (analysis_job a an up scope window) n (ShardSize (api_Cfg a)) (w_redis w') t)"

lemma launched_added: "launched a up scope window n d an shards w' \<Longrightarrow> analysis_added up scope window d (w_db w')"
  by (simp add: launched_def analysis_added_def)

lemma vc_launchAnalysis:
  assumes "analysis_ids_fresh (w_db w)"
    and "\<And>e w'. analyses (w_db w') = analyses (w_db w) \<Longrightarrow> Q (Inl e) w'"
    and "\<And>e w'. analysis_added up scope window (w_db w) (w_db w') \<Longrightarrow> Q (Inl e) w'"
    and "\<And>an m w'. launched a up scope window n (w_db w) an m w' \<Longrightarrow> Q (Inr (an, m)) w'"
  shows "wp (launchAnalysis a up scope window n) Q w"
proof -
  have created: "analysis_added up scope window d d'"
    if "s_CreateAnalysis (up_OrgID up) (up_ID up) scope window d t = Inr (an, d')" for d t an d'
    using s_CreateAnalysis_db [OF that] by (auto simp: analysis_added_def)
  have failed: "analysis_added up scope window (w_db w) e"
    if "s_CreateAnalysis (up_OrgID up) (up_ID up) scope window (w_db w) t = Inr (an, d')" "s_FailAnalysis (a_ID an) m d' t' = Inr (u, e)" for t an d' m t' u e
    using fail_new [OF that(1) assms(1) that(2)] by (auto simp: analysis_added_def)
  have row: "launched a up scope window n (w_db w) an (shard_count n (shard_size (ShardSize (api_Cfg a)))) w'"
    if "s_CreateAnalysis (up_OrgID up) (up_ID up) scope window (w_db w) t = Inr (an, d')" "w_db w' = d'"
      "published (analysis_job a an up scope window) n (ShardSize (api_Cfg a)) (w_redis w') t'" for t an d' w' t'
    using s_CreateAnalysis_db [OF that(1)] that(2,3) unfolding launched_def by auto
  show ?thesis
    unfolding launchAnalysis_def CreateAnalysis_def FailAnalysis_def
    by ((intro vc_PublishAnalysis vc_rules)[1], simp_all)
      (rule assms(3), simp, erule (1) failed | rule assms(3), simp, erule created | rule assms(4), erule row, simp, simp | rule assms(2), simp)+
qed

definition started :: "api \<Rightarrow> user \<Rightarrow> request \<Rightarrow> db \<Rightarrow> time \<Rightarrow> db \<Rightarrow> bool" where
  "started a caller r d now d' \<longleftrightarrow> (\<exists>up i scope window l e.
     uuid_Parse a (rq_PathID r) = Some i \<and> access caller i LevelFull d now l up e \<and>
     analysis_added up scope window d d' \<and> window_matches_scope scope window \<and> (\<forall>n. window = Some n \<longrightarrow> 1 \<le> n \<and> n \<le> 365))"

lemma startedI:
  assumes "uuid_Parse a (rq_PathID r) = Some i" and "access caller i LevelFull d now l up e" and "audited d e"
    and "normaliseScope sc wd = Inr (scope, window)" and "analysis_added up scope window e d'"
  shows "started a caller r d now d'"
proof -
  have "analysis_added up scope window d d'" using assms(3,5) by (auto simp: analysis_added_def audited_tables)
  with assms(1,2) normaliseScope_window [OF assms(4)] show ?thesis
    unfolding started_def by (intro exI [of _ up] exI [of _ i] exI [of _ scope] exI [of _ window] exI [of _ l] exI [of _ e]) blast
qed

text \<open>What the answer 202 stands for: the row it names is new and queued, and the jobs over all rows of the upload are there.\<close>

definition accepted :: "api \<Rightarrow> user \<Rightarrow> request \<Rightarrow> world \<Rightarrow> response \<Rightarrow> world \<Rightarrow> bool" where
  "accepted a caller r w resp w' \<longleftrightarrow> (\<exists>up scope window an shards.
     let n = int (affected (\<lambda>l. l_upload_id l = up_ID up) (log_entries (w_db w))) in
     uuid_Parse a (rq_PathID r) = Some (up_ID up) \<and> up \<in> set (uploads (w_db w)) \<and> up_OrgID up = u_OrgID caller \<and>
     launched a up scope window n (w_db w) an shards w' \<and>
     rs_Body resp = Some (JObj [(''id'', uuid_json a (a_ID an)), (''status'', JStr ''queued''), (''scope'', JStr scope),
       (''shards'', JInt shards), (''entries'', JInt n)]))"

lemma acceptedI:
  assumes "uuid_Parse a (rq_PathID r) = Some i" and "access caller i LevelFull (w_db w) now l up e" and "audited (w_db w) e"
    and "q_CountEntries i e t = Inr n" and "launched a up scope window (int n) e an shards w'"
  shows "accepted a caller r w (JSON 202 (Some (JObj [(''id'', uuid_json a (a_ID an)), (''status'', JStr (a_Status an)),
      (''scope'', JStr scope), (''shards'', JInt shards), (''entries'', JInt (int n))]))) w'"
proof -
  have "up \<in> set (uploads (w_db w))" "up_ID up = i" "up_OrgID up = u_OrgID caller" using assms(2) by (simp_all add: access_def)
  moreover have "n = affected (\<lambda>l. l_upload_id l = i) (log_entries (w_db w))" "analyses e = analyses (w_db w)"
    using assms(3,4) by (simp_all add: q_CountEntries_def audited_tables)
  ultimately show ?thesis
    using assms(1,5) unfolding accepted_def Let_def
    by (intro exI [of _ up] exI [of _ scope] exI [of _ window] exI [of _ an] exI [of _ shards]) (simp add: launched_def JSON_def)
qed

lemma failAuthz_status [simp]: "rs_Status (failAuthz e) \<noteq> 202" "rs_Status (failAuthz e) \<noteq> 200"
  by (cases e; simp add: failAuthz_def)+

lemma startAnalysis_vc:
  assumes "levels_valid (w_db w)" and "analysis_ids_fresh (w_db w)"
  shows "wp (startAnalysis a caller r) (\<lambda>resp w'.
    (analyses (w_db w') = analyses (w_db w) \<and> rs_Status resp \<noteq> 202 \<or> started a caller r (w_db w) (w_now w) (w_db w')) \<and>
    (rs_Status resp = 202 \<longrightarrow> accepted a caller r w resp w')) w"
proof -
  have fresh: "audited (w_db w) d \<Longrightarrow> analysis_ids_fresh d" for d
    using assms(2) audited_tables [of "w_db w" d] by (force simp: analysis_ids_fresh_def)
  show ?thesis
    unfolding startAnalysis_def CountEntries_def
    by ((intro vc_rules assms(1) vc_launchAnalysis)[1], simp_all)
      (erule fresh | erule disjI1 [OF audited_tables(5)] | rule conjI | erule (4) acceptedI | (rule disjI2)?, erule (3) startedI, (assumption | erule launched_added) | simp add: audited_tables)+
qed

text \<open>
  Claim C34: only a caller with access to every log line of an upload starts an analysis of
  it: any change to the analyses is one row of that upload, queued or failed, with a baseline window
  of 1 to 365 days exactly when it is measured against history. What the caller is told was
  accepted is such a row, new and queued, and there is work behind it: the jobs that cover the rows
  of the upload are on the queue, with the counter of as many shards as the answer names.
\<close>

theorem Analysis_started:
  assumes "levels_valid (w_db w)" and "analysis_ids_fresh (w_db w)" and "run_state (startAnalysis a caller r) w = (resp, w')"
  shows "(analyses (w_db w') = analyses (w_db w) \<and> rs_Status resp \<noteq> 202 \<or> started a caller r (w_db w) (w_now w) (w_db w')) \<and>
    (rs_Status resp = 202 \<longrightarrow> accepted a caller r w resp w')"
  using wpD [OF startAnalysis_vc [OF assms(1,2)] assms(3)] .

section \<open>Reading an analysis\<close>

definition findings_shown :: "api \<Rightarrow> user \<Rightarrow> request \<Rightarrow> db \<Rightarrow> time \<Rightarrow> response \<Rightarrow> bool" where
  "findings_shown a caller r d now resp \<longleftrightarrow> (\<exists>an up lvl t fs.
     an \<in> set (analyses d) \<and> uuid_Parse a (rq_PathID r) = Some (a_ID an) \<and> up \<in> set (uploads d) \<and> up_ID up = a_UploadID an \<and>
     now \<le> t \<and> lvl = tier caller up d t \<and> lvl \<noteq> LevelNone \<and>
     rs_Body resp = Some (JObj [(''analysis'', analysis_json a an), (''anomalies'', JArr (map (anomaly_json a \<circ> redact lvl) fs)),
       (''level'', JStr (level_String lvl))]) \<and>
     (\<forall>f\<in>set fs. \<exists>row\<in>set (anomalies d). an_analysis_id row = a_ID an \<and> anomaly.truncate row = f))"

lemma tier_admin: "up_OrgID up = u_OrgID caller \<Longrightarrow> IsAdmin (u_Role caller) \<Longrightarrow> LevelDashboard \<le> tier caller up d t"
  using finite_grant_tiers [of caller "up_ID up" d t] by (auto simp: tier_def intro: Max_ge)

lemma access_summary:
  assumes "access c i LevelSummary d now l up d'"
  shows "up \<in> set (uploads d) \<and> up_ID up = i \<and> d' = d \<and> (\<exists>t\<ge>now. l = tier c up d t \<and> l \<noteq> LevelNone)"
proof -
  have "LevelSummary \<le> tier c up d t" if "up_OrgID up = u_OrgID c" "IsAdmin (u_Role c)" for t
    using tier_admin [OF that, of d t] order_trans [of LevelSummary LevelDashboard] by simp
  then have "\<not> tier c up d t < LevelSummary" if "up_OrgID up = u_OrgID c" "IsAdmin (u_Role c)" for t
    using that leD by blast
  with assms show ?thesis unfolding access_def by blast
qed

lemma findings_shownI:
  assumes "uuid_Parse a (rq_PathID r) = Some i" and "q_AnalysisByID i d t1 = Inr an"
    and "access caller (a_UploadID an) LevelSummary d s lvl up d'" and "now \<le> s" and "q_Anomalies i d' t2 = Inr fs"
  shows "findings_shown a caller r d now (JSON 200 (Some (JObj [(''analysis'', analysis_json a an),
    (''anomalies'', JArr (map (anomaly_json a \<circ> redact lvl) fs)), (''level'', JStr (level_String lvl))])))"
proof -
  from access_summary [OF assms(3)] obtain t where t: "up \<in> set (uploads d)" "up_ID up = a_UploadID an" "d' = d" "s \<le> t"
      "lvl = tier caller up d t" "lvl \<noteq> LevelNone" by blast
  have "\<forall>f\<in>set fs. \<exists>row\<in>set (anomalies d). an_analysis_id row = a_ID an \<and> anomaly.truncate row = f"
    using q_Anomalies_org assms(5) t(3) q_AnalysisByID_Inr [OF assms(2)] by blast
  with t assms(1,4) q_AnalysisByID_Inr [OF assms(2)] show ?thesis
    unfolding findings_shown_def JSON_def
    by (intro exI [of _ an] exI [of _ up] exI [of _ lvl] exI [of _ t] exI [of _ fs] conjI) simp_all
qed

lemma getAnalysis_vc:
  assumes "levels_valid (w_db w)"
  shows "wp (getAnalysis a caller r) (\<lambda>resp w'. rs_Status resp = 200 \<longrightarrow> findings_shown a caller r (w_db w) (w_now w) resp) w"
  unfolding getAnalysis_def AnalysisByID_def Anomalies_def
  by ((intro vc_rules)[1], simp_all add: assms) (erule (1) findings_shownI, simp_all)

text \<open>
  Claim C35: whoever is shown the findings of an analysis has at least the summary tier on its
  upload, the answer names that tier, every finding in it belongs to the analysis, and below the
  full tier none of them cites a log line.
\<close>

theorem Findings_by_tier:
  assumes "levels_valid (w_db w)" and "run_state (getAnalysis a caller r) w = (resp, w')" and "rs_Status resp = 200"
  shows "findings_shown a caller r (w_db w) (w_now w) resp \<and> (lvl < LevelFull \<longrightarrow> an_EntryIDs (redact lvl f) = None)"
  using wpD [OF getAnalysis_vc [OF assms(1)] assms(2)] assms(3) by (simp add: redact_def)

section \<open>Witnesses\<close>

definition sample_analysis :: analysis where
  "sample_analysis = \<lparr>a_ID = 51, a_OrgID = 1, a_UploadID = 31, a_Status = ''done'', a_Scope = ''file'', a_BaselineWindowDays = None,
     a_OverallRisk = None, a_Summary = None, a_Timeline = JNull, a_Model = None, a_InputTokens = None, a_OutputTokens = None,
     a_Error = None, a_CreatedAt = 0, a_StartedAt = None, a_FinishedAt = None\<rparr>"

definition analysed_world :: world where
  "analysed_world = sample_world\<lparr>w_db := sample_db\<lparr>analyses := [sample_analysis]\<rparr>\<rparr>"

lemma analysed_simps [simp]:
  "quiet analysed_world" "w_now analysed_world = 1000 * second" "analyses (w_db analysed_world) = [sample_analysis]"
  "uploads (w_db analysed_world) = [cyds_log, dans_log]" "anomalies (w_db analysed_world) = []"
  "a_ID sample_analysis = 51" "a_UploadID sample_analysis = 31"
  by (simp_all add: analysed_world_def sample_analysis_def sample_db_def empty_db_def)

lemma analysed_levels: "levels_valid (w_db analysed_world)"
  using sample_levels_valid by (simp add: analysed_world_def levels_valid_def)

definition start_request :: request where
  "start_request = (sample_request ''POST'' ''/api/uploads/31/analyze'')\<lparr>rq_PathID := ''31''\<rparr>"

lemma analysed_Require:
  assumes "k \<le> LevelFull"
  shows "run_state (Require u (user.truncate cyd) 31 k) analysed_world = (Inr (LevelFull, cyds_log), analysed_world)"
proof -
  have "run_state (Resolve (user.truncate cyd) 31) analysed_world = (Inr (LevelFull, cyds_log), analysed_world)"
    by (simp add: Resolve_def UploadByID_def quiet_run q_UploadByID_def scanUpload_def select_def)
  with assms show ?thesis by (simp add: Require_def quiet_run leD)
qed

text \<open>The owner of the file starts an analysis of it and is told that it was accepted.\<close>

theorem Analysis_started_witness:
  "\<exists>resp w'. run_state (startAnalysis sample_api (user.truncate cyd) start_request) analysed_world = (resp, w') \<and>
     rs_Status resp = 202 \<and> accepted sample_api (user.truncate cyd) start_request analysed_world resp w'"
proof -
  have id: "uuid_Parse sample_api (rq_PathID start_request) = Some 31" by (simp add: start_request_def sample_api_def is_digit_def code_def)
  have body: "DecodeOptional analyzeRequest start_request = Inr []"
    by (simp add: DecodeOptional_def start_request_def)
  have row: "\<exists>an d. s_CreateAnalysis 1 31 ''file'' None (w_db analysed_world) (1000 * second) = Inr (an, d)"
    by (simp add: s_CreateAnalysis_def analysed_world_def org_acme_def window_matches_scope_def Let_def)
  have "queued (w_redis (analysed_world\<lparr>w_db := d\<rparr>)) (w_now (analysed_world\<lparr>w_db := d\<rparr>)) []" for d
    by (simp add: queued_def lookup_live_def analysed_world_def sample_redis)
  then have queue: "\<exists>q. run_state (PublishAnalysis base n s) (analysed_world\<lparr>w_db := d\<rparr>) =
      (Inr (shard_count n (shard_size s)), analysed_world\<lparr>w_db := d, w_redis := q\<rparr>)" for base n s d
    using Publish_quiet [of "analysed_world\<lparr>w_db := d\<rparr>" "[]" base n s] by auto
  have "\<exists>an m v. run_state (launchAnalysis sample_api cyds_log ''file'' None n) analysed_world = (Inr (an, m), v)" for n
  proof -
    from row obtain an d where "s_CreateAnalysis 1 31 ''file'' None (w_db analysed_world) (1000 * second) = Inr (an, d)" by blast
    moreover obtain q where "run_state (PublishAnalysis (analysis_job sample_api an cyds_log ''file'' None) n (ShardSize sample_config))
        (analysed_world\<lparr>w_db := d\<rparr>) = (Inr (shard_count n (shard_size (ShardSize sample_config))), analysed_world\<lparr>w_db := d, w_redis := q\<rparr>)"
      using queue by blast
    ultimately show ?thesis by (simp add: launchAnalysis_def CreateAnalysis_def quiet_run)
  qed
  moreover have "\<exists>n. q_CountEntries 31 (w_db analysed_world) (1000 * second) = Inr n" by (simp add: q_CountEntries_def)
  ultimately have "\<exists>an m v n. q_CountEntries 31 (w_db analysed_world) (1000 * second) = Inr n \<and>
      run_state (launchAnalysis sample_api cyds_log ''file'' None (int n)) analysed_world = (Inr (an, m), v)" by blast
  then have "\<exists>resp w'. run_state (startAnalysis sample_api (user.truncate cyd) start_request) analysed_world = (resp, w') \<and> rs_Status resp = 202"
    by (elim exE conjE) (simp add: startAnalysis_def id body CountEntries_def quiet_run analysed_Require normaliseScope_def str_field_def values_of_def JSON_def)
  then obtain resp w' where run: "run_state (startAnalysis sample_api (user.truncate cyd) start_request) analysed_world = (resp, w')"
    and ok: "rs_Status resp = 202" by blast
  have "analysis_ids_fresh (w_db analysed_world)"
    by (simp add: analysis_ids_fresh_def analysed_world_def sample_analysis_def sample_db_def)
  from Analysis_started [OF analysed_levels this run] ok run show ?thesis by blast
qed

definition read_request :: request where
  "read_request = (sample_request ''GET'' ''/api/analyses/51'')\<lparr>rq_PathID := ''51''\<rparr>"

theorem Findings_by_tier_witness:
  "\<exists>resp w'. run_state (getAnalysis sample_api (user.truncate cyd) read_request) analysed_world = (resp, w') \<and>
     findings_shown sample_api (user.truncate cyd) read_request (w_db analysed_world) (1000 * second) resp"
proof -
  have id: "uuid_Parse sample_api (rq_PathID read_request) = Some 51" by (simp add: read_request_def sample_api_def is_digit_def code_def)
  have req: "run_state (Require u (user.truncate cyd) 31 LevelSummary) analysed_world = (Inr (LevelFull, cyds_log), analysed_world)" for u
    by (rule analysed_Require) simp
  have an: "q_AnalysisByID 51 (w_db analysed_world) t = Inr sample_analysis" "q_Anomalies 51 (w_db analysed_world) t = Inr []" for t
    by (simp_all add: q_AnalysisByID_def scanAnalysis_def select_def q_Anomalies_def order_desc_def)
  obtain resp w' where run: "run_state (getAnalysis sample_api (user.truncate cyd) read_request) analysed_world = (resp, w')"
      "rs_Status resp = 200"
    by (simp add: getAnalysis_def id AnalysisByID_def Anomalies_def quiet_run an req JSON_def)
  from Findings_by_tier [OF analysed_levels run] run show ?thesis by auto
qed

end
