(* ===== verification/Csv.thy ===== *)
theory Csv
  imports Io
begin

text \<open>
  \<open>encoding/csv\<close> as the parser configures it: any number of fields, lazy quotes, no comment
  character, a separator of one byte. A reader is the \<open>bufio.Reader\<close> it was made from.
\<close>

section \<open>Lines\<close>

definition newline :: char where "newline = CHR 0x0A"
definition carriage :: char where "carriage = CHR 0x0D"
definition dquote :: char where "dquote = CHR 0x22"

text \<open>\<open>lengthNL\<close>: 1 if the line ends in a newline, else 0.\<close>

definition lengthNL :: "string \<Rightarrow> nat" where
  "lengthNL l = (if l \<noteq> [] \<and> last l = newline then 1 else 0)"

definition crlf :: "string \<Rightarrow> string" where
  "crlf l = (let n = length l in
     if n \<ge> 2 \<and> l ! (n - 2) = carriage \<and> l ! (n - 1) = newline then take (n - 2) l @ [newline] else l)"

text \<open>\<open>readLine\<close>: a last line without newline is no error, and every \<open>\r\n\<close> becomes \<open>\n\<close>.\<close>

definition readLine :: "bufio \<Rightarrow> string \<times> io_err option \<times> bufio" where
  "readLine b = (case ReadSlice b of (line, err, b') \<Rightarrow>
     let eof = (line \<noteq> [] \<and> err = Some EOF);
         err = (if eof then None else err);
         line = (if eof \<and> last line = carriage then butlast line else line)
     in (crlf line, err, b'))"

lemma length_crlf: "length (crlf l) \<le> length l"
  by (auto simp: crlf_def Let_def)

lemma crlf_none: "carriage \<notin> set l \<Longrightarrow> crlf l = l"
proof -
  assume c: "carriage \<notin> set l"
  have "l ! (length l - 2) \<noteq> carriage" if "length l \<ge> 2"
  proof -
    from that have "l ! (length l - 2) \<in> set l" by (intro nth_mem) simp
    with c show ?thesis by metis
  qed
  then show ?thesis by (auto simp: crlf_def Let_def)
qed

lemma remaining_fill [simp]: "remaining (fill b) = remaining b"
  by (cases "src_chunks (cr_r (b_rd b))")
    (auto simp: remaining_def fill_def cap_Read_def source_Read_def Let_def source_bytes_def split: prod.splits)

lemma ReadSlice_remaining:
  "ReadSlice b = (line, err, b') \<Longrightarrow> remaining b = line @ remaining b' \<and> (err = None \<longrightarrow> line \<noteq> [])"
proof (induction b arbitrary: line err b' rule: ReadSlice.induct)
  case (1 b)
  then show ?case
    by (subst (asm) (2) ReadSlice.simps)
      (auto simp: remaining_def [of b] remaining_def [of "b\<lparr>b_buf := z\<rparr>" for z] remaining_def [of "b\<lparr>b_buf := z, b_err := w\<rparr>" for z w]
        split: option.splits dest: IndexByte_Some)
qed

lemma readLine_remaining:
  assumes "readLine b = (line, err, b')"
  shows "length line + length (remaining b') \<le> length (remaining b)"
    and "err = None \<Longrightarrow> length (remaining b') < length (remaining b)"
proof -
  obtain l e where r: "ReadSlice b = (l, e, b')"
    using assms by (auto simp: readLine_def Let_def split: prod.splits)
  have rem: "remaining b = l @ remaining b'" and ne: "e = None \<Longrightarrow> l \<noteq> []"
    using ReadSlice_remaining [OF r] by auto
  have "length line \<le> length l"
    using assms r by (auto simp: readLine_def Let_def split: prod.splits if_splits intro: le_trans [OF length_crlf])
  then show "length line + length (remaining b') \<le> length (remaining b)" by (simp add: rem)
  assume "err = None"
  then have "l \<noteq> []" using assms r ne by (auto simp: readLine_def Let_def split: if_splits)
  then show "length (remaining b') < length (remaining b)" by (simp add: rem)
qed

section \<open>Records\<close>

text \<open>The loop at the head of \<open>readRecord\<close>: empty lines are skipped.\<close>

function (sequential) next_line :: "bufio \<Rightarrow> string \<times> io_err option \<times> bufio" where
  "next_line b = (case readLine b of (line, err, b') \<Rightarrow>
     if err = None \<and> length line = lengthNL line then next_line b' else (line, err, b'))"
  by pat_completeness auto

termination
  by (relation "measure (\<lambda>b. length (remaining b))") (auto dest: readLine_remaining(2) sym)

declare next_line.simps [simp del]

text \<open>
  The loop over the fields of a record. \<open>parse_field\<close> begins a field, \<open>parse_quoted\<close> is inside a
  quoted one with the text so far; \<open>errRead\<close> is the error the last line came with.
\<close>

function (sequential) parse_field :: "char \<Rightarrow> string list \<Rightarrow> string \<Rightarrow> io_err option \<Rightarrow> bufio \<Rightarrow> string list \<times> io_err option \<times> bufio"
  and parse_quoted :: "char \<Rightarrow> string list \<Rightarrow> string \<Rightarrow> string \<Rightarrow> io_err option \<Rightarrow> bufio \<Rightarrow> string list \<times> io_err option \<times> bufio"
where
  "parse_field comma row line errRead b =
     (if line = [] \<or> hd line \<noteq> dquote
      then (case IndexByte line comma of
              Some i \<Rightarrow> parse_field comma (row @ [take i line]) (drop (Suc i) line) errRead b
            | None \<Rightarrow> (row @ [take (length line - lengthNL line) line], errRead, b))
      else parse_quoted comma row [] (tl line) errRead b)"
| "parse_quoted comma row acc line errRead b =
     (case IndexByte line dquote of
        Some i \<Rightarrow>
          (let acc = acc @ take i line; line = drop (Suc i) line
           in if line \<noteq> [] \<and> hd line = dquote then parse_quoted comma row (acc @ [dquote]) (tl line) errRead b
              else if line \<noteq> [] \<and> hd line = comma then parse_field comma (row @ [acc]) (tl line) errRead b
              else if lengthNL line = length line then (row @ [acc], errRead, b)
              else parse_quoted comma row (acc @ [dquote]) line errRead b)
      | None \<Rightarrow>
          (if line \<noteq> []
           then (if errRead \<noteq> None then (row, errRead, b)
                 else case readLine b of (line', err, b') \<Rightarrow>
                   parse_quoted comma row (acc @ line) line' (if err = Some EOF then None else err) b')
           else (row @ [acc], errRead, b)))"
  by pat_completeness auto

termination
  by (relation "measure (\<lambda>x. case x of Inl (_, _, line, _, b) \<Rightarrow> length line + length (remaining b)
        | Inr (_, _, _, line, _, b) \<Rightarrow> length line + length (remaining b))")
    (auto simp: Let_def dest: IndexByte_Some split: if_splits dest!: sym [of _ "readLine _"] dest: readLine_remaining(1)
       intro: le_less_trans [OF readLine_remaining(1)])

declare parse_field.simps [simp del] parse_quoted.simps [simp del]

text \<open>\<open>Read\<close>: a record, or the error it ended with.\<close>

definition csv_Read :: "char \<Rightarrow> bufio \<Rightarrow> (io_err + string list) \<times> bufio" where
  "csv_Read comma b = (case next_line b of (line, errRead, b1) \<Rightarrow>
     if errRead = Some EOF then (Inl EOF, b1)
     else case parse_field comma [] line errRead b1 of (row, err, b2) \<Rightarrow>
       case err of None \<Rightarrow> (Inr row, b2) | Some e \<Rightarrow> (Inl e, b2))"

section \<open>Independence of the chunks\<close>

text \<open>
  On sources that end well, reading depends only on the bytes still to come, not on how the
  connection cut them into chunks: \<open>alike\<close> is preserved by every operation, with equal results.
\<close>

definition alike :: "bufio \<Rightarrow> bufio \<Rightarrow> bool" where
  "alike b c \<longleftrightarrow> good b \<and> good c \<and> remaining b = remaining c"

lemma ReadSlice_good:
  assumes "good b"
  shows "\<exists>b'. good b' \<and>
    (case IndexByte (remaining b) newline of
       Some i \<Rightarrow> ReadSlice b = (take (Suc i) (remaining b), None, b') \<and> remaining b' = drop (Suc i) (remaining b)
     | None \<Rightarrow> ReadSlice b = (remaining b, Some EOF, b') \<and> remaining b' = [])"
  using assms
proof (induction b rule: ReadSlice.induct)
  case (1 b)
  show ?case
  proof (cases "IndexByte (b_buf b) newline")
    case (Some i)
    then have i: "i < length (b_buf b)" "b_buf b ! i = newline" "newline \<notin> set (take i (b_buf b))"
      by (auto dest: IndexByte_Some)
    then have "IndexByte (remaining b) newline = Some i"
      unfolding remaining_def by (rule IndexByte_append)
    with Some 1(2) i(1) show ?thesis
      by (intro exI [of _ "b\<lparr>b_buf := drop (Suc i) (b_buf b)\<rparr>"])
        (simp add: ReadSlice.simps [of b] newline_def good_def remaining_def)
  next
    case None
    show ?thesis
    proof (cases "b_err b")
      case (Some e)
      with 1(2) have e: "e = EOF" "src_chunks (cr_r (b_rd b)) = []" by (auto simp: good_def)
      then have r: "remaining b = b_buf b" by (simp add: remaining_def source_bytes_def)
      let ?b = "b\<lparr>b_buf := [], b_err := None\<rparr>"
      have "ReadSlice b = (remaining b, Some EOF, ?b)"
        using None Some e r by (simp add: ReadSlice.simps [of b, folded newline_def] iffD2 [OF IndexByte_None])
      moreover have "good ?b" "remaining ?b = []"
        using 1(2) e by (simp_all add: good_def remaining_def source_bytes_def)
      moreover have "IndexByte (remaining b) newline = None" using None r by (simp add: iffD2 [OF IndexByte_None])
      ultimately show ?thesis by (intro exI [of _ ?b]) (simp add: iffD2 [OF IndexByte_None])
    next
      case n: None
      have g: "good (fill b)"
        using good_fill [OF 1(2) n] by blast
      have eq: "ReadSlice b = ReadSlice (fill b)"
        using None n by (simp add: ReadSlice.simps [of b, folded newline_def] iffD2 [OF IndexByte_None])
      show ?thesis unfolding eq
        by (rule 1(1) [OF None [unfolded newline_def] n g, unfolded remaining_fill])
    qed
  qed
qed

lemma ReadSlice_alike:
  assumes "alike b c" "ReadSlice b = (l, e, b')" "ReadSlice c = (m, f, c')"
  shows "l = m \<and> e = f \<and> (e = None \<or> e = Some EOF) \<and> alike b' c'"
  using assms ReadSlice_good [of b] ReadSlice_good [of c]
  by (auto simp: alike_def split: option.splits)

lemma readLine_alike:
  assumes "alike b c" "readLine b = (l, e, b')" "readLine c = (m, f, c')"
  shows "l = m \<and> e = f \<and> (e = None \<or> e = Some EOF) \<and> alike b' c'"
proof -
  obtain l1 e1 b1 where 1: "ReadSlice b = (l1, e1, b1)" by (cases "ReadSlice b")
  obtain m1 f1 c1 where 2: "ReadSlice c = (m1, f1, c1)" by (cases "ReadSlice c")
  from ReadSlice_alike [OF assms(1) 1 2] have "l1 = m1" "e1 = f1" "e1 = None \<or> e1 = Some EOF" "alike b1 c1" by auto
  with assms(2,3) 1 2 show ?thesis by (auto simp: readLine_def Let_def split: if_splits)
qed

lemma next_line_alike:
  assumes "alike b c" "next_line b = (l, e, b')" "next_line c = (m, f, c')"
  shows "l = m \<and> e = f \<and> (e = None \<or> e = Some EOF) \<and> alike b' c'"
  using assms
proof (induction b arbitrary: c rule: next_line.induct)
  case (1 b)
  obtain l1 e1 b1 where b: "readLine b = (l1, e1, b1)" by (cases "readLine b")
  obtain m1 f1 c1 where c: "readLine c = (m1, f1, c1)" by (cases "readLine c")
  from readLine_alike [OF 1(2) b c]
  have eq: "l1 = m1" "e1 = f1" "e1 = None \<or> e1 = Some EOF" "alike b1 c1" by auto
  show ?case
  proof (cases "e1 = None \<and> length l1 = lengthNL l1")
    case True
    with 1(3,4) b c eq have "next_line b1 = (l, e, b')" "next_line c1 = (m, f, c')"
      by (simp_all add: next_line.simps [of b] next_line.simps [of c])
    then show ?thesis by (rule 1(1) [OF b [symmetric] refl True eq(4)])
  next
    case False
    then show ?thesis using 1(3,4) b c eq by (auto simp: next_line.simps [of b] next_line.simps [of c])
  qed
qed

lemma parse_alike:
  "(alike b c \<Longrightarrow> parse_field comma row line err b = (r, e, b') \<Longrightarrow> parse_field comma row line err c = (q, f, c') \<Longrightarrow>
     err = None \<Longrightarrow> r = q \<and> e = f \<and> e = None \<and> alike b' c')"
  "(alike b c \<Longrightarrow> parse_quoted comma row acc line err b = (r, e, b') \<Longrightarrow> parse_quoted comma row acc line err c = (q, f, c') \<Longrightarrow>
     err = None \<Longrightarrow> r = q \<and> e = f \<and> e = None \<and> alike b' c')"
proof (induction comma row line err b and comma row acc line err b arbitrary: c and c rule: parse_field_parse_quoted.induct)
  case (1 comma row line errRead b)
  then show ?case
    by (auto simp: parse_field.simps [of comma row line _ b] parse_field.simps [of comma row line _ c]
        split: if_splits option.splits)
next
  case (2 comma row acc line errRead b)
  show ?case
  proof (cases "IndexByte line dquote")
    case (Some i)
    with 2(2-4) [OF Some refl refl] 2(5-) show ?thesis
      by (auto simp: parse_quoted.simps [of comma row acc line _ b] parse_quoted.simps [of comma row acc line _ c] Let_def
        split: if_splits)
  next
    case None
    obtain l1 e1 b1 where b: "readLine b = (l1, e1, b1)" by (cases "readLine b")
    obtain m1 f1 c1 where c: "readLine c = (m1, f1, c1)" by (cases "readLine c")
    from readLine_alike [OF 2(5) b c]
    have eq: "l1 = m1" "e1 = f1" "e1 = None \<or> e1 = Some EOF" "alike b1 c1" by auto
    show ?thesis
    proof (cases "line = []")
      case True
      with 2(5-) None show ?thesis
        by (auto simp: parse_quoted.simps [of comma row acc "[]" _ b] parse_quoted.simps [of comma row acc "[]" _ c])
    next
      case False
      with 2(6-) b c None eq have "parse_quoted comma row (acc @ line) l1 None b1 = (r, e, b')"
        "parse_quoted comma row (acc @ line) l1 None c1 = (q, f, c')"
        by (auto simp: parse_quoted.simps [of comma row acc line _ b] parse_quoted.simps [of comma row acc line _ c])
      then show ?thesis using 2(1) [OF None False _ b [symmetric] refl eq(4)] 2(8) eq(3) by auto
    qed
  qed
qed

text \<open>
  The main lemma: two readers that are alike return the same record or the same \<open>EOF\<close>, never
  another error, and stay alike.
\<close>

lemma csv_Read_alike:
  assumes "alike b c" "csv_Read comma b = (r, b')" "csv_Read comma c = (q, c')"
  shows "r = q \<and> (r = Inl EOF \<or> (\<exists>row. r = Inr row)) \<and> alike b' c'"
proof -
  obtain l1 e1 b1 where b: "next_line b = (l1, e1, b1)" by (cases "next_line b")
  obtain m1 f1 c1 where c: "next_line c = (m1, f1, c1)" by (cases "next_line c")
  obtain l2 e2 b2 where b2: "parse_field comma [] l1 None b1 = (l2, e2, b2)" by (cases "parse_field comma [] l1 None b1")
  obtain m2 f2 c2 where c2: "parse_field comma [] m1 None c1 = (m2, f2, c2)" by (cases "parse_field comma [] m1 None c1")
  from next_line_alike [OF assms(1) b c]
  have eq: "l1 = m1" "e1 = f1" "e1 = None \<or> e1 = Some EOF" "alike b1 c1" by auto
  with parse_alike(1) [OF eq(4) b2 _ refl, of m2 f2 c2] c2
  have "l2 = m2" "e2 = f2" "e2 = None" "alike b2 c2" by auto
  with assms(2,3) b c b2 c2 eq show ?thesis
    by (auto simp: csv_Read_def split: if_splits)
qed

section \<open>What is written is read back\<close>

text \<open>The quoted form of a record, as an exporter writes it.\<close>

definition quote_field :: "string \<Rightarrow> string" where
  "quote_field f = dquote # ReplaceAll f dquote [dquote, dquote] @ [dquote]"

definition encode_row :: "char \<Rightarrow> string list \<Rightarrow> string" where
  "encode_row comma row = Join (map quote_field row) [comma] @ [newline]"

text \<open>The reader stands in the text \<open>S\<close>: \<open>line\<close> is its first line, the rest is still to come.\<close>

definition stands :: "bufio \<Rightarrow> string \<Rightarrow> string \<Rightarrow> bool" where
  "stands b line S \<longleftrightarrow> (\<exists>i. IndexByte S newline = Some i \<and> line = take (Suc i) S \<and> remaining b = drop (Suc i) S) \<and> good b"

lemma stands_Cons: "c \<noteq> newline \<Longrightarrow> stands b line (c # S) \<Longrightarrow> \<exists>line'. line = c # line' \<and> line' \<noteq> [] \<and> stands b line' S"
  by (auto simp: stands_def)

lemma stands_newline: "stands b line (newline # S) \<Longrightarrow> line = [newline] \<and> remaining b = S \<and> good b"
  by (auto simp: stands_def)

lemma readLine_stands:
  assumes "good b" "remaining b = S @ rest" "newline \<in> set S" "carriage \<notin> set S"
  shows "\<exists>line b'. readLine b = (line, None, b') \<and> stands b' line (S @ rest)"
proof -
  obtain i where i: "IndexByte S newline = Some i" using assms(3) by (metis IndexByte_None not_None_eq)
  then have ii: "i < length S" "S ! i = newline" "newline \<notin> set (take i S)" by (auto dest: IndexByte_Some)
  then have j: "IndexByte (S @ rest) newline = Some i" by (rule IndexByte_append)
  with ReadSlice_good [OF assms(1)] assms(2) obtain b' where b': "good b'"
    "ReadSlice b = (take (Suc i) (S @ rest), None, b')" "remaining b' = drop (Suc i) (S @ rest)" by auto
  have "carriage \<notin> set (take (Suc i) (S @ rest))"
    using assms(4) ii(1) by (auto dest: in_set_takeD)
  then have "crlf (take (Suc i) (S @ rest)) = take (Suc i) (S @ rest)"
    by (rule crlf_none)
  with b' j show ?thesis
    by (intro exI [of _ "take (Suc i) (S @ rest)"] exI [of _ b']) (simp add: readLine_def stands_def Let_def)
qed

lemma parse_quoted_char:
  assumes "c \<noteq> dquote" "line \<noteq> []"
  shows "parse_quoted comma row acc (c # line) None b = parse_quoted comma row (acc @ [c]) line None b"
  using assms
  by (cases "IndexByte line dquote")
    (simp_all del: IndexByte_None add: parse_quoted.simps [of comma row acc "c # line"]
      parse_quoted.simps [of comma row "acc @ [c]"] Let_def)

lemma parse_quoted_field:
  assumes "stands b line (ReplaceAll f dquote [dquote, dquote] @ dquote # S @ rest)"
    and "carriage \<notin> set f" "newline \<in> set S" "carriage \<notin> set S" "hd S \<noteq> dquote"
  shows "\<exists>line' b'. stands b' line' (dquote # S @ rest) \<and>
    parse_quoted comma row acc line None b = parse_quoted comma row (acc @ f) line' None b'"
  using assms
proof (induction f arbitrary: acc line b)
  case Nil
  then show ?case by (auto simp: ReplaceAll_def)
next
  case (Cons c f)
  have dn: "dquote \<noteq> newline" by (simp add: dquote_def newline_def)
  let ?T = "ReplaceAll f dquote [dquote, dquote] @ dquote # S @ rest"
  consider "c = dquote" | "c = newline" | "c \<noteq> dquote" "c \<noteq> newline" by blast
  then show ?case
  proof cases
    case 1
    with Cons.prems(1) have "stands b line (dquote # dquote # ?T)" by (simp add: ReplaceAll_def)
    from stands_Cons [OF dn this] obtain l1 where l1: "line = dquote # l1" "stands b l1 (dquote # ?T)" by blast
    from stands_Cons [OF dn l1(2)] obtain l2 where l2: "l1 = dquote # l2" "stands b l2 ?T" by blast
    have "parse_quoted comma row acc line None b = parse_quoted comma row (acc @ [c]) l2 None b"
      by (simp add: l1 l2 1 parse_quoted.simps [of comma row acc "dquote # dquote # l2"])
    with Cons.IH [OF l2(2), of "acc @ [c]"] Cons.prems(2-) show ?thesis by simp
  next
    case 2
    with Cons.prems(1) dn have st: "line = [newline]" "remaining b = ?T" "good b"
      by (auto simp: ReplaceAll_def dest: stands_newline)
    have "carriage \<notin> set (ReplaceAll f dquote [dquote, dquote] @ dquote # S)"
      using Cons.prems(2,4) by (auto simp: ReplaceAll_def carriage_def dquote_def split: if_splits)
    from readLine_stands [OF st(3) _ _ this, of rest] st(2) Cons.prems(3)
    obtain l1 b1 where 1: "readLine b = (l1, None, b1)" "stands b1 l1 ?T" by auto
    have "parse_quoted comma row acc line None b = parse_quoted comma row (acc @ [c]) l1 None b1"
      using 1 dn by (simp add: st(1) 2 parse_quoted.simps [of comma row acc "[newline]"])
    with Cons.IH [OF 1(2), of "acc @ [c]"] Cons.prems(2-) show ?thesis by simp
  next
    case 3
    with Cons.prems(1) have "stands b line (c # ?T)" by (simp add: ReplaceAll_def)
    from stands_Cons [OF 3(2) this] obtain l1 where l1: "line = c # l1" "l1 \<noteq> []" "stands b l1 ?T" by blast
    with Cons.IH [OF l1(3), of "acc @ [c]"] Cons.prems(2-) parse_quoted_char [OF 3(1) l1(2), of comma row acc b]
    show ?thesis by simp
  qed
qed

lemma parse_encoded:
  assumes "stands b line (encode_row comma cells @ rest)" and "cells \<noteq> []"
    and "\<forall>f\<in>set cells. carriage \<notin> set f" and "comma \<noteq> dquote" "comma \<noteq> newline" "comma \<noteq> carriage"
  shows "\<exists>b'. parse_field comma row line None b = (row @ cells, None, b') \<and> good b' \<and> remaining b' = rest"
  using assms(1,2,3)
proof (induction cells arbitrary: row line b)
  case (Cons f fs)
  have dn: "dquote \<noteq> newline" "dquote \<noteq> carriage" "newline \<noteq> carriage" by (simp_all add: dquote_def newline_def carriage_def)
  define S where "S = (if fs = [] then [newline] else comma # encode_row comma fs)"
  have T: "encode_row comma (f # fs) = dquote # ReplaceAll f dquote [dquote, dquote] @ dquote # S"
    by (cases fs) (simp_all add: encode_row_def quote_field_def S_def)
  have esc: "carriage \<notin> set (quote_field g)" if "carriage \<notin> set g" for g
    using that dn by (auto simp: quote_field_def ReplaceAll_def split: if_splits)
  have enc: "carriage \<notin> set (encode_row comma fs)" if "\<forall>g\<in>set fs. carriage \<notin> set g" for fs
    using that esc assms(6) dn
    by (induction fs rule: induct_list012) (auto simp: encode_row_def)
  have "newline \<in> set (encode_row comma fs)" by (simp add: encode_row_def)
  with enc [of fs] Cons.prems(3) assms(4,6) dn have S: "newline \<in> set S" "carriage \<notin> set S" "hd S \<noteq> dquote"
    by (auto simp: S_def)
  from Cons.prems(1) have "stands b line (dquote # ReplaceAll f dquote [dquote, dquote] @ dquote # S @ rest)"
    by (simp add: T)
  from stands_Cons [OF dn(1) this] obtain l1 where
    l1: "line = dquote # l1" "stands b l1 (ReplaceAll f dquote [dquote, dquote] @ dquote # S @ rest)" by blast
  have "parse_field comma row line None b = parse_quoted comma row [] l1 None b"
    by (simp add: l1(1) parse_field.simps)
  also obtain l2 b2 where l2: "stands b2 l2 (dquote # S @ rest)"
    and "parse_quoted comma row [] l1 None b = parse_quoted comma row f l2 None b2"
    using parse_quoted_field [OF l1(2) _ S, of comma row "[]"] Cons.prems(3) by auto
  note this(2)
  finally have p: "parse_field comma row line None b = parse_quoted comma row f l2 None b2" .
  from stands_Cons [OF dn(1) l2] obtain l3 where l3: "l2 = dquote # l3" "stands b2 l3 (S @ rest)" by blast
  show ?case
  proof (cases "fs = []")
    case True
    with l3(2) have "l3 = [newline]" "remaining b2 = rest" "good b2"
      by (auto simp: S_def dest: stands_newline)
    then show ?thesis using p l3(1) True dn assms(5)
      by (intro exI [of _ b2]) (simp add: parse_quoted.simps [of comma row f "dquote # [newline]"] Let_def lengthNL_def)
  next
    case False
    with l3(2) have "stands b2 l3 (comma # encode_row comma fs @ rest)" by (simp add: S_def)
    from stands_Cons [OF assms(5) this] obtain l4 where
      l4: "l3 = comma # l4" "stands b2 l4 (encode_row comma fs @ rest)" by blast
    have "parse_quoted comma row f l2 None b2 = parse_field comma (row @ [f]) l4 None b2"
      using assms(4) by (simp add: l3(1) l4(1) parse_quoted.simps [of comma row f "dquote # comma # l4"] Let_def)
    with p Cons.IH [OF l4(2) False, of "row @ [f]"] Cons.prems(3) show ?thesis by simp
  qed
qed simp

lemma csv_Read_encoded:
  assumes "good b" "remaining b = encode_row comma row @ rest" "row \<noteq> []" "\<forall>f\<in>set row. carriage \<notin> set f"
    and comma: "comma \<noteq> dquote" "comma \<noteq> newline" "comma \<noteq> carriage"
  shows "\<exists>b'. csv_Read comma b = (Inr row, b') \<and> good b' \<and> remaining b' = rest"
proof -
  have "newline \<in> set (encode_row comma row)" by (simp add: encode_row_def)
  moreover have "carriage \<notin> set (encode_row comma row)"
    using assms(4) comma by (induction row rule: induct_list012)
      (auto simp: encode_row_def quote_field_def ReplaceAll_def dquote_def newline_def carriage_def split: if_splits)
  ultimately obtain line b1 where
    l: "readLine b = (line, None, b1)" "stands b1 line (encode_row comma row @ rest)"
    using readLine_stands [OF assms(1,2)] by blast
  have "length line \<noteq> lengthNL line"
  proof -
    obtain T where "encode_row comma row @ rest = dquote # T"
      using assms(3) by (cases row rule: remdups_adj.cases) (auto simp: encode_row_def quote_field_def)
    then have "stands b1 line (dquote # T)" using l(2) by simp
    then obtain line' where "line = dquote # line'" "line' \<noteq> []"
      using stands_Cons [of dquote b1 line T] by (auto simp: dquote_def newline_def)
    then show ?thesis by (simp add: lengthNL_def)
  qed
  with l have "next_line b = (line, None, b1)" by (simp add: next_line.simps)
  with parse_encoded [OF l(2) assms(3,4) comma, of "[]"] show ?thesis by (auto simp: csv_Read_def)
qed

section \<open>Progress\<close>

lemma next_line_remaining:
  "next_line b = (line, err, b') \<Longrightarrow> length line + length (remaining b') \<le> length (remaining b) \<and>
     (err = None \<longrightarrow> length (remaining b') < length (remaining b))"
proof (induction b arbitrary: line err b' rule: next_line.induct)
  case (1 b)
  obtain l1 e1 b1 where r: "readLine b = (l1, e1, b1)" by (cases "readLine b")
  note rem = readLine_remaining [OF r]
  show ?case
  proof (cases "e1 = None \<and> length l1 = lengthNL l1")
    case True
    with 1(2) r have "next_line b1 = (line, err, b')" by (simp add: next_line.simps [of b])
    from 1(1) [OF r [symmetric] refl True this] rem True show ?thesis by auto
  next
    case False
    with 1(2) r rem show ?thesis by (auto simp: next_line.simps [of b] split: if_splits)
  qed
qed

lemma parse_remaining:
  "parse_field comma row line err b = (r, e, b') \<Longrightarrow> length (remaining b') \<le> length (remaining b) \<and> (err \<noteq> None \<longrightarrow> e = err)"
  "parse_quoted comma row acc line err b = (r, e, b') \<Longrightarrow> length (remaining b') \<le> length (remaining b) \<and> (err \<noteq> None \<longrightarrow> e = err)"
proof (induction comma row line err b and comma row acc line err b rule: parse_field_parse_quoted.induct)
  case (1 comma row line errRead b)
  then show ?case by (auto simp: parse_field.simps [of comma row line] split: if_splits option.splits)
next
  case (2 comma row acc line errRead b)
  show ?case
  proof (cases "IndexByte line dquote")
    case (Some i)
    with 2(2-4) [OF Some refl refl] 2(5) show ?thesis
      by (auto simp: parse_quoted.simps [of comma row acc line] Let_def split: if_splits)
  next
    case None
    obtain l1 e1 b1 where r: "readLine b = (l1, e1, b1)" by (cases "readLine b")
    show ?thesis
    proof (cases "line \<noteq> [] \<and> errRead = None")
      case False
      with 2(5) None show ?thesis
        by (cases "line = []") (auto simp: parse_quoted.simps [of comma row acc line] parse_quoted.simps [of comma row acc "[]"] simp del: IndexByte_None)
    next
      case True
      then have c: "line \<noteq> []" "\<not> errRead \<noteq> None" by auto
      from 2(1) [OF None c r [symmetric] refl] 2(5) True None r readLine_remaining(1) [OF r] show ?thesis
        by (auto simp: parse_quoted.simps [of comma row acc line] simp del: IndexByte_None)
    qed
  qed
qed

text \<open>A record takes bytes from the reader; so do skipped lines, and nothing gives bytes back.\<close>

lemma csv_Read_progress:
  assumes "csv_Read comma b = (r, b')"
  shows "length (remaining b') \<le> length (remaining b)"
    and "r = Inr row \<Longrightarrow> length (remaining b') < length (remaining b)"
proof -
  obtain l1 e1 b1 where b: "next_line b = (l1, e1, b1)" by (cases "next_line b")
  obtain l2 e2 b2 where b2: "parse_field comma [] l1 e1 b1 = (l2, e2, b2)" by (cases "parse_field comma [] l1 e1 b1")
  note 1 = next_line_remaining [OF b] and 2 = parse_remaining(1) [OF b2]
  show "length (remaining b') \<le> length (remaining b)"
    using assms b b2 1 2 by (auto simp: csv_Read_def split: if_splits option.splits)
  show "length (remaining b') < length (remaining b)" if "r = Inr row"
    using assms b b2 1 2 that by (auto simp: csv_Read_def split: if_splits option.splits)
qed

section \<open>A reader that keeps failing\<close>

text \<open>
  Once the chunks are used up and the ending is an error, every further read fails with it: the
  broken connection, or the size limit once it is passed.
\<close>

definition broken :: "io_err \<Rightarrow> bufio \<Rightarrow> bool" where
  "broken e b \<longleftrightarrow> e \<noteq> EOF \<and> b_buf b = [] \<and> (b_err b = None \<or> b_err b = Some e) \<and> src_chunks (cr_r (b_rd b)) = [] \<and>
     e = (if cr_read (b_rd b) > cr_limit (b_rd b) then ErrTooLarge else src_end (cr_r (b_rd b)))"

lemma broken_ReadSlice:
  assumes "broken e b"
  shows "\<exists>b'. ReadSlice b = ([], Some e, b') \<and> broken e b'"
proof (cases "b_err b")
  case None
  have f: "broken e (fill b)" "b_err (fill b) = Some e" "b_buf (fill b) = []"
    using assms None by (auto simp: broken_def fill_def cap_Read_def source_Read_def Let_def)
  have "ReadSlice b = ReadSlice (fill b)" using assms None by (simp add: ReadSlice.simps [of b] broken_def)
  also have "\<dots> = ([], Some e, fill b\<lparr>b_buf := [], b_err := None\<rparr>)"
    using f by (simp add: ReadSlice.simps [of "fill b"])
  finally show ?thesis using f by (auto simp: broken_def)
next
  case (Some x)
  with assms show ?thesis by (auto simp: ReadSlice.simps [of b] broken_def)
qed

lemma broken_csv_Read:
  assumes "broken e b"
  shows "\<exists>b'. csv_Read comma b = (Inl e, b') \<and> broken e b'"
proof -
  obtain b' where b': "ReadSlice b = ([], Some e, b')" "broken e b'"
    using broken_ReadSlice [OF assms] by blast
  from b'(2) have ne: "e \<noteq> EOF" unfolding broken_def by blast
  with b' have "readLine b = ([], Some e, b')" by (simp add: readLine_def crlf_def Let_def)
  then have "next_line b = ([], Some e, b')" by (simp add: next_line.simps [of b])
  with b' ne show ?thesis by (simp add: csv_Read_def parse_field.simps)
qed

end
