(* ===== verification/Parser.thy ===== *)
theory Parser
  imports Csv Domain
begin

text \<open>
  \<open>internal/parser/parser.go\<close>: the interface of a log format and the registry it is picked from.
  A parser reads from a \<open>bufio.Reader\<close> and hands every entry to \<open>emit\<close>, which threads a state of
  its own; a run that never ends is \<open>None\<close>. \<open>HeadReader\<close> is in \<open>Io\<close>.
\<close>

definition Parsed :: "entry \<Rightarrow> bool" where
  "Parsed e \<longleftrightarrow> e_TS e \<noteq> None \<or> e_ClientIP e \<noteq> []"

record stats =
  LineCount :: int
  ParsedCount :: int

definition no_stats :: stats where
  "no_stats = \<lparr>LineCount = 0, ParsedCount = 0\<rparr>"

type_synonym ('s, 'e) emit = "entry \<Rightarrow> 's \<Rightarrow> 'e option \<times> 's"

type_synonym ('s, 'e) parse_result = "((stats \<times> (io_err + 'e) option) \<times> bufio \<times> 's) option"

record ('s, 'e) parser =
  Key :: string
  Sniff :: "string \<Rightarrow> bool"
  Parse :: "('s \<Rightarrow> time) \<Rightarrow> bufio \<Rightarrow> ('s, 'e) emit \<Rightarrow> 's \<Rightarrow> ('s, 'e) parse_result"

type_synonym ('s, 'e) registry = "('s, 'e) parser list"

definition Register :: "('s, 'e) parser \<Rightarrow> ('s, 'e) registry \<Rightarrow> ('s, 'e) registry" where
  "Register p registry = registry @ [p]"

definition Detect :: "('s, 'e) registry \<Rightarrow> string \<Rightarrow> ('s, 'e) parser option" where
  "Detect registry head = find (\<lambda>p. Sniff p head) registry"

definition ByKey :: "('s, 'e) registry \<Rightarrow> string \<Rightarrow> ('s, 'e) parser option" where
  "ByKey registry key = find (\<lambda>p. Key p = key) registry"

definition Keys :: "('s, 'e) registry \<Rightarrow> string list" where
  "Keys registry = map Key registry"

text \<open>\<open>Normalize\<close>: lower-case letters and digits only.\<close>

definition Normalize :: "string \<Rightarrow> string" where
  "Normalize name = filter (\<lambda>c. is_lower c \<or> is_digit c) (ToLower (TrimSpace name))"

lemma ByKey_Keys: "ByKey registry key = None \<longleftrightarrow> key \<notin> set (Keys registry)"
  by (auto simp: ByKey_def Keys_def find_None_iff)

lemma ByKey_SomeD: "ByKey registry key = Some p \<Longrightarrow> p \<in> set registry \<and> Key p = key"
  by (auto simp: ByKey_def find_Some_iff in_set_conv_nth)

lemma Detect_SomeD: "Detect registry head = Some p \<Longrightarrow> p \<in> set registry \<and> Sniff p head"
  by (auto simp: Detect_def find_Some_iff in_set_conv_nth)

lemma Normalize_idem: "Normalize (Normalize s) = Normalize s"
proof -
  let ?t = "Normalize s"
  have p: "\<forall>c\<in>set ?t. is_lower c \<or> is_digit c" by (auto simp: Normalize_def)
  then have "lower_char c = c" if "c \<in> set ?t" for c
    using that by (auto simp: lower_char_def is_upper_def is_lower_def is_digit_def)
  then have l: "ToLower ?t = ?t" by (simp add: ToLower_def map_idI)
  have "dropWhile is_space u = u" if "set u \<subseteq> set ?t" for u
    using that p by (cases u) (auto simp: is_space_def is_lower_def is_digit_def)
  then have "TrimSpace ?t = ?t" by (simp add: TrimSpace_def trim_by_def)
  with l p show ?thesis by (subst Normalize_def) (simp add: filter_id_conv)
qed

end
