(* ===== verification/Zscaler.thy ===== *)
theory Zscaler
  imports Parser GoConv GoTime
begin

text \<open>
  \<open>internal/parser/zscaler/zscaler.go\<close>: delimited NSS web proxy logs, keyed off the header row.
  The clock is a function of the state \<open>emit\<close> threads, since a timestamp without a year is read
  in the current one.
\<close>

section \<open>The header\<close>

definition fieldAliases :: "(string \<times> string list) list" where
  "fieldAliases =
    [(''ts'', [''datetime'', ''eventtime'', ''time'', ''timestamp'', ''date'', ''logtime'']),
     (''client_ip'', [''clientip'', ''clientinternalip'', ''cip'', ''clientpublicip'', ''srcip'']),
     (''username'', [''login'', ''user'', ''username'', ''userid'']),
     (''host'', [''host'', ''hostname'', ''serverhost'']),
     (''url'', [''url'', ''requesturl'', ''uri'']),
     (''category'', [''urlcategory'', ''urlsupercategory'', ''urlclass'', ''category'']),
     (''action'', [''action'', ''eventaction'', ''policyaction'']),
     (''req_bytes'', [''requestsize'', ''reqsize'', ''sentbytes'', ''bytesout'']),
     (''resp_bytes'', [''responsesize'', ''respsize'', ''receivedbytes'', ''bytesin'']),
     (''user_agent'', [''useragent'', ''useragentheader'', ''ua'']),
     (''threat_name'', [''threatname'', ''malwarename'', ''threat'', ''virusname'']),
     (''resp_code'', [''respcode'', ''statuscode'', ''status'', ''httpstatus'']),
     (''latency_ms'', [''totaltime'', ''requesttime'', ''responsetime'', ''duration'', ''timetaken'']),
     (''method'', [''requestmethod'', ''method'', ''httpmethod'']),
     (''cache_status'', [''cachehit'', ''tcpstatus'', ''cachestatus'', ''cached'']),
     (''reason'', [''reason'', ''statusreason'', ''blockreason'', ''policyreason''])]"

definition detectDelimiter :: "string \<Rightarrow> char" where
  "detectDelimiter line =
     (let best = CHR '',''; bestN = Count line CHR '','';
          (best, bestN) = (if Count line CHR 0x09 > bestN then (CHR 0x09, Count line CHR 0x09) else (best, bestN));
          (best, bestN) = (if Count line CHR ''|'' > bestN then (CHR ''|'', Count line CHR ''|'') else (best, bestN))
      in best)"

text \<open>\<open>Sniff\<close> counts, for every cell of the first line, the fields that know its name.\<close>

definition zscaler_Sniff :: "string \<Rightarrow> bool" where
  "zscaler_Sniff head =
     (case Cut head [newline] of (line, _, _) \<Rightarrow>
        if line = [] then False
        else
          let delim = detectDelimiter line;
              known = sum_list (map (\<lambda>cell. let n = Normalize cell in
                length (filter (\<lambda>(_, aliases). n \<in> set aliases) fieldAliases)) (Split line delim))
          in known \<ge> 2)"

type_synonym columns = "string \<Rightarrow> nat option"

fun first_alias :: "string list \<Rightarrow> string list \<Rightarrow> nat option" where
  "first_alias normalized [] = None"
| "first_alias normalized (alias # aliases) =
     (case index_of alias normalized of Some i \<Rightarrow> Some i | None \<Rightarrow> first_alias normalized aliases)"

definition buildColumnMap :: "string list \<Rightarrow> columns" where
  "buildColumnMap header canonical =
     (let normalized = map Normalize header
      in Option.bind (map_of fieldAliases canonical) (first_alias normalized))"

section \<open>Cells\<close>

definition clean :: "string \<Rightarrow> string" where
  "clean v = (let v = Trim (TrimSpace v) [dquote]
     in if v \<in> {'''', ''-'', ''None'', ''NA'', ''N/A''} then [] else v)"

definition hms :: "layout list" where
  "hms = [Hour24, Lit '':'', Minute2, Lit '':'', Second2]"

definition tsLayouts :: "layout list list" where
  "tsLayouts =
    [[Year4, Lit ''-'', Month2, Lit ''-'', Day2, Lit '' ''] @ hms,
     [Year4, Lit ''-'', Month2, Lit ''-'', Day2, Lit ''T''] @ hms @ [ZoneColon],
     [Year4, Lit ''-'', Month2, Lit ''-'', Day2, Lit ''T''] @ hms @ [Lit ''Z''],
     [Year4, Lit ''-'', Month2, Lit ''-'', Day2, Lit ''T''] @ hms,
     [Year4, Lit ''/'', Month2, Lit ''/'', Day2, Lit '' ''] @ hms,
     [Day2, Lit ''/'', MonthName, Lit ''/'', Year4, Lit '':''] @ hms @ [Lit '' '', ZoneNum],
     [MonthName, Lit '' '', DayPad, Lit '' ''] @ hms,
     layout_RFC3339]"

fun try_layouts :: "time \<Rightarrow> string \<Rightarrow> layout list list \<Rightarrow> time option" where
  "try_layouts now v [] = None"
| "try_layouts now v (layout # ls) =
     (case time_Parse layout v of
        None \<Rightarrow> try_layouts now v ls
      | Some (t, utc) \<Rightarrow> Some (if utc \<and> time_Year t = 0 then add_years (time_Year now) t else t))"

definition parseTS :: "time \<Rightarrow> string \<Rightarrow> time option" where
  "parseTS now v =
     (case ParseInt 64 v of
        Some n \<Rightarrow> Some (time_Unix (if n > 1000000000000 then n div 1000 else n))
      | None \<Rightarrow> try_layouts now v tsLayouts)"

definition parseIP :: "string \<Rightarrow> string" where
  "parseIP v = (case ParseAddr v of None \<Rightarrow> [] | Some a \<Rightarrow> addr_String a)"

definition negative :: "float64 \<Rightarrow> bool" where
  "negative f \<longleftrightarrow> (case f of Finite q \<Rightarrow> q < 0 | NegInf \<Rightarrow> True | _ \<Rightarrow> False)"

definition parseInt64 :: "string \<Rightarrow> int option" where
  "parseInt64 v =
     (if v = [] then None
      else case ParseFloat v of
        None \<Rightarrow> None
      | Some f \<Rightarrow> Some (int64_of (if negative f then Finite 0 else f)))"

definition parseInt :: "string \<Rightarrow> int option" where
  "parseInt v = parseInt64 v"

definition hostFromURL :: "string \<Rightarrow> string" where
  "hostFromURL u =
     (if u = [] then []
      else
        let s = u;
            s = (case Cut s ''://'' of (_, after, found) \<Rightarrow> if found then after else s);
            s = fst (Cut s ''/'');
            s = fst (Cut s '':'')
        in s)"

definition raw_entry :: "int \<Rightarrow> string \<Rightarrow> entry" where
  "raw_entry lineNo raw =
     \<lparr>e_LineNo = lineNo, e_Raw = raw, e_TS = None, e_ClientIP = [], e_Username = [], e_Host = [], e_URL = [],
      e_Category = [], e_Action = [], e_ReqBytes = None, e_RespBytes = None, e_UserAgent = [], e_ThreatName = [],
      e_RespCode = None, e_Method = [], e_LatencyMS = None, e_CacheStatus = [], e_Reason = []\<rparr>"

definition cell :: "columns \<Rightarrow> string list \<Rightarrow> string \<Rightarrow> string" where
  "cell cols row field =
     (case cols field of None \<Rightarrow> [] | Some i \<Rightarrow> if i \<ge> length row then [] else clean (row ! i))"

definition buildEntry :: "time \<Rightarrow> int \<Rightarrow> string list \<Rightarrow> columns \<Rightarrow> char \<Rightarrow> entry" where
  "buildEntry now lineNo row cols delim =
     (let c = cell cols row
      in \<lparr>e_LineNo = lineNo, e_Raw = Join row [delim],
          e_TS = (if c ''ts'' \<noteq> [] then parseTS now (c ''ts'') else None),
          e_ClientIP = (if c ''client_ip'' \<noteq> [] then parseIP (c ''client_ip'') else []),
          e_Username = c ''username'',
          e_Host = (if c ''host'' = [] then hostFromURL (c ''url'') else c ''host''),
          e_URL = c ''url'',
          e_Category = c ''category'', e_Action = c ''action'',
          e_ReqBytes = parseInt64 (c ''req_bytes''), e_RespBytes = parseInt64 (c ''resp_bytes''),
          e_UserAgent = c ''user_agent'', e_ThreatName = c ''threat_name'',
          e_RespCode = parseInt (c ''resp_code''), e_Method = ToUpper (c ''method''),
          e_LatencyMS = parseInt (c ''latency_ms''), e_CacheStatus = c ''cache_status'', e_Reason = c ''reason''\<rparr>)"

section \<open>Parse\<close>

text \<open>
  The loop over the records. Any error but \<open>EOF\<close> is taken for a malformed record, and the loop
  goes on; it may not end.
\<close>

definition count_line :: "stats \<Rightarrow> stats" where
  "count_line st = st\<lparr>LineCount := LineCount st + 1\<rparr>"

definition count_parsed :: "entry \<Rightarrow> stats \<Rightarrow> stats" where
  "count_parsed e st = (if Parsed e then st\<lparr>ParsedCount := ParsedCount st + 1\<rparr> else st)"

partial_function (option) parse_loop ::
    "('s \<Rightarrow> time) \<Rightarrow> ('s, 'e) emit \<Rightarrow> char \<Rightarrow> columns \<Rightarrow> int \<Rightarrow> stats \<Rightarrow> bufio \<Rightarrow> 's \<Rightarrow> ('s, 'e) parse_result" where
  "parse_loop clk emit comma cols lineNo st b s =
     (case csv_Read comma b of
        (Inl e, b') \<Rightarrow>
          if e = EOF then Some ((st, None), b', s)
          else (case emit (raw_entry lineNo []) s of
              (Some err, s') \<Rightarrow> Some ((count_line st, Some (Inr err)), b', s')
            | (None, s') \<Rightarrow> parse_loop clk emit comma cols (lineNo + 1) (count_line st) b' s')
      | (Inr row, b') \<Rightarrow>
          (let e = buildEntry (clk s) lineNo row cols comma;
               st' = count_parsed e (count_line st)
           in case emit e s of
               (Some err, s') \<Rightarrow> Some ((st', Some (Inr err)), b', s')
             | (None, s') \<Rightarrow> parse_loop clk emit comma cols (lineNo + 1) st' b' s'))"

definition zscaler_Parse :: "('s \<Rightarrow> time) \<Rightarrow> bufio \<Rightarrow> ('s, 'e) emit \<Rightarrow> 's \<Rightarrow> ('s, 'e) parse_result" where
  "zscaler_Parse clk b emit s =
     (case HeadReader b 65536 of
        (Inl e, b') \<Rightarrow> Some ((no_stats, Some (Inl e)), b', s)
      | (Inr head, full) \<Rightarrow>
          (let comma = detectDelimiter (fst (Cut head [newline]))
           in case csv_Read comma full of
               (Inl e, b') \<Rightarrow> Some ((no_stats, if e = EOF then None else Some (Inl e)), b', s)
             | (Inr header, b') \<Rightarrow>
                 parse_loop clk emit comma (buildColumnMap header) 2 (count_line no_stats) b' s))"

definition New :: "('s, 'e) parser" where
  "New = \<lparr>Key = ''zscaler_nss'', Sniff = zscaler_Sniff, Parse = zscaler_Parse\<rparr>"

definition registry :: "('s, 'e) registry" where
  "registry = Register New []"

section \<open>The records of a file\<close>

text \<open>
  The reference the loop is compared with: the records of the reader as a list, up to the first
  error, and a fold of \<open>emit\<close> over it.
\<close>

function (sequential) csv_records :: "char \<Rightarrow> bufio \<Rightarrow> string list list" where
  "csv_records comma b = (case csv_Read comma b of (Inl _, _) \<Rightarrow> [] | (Inr row, b') \<Rightarrow> row # csv_records comma b')"
  by pat_completeness auto

termination
  by (relation "measure (\<lambda>(_, b). length (remaining b))") (auto dest: csv_Read_progress(2) [OF sym])

declare csv_records.simps [simp del]

fun emit_rows :: "('s \<Rightarrow> time) \<Rightarrow> ('s, 'e) emit \<Rightarrow> char \<Rightarrow> columns \<Rightarrow> int \<Rightarrow> stats \<Rightarrow> string list list \<Rightarrow> 's \<Rightarrow>
    (stats \<times> (io_err + 'e) option) \<times> 's" where
  "emit_rows clk emit comma cols n st [] s = ((st, None), s)"
| "emit_rows clk emit comma cols n st (row # rows) s =
     (let e = buildEntry (clk s) n row cols comma; st' = count_parsed e (count_line st)
      in case emit e s of
          (Some err, s') \<Rightarrow> ((st', Some (Inr err)), s')
        | (None, s') \<Rightarrow> emit_rows clk emit comma cols (n + 1) st' rows s')"

lemma alike_refl: "good b \<Longrightarrow> alike b b"
  by (simp add: alike_def)

lemma good_csv_Read:
  assumes "good b" "csv_Read comma b = (r, b')"
  shows "(r = Inl EOF \<or> (\<exists>row. r = Inr row)) \<and> good b'"
  using csv_Read_alike [OF alike_refl [OF assms(1)] assms(2) assms(2)] by (auto simp: alike_def)

lemma parse_loop_good:
  assumes "good b"
  shows "\<exists>b'. parse_loop clk emit comma cols n st b s =
    (case emit_rows clk emit comma cols n st (csv_records comma b) s of (r, s') \<Rightarrow> Some (r, b', s'))"
  using assms
proof (induction comma b arbitrary: n st s rule: csv_records.induct)
  case (1 comma b)
  obtain r b1 where r: "csv_Read comma b = (r, b1)" by (cases "csv_Read comma b")
  from good_csv_Read [OF 1(2) r] have g: "good b1" by simp
  from good_csv_Read [OF 1(2) r] consider "r = Inl EOF" | row where "r = Inr row" by auto
  then show ?case
  proof cases
    case 1
    with r show ?thesis by (simp add: parse_loop.simps csv_records.simps [of comma b])
  next
    case 2
    let ?e = "buildEntry (clk s) n row cols comma" and ?st = "count_parsed (buildEntry (clk s) n row cols comma) (count_line st)"
    show ?thesis
    proof (cases "emit ?e s")
      case (Pair err s')
      with r 2 1(1) [OF r [symmetric, unfolded 2] refl g, of "n + 1" ?st s'] show ?thesis
        by (cases err) (auto simp: parse_loop.simps [of clk emit comma cols n st b s] csv_records.simps [of comma b] Let_def)
    qed
  qed
qed

lemma csv_records_alike: "alike b c \<Longrightarrow> csv_records comma b = csv_records comma c"
proof (induction comma b arbitrary: c rule: csv_records.induct)
  case (1 comma b)
  obtain r b1 where b: "csv_Read comma b = (r, b1)" by (cases "csv_Read comma b")
  obtain q c1 where c: "csv_Read comma c = (q, c1)" by (cases "csv_Read comma c")
  from csv_Read_alike [OF 1(2) b c] b c 1(1) [of r b1 _ c1] show ?case
    by (auto simp: csv_records.simps [of comma b] csv_records.simps [of comma c])
qed

section \<open>The parser as a function of the bytes\<close>

lemma good_Peek:
  assumes "good b"
  shows "\<exists>e b'. Peek n b = (take n (remaining b), e, b') \<and> (e = None \<or> e = Some EOF) \<and> alike b b'"
  using assms
proof (induction n b rule: Peek.induct)
  case (1 n b)
  show ?case
  proof (cases "length (b_buf b) \<ge> n")
    case True
    then have "take n (remaining b) = take n (b_buf b)" by (simp add: remaining_def)
    with True 1(2) show ?thesis by (simp add: Peek.simps [of n b] alike_refl)
  next
    case False
    show ?thesis
    proof (cases "b_err b")
      case None
      with good_fill [OF 1(2)] have g: "good (fill b)" by blast
      from 1(1) [OF False None g] obtain e b' where
        "Peek n (fill b) = (take n (remaining b), e, b')" "e = None \<or> e = Some EOF" "alike (fill b) b'" by auto
      with False None 1(2) g show ?thesis by (auto simp: Peek.simps [of n b] alike_def)
    next
      case (Some e)
      with 1(2) have e: "e = EOF" "remaining b = b_buf b" by (auto simp: good_def remaining_def source_bytes_def)
      moreover have "alike b (b\<lparr>b_err := None\<rparr>)"
        using 1(2) by (auto simp: alike_def good_def remaining_def)
      ultimately show ?thesis using False Some by (simp add: Peek.simps [of n b])
    qed
  qed
qed

text \<open>A reader that holds its whole input already.\<close>

definition reader_of :: "string \<Rightarrow> bufio" where
  "reader_of s = \<lparr>b_buf = s, b_err = None,
     b_rd = \<lparr>cr_r = \<lparr>src_chunks = [], src_end = EOF\<rparr>, cr_limit = 0, cr_read = 0\<rparr>\<rparr>"

lemma alike_reader_of: "good b \<Longrightarrow> alike b (reader_of (remaining b))"
  by (simp add: alike_def good_def reader_of_def remaining_def [of "\<lparr>b_buf = _, b_err = _, b_rd = _\<rparr>"] source_bytes_def good_source_def)

definition delimiter :: "string \<Rightarrow> char" where
  "delimiter file = detectDelimiter (fst (Cut (take 65536 file) [newline]))"

definition parse_file :: "('s \<Rightarrow> time) \<Rightarrow> ('s, 'e) emit \<Rightarrow> string \<Rightarrow> 's \<Rightarrow> (stats \<times> (io_err + 'e) option) \<times> 's" where
  "parse_file clk emit file s =
     (case csv_records (delimiter file) (reader_of file) of
        [] \<Rightarrow> ((no_stats, None), s)
      | header # rows \<Rightarrow>
          emit_rows clk emit (delimiter file) (buildColumnMap header) 2 (count_line no_stats) rows s)"

lemma Parse_good:
  assumes "good b"
  shows "\<exists>b'. zscaler_Parse clk b emit s = (case parse_file clk emit (remaining b) s of (r, s') \<Rightarrow> Some (r, b', s'))"
proof -
  obtain e b0 where p: "Peek 65536 b = (take 65536 (remaining b), e, b0)" "e = None \<or> e = Some EOF" "alike b b0"
    using good_Peek [OF assms] by blast
  then have h: "HeadReader b 65536 = (Inr (take 65536 (remaining b)), b0)" by (auto simp: HeadReader_def)
  have b0: "good b0" "remaining b0 = remaining b" using p(3) by (auto simp: alike_def)
  let ?c = "delimiter (remaining b)"
  obtain r b1 where r: "csv_Read ?c b0 = (r, b1)" by (cases "csv_Read ?c b0")
  note g = good_csv_Read [OF b0(1) r]
  have recs: "csv_records ?c (reader_of (remaining b)) = csv_records ?c b0"
    using alike_reader_of [OF b0(1)] by (simp add: b0(2) csv_records_alike [symmetric])
  from g consider "r = Inl EOF" | row where "r = Inr row" by auto
  then show ?thesis
  proof cases
    case 1
    with h r show ?thesis
      by (simp add: zscaler_Parse_def parse_file_def recs [unfolded delimiter_def] csv_records.simps [of _ b0] delimiter_def)
  next
    case 2
    with h r g parse_loop_good [of b1 clk emit ?c "buildColumnMap row" 2 "count_line no_stats" s] show ?thesis
      by (simp add: zscaler_Parse_def parse_file_def recs [unfolded delimiter_def] csv_records.simps [of _ b0] delimiter_def)
  qed
qed

section \<open>Files that were exported in quoted form\<close>

lemma csv_records_encoded:
  assumes "good b" "remaining b = concat (map (encode_row comma) rows)"
    and "\<forall>row\<in>set rows. row \<noteq> [] \<and> (\<forall>f\<in>set row. carriage \<notin> set f)"
    and "comma \<noteq> dquote" "comma \<noteq> newline" "comma \<noteq> carriage"
  shows "csv_records comma b = rows"
  using assms(1-3)
proof (induction rows arbitrary: b)
  case Nil
  then have "remaining b = []" by simp
  have "\<exists>b'. csv_Read comma b = (Inl EOF, b')"
  proof -
    obtain r b' where r: "csv_Read comma b = (r, b')" by (cases "csv_Read comma b")
    with csv_Read_progress(2) [OF r] good_csv_Read [OF Nil(1) r] \<open>remaining b = []\<close> show ?thesis by auto
  qed
  then show ?case by (auto simp: csv_records.simps [of comma b])
next
  case (Cons row rows)
  then obtain b' where "csv_Read comma b = (Inr row, b')" "good b'" "remaining b' = concat (map (encode_row comma) rows)"
    using csv_Read_encoded [OF Cons(2), of comma row] assms(4-6) by auto
  with Cons show ?case by (simp add: csv_records.simps [of comma b])
qed

text \<open>The emit of a test: it only collects.\<close>

definition collect :: "(entry list, 'e) emit" where
  "collect e es = (None, es @ [e])"

lemma emit_rows_collect:
  "emit_rows (\<lambda>_. now) collect comma cols n st rows es =
     ((st\<lparr>LineCount := LineCount st + int (length rows),
         ParsedCount := ParsedCount st + int (length (filter Parsed
            (map (\<lambda>(i, row). buildEntry now (n + int i) row cols comma) (List.enumerate 0 rows))))\<rparr>, None),
      es @ map (\<lambda>(i, row). buildEntry now (n + int i) row cols comma) (List.enumerate 0 rows))"
proof (induction rows arbitrary: n st es)
  case (Cons row rows)
  have shift: "map (\<lambda>(i, row). buildEntry now (n + int i) row cols comma) (List.enumerate (Suc 0) rows) =
    map (\<lambda>(i, row). buildEntry now (n + 1 + int i) row cols comma) (List.enumerate 0 rows)"
    by (simp add: enumerate_Suc_eq o_def split_beta algebra_simps)
  have step: "emit_rows (\<lambda>_. now) collect comma cols n st (row # rows) es =
    emit_rows (\<lambda>_. now) collect comma cols (n + 1) (count_parsed (buildEntry now n row cols comma) (count_line st)) rows
      (es @ [buildEntry now n row cols comma])"
    by (simp add: Let_def collect_def [of "buildEntry now n row cols comma" es])
  show ?case
    unfolding step Cons.IH by (simp add: count_parsed_def count_line_def shift)
qed simp

lemma detectDelimiter_cases: "detectDelimiter line \<in> {CHR '','', CHR 0x09, CHR ''|''}"
  by (simp add: detectDelimiter_def Let_def)

lemma delimiter_plain: "delimiter file \<noteq> dquote" "delimiter file \<noteq> newline" "delimiter file \<noteq> carriage"
  using detectDelimiter_cases [of "fst (Cut (take 65536 file) [newline])"]
  by (auto simp: delimiter_def dquote_def newline_def carriage_def)

lemma parse_file_collect:
  "csv_records (delimiter file) (reader_of file) = header # rows \<Longrightarrow>
   parse_file (\<lambda>_. now) (collect :: (entry list, 'e) emit) file es =
     (let new = map (\<lambda>(i, row). buildEntry now (2 + int i) row (buildColumnMap header) (delimiter file)) (List.enumerate 0 rows)
      in ((\<lparr>LineCount = 1 + int (length rows), ParsedCount = int (length (filter Parsed new))\<rparr>, None), es @ new))"
  by (simp add: parse_file_def emit_rows_collect count_line_def no_stats_def Let_def)

section \<open>A reader that never ends well\<close>

text \<open>
  The source delivers its chunks, but its ending is a broken connection, or its bytes pass the
  limit. No read of it ever returns \<open>EOF\<close>.
\<close>

definition doomed :: "bufio \<Rightarrow> bool" where
  "doomed b \<longleftrightarrow> (\<forall>(p, e)\<in>set (src_chunks (cr_r (b_rd b))). e = None) \<and> b_err b \<noteq> Some EOF \<and>
     (src_end (cr_r (b_rd b)) \<noteq> EOF \<or>
      cr_read (b_rd b) + int (length (source_bytes (cr_r (b_rd b)))) > cr_limit (b_rd b))"

lemma doomed_fill: "doomed b \<Longrightarrow> doomed (fill b)"
  by (cases "src_chunks (cr_r (b_rd b))")
    (auto simp: doomed_def fill_def cap_Read_def source_Read_def Let_def source_bytes_def split: prod.splits)

lemma doomed_Peek: "doomed b \<Longrightarrow> Peek n b = (l, e, b') \<Longrightarrow> doomed b'"
proof (induction n b rule: Peek.induct)
  case (1 n b)
  show ?case
  proof (cases "length (b_buf b) \<ge> n")
    case True
    with 1(2,3) show ?thesis by (simp add: Peek.simps [of n b])
  next
    case False
    show ?thesis
    proof (cases "b_err b")
      case None
      with False 1(3) have "Peek n (fill b) = (l, e, b')" by (simp add: Peek.simps [of n b])
      from 1(1) [OF False None doomed_fill [OF 1(2)] this] show ?thesis .
    next
      case (Some x)
      with False 1(2,3) show ?thesis by (auto simp: Peek.simps [of n b] doomed_def)
    qed
  qed
qed

lemma doomed_ReadSlice: "doomed b \<Longrightarrow> ReadSlice b = (l, e, b') \<Longrightarrow> e \<noteq> Some EOF \<and> doomed b'"
proof (induction b rule: ReadSlice.induct)
  case (1 b)
  show ?case
  proof (cases "IndexByte (b_buf b) CHR 0x0A")
    case (Some i)
    with 1(2,3) show ?thesis by (auto simp: ReadSlice.simps [of b] doomed_def)
  next
    case None
    show ?thesis
    proof (cases "b_err b")
      case n: None
      with None 1(3) have "ReadSlice (fill b) = (l, e, b')"
        by (simp add: ReadSlice.simps [of b] del: IndexByte_None)
      from 1(1) [OF None n doomed_fill [OF 1(2)] this] show ?thesis .
    next
      case (Some x)
      with None 1(2,3) show ?thesis by (auto simp: ReadSlice.simps [of b] doomed_def simp del: IndexByte_None)
    qed
  qed
qed

lemma doomed_readLine: "doomed b \<Longrightarrow> readLine b = (l, e, b') \<Longrightarrow> e \<noteq> Some EOF \<and> doomed b'"
  by (cases "ReadSlice b") (auto simp: readLine_def Let_def dest: doomed_ReadSlice split: if_splits)

lemma doomed_next_line: "doomed b \<Longrightarrow> next_line b = (l, e, b') \<Longrightarrow> e \<noteq> Some EOF \<and> doomed b'"
proof (induction b rule: next_line.induct)
  case (1 b)
  obtain l1 e1 b1 where r: "readLine b = (l1, e1, b1)" by (cases "readLine b")
  show ?case
  proof (cases "e1 = None \<and> length l1 = lengthNL l1")
    case True
    with 1(3) r have "next_line b1 = (l, e, b')" by (simp add: next_line.simps [of b])
    from 1(1) [OF r [symmetric] refl True _ this] doomed_readLine [OF 1(2) r] show ?thesis by blast
  next
    case False
    with 1(3) r doomed_readLine [OF 1(2) r] show ?thesis by (auto simp: next_line.simps [of b] split: if_splits)
  qed
qed

lemma doomed_parse:
  "doomed b \<Longrightarrow> err \<noteq> Some EOF \<Longrightarrow> parse_field comma row line err b = (r, e, b') \<Longrightarrow> e \<noteq> Some EOF \<and> doomed b'"
  "doomed b \<Longrightarrow> err \<noteq> Some EOF \<Longrightarrow> parse_quoted comma row acc line err b = (r, e, b') \<Longrightarrow> e \<noteq> Some EOF \<and> doomed b'"
proof (induction comma row line err b and comma row acc line err b rule: parse_field_parse_quoted.induct)
  case (1 comma row line errRead b)
  then show ?case by (auto simp: parse_field.simps [of comma row line] split: if_splits option.splits)
next
  case (2 comma row acc line errRead b)
  show ?case
  proof (cases "IndexByte line dquote")
    case (Some i)
    with 2(2-4) [OF Some refl refl] 2(5-) show ?thesis
      by (auto simp: parse_quoted.simps [of comma row acc line] Let_def split: if_splits)
  next
    case None
    obtain l1 e1 b1 where r: "readLine b = (l1, e1, b1)" by (cases "readLine b")
    show ?thesis
    proof (cases "line \<noteq> [] \<and> errRead = None")
      case False
      with 2(5-) None show ?thesis
        by (cases "line = []") (auto simp: parse_quoted.simps [of comma row acc line] parse_quoted.simps [of comma row acc "[]"] simp del: IndexByte_None)
    next
      case True
      then have c: "line \<noteq> []" "\<not> errRead \<noteq> None" by auto
      from 2(1) [OF None c r [symmetric] refl] 2(5-) True None r doomed_readLine [OF 2(5) r] show ?thesis
        by (auto simp: parse_quoted.simps [of comma row acc line] simp del: IndexByte_None)
    qed
  qed
qed

lemma doomed_csv_Read:
  assumes "doomed b" "csv_Read comma b = (r, b')"
  shows "r \<noteq> Inl EOF \<and> doomed b'"
proof -
  obtain l1 e1 b1 where b: "next_line b = (l1, e1, b1)" by (cases "next_line b")
  obtain l2 e2 b2 where b2: "parse_field comma [] l1 e1 b1 = (l2, e2, b2)" by (cases "parse_field comma [] l1 e1 b1")
  from doomed_next_line [OF assms(1) b] have "e1 \<noteq> Some EOF" "doomed b1" by auto
  moreover from doomed_parse(1) [OF this(2,1) b2] have "e2 \<noteq> Some EOF" "doomed b2" by auto
  ultimately show ?thesis using assms(2) b b2 by (auto simp: csv_Read_def split: if_splits option.splits)
qed

lemma doomed_parse_loop:
  assumes "\<And>e s. fst (emit e s) = None" and "doomed b"
  shows "parse_loop clk emit comma cols n st b s = None"
proof -
  have "parse_loop clk emit comma cols n st b s = Some r \<Longrightarrow> (\<forall>e s. fst (emit e s) = None) \<longrightarrow> \<not> doomed b" for r
  proof (induction rule: parse_loop.raw_induct [rotated, consumes 1, case_names step])
    case (step parse_loop clk emit comma cols n st b s r)
    show ?case
    proof (intro impI notI)
      assume e: "\<forall>e s. fst (emit e s) = None" and d: "doomed b"
      obtain q b' where q: "csv_Read comma b = (q, b')" by (cases "csv_Read comma b")
      from doomed_csv_Read [OF d q] have d': "q \<noteq> Inl EOF" "doomed b'" by auto
      show False
      proof (cases q)
        case (Inl x)
        obtain s' where "emit (raw_entry n []) s = (None, s')"
          using e by (metis surjective_pairing)
        with step(2) q Inl d' step(1) e show False by auto
      next
        case (Inr row)
        let ?e = "buildEntry (clk s) n row cols comma"
        obtain s' where "emit ?e s = (None, s')" using e by (metis surjective_pairing)
        with step(2) q Inr d' step(1) e show False by (auto simp: Let_def)
      qed
    qed
  qed
  with assms show ?thesis by (cases "parse_loop clk emit comma cols n st b s") auto
qed

section \<open>What the parser promises\<close>

text \<open>
  Claim C20: on every body that ends well under the size limit the parser returns,
  for every \<open>emit\<close>; and what it returns and what it emits are a function of the bytes of the
  body, not of the way the connection cuts them into chunks.
\<close>

theorem Parse_terminates:
  fixes emit :: "('s, 'e) emit"
  assumes "good b" "good c" "remaining b = remaining c"
  shows "\<exists>r b' c' s'. zscaler_Parse clk b emit s = Some (r, b', s') \<and>
    zscaler_Parse clk c emit s = Some (r, c', s') \<and> (r, s') = parse_file clk emit (remaining b) s"
  using Parse_good [OF assms(1), of clk emit s] Parse_good [OF assms(2), of clk emit s] assms(3)
  by (cases "parse_file clk emit (remaining b) s") auto

definition sample_reader :: "string list \<Rightarrow> bufio" where
  "sample_reader chunks = NewReader \<lparr>cr_r = \<lparr>src_chunks = map (\<lambda>p. (p, None)) chunks, src_end = EOF\<rparr>,
     cr_limit = 1000, cr_read = 0\<rparr>"

lemma sample_reader_good: "length (concat chunks) \<le> 1000 \<Longrightarrow> good (sample_reader chunks)"
  by (auto simp: sample_reader_def NewReader_def good_def good_source_def source_bytes_def o_def)

lemma sample_reader_remaining [simp]: "remaining (sample_reader chunks) = concat chunks"
  by (simp add: sample_reader_def NewReader_def remaining_def source_bytes_def o_def)

theorem Parse_terminates_witness:
  "\<exists>r b' c' s'. zscaler_Parse (\<lambda>_. 0) (sample_reader [''time,c'', ''ip\<newline>1,2\<newline>'']) (collect :: (entry list, unit) emit) [] = Some (r, b', s') \<and>
    zscaler_Parse (\<lambda>_. 0) (sample_reader [''time,cip\<newline>1'', '',2\<newline>'']) collect [] = Some (r, c', s') \<and>
    (r, s') = parse_file (\<lambda>_. 0) collect (remaining (sample_reader [''time,c'', ''ip\<newline>1,2\<newline>''])) []"
  by (rule Parse_terminates) (simp_all add: sample_reader_good)

text \<open>
  Claim C21: no record is dropped. Each record after the header becomes exactly one
  entry, in the order of the file and numbered from 2; \<open>LineCount\<close> counts them and the header,
  \<open>ParsedCount\<close> those with a time or an address.
\<close>

theorem Parse_every_record:
  assumes "good b" and "zscaler_Parse (\<lambda>_. now) b (collect :: (entry list, 'e) emit) [] = Some ((st, err), b', es)"
  shows "err = None \<and> map e_LineNo es = map (\<lambda>i. 2 + int i) [0..<length es] \<and>
    ParsedCount st = int (length (filter Parsed es)) \<and>
    (case csv_records (delimiter (remaining b)) (reader_of (remaining b)) of
       [] \<Rightarrow> LineCount st = 0 \<and> es = []
     | header # rows \<Rightarrow> LineCount st = 1 + int (length rows) \<and> length es = length rows \<and>
         (\<forall>i < length rows. es ! i = buildEntry now (2 + int i) (rows ! i) (buildColumnMap header) (delimiter (remaining b))))"
proof -
  have pf: "((st, err), es) = parse_file (\<lambda>_. now) (collect :: (entry list, 'e) emit) (remaining b) []"
    using Parse_good [OF assms(1), of "\<lambda>_. now" "collect :: (entry list, 'e) emit" "[]"] assms(2)
    by (cases "parse_file (\<lambda>_. now) (collect :: (entry list, 'e) emit) (remaining b) []") auto
  show ?thesis
  proof (cases "csv_records (delimiter (remaining b)) (reader_of (remaining b))")
    case Nil
    with pf show ?thesis by (simp add: parse_file_def no_stats_def)
  next
    case (Cons header rows)
    have no: "e_LineNo (buildEntry now n row cols d) = n" for n row cols d
      by (simp add: buildEntry_def Let_def)
    from pf parse_file_collect [OF Cons, of now "[]", where 'e = 'e] Cons show ?thesis
      by (auto simp: Let_def no enumerate_eq_zip nth_enumerate_eq intro!: nth_equalityI)
  qed
qed

theorem Parse_every_record_witness:
  "\<exists>st b' es. zscaler_Parse (\<lambda>_. 0) (sample_reader [''time,cip\<newline>1,2\<newline>'']) (collect :: (entry list, unit) emit) [] =
      Some ((st, None), b', es) \<and> map e_LineNo es = map (\<lambda>i. 2 + int i) [0..<length es]"
proof -
  have g: "good (sample_reader [''time,cip\<newline>1,2\<newline>''])" by (simp add: sample_reader_good)
  obtain st err es where p: "parse_file (\<lambda>_. 0) (collect :: (entry list, unit) emit) (remaining (sample_reader [''time,cip\<newline>1,2\<newline>''])) [] = ((st, err), es)"
    by (metis surj_pair)
  with Parse_good [OF g, of "\<lambda>_. 0" "collect :: (entry list, unit) emit" "[]"] obtain b' where
    r: "zscaler_Parse (\<lambda>_. 0) (sample_reader [''time,cip\<newline>1,2\<newline>'']) (collect :: (entry list, unit) emit) [] = Some ((st, err), b', es)"
    by auto
  from Parse_every_record [OF g r] r show ?thesis by blast
qed

text \<open>
  Claim C23: a file written in quoted form is read back cell by cell, whatever separators,
  quotes and line feeds its cells hold: every entry is built from the cells that were written. Two
  things are asked of the file: no cell holds a carriage return, since the reader
  turns one in front of a line feed into the line feed alone, inside quotes as well, and the separator the
  cells are written with is the one the parser detects in the first line.
\<close>

theorem Parse_quoted_export:
  assumes "good b" and "remaining b = concat (map (encode_row comma) (header # rows))"
    and "delimiter (remaining b) = comma"
    and "\<forall>row\<in>set (header # rows). row \<noteq> [] \<and> (\<forall>f\<in>set row. carriage \<notin> set f)"
  shows "\<exists>st b'. zscaler_Parse (\<lambda>_. now) b (collect :: (entry list, 'e) emit) [] =
    Some ((st, None), b', map (\<lambda>(i, row). buildEntry now (2 + int i) row (buildColumnMap header) comma) (List.enumerate 0 rows))"
proof -
  have "csv_records comma (reader_of (remaining b)) = header # rows"
    using csv_records_encoded [OF assms(1,2,4)] delimiter_plain [of "remaining b"]
      csv_records_alike [OF alike_reader_of [OF assms(1)], of comma] by (simp add: assms(3))
  then have "csv_records (delimiter (remaining b)) (reader_of (remaining b)) = header # rows" by (simp add: assms(3))
  from parse_file_collect [OF this, of now "[]"] assms(3)
  obtain st where "parse_file (\<lambda>_. now) (collect :: (entry list, 'e) emit) (remaining b) [] = ((st, None),
      map (\<lambda>(i, row). buildEntry now (2 + int i) row (buildColumnMap header) comma) (List.enumerate 0 rows))"
    by (auto simp: Let_def)
  with Parse_good [OF assms(1), of "\<lambda>_. now" "collect :: (entry list, 'e) emit" "[]"]
  show ?thesis by auto
qed

theorem Parse_quoted_export_witness:
  "\<exists>st b'. zscaler_Parse (\<lambda>_. 0) (sample_reader [concat (map (encode_row CHR '','') [[''time'', ''ua''], [''1'', ''a,\<newline>'' @ [dquote]]])])
      (collect :: (entry list, unit) emit) [] =
    Some ((st, None), b', map (\<lambda>(i, row). buildEntry 0 (2 + int i) row (buildColumnMap [''time'', ''ua'']) CHR '','')
      (List.enumerate 0 [[''1'', ''a,\<newline>'' @ [dquote]]]))"
  by (rule Parse_quoted_export)
    (simp_all add: sample_reader_good encode_row_def quote_field_def ReplaceAll_def delimiter_def detectDelimiter_def
      Count_def newline_def dquote_def carriage_def)

text \<open>
  Claim C22: the loop takes every read error for a malformed record. When the connection
  breaks, or the body passes the size limit, after the header has been read, no later read
  returns \<open>EOF\<close>: the parser emits empty entries for ever and returns only if \<open>emit\<close> fails.
\<close>

theorem Parse_hangs:
  assumes "doomed b" and "HeadReader b 65536 = (Inr head, full)"
    and "csv_Read (detectDelimiter (fst (Cut head [newline]))) full = (Inr header, b')"
    and "\<forall>e s. fst (emit e s) = None"
  shows "zscaler_Parse clk b emit s = None"
proof -
  have "doomed full"
    using assms(2) doomed_Peek [OF assms(1)] by (auto simp: HeadReader_def split: prod.splits option.splits io_err.splits)
  from doomed_csv_Read [OF this assms(3)] have "doomed b'" by simp
  from doomed_parse_loop [OF _ this, of emit] assms(4)
  show ?thesis by (simp add: zscaler_Parse_def assms(2,3) Let_def)
qed

text \<open>A body longer than the head the format is sniffed from, on a connection that breaks after it.\<close>

definition sample_body :: string where
  "sample_body = ''a,b\<newline>'' @ replicate 65600 CHR ''x''"

definition sample_broken :: "string \<Rightarrow> bufio" where
  "sample_broken buf = \<lparr>b_buf = buf, b_err = None, b_rd = \<lparr>cr_r = \<lparr>src_chunks = (if buf = [] then [(sample_body, None)] else []),
     src_end = ErrConnection\<rparr>, cr_limit = 100000, cr_read = (if buf = [] then 0 else 65604)\<rparr>\<rparr>"

lemma sample_broken_fill: "fill (sample_broken []) = sample_broken sample_body"
  by (simp add: fill_def cap_Read_def source_Read_def sample_broken_def Let_def) (simp add: sample_body_def)

theorem Parse_hangs_witness:
  "zscaler_Parse (\<lambda>_. 0) (sample_broken []) (\<lambda>e n :: nat. (None :: unit option, Suc n)) 0 = None"
proof (rule Parse_hangs)
  have len: "length sample_body = 65604" by (simp add: sample_body_def)
  have full: "b_buf (sample_broken sample_body) = sample_body" by (simp add: sample_broken_def)
  show "doomed (sample_broken [])" by (simp add: doomed_def sample_broken_def)
  have "Peek 65536 (sample_broken []) = Peek 65536 (sample_broken sample_body)"
  proof -
    have "b_buf (sample_broken []) = []" "b_err (sample_broken []) = None" by (simp_all add: sample_broken_def)
    then show ?thesis by (simp add: Peek.simps [of _ "sample_broken []"] sample_broken_fill)
  qed
  also have "\<dots> = (take 65536 sample_body, None, sample_broken sample_body)"
    by (simp add: Peek.simps [of _ "sample_broken sample_body"] full len)
  finally show "HeadReader (sample_broken []) 65536 = (Inr (take 65536 sample_body), sample_broken sample_body)"
    by (simp add: HeadReader_def)
  have "Cut (take 65536 sample_body) [newline] = (''a,b'', replicate 65532 CHR ''x'', True)"
    by (simp add: sample_body_def newline_def)
  then have d: "detectDelimiter (fst (Cut (take 65536 sample_body) [newline])) = CHR '',''"
    by (simp add: detectDelimiter_def Count_def)
  have "IndexByte sample_body CHR 0x0A = Some 3" by (simp add: sample_body_def)
  then have "ReadSlice (sample_broken sample_body) =
      (''a,b\<newline>'', None, (sample_broken sample_body)\<lparr>b_buf := replicate 65600 CHR ''x''\<rparr>)"
    by (simp add: ReadSlice.simps [of "sample_broken sample_body"] full) (simp add: sample_body_def)
  then show "csv_Read (detectDelimiter (fst (Cut (take 65536 sample_body) [newline]))) (sample_broken sample_body) =
      (Inr [''a'', ''b''], (sample_broken sample_body)\<lparr>b_buf := replicate 65600 CHR ''x''\<rparr>)"
    unfolding d
    by (simp add: csv_Read_def next_line.simps [of "sample_broken sample_body"] readLine_def crlf_def Let_def lengthNL_def
        newline_def carriage_def parse_field.simps dquote_def)
qed simp

end
