(* ===== verification/Handlers_Uploads.thy ===== *)
theory Handlers_Uploads
  imports Handlers_Analyses Store_Ingest Zscaler Blob
begin

text \<open>
  \<open>internal/handlers/uploads.go\<close>: the streaming ingest and the deletion of an upload.

  The pipe, the tee and the two goroutines of \<open>ingest\<close> hand the bytes the parser reads to the
  archive as well. The model has the sequential view: the object put into the archive is what
  was read, and \<open>Put\<close> ends where the handler waits for it. A parse may not end, so an ingest is a
  function to an option.
\<close>

section \<open>The form\<close>

definition allowedSuffixes :: "string list" where
  "allowedSuffixes = [''.log'', ''.txt'', ''.csv'', ''.tsv'']"

definition hasAllowedSuffix :: "string \<Rightarrow> bool" where
  "hasAllowedSuffix name = (let lower = ToLower name in list_ex (HasSuffix lower) allowedSuffixes)"

text \<open>\<open>io.ReadAll\<close> returns what came before an error.\<close>

fun ReadAll :: "(string \<times> io_err option) list \<Rightarrow> string" where
  "ReadAll [] = []"
| "ReadAll ((p, e) # cs) = p @ (if e = None then ReadAll cs else [])"

definition readSmallField :: "form_part \<Rightarrow> string" where
  "readSmallField part = TrimSpace (take 1024 (ReadAll (src_chunks (p_Content part))))"

text \<open>\<open>fmt.Sscanf(s, "%d", &n)\<close>: what does not scan leaves \<open>n\<close> as it was.\<close>

definition Sscanf_d :: "string \<Rightarrow> int \<Rightarrow> int" where
  "Sscanf_d s n =
     (let u = dropWhile is_space s;
          sign = (if u \<noteq> [] \<and> (hd u = CHR ''+'' \<or> hd u = CHR ''-'') then [hd u] else []);
          ds = takeWhile is_digit (drop (length sign) u)
      in case ParseInt 64 (sign @ ds) of None \<Rightarrow> n | Some k \<Rightarrow> k)"

section \<open>Ingest\<close>

datatype ingest_err = TooLarge | EmptyFile | UnsupportedFormat | ReadFailed io_err | StoreFailed store_err | ArchiveFailed

record ingest_result =
  ir_upload :: upload
  ir_entries :: nat

definition copyBatch :: nat where "copyBatch = 5000"

text \<open>The variables \<open>flush\<close> and the callback of \<open>Parse\<close> share, and the world they change.\<close>

record ingest_state =
  is_world :: world
  is_tx :: tx
  is_pending :: "entry list"
  is_minTS :: "time option"
  is_maxTS :: "time option"
  is_copied :: nat

definition flush :: "ingest_batch \<Rightarrow> ingest_state \<Rightarrow> store_err option \<times> ingest_state" where
  "flush batch s =
     (if is_pending s = [] then (None, s)
      else case run_state (EnsurePartitions (is_tx s) (is_minTS s) (is_maxTS s)) (is_world s) of
          (Inl e, w) \<Rightarrow> (Some e, s\<lparr>is_world := w\<rparr>)
        | (Inr (_, t), w) \<Rightarrow>
            (case run_state (CopyEntries t batch (is_pending s)) w of
               (Inl e, w) \<Rightarrow> (Some e, s\<lparr>is_world := w\<rparr>)
             | (Inr (n, t), w) \<Rightarrow> (None, s\<lparr>is_world := w, is_tx := t, is_pending := [], is_copied := is_copied s + n\<rparr>)))"

definition track :: "entry \<Rightarrow> ingest_state \<Rightarrow> ingest_state" where
  "track e s = (case e_TS e of
       None \<Rightarrow> s
     | Some t \<Rightarrow> s\<lparr>is_minTS := (case is_minTS s of None \<Rightarrow> Some t | Some m \<Rightarrow> if t < m then Some t else Some m),
                  is_maxTS := (case is_maxTS s of None \<Rightarrow> Some t | Some m \<Rightarrow> if t > m then Some t else Some m)\<rparr>)"

definition emit_entry :: "ingest_batch \<Rightarrow> (ingest_state, store_err) emit" where
  "emit_entry batch e s =
     (let s = track e s; s = s\<lparr>is_pending := is_pending s @ [e]\<rparr>
      in if length (is_pending s) \<ge> copyBatch then flush batch s else (None, s))"

text \<open>The bytes the tee has seen.\<close>

definition seen :: "source \<Rightarrow> bufio \<Rightarrow> string" where
  "seen part b = take (nat (cr_read (b_rd b))) (source_bytes part)"

definition read_failed :: "io_err \<Rightarrow> ingest_err" where
  "read_failed e = (if e = ErrTooLarge then TooLarge else ReadFailed e)"

text \<open>What follows the parse: the last flush, the archive, the upload row, the rollups, the commit.\<close>

definition finish_ingest :: "api \<Rightarrow> ingest_batch \<Rightarrow> string \<Rightarrow> string \<Rightarrow> string \<Rightarrow> string \<Rightarrow> stats \<Rightarrow> int \<Rightarrow> ingest_state \<Rightarrow>
    (ingest_err + ingest_result) \<times> world" where
  "finish_ingest a batch filename key format object st bytes_read s =
     (case flush batch s of
        (Some e, s) \<Rightarrow> (case run_state (Put key object) (is_world s) of (_, w) \<Rightarrow> (Inl (StoreFailed e), w))
      | (None, s) \<Rightarrow> run_state
          (attempt (Put key object) (\<lambda>_. ret (Inl ArchiveFailed)) (\<lambda>_.
            if LineCount st = 0 then ret (Inl EmptyFile)
            else
              attempt (CreateUpload (is_tx s) \<lparr>up_ID = ib_UploadID batch, up_OrgID = ib_OrgID batch, up_UserID = ib_UserID batch,
                  up_Filename = filename, up_ByteSize = bytes_read, up_LineCount = LineCount st, up_ParsedCount = ParsedCount st,
                  up_Format = format, up_ObjectKey = key, up_CreatedAt = 0\<rparr>)
                (\<lambda>e. ret (Inl (StoreFailed e))) (\<lambda>(upload, t).
              attempt (BuildRollups t batch) (\<lambda>e. ret (Inl (StoreFailed e))) (\<lambda>(_, t).
              attempt (tx_commit t) (\<lambda>e. ret (Inl (StoreFailed e))) (\<lambda>_.
                ret (Inr \<lparr>ir_upload = upload, ir_entries = is_copied s\<rparr>))))))
          (is_world s))"

definition abort_ingest :: "string \<Rightarrow> string \<Rightarrow> ingest_err \<Rightarrow> world \<Rightarrow> (ingest_err + ingest_result) \<times> world" where
  "abort_ingest key object e w = (case run_state (Put_aborted key object) w of (_, w) \<Rightarrow> (Inl e, w))"

definition ingest :: "api \<Rightarrow> user \<Rightarrow> string \<Rightarrow> source \<Rightarrow> world \<Rightarrow> ((ingest_err + ingest_result) \<times> world) option" where
  "ingest a caller filename part w =
     (case run_state (do { now \<leftarrow> time_Now; i \<leftarrow> uuid_New; ret (now, i) }) w of ((began, uploadID), w) \<Rightarrow>
        let key = blob_Key (uuid_String a (u_OrgID caller)) (uuid_String a (u_ID caller)) (uuid_String a uploadID) began;
            capped = \<lparr>cr_r = part, cr_limit = MaxUploadBytes (api_Cfg a), cr_read = 0\<rparr>
        in case HeadReader (NewReader capped) 65536 of
             (Inl e, b) \<Rightarrow> Some (abort_ingest key (seen part b) (read_failed e) w)
           | (Inr head, full) \<Rightarrow>
               (case Detect (registry :: (ingest_state, store_err) registry) head of
                  None \<Rightarrow>
                    (case drain full of (_, b) \<Rightarrow>
                       case run_state (Put key (zstd_Encode a (seen part b))) w of (_, w) \<Rightarrow> Some (Inl UnsupportedFormat, w))
                | Some p \<Rightarrow>
                    (case run_state Begin w of
                       (Inl e, w) \<Rightarrow> Some (abort_ingest key (seen part full) (StoreFailed e) w)
                     | (Inr t, w) \<Rightarrow>
                         let batch = \<lparr>ib_UploadID = uploadID, ib_OrgID = u_OrgID caller, ib_UserID = u_ID caller\<rparr>;
                             s = \<lparr>is_world = w, is_tx = t, is_pending = [], is_minTS = None, is_maxTS = None, is_copied = 0\<rparr>
                         in case Parse p (\<lambda>s. w_now (is_world s)) full (emit_entry batch) s of
                              None \<Rightarrow> None
                            | Some ((st, Some (Inl e)), b, s) \<Rightarrow> Some (abort_ingest key (seen part b) (read_failed e) (is_world s))
                            | Some ((st, Some (Inr e)), b, s) \<Rightarrow> Some (abort_ingest key (seen part b) (StoreFailed e) (is_world s))
                            | Some ((st, None), b, s) \<Rightarrow>
                                Some (finish_ingest a batch filename key (Key p) (zstd_Encode a (seen part b)) st (cr_read (b_rd b)) s))))"

section \<open>Answering\<close>

definition failIngest :: "api \<Rightarrow> ingest_err \<Rightarrow> response M" where
  "failIngest a e = (case e of
       TooLarge \<Rightarrow> ret (Fail 413 (''File exceeds the '' @ Itoa (nat (MaxUploadBytes (api_Cfg a) div (1024 * 1024))) @ '' MB limit''))
     | EmptyFile \<Rightarrow> ret (Fail 400 ''File is empty'')
     | UnsupportedFormat \<Rightarrow> ret (Fail 400 (''Could not recognise this log format. Expected a delimited file with a header row naming its columns (supported: '' @
           Join (Keys (registry :: (ingest_state, store_err) registry)) '', '' @ '').''))
     | _ \<Rightarrow> do { log_event LogError ''upload.failed''; ret (Fail 500 ''Could not process the upload'') })"

record upload_form =
  uf_scope :: string
  uf_window :: int
  uf_result :: "ingest_result option"

text \<open>The loop over the parts of the form: the response it ends with, or the form so far.\<close>

fun upload_parts :: "api \<Rightarrow> user \<Rightarrow> form_part list \<Rightarrow> upload_form \<Rightarrow> world \<Rightarrow> ((response + upload_form) \<times> world) option" where
  "upload_parts a caller [] f w = Some (Inr f, w)"
| "upload_parts a caller (part # parts) f w =
     (if p_FormName part = ''scope'' then upload_parts a caller parts (f\<lparr>uf_scope := readSmallField part\<rparr>) w
      else if p_FormName part = ''baseline_window_days''
      then upload_parts a caller parts (f\<lparr>uf_window := Sscanf_d (readSmallField part) (uf_window f)\<rparr>) w
      else if p_FormName part = ''file''
      then
        (let filename = (if p_FileName part = [] then ''upload.log'' else p_FileName part)
         in if \<not> hasAllowedSuffix filename
            then Some (Inl (Fail 400 (''Unsupported file type. Expected one of: '' @ Join allowedSuffixes '', '')), w)
            else if \<not> api_Blob a then Some (Inl (Fail 503 ''Object storage is not configured''), w)
            else case ingest a caller filename (p_Content part) w of
                None \<Rightarrow> None
              | Some (Inl e, w) \<Rightarrow> (case run_state (failIngest a e) w of (resp, w) \<Rightarrow> Some (Inl resp, w))
              | Some (Inr res, w) \<Rightarrow> upload_parts a caller parts (f\<lparr>uf_result := Some res\<rparr>) w)
      else upload_parts a caller parts f w)"

definition launch_text :: "launch_err \<Rightarrow> string" where
  "launch_text e = (case e of ErrNoQueue \<Rightarrow> errNoQueue_msg | ErrCreate \<Rightarrow> ''create analysis: '' | ErrEnqueue \<Rightarrow> ''enqueue: '')"

definition analysis_failed :: "(string \<times> json) list \<Rightarrow> string \<Rightarrow> string \<Rightarrow> response M" where
  "analysis_failed resp scope msg = do {
     log_event LogError ''analysis.auto_start_failed'';
     ret (JSON 201 (Some (JObj (resp @ [(''scope'', JStr scope), (''analysis'', JNull),
       (''analysis_error'', JStr (''The file was ingested but its analysis could not be started: '' @ msg))])))) }"

text \<open>After the loop: the analysis of the file that was ingested last.\<close>

definition report_upload :: "api \<Rightarrow> upload_form \<Rightarrow> ingest_result \<Rightarrow> response M" where
  "report_upload a f res = do {
     log_event Info ''upload.ingested'';
     let up = ir_upload res;
     let resp = [(''id'', uuid_json a (up_ID up)), (''filename'', JStr (up_Filename up)), (''line_count'', JInt (up_LineCount up)),
       (''parsed_count'', JInt (up_ParsedCount up)), (''byte_size'', JInt (up_ByteSize up)), (''format'', JStr (up_Format up))];
     case normaliseScope (uf_scope f) (Some (uf_window f)) of
       Inl e \<Rightarrow> analysis_failed resp [] e
     | Inr (scope, window) \<Rightarrow>
         attempt (launchAnalysis a up scope window (int (ir_entries res)))
           (\<lambda>e. analysis_failed resp scope (launch_text e))
           (\<lambda>(an, shards). ret (JSON 201 (Some (JObj (resp @ [(''scope'', JStr scope), (''analysis'', JObj [(''id'', uuid_json a (a_ID an)),
              (''status'', JStr (a_Status an)), (''scope'', JStr scope), (''shards'', JInt shards)])]))))) }"

definition createUpload :: "api \<Rightarrow> user \<Rightarrow> request \<Rightarrow> world \<Rightarrow> (response \<times> world) option" where
  "createUpload a caller r w =
     (case rq_Body r of
        FormBody parts ended \<Rightarrow>
          (case upload_parts a caller parts \<lparr>uf_scope = ''file'', uf_window = 0, uf_result = None\<rparr> w of
             None \<Rightarrow> None
           | Some (Inl resp, w) \<Rightarrow> Some (resp, w)
           | Some (Inr f, w) \<Rightarrow>
               if \<not> ended then Some (Fail 400 ''Malformed multipart body'', w)
               else case uf_result f of
                   None \<Rightarrow> Some (Fail 400 ''No file part in the request'', w)
                 | Some res \<Rightarrow> Some (run_state (report_upload a f res) w))
      | _ \<Rightarrow> Some (Fail 400 ''Expected a multipart upload'', w))"

section \<open>Deleting\<close>

definition deleteUpload :: "api \<Rightarrow> user \<Rightarrow> handler" where
  "deleteUpload a caller r =
     (case uuid_Parse a (rq_PathID r) of
        None \<Rightarrow> ret (Fail 400 ''id must be a uuid'')
      | Some i \<Rightarrow>
          attempt (UploadByID i) (\<lambda>_. ret (Fail 404 ''Upload not found'')) (\<lambda>up.
            if up_OrgID up \<noteq> u_OrgID caller then ret (Fail 404 ''Upload not found'')
            else if up_UserID up \<noteq> u_ID caller \<and> \<not> IsAdmin (u_Role caller)
            then ret (Fail 403 ''Only the uploader or an administrator can delete this upload'')
            else attempt (DeleteUpload (u_OrgID caller) i)
              (\<lambda>e. if e = ErrNotFound then ret (Fail 404 ''Upload not found'')
                   else do { log_event LogError ''upload.delete_failed''; ret (Fail 500 ''Could not delete the upload'') })
              (\<lambda>entries. do {
                 archiveDeleted \<leftarrow> (if \<not> api_Blob a then ret True
                   else attempt (Delete (up_ObjectKey up))
                     (\<lambda>_. do { log_event LogError ''upload.archive_orphaned''; ret False }) (\<lambda>_. ret True));
                 audit (u_OrgID caller) (Some (u_ID caller)) ''upload.deleted'' ''upload'' (Some i)
                   [(''filename'', JStr (up_Filename up)), (''owner'', uuid_json a (up_UserID up)),
                    (''by_admin'', JBool (up_UserID up \<noteq> u_ID caller)), (''line_count'', JInt (up_LineCount up)),
                    (''entries_deleted'', JInt (int entries)), (''archive_deleted'', JBool archiveDeleted),
                    (''object_key'', JStr (up_ObjectKey up))];
                 log_event Info ''upload.deleted'';
                 ret NoContent })))"

section \<open>Who may delete, and what is left\<close>

definition may_delete :: "user \<Rightarrow> upload \<Rightarrow> bool" where
  "may_delete caller up \<longleftrightarrow> up_OrgID up = u_OrgID caller \<and> (up_UserID up = u_ID caller \<or> IsAdmin (u_Role caller))"

section \<open>The archived original\<close>

text \<open>
  What a request that deleted the rows of \<open>up\<close> did to the archive and what it said of it. The object is
  gone or untouched; the answer 204 is given only where it is gone or its remaining is logged; and no audit
  entry says it is gone when it is not.
\<close>

definition archive_told :: "api \<Rightarrow> upload \<Rightarrow> world \<Rightarrow> nat \<Rightarrow> world \<Rightarrow> bool" where
  "archive_told a up w status w' \<longleftrightarrow>
     (w_blob w' = w_blob w \<or> w_blob w' = (w_blob w)(up_ObjectKey up := None)) \<and>
     (status = 204 \<and> api_Blob a \<and> w_blob w' \<noteq> (w_blob w)(up_ObjectKey up := None) \<longrightarrow>
        (\<exists>more. w_log w' = w_log w @ more \<and> (LogError, ''upload.archive_orphaned'') \<in> set more)) \<and>
     (\<exists>rows. audit_log (w_db w') = audit_log (w_db w) @ rows \<and>
        (\<forall>row\<in>set rows. al_Action row = ''upload.deleted'' \<and> al_ResourceID row = Some (up_ID up) \<and>
           (api_Blob a \<and> (''archive_deleted'', JBool True) \<in> set (al_Detail row) \<longrightarrow> w_blob w' (up_ObjectKey up) = None)))"

text \<open>The rules once more, with the archive and the log.\<close>

lemma elapse_log [simp]: "w_log (elapse w) = w_log w"
  by (simp add: elapse_def split: list.split)

lemma query_kept:
  assumes "\<And>e. Q (Inl e) (elapse w)" and "\<And>x. q (w_db w) (w_now (elapse w)) = Inr x \<Longrightarrow> Q (Inr x) (elapse w)"
  shows "wp (db_query q) Q w"
  using assms by (cases "q (w_db w) (w_now (elapse w))") (simp_all add: wp_db_query)

lemma DeleteUpload_kept: "wp (DeleteUpload orgID i) (\<lambda>_ w'. w_blob w' = w_blob w \<and> w_log w' = w_log w) w"
  by (simp add: DeleteUpload_def wp_rules s_delete_entries_def s_delete_upload_def Let_def split: outcome.splits)

lemma DeleteUpload_told:
  assumes "\<And>e w'. w_db w' = w_db w \<Longrightarrow> w_blob w' = w_blob w \<Longrightarrow> w_log w' = w_log w \<Longrightarrow> Q (Inl e) w'"
    and "\<And>e w'. w_db w' = deleted orgID i (w_db w) \<Longrightarrow> hits orgID i (w_db w) \<noteq> [] \<Longrightarrow> w_blob w' = w_blob w \<Longrightarrow> w_log w' = w_log w \<Longrightarrow> Q (Inl e) w'"
    and "\<And>n w'. w_db w' = deleted orgID i (w_db w) \<Longrightarrow> hits orgID i (w_db w) \<noteq> [] \<Longrightarrow> w_blob w' = w_blob w \<Longrightarrow> w_log w' = w_log w \<Longrightarrow> Q (Inr n) w'"
  shows "wp (DeleteUpload orgID i) Q w"
proof -
  have "wp (DeleteUpload orgID i) (\<lambda>r w'. (w_blob w' = w_blob w \<and> w_log w' = w_log w) \<and>
      (w_db w' = w_db w \<and> (\<exists>e. r = Inl e) \<or> hits orgID i (w_db w) \<noteq> [] \<and> w_db w' = deleted orgID i (w_db w))) w"
    using DeleteUpload_kept [of orgID i w] DeleteUpload_wp [of orgID i w] by (auto simp: wp_iff split: sum.splits)
  then show ?thesis
  proof (rule wp_mono)
    show "Q r w'" if "(w_blob w' = w_blob w \<and> w_log w' = w_log w) \<and>
      (w_db w' = w_db w \<and> (\<exists>e. r = Inl e) \<or> hits orgID i (w_db w) \<noteq> [] \<and> w_db w' = deleted orgID i (w_db w))" for r w'
      using that assms by (cases r) auto
  qed
qed

lemma Delete_told:
  assumes "\<And>w'. w_db w' = w_db w \<Longrightarrow> w_blob w' = w_blob w \<or> w_blob w' = (w_blob w)(k := None) \<Longrightarrow> w_log w' = w_log w \<Longrightarrow> Q (Inl ()) w'"
    and "\<And>w'. w_db w' = w_db w \<Longrightarrow> w_blob w' = (w_blob w)(k := None) \<Longrightarrow> w_log w' = w_log w \<Longrightarrow> Q (Inr ()) w'"
  shows "wp (Delete k) Q w"
  by (auto simp: Delete_def wp_blob_do split: outcome.splits intro!: assms)

lemma audit_told:
  assumes "\<And>w' more. w_db w' = w_db w \<Longrightarrow> w_blob w' = w_blob w \<Longrightarrow> w_log w' = w_log w @ more \<Longrightarrow> Q () w'"
    and "\<And>w' row more. w_db w' = (w_db w)\<lparr>audit_log := audit_log (w_db w) @ [row], next_id := Suc (next_id (w_db w))\<rparr> \<Longrightarrow>
      al_Action row = action \<Longrightarrow> al_ResourceID row = rid \<Longrightarrow> al_Detail row = detail \<Longrightarrow>
      w_blob w' = w_blob w \<Longrightarrow> w_log w' = w_log w @ more \<Longrightarrow> Q () w'"
  shows "wp (audit org actor action rt rid detail) Q w"
proof (cases "outcome_of w")
  case Lost
  then show ?thesis by (simp add: audit_def Audit_def wp_rules) (rule assms(1); simp)
next
  case Done
  then show ?thesis by (simp add: audit_def Audit_def wp_rules s_Audit_def) (rule assms(2) [where more = "[]"], simp+)
next
  case Unacknowledged
  then show ?thesis by (simp add: audit_def Audit_def wp_rules s_Audit_def) (rule assms(2), simp+)
qed

definition deleted_and_told :: "api \<Rightarrow> user \<Rightarrow> request \<Rightarrow> world \<Rightarrow> nat \<Rightarrow> world \<Rightarrow> bool" where
  "deleted_and_told a caller r w status w' \<longleftrightarrow> (\<exists>i up. uuid_Parse a (rq_PathID r) = Some i \<and> up \<in> set (uploads (w_db w)) \<and> up_ID up = i \<and>
     may_delete caller up \<and> hits (u_OrgID caller) i (w_db w) \<noteq> [] \<and>
     audited (deleted (u_OrgID caller) i (w_db w)) (w_db w') \<and> archive_told a up w status w')"

lemma toldI:
  assumes "uuid_Parse a (rq_PathID r) = Some i" "q_UploadByID i (w_db w) t = Inr up" "up_OrgID up = u_OrgID caller"
    "up_UserID up = u_ID caller \<or> IsAdmin (u_Role caller)" "hits (u_OrgID caller) i (w_db w) \<noteq> []"
    "audited (deleted (u_OrgID caller) i (w_db w)) (w_db w')" "archive_told a up w status w'"
  shows "deleted_and_told a caller r w status w'"
  using assms q_UploadByID_Inr [OF assms(2)] unfolding deleted_and_told_def may_delete_def by blast

lemma deleted_audit_log: "audit_log (deleted org i d) = audit_log d"
  by (simp add: deleted_def)

lemma status_NoContent [simp]: "rs_Status NoContent = 204"
  by (simp add: NoContent_def)

lemma deleteUpload_told:
  "wp (deleteUpload a caller r) (\<lambda>resp w'.
     w_db w' = w_db w \<and> w_blob w' = w_blob w \<and> rs_Status resp \<noteq> 204 \<or> deleted_and_told a caller r w (rs_Status resp) w') w"
  unfolding deleteUpload_def UploadByID_def
  apply (intro vc_return vc_bind vc_attempt vc_if vc_option vc_Inl vc_Inr vc_log_event query_kept DeleteUpload_told Delete_told audit_told)
  apply simp_all
  apply ((rule disjI2)?, erule toldI, assumption, simp, simp, assumption, simp, (auto simp: archive_told_def deleted_audit_log dest: q_UploadByID_Inr; fail))+
  done

text \<open>
  Claim C12: whatever calls fail, a request to delete an upload changes neither tables nor archive, or
  was made by the uploader or an administrator of its organization and removes every trace of it from the
  tables: the upload, its entries, rollups, grants and analyses, and the findings, timings and
  embeddings of these, and no other row of any of them. The answer 204 is given in the second case only. Then the
  archived original is removed as well, or an error in the log says that it is orphaned; no other
  object is ever removed, and an audit entry that says the archive was deleted tells the truth. A deletion that is
  committed but not acknowledged is answered with 500 and leaves the archive.
\<close>

theorem Deletion_sound:
  assumes "run_state (deleteUpload a caller r) w = (resp, w')" and "rows_owned (w_db w)"
  shows "w_db w' = w_db w \<and> w_blob w' = w_blob w \<and> rs_Status resp \<noteq> 204 \<or>
    (\<exists>i up. uuid_Parse a (rq_PathID r) = Some i \<and> up \<in> set (uploads (w_db w)) \<and> up_ID up = i \<and> may_delete caller up \<and>
       forgets i (w_db w) (w_db w') \<and> archive_told a up w (rs_Status resp) w')"
proof -
  from wpD [OF deleteUpload_told assms(1)] show ?thesis
  proof
    assume "deleted_and_told a caller r w (rs_Status resp) w'"
    then obtain i up where i: "uuid_Parse a (rq_PathID r) = Some i" "up \<in> set (uploads (w_db w))" "up_ID up = i"
      "may_delete caller up" "hits (u_OrgID caller) i (w_db w) \<noteq> []" "audited (deleted (u_OrgID caller) i (w_db w)) (w_db w')"
      "archive_told a up w (rs_Status resp) w'"
      unfolding deleted_and_told_def by blast
    from i(6) have "forgets i (w_db w) (w_db w') = forgets i (w_db w) (deleted (u_OrgID caller) i (w_db w))"
      by (auto simp: audited_def forgets_def)
    with deleted_forgets [OF assms(2) i(5)] i show ?thesis by blast
  qed simp
qed

definition sample_delete :: request where
  "sample_delete = (sample_request ''DELETE'' ''/api/uploads/31'')\<lparr>rq_PathID := ''31''\<rparr>"

text \<open>Cyd deletes a file that has been analysed: nothing is left of the analysis and its finding, the archived object is gone.\<close>

definition sample_find :: anomaly_row where
  "sample_find = \<lparr>an_ID = 71, an_Kind = ''beacon'', an_Severity = ''high'', an_Urgency = ''today'', an_ActionRequired = True,
     an_ActionLabel = None, an_Confidence = 1, an_Explanation = ''calls home'', an_Recommendation = None, an_EntryIDs = None,
     an_analysis_id = 51\<rparr>"

definition deletion_world :: world where
  "deletion_world = sample_world\<lparr>w_db := sample_db\<lparr>analyses := [sample_analysis], anomalies := [sample_find]\<rparr>, w_blob := [up_ObjectKey cyds_log \<mapsto> ''raw'']\<rparr>"

theorem Deletion_sound_witness:
  "\<exists>resp w'. run_state (deleteUpload sample_api (user.truncate cyd) sample_delete) deletion_world = (resp, w') \<and>
     rs_Status resp = 204 \<and> forgets 31 (w_db deletion_world) (w_db w') \<and> uploads (w_db w') = [dans_log] \<and> analyses (w_db w') = [] \<and> anomalies (w_db w') = [] \<and>
     archive_told sample_api cyds_log deletion_world 204 w' \<and> w_blob w' (up_ObjectKey cyds_log) = None"
proof -
  have own: "rows_owned (w_db deletion_world)"
    by (simp add: rows_owned_def deletion_world_def sample_db_def empty_db_def)
  have parse: "uuid_Parse sample_api ''31'' = Some 31" by (simp add: sample_api_def is_digit_def code_def)
  have q: "quiet deletion_world" "w_db deletion_world = sample_db\<lparr>analyses := [sample_analysis], anomalies := [sample_find]\<rparr>"
    by (simp_all add: deletion_world_def)
  obtain resp w' where run: "run_state (deleteUpload sample_api (user.truncate cyd) sample_delete) deletion_world = (resp, w')"
      "rs_Status resp = 204" "w_blob w' (up_ObjectKey cyds_log) = None"
    by (simp add: deleteUpload_def sample_delete_def parse op_defs quiet_run UploadByID_def q_UploadByID_def scanUpload_def delete_where_def cascade_upload_def select_def
        DeleteUpload_def s_delete_entries_def s_delete_upload_def Delete_def q
        affected_def audit_def Audit_def s_Audit_def Let_def)
  from Deletion_sound [OF run(1) own] run(2)
  obtain i up where told: "uuid_Parse sample_api (rq_PathID sample_delete) = Some i" "up \<in> set (uploads (w_db deletion_world))" "up_ID up = i"
    "forgets i (w_db deletion_world) (w_db w')" "archive_told sample_api up deletion_world 204 w'" by auto
  then have "i = 31" "up = cyds_log" by (auto simp: sample_delete_def parse q)
  with told have f: "forgets 31 (w_db deletion_world) (w_db w')" "archive_told sample_api cyds_log deletion_world 204 w'" by simp_all
  have "analyses_of 31 (w_db deletion_world) = {51}" by (auto simp: analyses_of_def q)
  with f have "uploads (w_db w') = [dans_log]" "analyses (w_db w') = []" "anomalies (w_db w') = []"
    by (simp_all add: forgets_def q sample_find_def)
  with run f show ?thesis by blast
qed

end
