(* ===== verification/Server.thy ===== *)
theory Server
  imports Obs Clients Handlers_Grants Handlers_Auth Handlers_MFA Handlers_Org Handlers_Dashboard Handlers_Uploads
begin

text \<open>
  The gateway as a whole: the routes of \<open>internal/handlers/handlers.go\<close>, the chain of middleware
  \<open>cmd/gateway/main.go\<close> puts in front of them, and the start of the process.
\<close>

section \<open>http.ServeMux\<close>

text \<open>
  The pattern matching of Go 1.22: a path that is not clean is redirected, \<open>GET\<close> also serves
  \<open>HEAD\<close>, a wildcard stands for one segment. Bodies that are not JSON are left out of a response.
\<close>

record route =
  rt_Method :: string
  rt_Segments :: "string list"
  rt_Handler :: handler

fun match_segments :: "string list \<Rightarrow> string list \<Rightarrow> string option" where
  "match_segments [] [] = Some []"
| "match_segments (p # ps) (s # ss) =
     (if p = ''{id}'' then (if s = [] then None else map_option (\<lambda>_. s) (match_segments ps ss))
      else if p = s then match_segments ps ss else None)"
| "match_segments _ _ = None"

definition path_segments :: "string \<Rightarrow> string list" where
  "path_segments p = Split p CHR ''/''"

definition clean_path :: "string \<Rightarrow> bool" where
  "clean_path p \<longleftrightarrow> (case path_segments p of
       [] # ss \<Rightarrow> ss \<noteq> [] \<and> list_all (\<lambda>s. s \<notin> {[], ''.'', ''..''}) (butlast ss) \<and> last ss \<notin> {''.'', ''..''}
     | _ \<Rightarrow> False)"

definition method_matches :: "string \<Rightarrow> string \<Rightarrow> bool" where
  "method_matches m rm \<longleftrightarrow> m = rm \<or> m = ''GET'' \<and> rm = ''HEAD''"

definition route_match :: "request \<Rightarrow> route \<Rightarrow> string option" where
  "route_match r rt = (if method_matches (rt_Method rt) (rq_Method r)
     then match_segments (rt_Segments rt) (path_segments (rq_Path r)) else None)"

definition plain :: "nat \<Rightarrow> response" where
  "plain s = \<lparr>rs_Status = s, rs_Headers = [(''Content-Type'', ''text/plain; charset=utf-8'')], rs_Cookies = [], rs_Body = None\<rparr>"

definition allowed_methods :: "route list \<Rightarrow> request \<Rightarrow> string list" where
  "allowed_methods rts r = filter
     (\<lambda>m. list_ex (\<lambda>rt. route_match (r\<lparr>rq_Method := m\<rparr>) rt \<noteq> None) rts) [''DELETE'', ''GET'', ''HEAD'', ''POST'']"

definition ServeMux :: "route list \<Rightarrow> handler" where
  "ServeMux rts r =
     (if rq_Method r \<noteq> ''CONNECT'' \<and> \<not> clean_path (rq_Path r) then ret (plain 301)
      else case find (\<lambda>rt. route_match r rt \<noteq> None) rts of
          Some rt \<Rightarrow> rt_Handler rt (r\<lparr>rq_PathID := the (route_match r rt)\<rparr>)
        | None \<Rightarrow>
            (case allowed_methods rts r of
               [] \<Rightarrow> ret (plain 404)
             | ms \<Rightarrow> ret (with_header ''Allow'' (Join ms '', '') (plain 405))))"

section \<open>The upload endpoint\<close>

text \<open>
  An upload whose parse never ends is never answered. Its own transaction is not committed; what
  the file parts before it committed stays. \<open>upload_progress\<close> is the world such a request leaves.
\<close>

fun upload_progress :: "api \<Rightarrow> user \<Rightarrow> form_part list \<Rightarrow> upload_form \<Rightarrow> world \<Rightarrow> world" where
  "upload_progress a caller [] f w = w"
| "upload_progress a caller (part # parts) f w =
     (case upload_parts a caller [part] f w of
        None \<Rightarrow> w
      | Some (Inl _, w') \<Rightarrow> w'
      | Some (Inr f', w') \<Rightarrow> upload_progress a caller parts f' w')"

definition upload_handler :: "api \<Rightarrow> user \<Rightarrow> handler" where
  "upload_handler a caller r = State (\<lambda>w. case createUpload a caller r w of
       Some x \<Rightarrow> x
     | None \<Rightarrow> (panicked, case rq_Body r of
           FormBody parts _ \<Rightarrow> upload_progress a caller parts \<lparr>uf_scope = ''file'', uf_window = 0, uf_result = None\<rparr> w
         | _ \<Rightarrow> w))"

section \<open>Routes\<close>

text \<open>\<open>handlers/metrics.go\<close>: the figures of the process, as \<open>runtime.MemStats\<close> and the clock give them.\<close>

record runtime_stats =
  ms_Uptime :: rat
  ms_At :: time
  ms_Goroutines :: int
  ms_Sys :: int
  ms_HeapAlloc :: int
  ms_NumGC :: int

definition processMetrics :: "runtime_stats \<Rightarrow> json" where
  "processMetrics m = JObj
     [(''uptime_seconds'', JFloat (ms_Uptime m)),
      (''collected_at'', JTime (ms_At m div second * second)),
      (''goroutines'', JInt (ms_Goroutines m)),
      (''memory_mb'', JFloat (of_int (ms_Sys m) / (1024 * 1024))),
      (''heap_mb'', JFloat (of_int (ms_HeapAlloc m) / (1024 * 1024))),
      (''gc_cycles'', JInt (ms_NumGC m)),
      (''note'', JStr ''Per-instance. User-facing metrics come from /api/dashboard/*.'')]"

text \<open>What the gateway needs beside the \<open>API\<close> record: the text search, and the figures of the process.\<close>

record gateway =
  gw_API :: api
  gw_fts :: fts
  gw_metrics :: runtime_stats

definition pattern :: "string \<Rightarrow> string \<Rightarrow> handler \<Rightarrow> route" where
  "pattern m p h = \<lparr>rt_Method = m, rt_Segments = path_segments p, rt_Handler = h\<rparr>"

definition public_routes :: "gateway \<Rightarrow> route list" where
  "public_routes g = (let a = gw_API g in
    [pattern ''GET'' ''/api/health'' health,
     pattern ''POST'' ''/api/auth/register'' (register a),
     pattern ''POST'' ''/api/auth/login'' (login a),
     pattern ''POST'' ''/api/auth/logout'' (logout a),
     pattern ''POST'' ''/api/auth/mfa/verify'' (verifyMFA a),
     pattern ''GET'' ''/api/metrics'' (metrics a (processMetrics (gw_metrics g)))])"

definition member_routes :: "gateway \<Rightarrow> (string \<times> string \<times> (user \<Rightarrow> handler)) list" where
  "member_routes g = (let a = gw_API g in
    [(''GET'', ''/api/auth/me'', me a),
     (''POST'', ''/api/auth/mfa/enroll'', enrollMFA a),
     (''POST'', ''/api/auth/mfa/activate'', activateMFA a),
     (''POST'', ''/api/auth/mfa/disable'', disableMFA a),
     (''GET'', ''/api/org/users'', listOrgUsers a),
     (''POST'', ''/api/org/invite'', inviteMember a),
     (''POST'', ''/api/org/users/{id}/mfa/reset'', resetMemberMFA a),
     (''POST'', ''/api/org/mfa-policy'', setOrgMFAPolicy a),
     (''GET'', ''/api/grants'', listGrants a),
     (''POST'', ''/api/grants'', createGrant a),
     (''DELETE'', ''/api/grants/{id}'', deleteGrant a),
     (''GET'', ''/api/uploads'', listUploads a),
     (''POST'', ''/api/uploads'', upload_handler a),
     (''POST'', ''/api/uploads/{id}/analyze'', startAnalysis a),
     (''DELETE'', ''/api/uploads/{id}'', deleteUpload a),
     (''GET'', ''/api/analyses/{id}'', getAnalysis a),
     (''GET'', ''/api/dashboard/summary'', dashboardSummary),
     (''GET'', ''/api/dashboard/series'', dashboardSeries),
     (''GET'', ''/api/dashboard/top'', dashboardTop),
     (''GET'', ''/api/dashboard/status'', statusCodes),
     (''GET'', ''/api/dashboard/actions'', actionPlan a),
     (''GET'', ''/api/audit'', listAudit a),
     (''GET'', ''/api/search'', search a (gw_fts g))])"

text \<open>No two patterns match the same request, so the order in which they are registered does not matter.\<close>

definition Routes :: "gateway \<Rightarrow> route list" where
  "Routes g = public_routes g @ map (\<lambda>(m, p, h). pattern m p (auth_Require (gw_API g) h)) (member_routes g)"

section \<open>The chain\<close>

definition exempt :: "string \<Rightarrow> bool" where
  "exempt p \<longleftrightarrow> p = ''/api/health''"

definition serve :: "gateway \<Rightarrow> handler" where
  "serve g = (let a = gw_API g; cfg = api_Cfg a in
     Middleware a (SecurityHeaders (BasicAuth (EdgeAuthEnabled cfg) (EdgeAuthUser cfg) (EdgeAuthPassHash cfg)
       (VerifyPassword a) exempt (CSRF (CookieSecure cfg) exempt (ServeMux (Routes g))))))"

section \<open>Starting\<close>

text \<open>\<open>store.New\<close>: a pool of connections of a fixed size, given how the driver answers.\<close>

record pool =
  pool_MaxConns :: nat
  pool_MinConns :: nat
  pool_MaxConnLifetime :: duration
  pool_MaxConnIdleTime :: duration

record driver_answers =
  dr_ParseConfig :: "string option"
  dr_NewWithConfig :: "string option"
  dr_Ping :: "string option"

definition store_New :: "driver_answers \<Rightarrow> string + pool" where
  "store_New d =
     (case dr_ParseConfig d of Some e \<Rightarrow> Inl e | None \<Rightarrow>
     (case dr_NewWithConfig d of Some e \<Rightarrow> Inl e | None \<Rightarrow>
     (case dr_Ping d of Some e \<Rightarrow> Inl e
      | None \<Rightarrow> Inr \<lparr>pool_MaxConns = 16, pool_MinConns = 2, pool_MaxConnLifetime = hour, pool_MaxConnIdleTime = 15 * minute\<rparr>)))"

text \<open>
  What the outside answers while the process starts: the driver at every attempt to reach the
  database, the libraries behind Redis and the archive. A signal can arrive while the retry waits.
\<close>

record outside =
  out_driver :: "nat \<Rightarrow> driver_answers"
  out_signal :: "nat \<Rightarrow> bool"
  out_redis_url_ok :: "string \<Rightarrow> bool"
  out_redis_ping :: bool
  out_archive :: client_libs

fun retry :: "outside \<Rightarrow> nat \<Rightarrow> nat \<Rightarrow> string \<Rightarrow> (string + pool) \<times> duration" where
  "retry out 0 k lastErr = (Inl (''database unreachable after retries: '' @ lastErr), 0)"
| "retry out (Suc n) k lastErr =
     (case store_New (out_driver out k) of
        Inr st \<Rightarrow> (Inr st, 0)
      | Inl err \<Rightarrow>
          if out_signal out k then (Inl ''context canceled'', 0)
          else (case retry out n (k + 1) err of (x, waited) \<Rightarrow> (x, int k * (second div 2) + waited)))"

definition connectWithRetry :: "outside \<Rightarrow> (string + pool) \<times> duration" where
  "connectWithRetry out = retry out 10 1 []"

datatype start_err = StartConfig config_err | StartDatabase string | StartRedis | StartArchive string | StartQueue

record started_gateway =
  sg_Config :: config
  sg_Archive :: "archive_client option"
  sg_Log :: "(log_level \<times> string) list"

text \<open>\<open>run\<close> up to the listener: the fatal errors, and what is only logged.\<close>

definition open_archive :: "outside \<Rightarrow> config \<Rightarrow> string + (archive_client option \<times> (log_level \<times> string) list)" where
  "open_archive out cfg =
     (if S3Bucket cfg \<noteq> []
      then (case blob_New \<lparr>bc_Bucket = S3Bucket cfg, bc_Endpoint = S3Endpoint cfg, bc_AccessKey = S3AccessKey cfg,
                bc_SecretKey = S3SecretKey cfg, bc_PathStyle = S3PathStyle cfg\<rparr> of
          Inl e \<Rightarrow> Inl e
        | Inr st \<Rightarrow>
            (case client_New (out_archive out) st of
               Inl e \<Rightarrow> Inl e
             | Inr c \<Rightarrow> Inr (Some c, [if client_Ping (out_archive out) c = None then (Info, ''blob.ready'')
                 else (LogError, ''blob.unreachable'')])))
      else Inr (None, [(Warn, ''blob.unconfigured'')]))"

definition run :: "environment \<Rightarrow> outside \<Rightarrow> start_err + started_gateway" where
  "run getenv out =
     (case Load getenv of
        Inl e \<Rightarrow> Inl (StartConfig e)
      | Inr cfg \<Rightarrow>
          (case fst (connectWithRetry out) of
             Inl e \<Rightarrow> Inl (StartDatabase e)
           | Inr _ \<Rightarrow>
               if \<not> out_redis_url_ok out (RedisURL cfg) then Inl StartRedis
               else case open_archive out cfg of
                   Inl e \<Rightarrow> Inl (StartArchive e)
                 | Inr (archive, blob_log) \<Rightarrow>
                     if \<not> out_redis_url_ok out (RedisURL cfg) then Inl StartQueue
                     else Inr \<lparr>sg_Config = cfg, sg_Archive = archive,
                       sg_Log = (if out_redis_ping out then [] else [(LogError, ''redis.unreachable'')]) @ blob_log @ [(Info, ''server.start'')]\<rparr>))"

text \<open>The \<open>API\<close> record of a started gateway: the limiter and the queue are always there.\<close>

definition started_api :: "api \<Rightarrow> started_gateway \<Rightarrow> api" where
  "started_api lib s = lib\<lparr>api_Cfg := sg_Config s, api_Limiter := True, api_Blob := sg_Archive s \<noteq> None, api_Queue := True\<rparr>"

text \<open>The health probe of the container, given how \<open>GET\<close> of an address is answered.\<close>

definition probe :: "environment \<Rightarrow> (string \<Rightarrow> nat option) \<Rightarrow> nat" where
  "probe getenv get =
     (let port = (if getenv ''PORT'' = [] then ''8000'' else getenv ''PORT'')
      in case get (''http://127.0.0.1:'' @ port @ ''/api/health'') of
          None \<Rightarrow> 1
        | Some s \<Rightarrow> if s \<noteq> 200 then 1 else 0)"

section \<open>Migrations\<close>

text \<open>
  \<open>internal/migrations/migrations.go\<close>, over the migration library: the version of the schema
  (\<open>None\<close> before the first migration) and whether a migration failed half way.
\<close>

datatype migrate_err = ErrNilVersion | ErrNoChange | ErrMigrate string

record migrator =
  mg_Source :: "string option"
  mg_ParseConfig :: "string option"
  mg_Ping :: "string option"
  mg_Open :: "string option"
  mg_Before :: "migrate_err + nat"
  mg_Up :: "migrate_err option"
  mg_After :: "migrate_err + (nat \<times> bool)"

text \<open>An URL that does not parse is a panic, not an error.\<close>

datatype migrate_stop = Failed string | Panicked string

definition mustParse :: "migrator \<Rightarrow> migrate_stop + unit" where
  "mustParse m = (case mg_ParseConfig m of Some e \<Rightarrow> Inl (Panicked (''DATABASE_URL: '' @ e)) | None \<Rightarrow> Inr ())"

definition Up :: "migrator \<Rightarrow> migrate_stop + int" where
  "Up m =
     (case mg_Source m of Some e \<Rightarrow> Inl (Failed e) | None \<Rightarrow>
     (case mustParse m of Inl p \<Rightarrow> Inl p | Inr _ \<Rightarrow>
     (case mg_Ping m of Some e \<Rightarrow> Inl (Failed (''connecting: '' @ e)) | None \<Rightarrow>
     (case mg_Open m of Some e \<Rightarrow> Inl (Failed e) | None \<Rightarrow>
     (case mg_Before m of
        Inl (ErrMigrate e) \<Rightarrow> Inl (Failed e)
      | Inl ErrNoChange \<Rightarrow> Inl (Failed ''no change'')
      | b \<Rightarrow>
          (let before = (case b of Inr v \<Rightarrow> v | Inl _ \<Rightarrow> 0)
           in case mg_Up m of
               Some (ErrMigrate e) \<Rightarrow> Inl (Failed (''applying migrations: '' @ e))
             | Some ErrNilVersion \<Rightarrow> Inl (Failed ''applying migrations: no migration'')
             | _ \<Rightarrow>
                 (case mg_After m of
                    Inl _ \<Rightarrow> Inl (Failed ''no version'')
                  | Inr (after, dirty) \<Rightarrow>
                      if dirty then Inl (Failed (''schema is dirty at version '' @ Itoa after @ ''; resolve it before deploying''))
                      else Inr (int after - int before))))))))"

definition runMigrations :: "environment \<Rightarrow> migrator \<Rightarrow> (config_err + migrate_stop) + int" where
  "runMigrations getenv m =
     (case Load getenv of
        Inl e \<Rightarrow> Inl (Inl e)
      | Inr cfg \<Rightarrow> (case Up m of Inl e \<Rightarrow> Inl (Inr e) | Inr applied \<Rightarrow> Inr applied))"

section \<open>The end of the process\<close>

text \<open>
  \<open>run\<close> from the listener on: it ends by a signal, or because \<open>ListenAndServe\<close> failed, which cancels the same context;
  what it returns is what \<open>Shutdown\<close> answers in either case.
\<close>

record http_server =
  hs_Addr :: string
  hs_ReadHeaderTimeout :: duration
  hs_IdleTimeout :: duration

definition http_server_of :: "config \<Rightarrow> http_server" where
  "http_server_of cfg = \<lparr>hs_Addr = ''0.0.0.0:'' @ Port cfg, hs_ReadHeaderTimeout = 10 * second, hs_IdleTimeout = 90 * second\<rparr>"

datatype server_end = Signalled | ListenFailed string

datatype run_err = RunStart start_err | RunShutdown string

definition listen_until :: "server_end \<Rightarrow> string option \<Rightarrow> run_err option \<times> (log_level \<times> string) list" where
  "listen_until e shutdown =
     (map_option RunShutdown shutdown,
      (case e of Signalled \<Rightarrow> [] | ListenFailed _ \<Rightarrow> [(LogError, ''server.failed'')]) @ [(Info, ''server.stopping'')])"

definition run_whole :: "environment \<Rightarrow> outside \<Rightarrow> server_end \<Rightarrow> string option \<Rightarrow> run_err option" where
  "run_whole getenv out e shutdown =
     (case run getenv out of Inl x \<Rightarrow> Some (RunStart x) | Inr _ \<Rightarrow> fst (listen_until e shutdown))"

text \<open>The exit code of the process.\<close>

definition main :: "bool \<Rightarrow> bool \<Rightarrow> nat \<Rightarrow> (config_err + migrate_stop) + int \<Rightarrow> run_err option \<Rightarrow> nat" where
  "main healthcheck migrateOnly probed migrated ended =
     (if healthcheck then probed
      else if migrateOnly then (case migrated of Inl (Inr (Panicked _)) \<Rightarrow> 2 | Inl _ \<Rightarrow> 1 | Inr _ \<Rightarrow> 0)
      else if ended \<noteq> None then 1 else 0)"

text \<open>A gateway whose port is taken logs the failure and exits as one that was asked to stop.\<close>

lemma listen_failure_exits_0:
  assumes "run getenv out = Inr g"
  shows "main False False probed migrated (run_whole getenv out (ListenFailed e) None) = 0"
  using assms by (simp add: main_def run_whole_def listen_until_def)

text \<open>\<open>cmd/hashpass\<close>: the exit code, and what is printed.\<close>

definition hashpass :: "api \<Rightarrow> string list \<Rightarrow> (nat \<times> string) M" where
  "hashpass a args =
     (if length args \<noteq> 2 then ret (2, ''usage: hashpass <password>'')
      else attempt (HashPassword a (args ! 1)) (\<lambda>_. ret (1, ''error'')) (\<lambda>h. ret (0, h)))"

end
