(* ===== verification/Ingest_Proofs.thy ===== *)
theory Ingest_Proofs
  imports Handlers_Uploads Samples
begin

text \<open>
  What an ingest does to the tables: all or nothing, every entry, rollups that agree with the
  rows, partitions that cover them; and that it succeeds on a good file when no call fails.
\<close>

section \<open>Ingest writes all or nothing\<close>

text \<open>What the entries emitted so far say of the counters of the parser.\<close>

definition counted :: "entry list \<Rightarrow> stats \<Rightarrow> bool" where
  "counted es st \<longleftrightarrow> LineCount st = 1 + int (length es) \<and> ParsedCount st = int (length (filter Parsed es))"

lemma counted_row: "counted es st \<Longrightarrow> counted (es @ [e]) (count_parsed e (count_line st))"
  by (simp add: counted_def count_parsed_def count_line_def)

lemma counted_raw: "counted es st \<Longrightarrow> counted (es @ [raw_entry n []]) (count_line st)"
  by (simp add: counted_def count_line_def Parsed_def raw_entry_def)

lemma parse_loop_invariant:
  assumes "parse_loop clk emit comma cols n st b s = Some ((st', err), b', s')"
    and emit: "\<And>es e s x s'. J es s \<Longrightarrow> emit e s = (x, s') \<Longrightarrow> (case x of None \<Rightarrow> J (es @ [e]) s' | Some _ \<Rightarrow> E s')"
    and "counted es st" "J es s"
  shows "case err of None \<Rightarrow> \<exists>es'. J es' s' \<and> counted es' st' | Some (Inl _) \<Rightarrow> False | Some (Inr _) \<Rightarrow> E s'"
proof -
  have "parse_loop clk emit comma cols n st b s = Some r \<Longrightarrow>
    (\<forall>es. (\<forall>es e s x s'. J es s \<longrightarrow> emit e s = (x, s') \<longrightarrow> (case x of None \<Rightarrow> J (es @ [e]) s' | Some _ \<Rightarrow> E s')) \<longrightarrow>
       counted es st \<longrightarrow> J es s \<longrightarrow>
       (case snd (fst r) of None \<Rightarrow> \<exists>es'. J es' (snd (snd r)) \<and> counted es' (fst (fst r)) | Some (Inl _) \<Rightarrow> False | Some (Inr _) \<Rightarrow> E (snd (snd r))))"
    for r
  proof (induction rule: parse_loop.raw_induct [rotated, consumes 1, case_names step])
    case (step parse_loop clk emit comma cols n st b s r)
    show ?case
    proof (intro allI impI)
      fix es
      assume e: "\<forall>es e s x s'. J es s \<longrightarrow> emit e s = (x, s') \<longrightarrow> (case x of None \<Rightarrow> J (es @ [e]) s' | Some _ \<Rightarrow> E s')"
        and c: "counted es st" and j: "J es s"
      obtain q b' where q: "csv_Read comma b = (q, b')" by (cases "csv_Read comma b")
      show "case snd (fst r) of None \<Rightarrow> \<exists>es'. J es' (snd (snd r)) \<and> counted es' (fst (fst r)) | Some (Inl _) \<Rightarrow> False | Some (Inr _) \<Rightarrow> E (snd (snd r))"
      proof (cases q)
        case (Inl x)
        obtain y s1 where y: "emit (raw_entry n []) s = (y, s1)" by (cases "emit (raw_entry n []) s")
        with e j have "case y of None \<Rightarrow> J (es @ [raw_entry n []]) s1 | Some _ \<Rightarrow> E s1" by blast
        with step(2) step(1) [of clk emit comma cols "n + 1" "count_line st" b' s1 r] q Inl y e c j counted_raw [OF c, of n]
        show ?thesis by (cases "x = EOF"; cases y) auto
      next
        case (Inr row)
        let ?e = "buildEntry (clk s) n row cols comma"
        obtain y s1 where y: "emit ?e s = (y, s1)" by (cases "emit ?e s")
        with e j have "case y of None \<Rightarrow> J (es @ [?e]) s1 | Some _ \<Rightarrow> E s1" by blast
        with step(2) step(1) [of clk emit comma cols "n + 1" "count_parsed ?e (count_line st)" b' s1 r] q Inr y e
          counted_row [OF c, of ?e]
        show ?thesis by (cases y) (auto simp: Let_def)
      qed
    qed
  qed
  from this [OF assms(1), unfolded fst_conv snd_conv] emit assms(3,4) show ?thesis by blast
qed

definition same_world :: "world \<Rightarrow> world \<Rightarrow> bool" where
  "same_world w w' \<longleftrightarrow> w_db w' = w_db w \<and> w_redis w' = w_redis w \<and> w_blob w' = w_blob w"

lemma same_world_simps [simp]: "same_world w w" "same_world w (elapse w') = same_world w w'"
  by (simp_all add: same_world_def)

text \<open>The transaction after \<open>cs\<close> have been copied and the partitions \<open>ps\<close> created.\<close>

definition tx_after :: "ingest_batch \<Rightarrow> tx \<Rightarrow> entry list \<Rightarrow> (int \<times> int) list \<Rightarrow> tx" where
  "tx_after batch t cs ps = t\<lparr>tx_db := (tx_db t)\<lparr>log_entries := log_entries (tx_db t) @ map (copy_row batch) cs,
     partitions := partitions (tx_db t) @ ps\<rparr>\<rparr>"

lemma tx_after_Nil [simp]: "tx_after batch t [] [] = t"
  by (simp add: tx_after_def)

lemma tx_after_more:
  "tx_db (tx_after batch t cs ps) = (tx_db t)\<lparr>log_entries := log_entries (tx_db t) @ map (copy_row batch) cs,
     partitions := partitions (tx_db t) @ ps\<rparr>"
  "tx_now (tx_after batch t cs ps) = tx_now t"
  by (simp_all add: tx_after_def)

text \<open>Every dated row that was copied has a partition.\<close>

definition months_covered :: "entry list \<Rightarrow> (int \<times> int) list \<Rightarrow> bool" where
  "months_covered es ms \<longleftrightarrow> (\<forall>e\<in>set es. \<forall>t. e_TS e = Some t \<longrightarrow> month_of t \<in> set ms)"

definition in_span :: "time option \<Rightarrow> time option \<Rightarrow> entry list \<Rightarrow> bool" where
  "in_span lo hi es \<longleftrightarrow> (\<forall>e\<in>set es. \<forall>t. e_TS e = Some t \<longrightarrow> (\<exists>m M. lo = Some m \<and> hi = Some M \<and> m \<le> t \<and> t \<le> M))"

definition ingesting :: "world \<Rightarrow> ingest_batch \<Rightarrow> tx \<Rightarrow> entry list \<Rightarrow> ingest_state \<Rightarrow> bool" where
  "ingesting w batch t es s \<longleftrightarrow> same_world w (is_world s) \<and> in_span (is_minTS s) (is_maxTS s) es \<and>
     (\<exists>cs ps. es = cs @ is_pending s \<and> is_tx s = tx_after batch t cs ps \<and> is_copied s = length cs \<and>
        list_all row_ok (map (copy_row batch) cs) \<and> months_covered cs (partitions (tx_db t) @ ps))"

lemma create_partitions_Inr:
  "create_partitions yms d = Inr d' \<Longrightarrow> \<exists>ps. d' = d\<lparr>partitions := partitions d @ ps\<rparr> \<and> set yms \<subseteq> set (partitions d @ ps)"
proof (induction yms arbitrary: d)
  case Nil
  then show ?case by (intro exI [of _ "[]"]) simp
next
  case (Cons ym yms)
  then obtain d1 where d1: "create_partition ym d = Inr d1" "create_partitions yms d1 = Inr d'"
    by (auto split: sum.splits)
  then obtain qs where qs: "d1 = d\<lparr>partitions := partitions d @ qs\<rparr>" "ym \<in> set (partitions d @ qs)"
    by (cases "ym \<in> set (partitions d)")
      (auto simp: create_partition_def split: if_splits intro: that [of "[]"] that [of "[ym]"])
  from Cons.IH [OF d1(2)] qs obtain ps where "d' = d\<lparr>partitions := partitions d @ qs @ ps\<rparr>" "set yms \<subseteq> set (partitions d @ qs @ ps)"
    by auto
  with qs(2) show ?case by (intro exI [of _ "qs @ ps"]) auto
qed

lemma EnsurePartitions_run:
  assumes "run_state (EnsurePartitions t lo hi) w = (r, w')" "same_world w0 w"
  shows "same_world w0 w'"
    and "r = Inr (x, t') \<Longrightarrow> \<exists>ps. t' = t\<lparr>tx_db := (tx_db t)\<lparr>partitions := partitions (tx_db t) @ ps\<rparr>\<rparr> \<and>
      (\<forall>es. in_span lo hi es \<longrightarrow> months_covered es (partitions (tx_db t) @ ps))"
proof -
  show "same_world w0 w'"
    using assms by (auto simp: EnsurePartitions_def run_simps tx_exec_def Let_def split: option.splits)
  assume r: "r = Inr (x, t')"
  show "\<exists>ps. t' = t\<lparr>tx_db := (tx_db t)\<lparr>partitions := partitions (tx_db t) @ ps\<rparr>\<rparr> \<and>
      (\<forall>es. in_span lo hi es \<longrightarrow> months_covered es (partitions (tx_db t) @ ps))"
  proof (cases "lo = None \<or> hi = None")
    case True
    with assms(1) r have "t' = t" by (auto simp: EnsurePartitions_def run_simps split: option.splits)
    with True show ?thesis by (intro exI [of _ "[]"]) (auto simp: in_span_def months_covered_def)
  next
    case False
    then obtain m M where mM: "lo = Some m" "hi = Some M" by auto
    with assms(1) r obtain d' where
      d': "create_partitions (map index_month [month_index (month_of m)..month_index (month_of M)]) (tx_db t) = Inr d'"
      "t' = t\<lparr>tx_db := d'\<rparr>"
      by (auto simp: EnsurePartitions_def tx_exec_def s_EnsurePartitions_def Let_def split: if_splits sum.splits)
    from create_partitions_Inr [OF d'(1)] obtain ps where
      "d' = (tx_db t)\<lparr>partitions := partitions (tx_db t) @ ps\<rparr>"
      and cov: "set (map index_month [month_index (month_of m)..month_index (month_of M)]) \<subseteq> set (partitions (tx_db t) @ ps)"
      by blast
    moreover have "months_covered es (partitions (tx_db t) @ ps)" if "in_span lo hi es" for es
      using that mM cov month_in_span unfolding months_covered_def in_span_def by (metis option.inject subsetD)
    ultimately show ?thesis using d'(2) by auto
  qed
qed

lemma CopyEntries_run:
  assumes "run_state (CopyEntries t b es) w = (r, w')" "same_world w0 w" "es \<noteq> []"
  shows "same_world w0 w'"
    and "r = Inr (n, t') \<Longrightarrow> n = length es \<and> list_all row_ok (map (copy_row b) es) \<and>
      t' = t\<lparr>tx_db := (tx_db t)\<lparr>log_entries := log_entries (tx_db t) @ map (copy_row b) es\<rparr>\<rparr>"
  using assms
  by (auto simp: CopyEntries_def tx_exec_def s_CopyEntries_def Let_def split: if_splits)

lemma flush_ingesting:
  assumes "ingesting w batch t es s" "flush batch s = (x, s')"
  shows "case x of None \<Rightarrow> ingesting w batch t es s' \<and> is_pending s' = [] | Some _ \<Rightarrow> same_world w (is_world s')"
proof (cases "is_pending s = []")
  case True
  with assms show ?thesis by (auto simp: flush_def)
next
  case False
  from assms(1) obtain cs ps where i: "same_world w (is_world s)" "in_span (is_minTS s) (is_maxTS s) es"
    "es = cs @ is_pending s" "is_tx s = tx_after batch t cs ps" "is_copied s = length cs"
    "list_all row_ok (map (copy_row batch) cs)" "months_covered cs (partitions (tx_db t) @ ps)"
    unfolding ingesting_def by blast
  obtain r w1 where e: "run_state (EnsurePartitions (is_tx s) (is_minTS s) (is_maxTS s)) (is_world s) = (r, w1)"
    by (cases "run_state (EnsurePartitions (is_tx s) (is_minTS s) (is_maxTS s)) (is_world s)")
  note ep = EnsurePartitions_run [OF e i(1)]
  show ?thesis
  proof (cases r)
    case (Inl err)
    with assms(2) False e ep(1) show ?thesis by (auto simp: flush_def)
  next
    case (Inr a)
    then obtain u t1 where a: "r = Inr (u, t1)" by (cases a) auto
    from ep(2) [OF a] obtain qs where
      qs: "t1 = tx_after batch t cs (ps @ qs)" "months_covered es (partitions (tx_db t) @ ps @ qs)"
      using i(2,4) by (auto simp: tx_after_def)
    obtain q w2 where c: "run_state (CopyEntries t1 batch (is_pending s)) w1 = (q, w2)"
      by (cases "run_state (CopyEntries t1 batch (is_pending s)) w1")
    note cp = CopyEntries_run [OF c ep(1) False]
    show ?thesis
    proof (cases q)
      case (Inl err)
      with assms(2) False e a c cp(1) show ?thesis by (auto simp: flush_def)
    next
      case (Inr b)
      then obtain n t2 where b: "q = Inr (n, t2)" by (cases b) auto
      from cp(2) [OF b] have t2: "t2 = tx_after batch t es (ps @ qs)" "n = length (is_pending s)"
        "list_all row_ok (map (copy_row batch) es)"
        using qs(1) i(3,6) by (auto simp: tx_after_def)
      have "flush batch s = (None, s\<lparr>is_world := w2, is_tx := t2, is_pending := [], is_copied := is_copied s + n\<rparr>)"
        using False e a c b by (simp add: flush_def)
      with assms(2) t2 qs(2) i(2,3,5) cp(1) show ?thesis
        by (auto simp: ingesting_def intro!: exI [of _ "ps @ qs"])
    qed
  qed
qed

lemma track_span:
  assumes "in_span (is_minTS s) (is_maxTS s) es"
  shows "in_span (is_minTS (track e s)) (is_maxTS (track e s)) (es @ [e])"
proof -
  have le: "(\<exists>m M. is_minTS (track e s) = Some m \<and> is_maxTS (track e s) = Some M \<and> m \<le> t \<and> t \<le> M)"
    if "\<exists>m M. is_minTS s = Some m \<and> is_maxTS s = Some M \<and> m \<le> t \<and> t \<le> M" for t
    using that by (auto simp: track_def split: option.splits)
  moreover have "\<exists>m M. is_minTS (track e s) = Some m \<and> is_maxTS (track e s) = Some M \<and> m \<le> t \<and> t \<le> M" if "e_TS e = Some t" for t
    using that by (cases "is_minTS s"; cases "is_maxTS s") (auto simp: track_def)
  ultimately show ?thesis using assms by (auto simp: in_span_def)
qed

lemma track_simps [simp]:
  "is_world (track e s) = is_world s" "is_tx (track e s) = is_tx s" "is_pending (track e s) = is_pending s"
  "is_copied (track e s) = is_copied s"
  by (simp_all add: track_def split: option.splits)

lemma emit_ingesting:
  assumes "ingesting w batch t es s" "emit_entry batch e s = (x, s')"
  shows "case x of None \<Rightarrow> ingesting w batch t (es @ [e]) s' | Some _ \<Rightarrow> same_world w (is_world s')"
proof -
  let ?s = "(track e s)\<lparr>is_pending := is_pending s @ [e]\<rparr>"
  have "ingesting w batch t (es @ [e]) ?s"
    using assms(1) track_span [of s es e] unfolding ingesting_def by auto
  with flush_ingesting [OF this] assms(2) show ?thesis
    by (auto simp: emit_entry_def Let_def split: if_splits option.splits)
qed

lemma Parse_ingesting:
  assumes "zscaler_Parse clk b (emit_entry batch) s = Some ((st, err), b', s')" "ingesting w batch t [] s"
  shows "err = None \<Longrightarrow> LineCount st \<noteq> 0 \<Longrightarrow> \<exists>es. ingesting w batch t es s' \<and> counted es st"
    and "err \<noteq> None \<Longrightarrow> same_world w (is_world s')"
    and "err = None \<Longrightarrow> LineCount st = 0 \<Longrightarrow> ingesting w batch t [] s'"
proof -
  have c: "counted [] (count_line no_stats)" by (simp add: counted_def count_line_def no_stats_def)
  have sw: "same_world w (is_world s)" using assms(2) by (simp add: ingesting_def)
  consider "st = no_stats" "s' = s"
    | comma cols b1 where "parse_loop clk (emit_entry batch) comma cols 2 (count_line no_stats) b1 s = Some ((st, err), b', s')"
    using assms(1) by (auto simp: zscaler_Parse_def Let_def split: prod.splits sum.splits)
  note cases = this
  have loop: "case err of None \<Rightarrow> \<exists>es'. ingesting w batch t es' s' \<and> counted es' st | Some (Inl _) \<Rightarrow> False
      | Some (Inr _) \<Rightarrow> same_world w (is_world s')"
    if "parse_loop clk (emit_entry batch) comma cols 2 (count_line no_stats) b1 s = Some ((st, err), b', s')" for comma cols b1
    by (rule parse_loop_invariant [OF that, where J = "ingesting w batch t" and E = "\<lambda>s. same_world w (is_world s)"])
      (use emit_ingesting c assms(2) in auto)
  show "\<exists>es. ingesting w batch t es s' \<and> counted es st" if "err = None" "LineCount st \<noteq> 0"
    using cases loop that by (cases rule: cases) (auto simp: no_stats_def)
  show "same_world w (is_world s')" if e: "err \<noteq> None"
  proof (cases rule: cases)
    case 1
    with sw show ?thesis by simp
  next
    case 2
    from loop [OF 2] e show ?thesis by (auto split: option.splits sum.splits)
  qed
  show "ingesting w batch t [] s'" if "err = None" "LineCount st = 0"
    using cases loop that assms(2) by (cases rule: cases) (auto simp: counted_def)
qed

text \<open>The tables after a committed ingest.\<close>

definition with_rollups :: "uuid \<Rightarrow> db \<Rightarrow> db" where
  "with_rollups i d = d\<lparr>entry_rollups := fold (upsert rollup_pk) (rollup_rows ''hour'' i d)
       (fold (upsert rollup_pk) (rollup_rows ''minute'' i d) (entry_rollups d)),
     status_rollups := fold (upsert status_pk) (status_rows i d) (status_rollups d)\<rparr>"

definition committed :: "ingest_batch \<Rightarrow> upload \<Rightarrow> entry list \<Rightarrow> (int \<times> int) list \<Rightarrow> db \<Rightarrow> db" where
  "committed batch up es ps d = with_rollups (ib_UploadID batch) (d\<lparr>
     log_entries := log_entries d @ map (copy_row batch) es, partitions := partitions d @ ps, uploads := uploads d @ [up]\<rparr>)"

lemma dated_rows_other [simp]:
  "dated_rows i (d\<lparr>entry_rollups := x\<rparr>) = dated_rows i d" "dated_rows i (d\<lparr>status_rollups := y\<rparr>) = dated_rows i d"
  "dated_rows i (d\<lparr>uploads := u\<rparr>) = dated_rows i d" "dated_rows i (d\<lparr>partitions := p\<rparr>) = dated_rows i d"
  by (simp_all add: dated_rows_def)

lemma rollup_rows_other [simp]:
  "rollup_rows g i (d\<lparr>entry_rollups := x\<rparr>) = rollup_rows g i d" "status_rows i (d\<lparr>entry_rollups := x\<rparr>) = status_rows i d"
  by (simp_all add: rollup_rows_def status_rows_def)

lemma tx_exec_run:
  assumes "run_state (tx_exec t f) w = (r, w')"
  shows "same_world w w' \<and> (\<forall>x t'. r = Inr (x, t') \<longrightarrow> (\<exists>d. f (tx_db t) (tx_now t) = Inr (x, d) \<and> t' = t\<lparr>tx_db := d\<rparr>))"
  using assms by (auto simp: tx_exec_def Let_def split: sum.splits if_splits)

lemma same_world_trans: "same_world w v \<Longrightarrow> same_world v u \<Longrightarrow> same_world w u"
  by (simp add: same_world_def)

lemma s_BuildRollups_Inr:
  "s_BuildRollups g b d t = Inr (x, d') \<Longrightarrow>
     d' = d\<lparr>entry_rollups := fold (upsert rollup_pk) (rollup_rows g (ib_UploadID b) d) (entry_rollups d)\<rparr>"
  "s_buildStatusRollups b d t = Inr (x, d') \<Longrightarrow>
     d' = d\<lparr>status_rollups := fold (upsert status_pk) (status_rows (ib_UploadID b) d) (status_rollups d)\<rparr>"
  by (auto simp: s_BuildRollups_def s_buildStatusRollups_def Let_def split: if_splits)

lemma BuildRollups_run:
  assumes "run_state (BuildRollups t b) w = (r, w')"
  shows "same_world w w'" and "r = Inr (x, t') \<Longrightarrow> t' = t\<lparr>tx_db := with_rollups (ib_UploadID b) (tx_db t)\<rparr>"
proof -
  obtain r1 w1 where 1: "run_state (tx_exec t (s_BuildRollups ''minute'' b)) w = (r1, w1)"
    by (cases "run_state (tx_exec t (s_BuildRollups ''minute'' b)) w")
  have "same_world w w' \<and> (\<forall>x t'. r = Inr (x, t') \<longrightarrow> t' = t\<lparr>tx_db := with_rollups (ib_UploadID b) (tx_db t)\<rparr>)"
  proof (cases r1)
    case (Inl e)
    with assms 1 tx_exec_run [OF 1] show ?thesis by (auto simp: BuildRollups_def run_simps)
  next
    case (Inr y)
    then obtain y1 t1 where y: "r1 = Inr (y1, t1)" by (cases y) auto
    obtain r2 w2 where 2: "run_state (tx_exec t1 (s_BuildRollups ''hour'' b)) w1 = (r2, w2)"
      by (cases "run_state (tx_exec t1 (s_BuildRollups ''hour'' b)) w1")
    from tx_exec_run [OF 1] y obtain d1 where d1: "same_world w w1" "s_BuildRollups ''minute'' b (tx_db t) (tx_now t) = Inr (y1, d1)"
      "t1 = t\<lparr>tx_db := d1\<rparr>" by auto
    note d1' = s_BuildRollups_Inr(1) [OF d1(2)]
    show ?thesis
    proof (cases r2)
      case (Inl e)
      with assms 1 2 y have "r = Inl e" "w' = w2" by (auto simp: BuildRollups_def run_simps)
      with same_world_trans [OF d1(1)] tx_exec_run [OF 2] show ?thesis by auto
    next
      case (Inr z)
      then obtain z1 t2 where z: "r2 = Inr (z1, t2)" by (cases z) auto
      from tx_exec_run [OF 2] z obtain d2 where d2: "same_world w1 w2" "s_BuildRollups ''hour'' b d1 (tx_now t) = Inr (z1, d2)"
        "t2 = t\<lparr>tx_db := d2\<rparr>" using d1(3) by auto
      note d2' = s_BuildRollups_Inr(1) [OF d2(2)]
      from assms 1 2 y z have 3: "run_state (tx_exec t2 (s_buildStatusRollups b)) w2 = (r, w')"
        by (simp add: BuildRollups_def run_simps)
      note 3 = tx_exec_run [OF 3]
      have "same_world w w'" using d1(1) d2(1) 3 same_world_trans by blast
      moreover have "t' = t\<lparr>tx_db := with_rollups (ib_UploadID b) (tx_db t)\<rparr>" if "r = Inr (x, t')" for x t'
      proof -
        from 3 that d2(3) obtain d3 where "s_buildStatusRollups b d2 (tx_now t) = Inr (x, d3)" "t' = t\<lparr>tx_db := d3\<rparr>" by auto
        with s_BuildRollups_Inr(2) [OF this(1)] show ?thesis unfolding d2' d1' by (simp add: with_rollups_def)
      qed
      ultimately show ?thesis by blast
    qed
  qed
  then show "same_world w w'" and "r = Inr (x, t') \<Longrightarrow> t' = t\<lparr>tx_db := with_rollups (ib_UploadID b) (tx_db t)\<rparr>"
    by auto
qed

lemma CreateUpload_run:
  assumes "run_state (CreateUpload t u) w = (r, w')"
  shows "same_world w w'" and "r = Inr (v, t') \<Longrightarrow> v = u\<lparr>up_CreatedAt := tx_now t\<rparr> \<and> \<not> has_upload (up_ID u) (tx_db t) \<and>
    t' = t\<lparr>tx_db := (tx_db t)\<lparr>uploads := uploads (tx_db t) @ [v]\<rparr>\<rparr>"
  using tx_exec_run [OF assms [unfolded CreateUpload_def]]
  by (auto simp: s_CreateUpload_def Let_def split: if_splits)

lemma vc_CreateUpload:
  assumes "\<And>e w'. w_db w' = w_db w \<Longrightarrow> Q (Inl e) w'"
    and "\<And>v t' w'. w_db w' = w_db w \<Longrightarrow> v = u\<lparr>up_CreatedAt := tx_now t\<rparr> \<Longrightarrow> \<not> has_upload (up_ID u) (tx_db t) \<Longrightarrow>
      t' = t\<lparr>tx_db := (tx_db t)\<lparr>uploads := uploads (tx_db t) @ [v]\<rparr>\<rparr> \<Longrightarrow> Q (Inr (v, t')) w'"
  shows "wp (CreateUpload t u) Q w"
proof -
  obtain r w' where r: "run_state (CreateUpload t u) w = (r, w')" by (cases "run_state (CreateUpload t u) w")
  with CreateUpload_run [OF r] assms show ?thesis
    by (cases r) (auto simp: wp_def same_world_def)
qed

lemma vc_BuildRollups:
  assumes "\<And>e w'. w_db w' = w_db w \<Longrightarrow> Q (Inl e) w'"
    and "\<And>x t' w'. w_db w' = w_db w \<Longrightarrow> t' = t\<lparr>tx_db := with_rollups (ib_UploadID b) (tx_db t)\<rparr> \<Longrightarrow> Q (Inr (x, t')) w'"
  shows "wp (BuildRollups t b) Q w"
proof -
  obtain r w' where r: "run_state (BuildRollups t b) w = (r, w')" by (cases "run_state (BuildRollups t b) w")
  with BuildRollups_run [OF r] assms show ?thesis
    by (cases r) (auto simp: wp_def same_world_def)
qed

lemma vc_tx_commit:
  assumes "\<And>e w'. w_db w' = w_db w \<Longrightarrow> Q (Inl e) w'"
    and "\<And>e w'. w_db w' = tx_db t \<Longrightarrow> Q (Inl e) w'" and "\<And>w'. w_db w' = tx_db t \<Longrightarrow> Q (Inr ()) w'"
  shows "wp (tx_commit t) Q w"
  using assms by (auto simp: wp_tx_commit split: outcome.splits)

text \<open>An ingest of the caller: the row, the entries it counts, and what was derived from them.\<close>

definition ingested :: "ingest_batch \<Rightarrow> db \<Rightarrow> db \<Rightarrow> upload \<Rightarrow> entry list \<Rightarrow> bool" where
  "ingested batch d d' up es \<longleftrightarrow> up_ID up = ib_UploadID batch \<and> up_OrgID up = ib_OrgID batch \<and> up_UserID up = ib_UserID batch \<and>
     up_LineCount up = 1 + int (length es) \<and> up_ParsedCount up = int (length (filter Parsed es)) \<and>
     \<not> has_upload (ib_UploadID batch) d \<and> list_all row_ok (map (copy_row batch) es) \<and>
     (\<exists>ps. d' = committed batch up es ps d \<and> months_covered es (partitions d @ ps))"

lemma finish_run:
  assumes "finish_ingest a batch filename key format object st n s = (r, w')" and "ingesting w batch t es s"
    and "LineCount st \<noteq> 0 \<Longrightarrow> counted es st"
  shows "w_db w' = w_db w \<and> (\<exists>e. r = Inl e) \<or>
    (\<exists>up. ingested batch (tx_db t) (w_db w') up es \<and> (\<forall>res. r = Inr res \<longrightarrow> ir_upload res = up \<and> ir_entries res = length es))"
proof -
  obtain x s1 where f: "flush batch s = (x, s1)" by (cases "flush batch s")
  note fl = flush_ingesting [OF assms(2) f]
  show ?thesis
  proof (cases x)
    case (Some e)
    with fl have "same_world w (is_world s1)" by simp
    moreover obtain q w1 where q: "run_state (Put key object) (is_world s1) = (q, w1)"
      by (cases "run_state (Put key object) (is_world s1)")
    moreover have "w_db w1 = w_db (is_world s1)"
      using q by (auto simp: Put_def blob_do_def Let_def split: if_splits)
    ultimately show ?thesis using assms(1) f Some by (auto simp: finish_ingest_def same_world_def)
  next
    case None
    with fl obtain ps where i: "w_db (is_world s1) = w_db w" "is_tx s1 = tx_after batch t es ps" "is_copied s1 = length es"
      "list_all row_ok (map (copy_row batch) es)" "months_covered es (partitions (tx_db t) @ ps)"
      by (auto simp: ingesting_def same_world_def)
    let ?up = "\<lparr>up_ID = ib_UploadID batch, up_OrgID = ib_OrgID batch, up_UserID = ib_UserID batch,
                  up_Filename = filename, up_ByteSize = n, up_LineCount = LineCount st, up_ParsedCount = ParsedCount st,
                  up_Format = format, up_ObjectKey = key, up_CreatedAt = tx_now t\<rparr>"
    have ing: "ingested batch (tx_db t) (committed batch ?up es ps (tx_db t)) ?up es"
      if "LineCount st \<noteq> 0" "\<not> has_upload (ib_UploadID batch) (tx_db t)"
      using assms(3) [OF that(1)] that(2) i(4,5) by (auto simp: ingested_def counted_def)
    have com: "with_rollups (ib_UploadID batch) ((tx_db (is_tx s1))\<lparr>uploads := uploads (tx_db (is_tx s1)) @ [?up]\<rparr>) =
        committed batch ?up es ps (tx_db t)"
      by (simp add: i(2) tx_after_more committed_def)
    have fin: "ingested batch (tx_db t) (tx_db t2) upl es" if "LineCount st \<noteq> 0" "?up = upl"
      "\<not> has_upload (ib_UploadID batch) (tx_db (tx_after batch t es ps))"
      "(tx_after batch t es ps)\<lparr>tx_db := with_rollups (ib_UploadID batch)
        ((tx_db (tx_after batch t es ps))\<lparr>uploads := uploads (tx_db (tx_after batch t es ps)) @ [upl]\<rparr>)\<rparr> = t2" for upl t2
      using ing [OF that(1)] com [unfolded i(2)] that(2-4) by (auto simp: has_upload_def tx_after_more)
    let ?Q = "\<lambda>r w'. w_db w' = w_db w \<and> (\<exists>e. r = Inl e) \<or>
      (\<exists>up. ingested batch (tx_db t) (w_db w') up es \<and> (\<forall>res. r = Inr res \<longrightarrow> ir_upload res = up \<and> ir_entries res = length es))"
    have "wp (attempt (Put key object) (\<lambda>_. ret (Inl ArchiveFailed)) (\<lambda>_.
            if LineCount st = 0 then ret (Inl EmptyFile)
            else
              attempt (CreateUpload (is_tx s1) \<lparr>up_ID = ib_UploadID batch, up_OrgID = ib_OrgID batch, up_UserID = ib_UserID batch,
                  up_Filename = filename, up_ByteSize = n, up_LineCount = LineCount st, up_ParsedCount = ParsedCount st,
                  up_Format = format, up_ObjectKey = key, up_CreatedAt = 0\<rparr>)
                (\<lambda>e. ret (Inl (StoreFailed e))) (\<lambda>(upload, t).
              attempt (BuildRollups t batch) (\<lambda>e. ret (Inl (StoreFailed e))) (\<lambda>(_, t).
              attempt (tx_commit t) (\<lambda>e. ret (Inl (StoreFailed e))) (\<lambda>_.
                ret (Inr \<lparr>ir_upload = upload, ir_entries = is_copied s1\<rparr>)))))) ?Q (is_world s1)"
      unfolding Put_def
      by ((intro vc_rules vc_CreateUpload vc_BuildRollups vc_tx_commit)[1],
          simp_all add: i(1,3) i(2) tx_after_more(2)) ((rule disjI2, rule exI)?, erule (3) fin)+
    from wpD [OF this, of r w'] assms(1) f None show ?thesis by (simp add: finish_ingest_def)
  qed
qed

lemma registry_New: "Detect registry head = Some p \<Longrightarrow> Parse p = zscaler_Parse"
  by (auto simp: Detect_def registry_def Register_def New_def split: if_splits)

lemma Put_db: "run_state (Put key object) w = (q, w') \<Longrightarrow> w_db w' = w_db w"
  by (auto simp: Put_def blob_do_def Let_def split: if_splits)

lemma abort_db: "abort_ingest key object e w = (r, w') \<Longrightarrow> w_db w' = w_db w \<and> r = Inl e"
  by (auto simp: abort_ingest_def Put_aborted_def Let_def)

definition upload_batch :: "user \<Rightarrow> db \<Rightarrow> ingest_batch" where
  "upload_batch caller d = \<lparr>ib_UploadID = next_id d, ib_OrgID = u_OrgID caller, ib_UserID = u_ID caller\<rparr>"

definition reserved :: "db \<Rightarrow> db" where
  "reserved d = d\<lparr>next_id := Suc (next_id d)\<rparr>"

lemma ingest_run:
  assumes "ingest a caller filename part w = Some (r, w')"
  shows "w_db w' = reserved (w_db w) \<and> (\<exists>e. r = Inl e) \<or>
    (\<exists>up es. ingested (upload_batch caller (w_db w)) (reserved (w_db w)) (w_db w') up es \<and>
       (\<forall>res. r = Inr res \<longrightarrow> ir_upload res = up \<and> ir_entries res = length es))"
proof -
  define w1 where "w1 = w\<lparr>w_db := reserved (w_db w)\<rparr>"
  define key where "key = blob_Key (uuid_String a (u_OrgID caller)) (uuid_String a (u_ID caller))
    (uuid_String a (next_id (w_db w))) (w_now w)"
  define capped where "capped = \<lparr>cr_r = part, cr_limit = MaxUploadBytes (api_Cfg a), cr_read = 0\<rparr>"
  have start: "run_state (do { now \<leftarrow> time_Now; i \<leftarrow> uuid_New; ret (now, i) }) w = ((w_now w, next_id (w_db w)), w1)"
    by (simp add: run_simps quiet_uuid_New w1_def reserved_def)
  have db1: "w_db w1 = reserved (w_db w)" by (simp add: w1_def)
  obtain h b where h: "HeadReader (NewReader capped) 65536 = (h, b)" by (cases "HeadReader (NewReader capped) 65536")
  show ?thesis
  proof (cases h)
    case (Inl e)
    with assms start h have "abort_ingest key (seen part b) (read_failed e) w1 = (r, w')"
      by (simp add: ingest_def key_def capped_def Let_def)
    with abort_db [OF this] db1 show ?thesis by simp
  next
    case (Inr head)
    show ?thesis
    proof (cases "Detect (registry :: (ingest_state, store_err) registry) head")
      case None
      with assms start h Inr obtain b' q where "run_state (Put key (zstd_Encode a (seen part b'))) w1 = (q, w')" "r = Inl UnsupportedFormat"
        by (auto simp: ingest_def key_def capped_def Let_def split: prod.splits)
      with Put_db [OF this(1)] db1 show ?thesis by simp
    next
      case (Some p)
      obtain t w2 where t: "run_state Begin w1 = (t, w2)" by (cases "run_state Begin w1")
      then have db2: "w_db w2 = reserved (w_db w)"
        using db1 by (auto simp: Begin_def tx_begin_def Let_def)
      show ?thesis
      proof (cases t)
        case (Inl e)
        with assms start h Inr Some t have "abort_ingest key (seen part b) (StoreFailed e) w2 = (r, w')"
          by (simp add: ingest_def key_def capped_def Let_def)
        with abort_db [OF this] db2 show ?thesis by simp
      next
        case (Inr tx)
        with t have txdb: "tx_db tx = reserved (w_db w)"
          using db1 by (auto simp: Begin_def tx_begin_def Let_def split: if_splits)
        let ?s = "\<lparr>is_world = w2, is_tx = tx, is_pending = [], is_minTS = None, is_maxTS = None, is_copied = 0\<rparr>"
        let ?batch = "upload_batch caller (w_db w)"
        have start_inv: "ingesting w2 ?batch tx [] ?s"
          by (auto simp: ingesting_def in_span_def months_covered_def intro!: exI [of _ "[]"])
        obtain st err b2 s2 where p: "zscaler_Parse (\<lambda>s. w_now (is_world s)) b (emit_entry ?batch) ?s = Some ((st, err), b2, s2)"
          and rest: "Some (r, w') = (case err of
              Some (Inl e) \<Rightarrow> Some (abort_ingest key (seen part b2) (read_failed e) (is_world s2))
            | Some (Inr e) \<Rightarrow> Some (abort_ingest key (seen part b2) (StoreFailed e) (is_world s2))
            | None \<Rightarrow> Some (finish_ingest a ?batch filename key (Key p) (zstd_Encode a (seen part b2)) st (cr_read (b_rd b2)) s2))"
          using assms start h \<open>h = Inr head\<close> Some t Inr registry_New [OF Some]
          by (auto simp: ingest_def key_def capped_def upload_batch_def Let_def split: option.splits sum.splits)
        note inv = Parse_ingesting [OF p start_inv]
        show ?thesis
        proof (cases err)
          case (Some x)
          with inv(2) have "w_db (is_world s2) = reserved (w_db w)" using db2 by (simp add: same_world_def)
          with rest Some abort_db [of key _ _ "is_world s2" r w'] show ?thesis by (cases x) auto
        next
          case None
          with rest have f: "finish_ingest a ?batch filename key (Key p) (zstd_Encode a (seen part b2)) st (cr_read (b_rd b2)) s2 = (r, w')"
            by simp
          obtain es where es: "ingesting w2 ?batch tx es s2" "LineCount st \<noteq> 0 \<Longrightarrow> counted es st"
            using inv(1,3) None by (cases "LineCount st = 0") auto
          from finish_run [OF f es(1) es(2)] db2 txdb show ?thesis by auto
        qed
      qed
    qed
  qed
qed

section \<open>What a committed ingest looks like\<close>

text \<open>The id of a new upload is used by no row yet.\<close>

definition upload_id_fresh :: "db \<Rightarrow> bool" where
  "upload_id_fresh d \<longleftrightarrow> (\<forall>l\<in>set (log_entries d). l_upload_id l < next_id d) \<and>
     (\<forall>r\<in>set (entry_rollups d). r_upload_id r < next_id d) \<and> (\<forall>r\<in>set (status_rollups d). s_upload_id r < next_id d)"

lemma committed_tables [simp]:
  "uploads (committed batch up es ps d) = uploads d @ [up]"
  "log_entries (committed batch up es ps d) = log_entries d @ map (copy_row batch) es"
  "partitions (committed batch up es ps d) = partitions d @ ps"
  "users (committed batch up es ps d) = users d" "organizations (committed batch up es ps d) = organizations d"
  "access_grants (committed batch up es ps d) = access_grants d" "audit_log (committed batch up es ps d) = audit_log d"
  "analyses (committed batch up es ps d) = analyses d" "next_id (committed batch up es ps d) = next_id d"
  by (simp_all add: committed_def with_rollups_def)

lemma reserved_tables [simp]:
  "uploads (reserved d) = uploads d" "log_entries (reserved d) = log_entries d" "partitions (reserved d) = partitions d"
  "users (reserved d) = users d" "organizations (reserved d) = organizations d" "access_grants (reserved d) = access_grants d"
  "audit_log (reserved d) = audit_log d" "analyses (reserved d) = analyses d" "entry_rollups (reserved d) = entry_rollups d"
  "status_rollups (reserved d) = status_rollups d" "next_id (reserved d) = Suc (next_id d)"
  by (simp_all add: reserved_def)

lemma copy_row_simps [simp]:
  "l_upload_id (copy_row b e) = ib_UploadID b" "l_org_id (copy_row b e) = ib_OrgID b" "l_user_id (copy_row b e) = ib_UserID b"
  "l_ts (copy_row b e) = map_option timestamptz (e_TS e)" "l_resp_code (copy_row b e) = e_RespCode e"
  by (simp_all add: copy_row_def)

lemma upload_batch_simps [simp]:
  "ib_UploadID (upload_batch caller d) = next_id d" "ib_OrgID (upload_batch caller d) = u_OrgID caller"
  "ib_UserID (upload_batch caller d) = u_ID caller"
  by (simp_all add: upload_batch_def)

lemma rollup_rows_id: "r \<in> set (rollup_rows g i d) \<Longrightarrow> r_upload_id r = i \<and> r_grain r = g"
  by (auto simp: rollup_rows_def set_group_by rollup_row_def rollup_key_def dated_rows_def select_def Let_def)

lemma filter_rollup_rows:
  "filter (\<lambda>r. r_upload_id r = i \<and> r_grain r = g) (rollup_rows g' i d) = (if g' = g then rollup_rows g' i d else [])"
  by (auto simp: filter_empty_conv filter_id_conv dest!: rollup_rows_id)

lemma rollups_committed:
  assumes "\<forall>r\<in>set (entry_rollups d). r_upload_id r \<noteq> i" "entry_rollups d' = entry_rollups d"
  shows "entry_rollups (with_rollups i d') = entry_rollups d' @ rollup_rows ''minute'' i d' @ rollup_rows ''hour'' i d'"
proof -
  have 1: "fold (upsert rollup_pk) (rollup_rows ''minute'' i d') (entry_rollups d') = entry_rollups d' @ rollup_rows ''minute'' i d'"
    using assms by (intro fold_upsert_fresh distinct_rollup_pk) (auto simp: rollup_pk_def dest: rollup_rows_id)
  have "fold (upsert rollup_pk) (rollup_rows ''hour'' i d') (entry_rollups d' @ rollup_rows ''minute'' i d') =
    (entry_rollups d' @ rollup_rows ''minute'' i d') @ rollup_rows ''hour'' i d'"
    using assms by (intro fold_upsert_fresh distinct_rollup_pk) (auto simp: rollup_pk_def dest!: rollup_rows_id)
  with 1 show ?thesis by (simp add: with_rollups_def)
qed

text \<open>
  Claim C4: whatever calls fail and whatever is uploaded, an ingest that returns has either
  written no row at all, and then it reports an error, or committed a whole upload of the caller's
  with every entry the parser emitted, in their order, one fewer than its line count. When it
  reports success the upload it reports is that one.
\<close>

theorem Ingest_atomic:
  assumes "ingest a caller filename part w = Some (r, w')"
  shows "w_db w' = reserved (w_db w) \<and> (\<exists>e. r = Inl e) \<or>
    (\<exists>up es. uploads (w_db w') = uploads (w_db w) @ [up] \<and> up_ID up = next_id (w_db w) \<and>
       up_OrgID up = u_OrgID caller \<and> up_UserID up = u_ID caller \<and>
       log_entries (w_db w') = log_entries (w_db w) @ map (copy_row (upload_batch caller (w_db w))) es \<and>
       up_LineCount up = 1 + int (length es) \<and> up_ParsedCount up = int (length (filter Parsed es)) \<and>
       users (w_db w') = users (w_db w) \<and> access_grants (w_db w') = access_grants (w_db w) \<and> audit_log (w_db w') = audit_log (w_db w) \<and>
       (\<forall>res. r = Inr res \<longrightarrow> ir_upload res = up \<and> ir_entries res = length es))"
  using ingest_run [OF assms] by (fastforce simp: ingested_def)

text \<open>
  Claim C16: the rollups never disagree with the rows. For the upload a successful ingest
  reports, at either grain, the requests, failures and bytes of its buckets add up to those of
  its dated entries.
\<close>

theorem Rollups_agree:
  assumes "ingest a caller filename part w = Some (Inr res, w')" and "upload_id_fresh (w_db w)" and "g \<in> {''minute'', ''hour''}"
  defines "buckets \<equiv> filter (\<lambda>r. r_upload_id r = up_ID (ir_upload res) \<and> r_grain r = g) (entry_rollups (w_db w'))"
    and "rows \<equiv> filter (\<lambda>l. l_upload_id l = up_ID (ir_upload res) \<and> l_ts l \<noteq> None) (log_entries (w_db w'))"
  shows "(\<Sum>r\<leftarrow>buckets. r_requests r) = int (length rows) \<and>
    (\<Sum>r\<leftarrow>buckets. r_errors r) = int (length (filter is_error rows)) \<and>
    (\<Sum>r\<leftarrow>buckets. r_bytes_in r) = (\<Sum>l\<leftarrow>rows. coalesce 0 (l_resp_bytes l)) \<and>
    (\<Sum>r\<leftarrow>buckets. r_bytes_out r) = (\<Sum>l\<leftarrow>rows. coalesce 0 (l_req_bytes l)) \<and>
    (\<Sum>r\<leftarrow>buckets. r_cache_hits r) = int (length (filter is_hit rows))"
proof -
  let ?d = "w_db w" and ?b = "upload_batch caller (w_db w)"
  from ingest_run [OF assms(1)] obtain up es ps where
    up: "ir_upload res = up" "up_ID up = next_id ?d" and d': "w_db w' = committed ?b up es ps (reserved ?d)"
    by (auto simp: ingested_def)
  let ?d1 = "(reserved ?d)\<lparr>log_entries := log_entries ?d @ map (copy_row ?b) es, partitions := partitions ?d @ ps, uploads := uploads ?d @ [up]\<rparr>"
  have fresh: "\<forall>l\<in>set (log_entries ?d). l_upload_id l \<noteq> next_id ?d" "\<forall>r\<in>set (entry_rollups ?d). r_upload_id r \<noteq> next_id ?d"
    using assms(2) by (auto simp: upload_id_fresh_def)
  have "entry_rollups (w_db w') = entry_rollups ?d @ rollup_rows ''minute'' (next_id ?d) ?d1 @ rollup_rows ''hour'' (next_id ?d) ?d1"
    using rollups_committed [OF fresh(2), of ?d1] by (simp add: d' committed_def)
  then have b: "buckets = rollup_rows g (next_id ?d) ?d1"
    using fresh(2) assms(3) unfolding buckets_def up
    by (auto simp: filter_rollup_rows filter_empty_conv)
  have r: "rows = dated_rows (next_id ?d) ?d1"
    unfolding rows_def up by (simp add: d' dated_rows_def select_def)
  show ?thesis
    unfolding b r by (intro conjI rollup_totals)
qed

end
