(* ===== verification/Ingest_Complete.thy ===== *)
theory Ingest_Complete
  imports Ingest_Proofs
begin

text \<open>
  An ingest of a good file succeeds when no call fails: every statement it issues is accepted,
  and the rows it commits are those of the file.
\<close>

section \<open>No statement is refused\<close>

lemma partitioned_tx_after:
  "partitioned (tx_db t) \<Longrightarrow> months_covered cs (partitions (tx_db t) @ ps) \<Longrightarrow> partitioned (tx_db (tx_after batch t cs ps))"
  by (fastforce simp: partitioned_def tx_after_def months_covered_def copy_row_def)

lemma quiet_EnsurePartitions:
  assumes "quiet w" "partitioned (tx_db t)"
  shows "\<exists>ps. run_state (EnsurePartitions t lo hi) w = (Inr ((), t\<lparr>tx_db := (tx_db t)\<lparr>partitions := partitions (tx_db t) @ ps\<rparr>\<rparr>), w)"
proof (cases "lo = None \<or> hi = None")
  case True
  then have "run_state (EnsurePartitions t lo hi) w = (Inr ((), t), w)"
    by (auto simp: EnsurePartitions_def run_simps split: option.splits)
  then show ?thesis by (intro exI [of _ "[]"]) simp
next
  case False
  then obtain m M where mM: "lo = Some m" "hi = Some M" by auto
  from create_partitions_ok [OF assms(2)] obtain ps where
    "create_partitions (map index_month [month_index (month_of m)..month_index (month_of M)]) (tx_db t) =
      Inr ((tx_db t)\<lparr>partitions := partitions (tx_db t) @ ps\<rparr>)" by blast
  with assms(1) mM show ?thesis
    by (intro exI [of _ ps]) (simp add: EnsurePartitions_def quiet_run s_EnsurePartitions_def)
qed

lemma quiet_flush:
  assumes "ingesting w batch t es s" "quiet (is_world s)" "partitioned (tx_db t)" "list_all row_ok (map (copy_row batch) es)"
  shows "\<exists>s'. flush batch s = (None, s') \<and> is_world s' = is_world s"
proof (cases "is_pending s = []")
  case True
  then show ?thesis by (simp add: flush_def)
next
  case False
  from assms(1) obtain cs ps where i: "es = cs @ is_pending s" "is_tx s = tx_after batch t cs ps"
    "months_covered cs (partitions (tx_db t) @ ps)" unfolding ingesting_def by blast
  have "partitioned (tx_db (is_tx s))" unfolding i(2) by (rule partitioned_tx_after [OF assms(3) i(3)])
  from quiet_EnsurePartitions [OF assms(2) this] obtain qs where
    q: "run_state (EnsurePartitions (is_tx s) (is_minTS s) (is_maxTS s)) (is_world s) =
      (Inr ((), (is_tx s)\<lparr>tx_db := (tx_db (is_tx s))\<lparr>partitions := partitions (tx_db (is_tx s)) @ qs\<rparr>\<rparr>), is_world s)" by blast
  have ok: "list_all row_ok (map (copy_row batch) (is_pending s))" using assms(4) i(1) by simp
  show ?thesis
    using False assms(2) ok by (simp add: flush_def q CopyEntries_def quiet_run s_CopyEntries_def Let_def)
qed

lemma quiet_emit:
  assumes "ingesting w batch t es s" "quiet (is_world s)" "partitioned (tx_db t)" "list_all row_ok (map (copy_row batch) (es @ [e]))"
  shows "\<exists>s'. emit_entry batch e s = (None, s') \<and> is_world s' = is_world s \<and> ingesting w batch t (es @ [e]) s'"
proof -
  let ?s = "(track e s)\<lparr>is_pending := is_pending s @ [e]\<rparr>"
  have i: "ingesting w batch t (es @ [e]) ?s"
    using assms(1) track_span [of s es e] unfolding ingesting_def by auto
  have q: "quiet (is_world ?s)" using assms(2) by simp
  from quiet_flush [OF i q assms(3,4)] obtain s1 where "flush batch ?s = (None, s1)" "is_world s1 = is_world s" by auto
  then have "\<exists>s'. emit_entry batch e s = (None, s') \<and> is_world s' = is_world s"
    by (auto simp: emit_entry_def Let_def)
  then show ?thesis using emit_ingesting [OF assms(1), of e] by fastforce
qed

text \<open>The entries of the rows of a file, read at \<open>now\<close>.\<close>

definition entries_of :: "time \<Rightarrow> columns \<Rightarrow> char \<Rightarrow> int \<Rightarrow> string list list \<Rightarrow> entry list" where
  "entries_of now cols comma n rows = map (\<lambda>(i, row). buildEntry now (n + int i) row cols comma) (List.enumerate 0 rows)"

lemma entries_of_simps [simp]:
  "entries_of now cols comma n [] = []"
  "entries_of now cols comma n (row # rows) = buildEntry now n row cols comma # entries_of now cols comma (n + 1) rows"
  by (simp_all add: entries_of_def enumerate_Suc_eq o_def split_beta algebra_simps)

lemma length_entries_of [simp]: "length (entries_of now cols comma n rows) = length rows"
  by (simp add: entries_of_def)

lemma quiet_emit_rows:
  assumes "ingesting w batch t es s" "quiet (is_world s)" "partitioned (tx_db t)" "counted es st"
    and "list_all row_ok (map (copy_row batch) (es @ entries_of (w_now (is_world s)) cols comma n rows))"
  shows "\<exists>st' s'. emit_rows (\<lambda>s. w_now (is_world s)) (emit_entry batch) comma cols n st rows s = ((st', None), s') \<and>
    is_world s' = is_world s \<and> ingesting w batch t (es @ entries_of (w_now (is_world s)) cols comma n rows) s' \<and>
    counted (es @ entries_of (w_now (is_world s)) cols comma n rows) st'"
  using assms
proof (induction rows arbitrary: es s n st)
  case Nil
  then show ?case by auto
next
  case (Cons row rows)
  let ?e = "buildEntry (w_now (is_world s)) n row cols comma"
  have "list_all row_ok (map (copy_row batch) (es @ [?e]))" using Cons.prems(5) by simp
  from quiet_emit [OF Cons.prems(1-3) this] obtain s1 where
    s1: "emit_entry batch ?e s = (None, s1)" "is_world s1 = is_world s" "ingesting w batch t (es @ [?e]) s1" by blast
  have "list_all row_ok (map (copy_row batch) ((es @ [?e]) @ entries_of (w_now (is_world s1)) cols comma (n + 1) rows))"
    using Cons.prems(5) s1(2) by simp
  from Cons.IH [OF s1(3) _ Cons.prems(3) counted_row [OF Cons.prems(4), of ?e] this] Cons.prems(2) s1
  show ?case by (simp add: Let_def)
qed

lemma sizes_filter: "sizes f (filter p ls) \<le> sizes f ls"
  by (induction ls) (auto simp: sizes_def)

lemma quiet_BuildRollups: "quiet w \<Longrightarrow> has_upload (ib_UploadID b) (tx_db t) \<Longrightarrow>
  (\<And>g. list_all rollup_ok (rollup_rows g (ib_UploadID b) (tx_db t))) \<Longrightarrow>
  run_state (BuildRollups t b) w = (Inr ((), t\<lparr>tx_db := with_rollups (ib_UploadID b) (tx_db t)\<rparr>), w)"
  by (simp add: BuildRollups_def quiet_run s_BuildRollups_def s_buildStatusRollups_def Let_def with_rollups_def has_upload_def)

section \<open>The bytes a reader hands on\<close>

text \<open>
  What was read through the cap and what the source still holds add up to the same count,
  whatever is read; when the parser has met the end nothing is left, so it has read, and the
  archive received, the whole body.
\<close>

definition handed :: "bufio \<Rightarrow> int" where
  "handed b = cr_read (b_rd b) + int (length (source_bytes (cr_r (b_rd b))))"

lemma handed_fill [simp]: "handed (fill b) = handed b"
  by (cases "src_chunks (cr_r (b_rd b))")
    (auto simp: handed_def fill_def cap_Read_def source_Read_def Let_def source_bytes_def split: prod.splits)

lemma handed_buf [simp]: "handed (b\<lparr>b_buf := x\<rparr>) = handed b" "handed (b\<lparr>b_err := y\<rparr>) = handed b"
  by (simp_all add: handed_def)

lemma handed_Peek: "Peek n b = (l, e, b') \<Longrightarrow> handed b' = handed b"
proof (induction n b rule: Peek.induct)
  case (1 n b)
  then show ?case
    by (cases "length (b_buf b) \<ge> n"; cases "b_err b") (auto simp: Peek.simps [of n b])
qed

lemma handed_ReadSlice: "ReadSlice b = (l, e, b') \<Longrightarrow> handed b' = handed b"
proof (induction b rule: ReadSlice.induct)
  case (1 b)
  then show ?case
    by (cases "IndexByte (b_buf b) CHR 0x0A"; cases "b_err b")
      (auto simp: ReadSlice.simps [of b] simp del: IndexByte_None)
qed

lemma handed_readLine: "readLine b = (l, e, b') \<Longrightarrow> handed b' = handed b"
  by (cases "ReadSlice b") (auto simp: readLine_def Let_def dest: handed_ReadSlice)

lemma handed_next_line: "next_line b = (l, e, b') \<Longrightarrow> handed b' = handed b"
proof (induction b rule: next_line.induct)
  case (1 b)
  obtain l1 e1 b1 where r: "readLine b = (l1, e1, b1)" by (cases "readLine b")
  show ?case
  proof (cases "e1 = None \<and> length l1 = lengthNL l1")
    case True
    with 1(2) r have "next_line b1 = (l, e, b')" by (simp add: next_line.simps [of b])
    from 1(1) [OF r [symmetric] refl True this] handed_readLine [OF r] show ?thesis by simp
  next
    case False
    with 1(2) r handed_readLine [OF r] show ?thesis by (auto simp: next_line.simps [of b] split: if_splits)
  qed
qed

lemma handed_parse:
  "parse_field comma row line err b = (r, e, b') \<Longrightarrow> handed b' = handed b"
  "parse_quoted comma row acc line err b = (r, e, b') \<Longrightarrow> handed b' = handed b"
proof (induction comma row line err b and comma row acc line err b rule: parse_field_parse_quoted.induct)
  case (1 comma row line errRead b)
  then show ?case by (auto simp: parse_field.simps [of comma row line] split: if_splits option.splits)
next
  case (2 comma row acc line errRead b)
  show ?case
  proof (cases "IndexByte line dquote")
    case (Some i)
    with 2(2-4) [OF Some refl refl] 2(5-) show ?thesis
      by (auto simp: parse_quoted.simps [of comma row acc line] Let_def split: if_splits)
  next
    case None
    obtain l1 e1 b1 where r: "readLine b = (l1, e1, b1)" by (cases "readLine b")
    show ?thesis
    proof (cases "line \<noteq> [] \<and> errRead = None")
      case False
      with 2(5-) None show ?thesis
        by (cases "line = []") (auto simp: parse_quoted.simps [of comma row acc line] parse_quoted.simps [of comma row acc "[]"] simp del: IndexByte_None)
    next
      case True
      then have c: "line \<noteq> []" "\<not> errRead \<noteq> None" by auto
      from 2(1) [OF None c r [symmetric] refl] 2(5-) True None r handed_readLine [OF r] show ?thesis
        by (auto simp: parse_quoted.simps [of comma row acc line] simp del: IndexByte_None)
    qed
  qed
qed

lemma handed_csv_Read: "csv_Read comma b = (r, b') \<Longrightarrow> handed b' = handed b"
  by (auto simp: csv_Read_def split: prod.splits if_splits option.splits dest!: handed_next_line handed_parse(1))

lemma next_line_EOF: "good b \<Longrightarrow> next_line b = (l, Some EOF, b') \<Longrightarrow> remaining b' = []"
proof (induction b rule: next_line.induct)
  case (1 b)
  obtain l1 e1 b1 where r: "readLine b = (l1, e1, b1)" by (cases "readLine b")
  then obtain l2 e2 where s: "ReadSlice b = (l2, e2, b1)" by (auto simp: readLine_def Let_def split: prod.splits)
  with ReadSlice_good [OF 1(2)] have g: "good b1" "e2 = Some EOF \<Longrightarrow> remaining b1 = []"
    by (cases "IndexByte (remaining b) newline"; auto simp del: IndexByte_None)+
  show ?case
  proof (cases "e1 = None \<and> length l1 = lengthNL l1")
    case True
    with 1(3) r have "next_line b1 = (l, Some EOF, b')" by (simp add: next_line.simps [of b])
    from 1(1) [OF r [symmetric] refl True g(1) this] show ?thesis .
  next
    case False
    with 1(3) r s g(2) show ?thesis
      by (auto simp: next_line.simps [of b] readLine_def Let_def split: if_splits)
  qed
qed

lemma csv_Read_EOF: "good b \<Longrightarrow> csv_Read comma b = (Inl EOF, b') \<Longrightarrow> remaining b' = []"
proof -
  assume g: "good b" and r: "csv_Read comma b = (Inl EOF, b')"
  obtain l1 e1 b1 where b: "next_line b = (l1, e1, b1)" by (cases "next_line b")
  obtain l2 e2 b2 where b2: "parse_field comma [] l1 None b1 = (l2, e2, b2)" by (cases "parse_field comma [] l1 None b1")
  from next_line_alike [OF alike_refl [OF g] b b] have e1: "e1 = None \<or> e1 = Some EOF" "alike b1 b1" by auto
  show "remaining b' = []"
  proof (cases "e1 = None")
    case True
    with parse_alike(1) [OF e1(2) b2 b2] r b b2 show ?thesis by (simp add: csv_Read_def)
  next
    case False
    with e1(1) b r next_line_EOF [OF g, of l1 b1] show ?thesis by (simp add: csv_Read_def)
  qed
qed

lemma parse_loop_drained:
  assumes "parse_loop clk emit comma cols n st b s = Some ((st', None), b', s')" "good b"
  shows "handed b' = handed b \<and> remaining b' = []"
proof -
  have "parse_loop clk emit comma cols n st b s = Some r \<Longrightarrow> snd (fst r) = None \<longrightarrow> good b \<longrightarrow>
    handed (fst (snd r)) = handed b \<and> remaining (fst (snd r)) = []" for r
  proof (induction rule: parse_loop.raw_induct [rotated, consumes 1, case_names step])
    case (step parse_loop clk emit comma cols n st b s r)
    show ?case
    proof (intro impI)
      assume e: "snd (fst r) = None" and g: "good b"
      obtain q b1 where q: "csv_Read comma b = (q, b1)" by (cases "csv_Read comma b")
      note g1 = good_csv_Read [OF g q] handed_csv_Read [OF q]
      show "handed (fst (snd r)) = handed b \<and> remaining (fst (snd r)) = []"
      proof (cases q)
        case (Inl x)
        with g1 have "x = EOF" by auto
        with step(2) q Inl g1 csv_Read_EOF [OF g, of comma b1] show ?thesis by auto
      next
        case (Inr row)
        let ?e = "buildEntry (clk s) n row cols comma"
        obtain y s1 where y: "emit ?e s = (y, s1)" by (cases "emit ?e s")
        with step(2) q Inr e have "y = None" by (auto simp: Let_def split: option.splits)
        with step(2) q Inr y e g1 step(1) [of clk emit comma cols "n + 1" "count_parsed ?e (count_line st)" b1 s1 r]
        show ?thesis by (auto simp: Let_def)
      qed
    qed
  qed
  from this [OF assms(1)] assms(2) show ?thesis by simp
qed

lemma Parse_drained:
  assumes "zscaler_Parse clk b emit s = Some ((st, None), b', s')" "good b"
  shows "handed b' = handed b \<and> remaining b' = []"
proof -
  obtain l e b0 where p: "Peek 65536 b = (l, e, b0)" "alike b b0" using good_Peek [OF assms(2), of 65536] by blast
  then have g: "good b0" "handed b0 = handed b" by (auto simp: alike_def dest: handed_Peek)
  from good_Peek [OF assms(2), of 65536] p(1) have e: "e = None \<or> e = Some EOF" by auto
  then have h: "HeadReader b 65536 = (Inr l, b0)" using p(1) by (auto simp: HeadReader_def)
  let ?c = "detectDelimiter (fst (Cut l [newline]))"
  obtain q b1 where q: "csv_Read ?c b0 = (q, b1)" by (cases "csv_Read ?c b0")
  note g1 = good_csv_Read [OF g(1) q] handed_csv_Read [OF q]
  show ?thesis
  proof (cases q)
    case (Inl x)
    with assms(1) h q g1 g(2) csv_Read_EOF [OF g(1), of ?c b1] show ?thesis by (auto simp: zscaler_Parse_def Let_def)
  next
    case (Inr row)
    with assms(1) h q have "parse_loop clk emit ?c (buildColumnMap row) 2 (count_line no_stats) b1 s = Some ((st, None), b', s')"
      by (simp add: zscaler_Parse_def Let_def)
    from parse_loop_drained [OF this] g1 g(2) show ?thesis by simp
  qed
qed

section \<open>A whole ingest\<close>

text \<open>What the client has to bring: a reader that ends under the limit, and a body the parser takes.\<close>

definition upload_reader :: "api \<Rightarrow> source \<Rightarrow> bufio" where
  "upload_reader a part = NewReader \<lparr>cr_r = part, cr_limit = MaxUploadBytes (api_Cfg a), cr_read = 0\<rparr>"

definition file_columns :: "string \<Rightarrow> columns" where
  "file_columns file = (case csv_records (delimiter file) (reader_of file) of [] \<Rightarrow> Map.empty | h # _ \<Rightarrow> buildColumnMap h)"

definition file_entries :: "time \<Rightarrow> string \<Rightarrow> entry list" where
  "file_entries now file = (case csv_records (delimiter file) (reader_of file) of
     [] \<Rightarrow> [] | h # rows \<Rightarrow> entries_of now (buildColumnMap h) (delimiter file) 2 rows)"

definition well_formed_upload :: "api \<Rightarrow> user \<Rightarrow> string \<Rightarrow> source \<Rightarrow> world \<Rightarrow> bool" where
  "well_formed_upload a caller filename part w \<longleftrightarrow> good (upload_reader a part) \<and> text_ok filename \<and>
     zscaler_Sniff (take 65536 (source_bytes part)) \<and>
     csv_records (delimiter (source_bytes part)) (reader_of (source_bytes part)) \<noteq> [] \<and>
     (let rows = map (copy_row (upload_batch caller (w_db w))) (file_entries (w_now w) (source_bytes part))
      in list_all row_ok rows \<and> sizes l_resp_bytes rows < 2 ^ 63 \<and> sizes l_req_bytes rows < 2 ^ 63)"

definition can_ingest :: "user \<Rightarrow> db \<Rightarrow> bool" where
  "can_ingest caller d \<longleftrightarrow> partitioned d \<and> \<not> has_upload (next_id d) d \<and> (\<forall>l\<in>set (log_entries d). l_upload_id l \<noteq> next_id d) \<and>
     list_ex (\<lambda>r. u_ID r = u_ID caller) (users d) \<and> list_ex (\<lambda>r. o_ID r = u_OrgID caller) (organizations d)"

lemma quiet_finish:
  assumes q: "quiet (is_world s)" and i: "ingesting w batch t es s" "counted es st" "partitioned (tx_db t)"
    and ok: "list_all row_ok (map (copy_row batch) es)" "text_ok filename" "\<not> has_upload (ib_UploadID batch) (tx_db t)"
      "list_ex (\<lambda>r. u_ID r = ib_UserID batch) (users (tx_db t))" "list_ex (\<lambda>r. o_ID r = ib_OrgID batch) (organizations (tx_db t))"
      "\<forall>l\<in>set (log_entries (tx_db t)). l_upload_id l \<noteq> ib_UploadID batch"
      "sizes l_resp_bytes (map (copy_row batch) es) < 2 ^ 63" "sizes l_req_bytes (map (copy_row batch) es) < 2 ^ 63"
  shows "\<exists>up w'. finish_ingest a batch filename key format object st n s = (Inr \<lparr>ir_upload = up, ir_entries = length es\<rparr>, w') \<and>
    w_blob w' = (w_blob (is_world s))(key \<mapsto> object) \<and> up_ObjectKey up = key \<and> up_Filename up = filename \<and> up_ByteSize up = n"
proof -
  from quiet_flush [OF i(1) q i(3) ok(1)] obtain s1 where f: "flush batch s = (None, s1)" "is_world s1 = is_world s" by blast
  with flush_ingesting [OF i(1) f(1)] obtain ps where
    t1: "is_tx s1 = tx_after batch t es ps" "is_copied s1 = length es" unfolding ingesting_def by auto
  have st: "LineCount st \<noteq> 0" using i(2) by (simp add: counted_def)
  let ?up = "\<lparr>up_ID = ib_UploadID batch, up_OrgID = ib_OrgID batch, up_UserID = ib_UserID batch,
                  up_Filename = filename, up_ByteSize = n, up_LineCount = LineCount st, up_ParsedCount = ParsedCount st,
                  up_Format = format, up_ObjectKey = key, up_CreatedAt = tx_now t\<rparr>"
  have "\<not> has_upload (ib_UploadID batch) (tx_db (is_tx s1))" "users (tx_db (is_tx s1)) = users (tx_db t)"
    "organizations (tx_db (is_tx s1)) = organizations (tx_db t)" "tx_now (is_tx s1) = tx_now t"
    using ok(3) by (simp_all add: t1 tx_after_more has_upload_def)
  then have c: "quiet v \<Longrightarrow> run_state (CreateUpload (is_tx s1) (?up\<lparr>up_CreatedAt := 0\<rparr>)) v =
    (Inr (?up, (is_tx s1)\<lparr>tx_db := (tx_db (is_tx s1))\<lparr>uploads := uploads (tx_db (is_tx s1)) @ [?up]\<rparr>\<rparr>), v)" for v
    using ok(2,4,5) by (simp add: CreateUpload_def quiet_run s_CreateUpload_def Let_def)
  have h: "has_upload (ib_UploadID batch) (d\<lparr>uploads := us @ [?up]\<rparr>)" for d :: db and us
    by (simp add: has_upload_def)
  have dated: "dated_rows (ib_UploadID batch) (tx_db (is_tx s1)) = filter (\<lambda>l. l_ts l \<noteq> None) (map (copy_row batch) es)"
    using ok(6) by (auto simp: t1 tx_after_more dated_rows_def select_def filter_empty_conv intro!: filter_cong)
  have r: "list_all rollup_ok (rollup_rows g (ib_UploadID batch) ((tx_db (is_tx s1))\<lparr>uploads := us\<rparr>))" for g us
  proof (rule rollup_rows_ok)
    show "sizes l_resp_bytes (dated_rows (ib_UploadID batch) ((tx_db (is_tx s1))\<lparr>uploads := us\<rparr>)) < 2 ^ 63"
      using order.strict_trans1 [OF sizes_filter ok(7)] by (simp add: dated del: filter_map)
    show "sizes l_req_bytes (dated_rows (ib_UploadID batch) ((tx_db (is_tx s1))\<lparr>uploads := us\<rparr>)) < 2 ^ 63"
      using order.strict_trans1 [OF sizes_filter ok(8)] by (simp add: dated del: filter_map)
  qed
  note c' = c [simplified]
  show ?thesis
    using q st by (simp add: finish_ingest_def f Put_def quiet_run c' quiet_BuildRollups h r t1(2))
qed

lemma ingest_good:
  assumes "quiet w" "well_formed_upload a caller filename part w" "can_ingest caller (w_db w)"
  shows "\<exists>up w'. ingest a caller filename part w = Some (Inr \<lparr>ir_upload = up, ir_entries = length (file_entries (w_now w) (source_bytes part))\<rparr>, w') \<and>
    up_Filename up = filename \<and> up_ByteSize up = int (length (source_bytes part)) \<and>
    w_blob w' (up_ObjectKey up) = Some (zstd_Encode a (source_bytes part)) \<and>
    ingested (upload_batch caller (w_db w)) (reserved (w_db w)) (w_db w') up (file_entries (w_now w) (source_bytes part))"
proof -
  let ?batch = "upload_batch caller (w_db w)" and ?file = "source_bytes part" and ?b = "upload_reader a part"
  let ?w1 = "w\<lparr>w_db := reserved (w_db w)\<rparr>" and ?t = "\<lparr>tx_db = reserved (w_db w), tx_now = w_now w\<rparr>"
  let ?s = "\<lparr>is_world = ?w1, is_tx = ?t, is_pending = [], is_minTS = None, is_maxTS = None, is_copied = 0\<rparr>"
  have wf: "good ?b" "text_ok filename" "zscaler_Sniff (take 65536 ?file)" "csv_records (delimiter ?file) (reader_of ?file) \<noteq> []"
    "list_all row_ok (map (copy_row ?batch) (file_entries (w_now w) ?file))"
    "sizes l_resp_bytes (map (copy_row ?batch) (file_entries (w_now w) ?file)) < 2 ^ 63"
    "sizes l_req_bytes (map (copy_row ?batch) (file_entries (w_now w) ?file)) < 2 ^ 63"
    using assms(2) by (simp_all add: well_formed_upload_def Let_def)
  have rem: "remaining ?b = ?file" by (simp add: upload_reader_def NewReader_def remaining_def)
  obtain header rows where recs: "csv_records (delimiter ?file) (reader_of ?file) = header # rows"
    using wf(4) by (meson neq_Nil_conv)
  have es: "file_entries (w_now w) ?file = entries_of (w_now w) (buildColumnMap header) (delimiter ?file) 2 rows"
    by (simp add: file_entries_def recs)
  have i0: "ingesting ?w1 ?batch ?t [] ?s"
    by (auto simp: ingesting_def in_span_def months_covered_def intro!: exI [of _ "[]"])
  have q: "quiet (is_world ?s)" using assms(1) by simp
  have p0: "partitioned (tx_db ?t)" using assms(3) by (simp add: can_ingest_def partitioned_def)
  have c0: "counted [] (count_line no_stats)" by (simp add: counted_def count_line_def no_stats_def)
  from quiet_emit_rows [OF i0 q p0 c0, of "buildColumnMap header" "delimiter ?file" 2 rows] wf(5) es
  obtain st s' where e: "emit_rows (\<lambda>s. w_now (is_world s)) (emit_entry ?batch) (delimiter ?file) (buildColumnMap header) 2
      (count_line no_stats) rows ?s = ((st, None), s')" "is_world s' = ?w1"
      "ingesting ?w1 ?batch ?t (file_entries (w_now w) ?file) s'" "counted (file_entries (w_now w) ?file) st" by auto
  have "parse_file (\<lambda>s. w_now (is_world s)) (emit_entry ?batch) ?file ?s = ((st, None), s')"
    by (simp add: parse_file_def recs e(1))
  moreover obtain b0 x where p: "Peek 65536 ?b = (take 65536 ?file, x, b0)" "x = None \<or> x = Some EOF" "alike ?b b0"
    using good_Peek [OF wf(1), of 65536] rem by auto
  moreover have "good b0" "remaining b0 = ?file" using p(3) rem by (auto simp: alike_def)
  ultimately obtain b' where parse: "zscaler_Parse (\<lambda>s. w_now (is_world s)) b0 (emit_entry ?batch) ?s = Some ((st, None), b', s')"
    using Parse_good [of b0 "\<lambda>s. w_now (is_world s)" "emit_entry ?batch" ?s] by auto
  have "good b0" "handed b0 = int (length ?file)"
    using p(1,3) handed_Peek [OF p(1)] by (auto simp: alike_def handed_def upload_reader_def NewReader_def)
  with Parse_drained [OF parse] have drained: "cr_read (b_rd b') = int (length ?file)"
    by (auto simp: handed_def remaining_def)
  then have seen: "seen part b' = ?file" by (simp add: seen_def)
  have h: "HeadReader ?b 65536 = (Inr (take 65536 ?file), b0)" using p by (auto simp: HeadReader_def)
  have d: "Detect (registry :: (ingest_state, store_err) registry) (take 65536 ?file) = Some New"
    using wf(3) by (simp add: Detect_def registry_def Register_def New_def)
  have opened: "run_state Begin ?w1 = (Inr ?t, ?w1)" using assms(1) by (simp add: Begin_def quiet_run)
  have start: "run_state (do { now \<leftarrow> time_Now; i \<leftarrow> uuid_New; ret (now, i) }) w = ((w_now w, next_id (w_db w)), ?w1)"
    by (simp add: run_simps quiet_uuid_New reserved_def)
  let ?key = "blob_Key (uuid_String a (u_OrgID caller)) (uuid_String a (u_ID caller)) (uuid_String a (next_id (w_db w))) (w_now w)"
  have "ingest a caller filename part w = Some (finish_ingest a ?batch filename ?key ''zscaler_nss'' (zstd_Encode a (seen part b')) st (cr_read (b_rd b')) s')"
    using parse start h d opened
    by (simp add: ingest_def upload_reader_def Let_def New_def upload_batch_def)
  moreover have "\<not> has_upload (ib_UploadID ?batch) (tx_db ?t)" "list_ex (\<lambda>r. u_ID r = ib_UserID ?batch) (users (tx_db ?t))"
    "list_ex (\<lambda>r. o_ID r = ib_OrgID ?batch) (organizations (tx_db ?t))"
    "\<forall>l\<in>set (log_entries (tx_db ?t)). l_upload_id l \<noteq> ib_UploadID ?batch"
    using assms(3) by (simp_all add: can_ingest_def has_upload_def upload_batch_def)
  from quiet_finish [OF _ e(3,4) p0 wf(5,2) this wf(6,7)] e(2) assms(1) obtain up w' where
    f: "finish_ingest a ?batch filename ?key ''zscaler_nss'' (zstd_Encode a (seen part b')) st (cr_read (b_rd b')) s' =
      (Inr \<lparr>ir_upload = up, ir_entries = length (file_entries (w_now w) ?file)\<rparr>, w')"
    "w_blob w' (up_ObjectKey up) = Some (zstd_Encode a (seen part b'))" "up_Filename up = filename" "up_ByteSize up = cr_read (b_rd b')"
    by fastforce
  moreover from finish_run [OF f(1) e(3) e(4)] have "ingested ?batch (reserved (w_db w)) (w_db w') up (file_entries (w_now w) ?file)"
    by auto
  ultimately show ?thesis by (auto simp: seen drained)
qed

section \<open>The properties\<close>

text \<open>
  Claim C17: when no call fails, a well-formed file of a user of the organization is ingested
  whole: the answer reports one upload of the caller's with the size of the file, one row per
  record after the header is added in the order of the file, and the archive holds the
  compressed file under the key of the upload, byte for byte.
\<close>

theorem Ingest_complete:
  assumes "quiet w" and "well_formed_upload a caller filename part w" and "can_ingest caller (w_db w)"
  shows "\<exists>up w'. ingest a caller filename part w =
      Some (Inr \<lparr>ir_upload = up, ir_entries = length (file_entries (w_now w) (source_bytes part))\<rparr>, w') \<and>
    uploads (w_db w') = uploads (w_db w) @ [up] \<and> up_OrgID up = u_OrgID caller \<and> up_UserID up = u_ID caller \<and>
    up_Filename up = filename \<and> up_ByteSize up = int (length (source_bytes part)) \<and>
    log_entries (w_db w') = log_entries (w_db w) @
      map (copy_row (upload_batch caller (w_db w))) (file_entries (w_now w) (source_bytes part)) \<and>
    w_blob w' (up_ObjectKey up) = Some (zstd_Encode a (source_bytes part))"
  using ingest_good [OF assms] by (fastforce simp: ingested_def)

text \<open>A file of two columns and one record that a member of the sample world uploads.\<close>

definition sample_file :: string where
  "sample_file = concat (map (encode_row CHR '','') [[''time'', ''cip''], [''1'', ''10.0.0.1'']])"

definition sample_part :: source where
  "sample_part = \<lparr>src_chunks = [(sample_file, None)], src_end = EOF\<rparr>"

lemma sample_part_bytes [simp]: "source_bytes sample_part = sample_file"
  by (simp add: sample_part_def source_bytes_def)

lemma sample_file_text: "sample_file = ''\"time\",\"cip\"\<newline>\"1\",\"10.0.0.1\"\<newline>''"
  by (simp add: sample_file_def encode_row_def quote_field_def ReplaceAll_def newline_def dquote_def)

lemma sample_file_delimiter: "delimiter sample_file = CHR '',''"
  by (simp add: sample_file_text delimiter_def detectDelimiter_def Count_def newline_def)

lemma sample_file_records: "csv_records CHR '','' (reader_of sample_file) = [[''time'', ''cip''], [''1'', ''10.0.0.1'']]"
proof (rule csv_records_encoded)
  show "good (reader_of sample_file)" by (simp add: reader_of_def good_def good_source_def source_bytes_def)
  show "remaining (reader_of sample_file) = concat (map (encode_row CHR '','') [[''time'', ''cip''], [''1'', ''10.0.0.1'']])"
    by (simp add: reader_of_def remaining_def source_bytes_def sample_file_def)
qed (simp_all add: carriage_def dquote_def newline_def)

definition sample_entry :: entry where
  "sample_entry = \<lparr>e_LineNo = 2, e_Raw = ''1,10.0.0.1'', e_TS = Some second, e_ClientIP = ''10.0.0.1'', e_Username = [],
     e_Host = [], e_URL = [], e_Category = [], e_Action = [], e_ReqBytes = None, e_RespBytes = None, e_UserAgent = [],
     e_ThreatName = [], e_RespCode = None, e_Method = [], e_LatencyMS = None, e_CacheStatus = [], e_Reason = []\<rparr>"

lemma sample_entry_built:
  "buildEntry (1000 * second) 2 [''1'', ''10.0.0.1''] (buildColumnMap [''time'', ''cip'']) CHR '','' = sample_entry"
  unfolding sample_entry_def by code_simp

lemma sample_row_ok: "row_ok (copy_row \<lparr>ib_UploadID = 100, ib_OrgID = 1, ib_UserID = 13\<rparr> sample_entry)"
proof -
  have "text_ok ''1,10.0.0.1''" by code_simp
  then show ?thesis by (simp add: row_ok_def copy_row_def sample_entry_def int4_ok_def nullable_def timestamptz_ok_def timestamptz_def)
qed

lemma sample_entry_sizes: "l_resp_bytes (copy_row b sample_entry) = None" "l_req_bytes (copy_row b sample_entry) = None"
  by (simp_all add: copy_row_def sample_entry_def)

lemma sample_file_sniffed: "zscaler_Sniff sample_file"
  unfolding sample_file_text by code_simp

lemma sample_file_entries: "file_entries 1000000000000 sample_file = [sample_entry]"
  using sample_entry_built
  by (simp add: file_entries_def sample_file_delimiter sample_file_records del: One_nat_def)

abbreviation cyd_user :: user where "cyd_user \<equiv> user.truncate cyd"

lemma cyd_user_simps [simp]: "u_ID cyd_user = 13" "u_OrgID cyd_user = 1"
  by simp_all

lemma sample_upload_ok:
  "well_formed_upload sample_api cyd_user ''a.log'' sample_part sample_world" "can_ingest cyd_user (w_db sample_world)"
proof -
  have len: "length sample_file = 28" by (simp add: sample_file_text)
  have "MaxUploadBytes sample_config = 512 * 2 ^ 20"
    by (simp add: sample_config_def Load_sample read_env_fields envInt_def sample_env_def)
  then have "good (upload_reader sample_api sample_part)"
    by (simp add: good_def good_source_def upload_reader_def NewReader_def sample_part_def source_bytes_def len)
  moreover have "text_ok ''a.log''" by code_simp
  moreover have "take 65536 sample_file = sample_file" using len by simp
  ultimately show "well_formed_upload sample_api cyd_user ''a.log'' sample_part sample_world"
    using sample_row_ok sample_file_sniffed
    by (simp add: well_formed_upload_def sample_file_delimiter sample_file_records sample_file_entries upload_batch_def sizes_def sample_entry_sizes coalesce_def del: One_nat_def)
  show "can_ingest cyd_user (w_db sample_world)"
    by (simp add: can_ingest_def partitioned_def sample_db_def empty_db_def has_upload_def org_acme_def)
qed

theorem Ingest_complete_witness:
  "\<exists>up w'. ingest sample_api cyd_user ''a.log'' sample_part sample_world =
      Some (Inr \<lparr>ir_upload = up, ir_entries = length (file_entries (w_now sample_world) (source_bytes sample_part))\<rparr>, w') \<and>
    uploads (w_db w') = uploads (w_db sample_world) @ [up] \<and> up_OrgID up = u_OrgID cyd_user \<and> up_UserID up = u_ID cyd_user \<and>
    up_Filename up = ''a.log'' \<and> up_ByteSize up = int (length (source_bytes sample_part)) \<and>
    log_entries (w_db w') = log_entries (w_db sample_world) @
      map (copy_row (upload_batch cyd_user (w_db sample_world))) (file_entries (w_now sample_world) (source_bytes sample_part)) \<and>
    w_blob w' (up_ObjectKey up) = Some (zstd_Encode sample_api (source_bytes sample_part))"
  by (rule Ingest_complete [OF sample_quiet sample_upload_ok])

lemma sample_ingest:
  "\<exists>up w'. ingest sample_api cyd_user ''a.log'' sample_part sample_world = Some (Inr \<lparr>ir_upload = up, ir_entries = 1\<rparr>, w') \<and>
    up_ID up = 100"
  using ingest_good [OF sample_quiet sample_upload_ok]
  by (auto simp: sample_file_entries ingested_def upload_batch_def)

theorem Ingest_atomic_witness:
  "\<exists>r w' up es. ingest sample_api cyd_user ''a.log'' sample_part sample_world = Some (r, w') \<and>
    uploads (w_db w') = uploads sample_db @ [up] \<and> up_UserID up = 13 \<and> up_LineCount up = 1 + int (length es) \<and>
    log_entries (w_db w') = log_entries sample_db @ map (copy_row (upload_batch cyd_user sample_db)) es"
proof -
  obtain up w' where i: "ingest sample_api cyd_user ''a.log'' sample_part sample_world = Some (Inr \<lparr>ir_upload = up, ir_entries = 1\<rparr>, w')"
    using sample_ingest by blast
  from Ingest_atomic [OF i] show ?thesis using i by auto
qed

theorem Rollups_agree_witness:
  "\<exists>res w'. ingest sample_api cyd_user ''a.log'' sample_part sample_world = Some (Inr res, w') \<and>
    (\<Sum>r\<leftarrow>filter (\<lambda>r. r_upload_id r = 100 \<and> r_grain r = ''hour'') (entry_rollups (w_db w')). r_requests r) =
      int (length (filter (\<lambda>l. l_upload_id l = 100 \<and> l_ts l \<noteq> None) (log_entries (w_db w'))))"
proof -
  obtain up w' where i: "ingest sample_api cyd_user ''a.log'' sample_part sample_world = Some (Inr \<lparr>ir_upload = up, ir_entries = 1\<rparr>, w')"
    "up_ID up = 100" using sample_ingest by blast
  have "upload_id_fresh (w_db sample_world)" by (simp add: upload_id_fresh_def sample_db_def empty_db_def)
  from Rollups_agree [OF i(1) this, of "''hour''"] i show ?thesis by auto
qed

end
