(* ===== verification/Dashboard_Proofs.thy ===== *)
theory Dashboard_Proofs
  imports Handlers_Dashboard Samples Authz
begin

text \<open>
  What the read endpoints show to whom: the figures of a dashboard are a function of the rows of
  its scope alone, the chart adds up to the tile, and findings come from visible uploads only.
\<close>

section \<open>Computations that see part of the tables\<close>

text \<open>
  \<open>sees ok v m\<close>: on tables that satisfy \<open>ok\<close>, the computation \<open>m\<close> writes no table and gives the
  same result when the tables are cut down to \<open>v\<close>.
\<close>

definition sees :: "(db \<Rightarrow> bool) \<Rightarrow> (db \<Rightarrow> db) \<Rightarrow> 'a M \<Rightarrow> bool" where
  "sees ok v m \<longleftrightarrow> (\<forall>w. ok (w_db w) \<longrightarrow> w_db (final m w) = w_db w \<and>
     run_state m (w\<lparr>w_db := v (w_db w)\<rparr>) = (result m w, (final m w)\<lparr>w_db := v (w_db w)\<rparr>))"

lemma seesD:
  "sees ok v m \<Longrightarrow> ok (w_db w) \<Longrightarrow> result m (w\<lparr>w_db := v (w_db w)\<rparr>) = result m w \<and> w_db (final m w) = w_db w"
  by (simp add: sees_def result_def)

lemma sees_return: "sees ok v (ret x)"
  by (simp add: sees_def result_def final_def)

lemma sees_bind:
  assumes "sees ok v m" "\<And>x. sees ok v (f x)"
  shows "sees ok v (m \<bind> f)"
  unfolding sees_def
proof (intro allI impI)
  fix w :: world assume ok: "ok (w_db w)"
  obtain x w1 where m: "run_state m w = (x, w1)" by (cases "run_state m w")
  with assms(1) [unfolded sees_def, rule_format, OF ok]
  have 1: "w_db w1 = w_db w" "run_state m (w\<lparr>w_db := v (w_db w)\<rparr>) = (x, w1\<lparr>w_db := v (w_db w)\<rparr>)"
    by (simp_all add: result_def final_def)
  from assms(2) [unfolded sees_def, rule_format, of w1 x] ok 1(1) have "w_db (final (f x) w1) = w_db w1"
    "run_state (f x) (w1\<lparr>w_db := v (w_db w1)\<rparr>) = (result (f x) w1, (final (f x) w1)\<lparr>w_db := v (w_db w1)\<rparr>)"
    by simp_all
  with 1 m show "w_db (final (m \<bind> f) w) = w_db w \<and>
      run_state (m \<bind> f) (w\<lparr>w_db := v (w_db w)\<rparr>) = (result (m \<bind> f) w, (final (m \<bind> f) w)\<lparr>w_db := v (w_db w)\<rparr>)"
    by (simp add: result_def final_def)
qed

lemma sees_attempt:
  assumes "sees ok v m" "\<And>e. sees ok v (h e)" "\<And>x. sees ok v (k x)"
  shows "sees ok v (attempt m h k)"
  unfolding attempt_def using assms by (intro sees_bind) (auto split: sum.splits)

lemma sees_log_event: "sees ok v (log_event l e)"
  by (simp add: sees_def result_def final_def log_event_def)

lemma sees_time_Now: "sees ok v time_Now"
  by (simp add: sees_def result_def final_def time_Now_def)

lemma sees_db_query:
  assumes "\<And>d t. ok d \<Longrightarrow> q (v d) t = q d t"
  shows "sees ok v (db_query q)"
  using assms by (simp add: sees_def result_def final_def db_query_def Let_def)

lemmas sees_rules = sees_return sees_bind sees_attempt sees_log_event sees_time_Now sees_db_query

section \<open>The rows of a scope\<close>

text \<open>
  The tables cut down to the rows of one organization, and of one user if \<open>usr\<close> names one. The
  findings of an analysis go with its upload.
\<close>

definition in_view :: "uuid \<Rightarrow> uuid option \<Rightarrow> ('r \<Rightarrow> uuid) \<Rightarrow> ('r \<Rightarrow> uuid) \<Rightarrow> 'r \<Rightarrow> bool" where
  "in_view org usr o' u' r \<longleftrightarrow> o' r = org \<and> (case usr of None \<Rightarrow> True | Some i \<Rightarrow> u' r = i)"

definition scope_view :: "uuid \<Rightarrow> uuid option \<Rightarrow> db \<Rightarrow> db" where
  "scope_view org usr d =
     (let ups = select (in_view org usr up_OrgID up_UserID) (uploads d);
          ans = select (\<lambda>a. a_OrgID a = org \<and> list_ex (\<lambda>up. up_ID up = a_UploadID a) ups) (analyses d)
      in d\<lparr>uploads := ups, analyses := ans,
           anomalies := select (\<lambda>an. list_ex (\<lambda>a. a_ID a = an_analysis_id an) ans) (anomalies d),
           entry_rollups := select (in_view org usr r_org_id r_user_id) (entry_rollups d),
           status_rollups := select (in_view org usr s_org_id s_user_id) (status_rollups d),
           log_entries := select (in_view org usr l_org_id l_user_id) (log_entries d)\<rparr>)"

text \<open>An analysis belongs to the organization of its upload.\<close>

definition analyses_owned :: "db \<Rightarrow> bool" where
  "analyses_owned d \<longleftrightarrow> (\<forall>a\<in>set (analyses d). \<forall>up\<in>set (uploads d). up_ID up = a_UploadID a \<longrightarrow> up_OrgID up = a_OrgID a)"

lemma select_select: "(\<And>x. x \<in> set xs \<Longrightarrow> p x \<Longrightarrow> q x) \<Longrightarrow> select p (select q xs) = select p xs"
  by (induction xs) (auto simp: select_def)

definition covers :: "uuid \<Rightarrow> uuid option \<Rightarrow> scope \<Rightarrow> bool" where
  "covers org usr sc \<longleftrightarrow> sc_OrgID sc = org \<and> (usr = None \<or> sc_UserID sc = usr)"

lemma cover_clause:
  assumes "covers org usr sc"
  shows "whereNoTime sc o' u' r \<Longrightarrow> in_view org usr o' u' r"
    and "where_clause sc o' u' ts r \<Longrightarrow> in_view org usr o' u' r"
  using assms by (auto simp: whereNoTime_def where_clause_def in_view_def covers_def split: option.splits)

lemma concat_map_filter:
  "(\<And>x. x \<in> set xs \<Longrightarrow> \<not> q x \<Longrightarrow> f x = []) \<Longrightarrow> concat (map f (filter q xs)) = concat (map f xs)"
  by (induction xs) auto

lemma findings_in_view:
  assumes "covers org usr sc" "analyses_owned d"
  shows "select (finding_in sc) (findings_join (scope_view org usr d)) = select (finding_in sc) (findings_join d)"
proof -
  let ?ups = "select (in_view org usr up_OrgID up_UserID) (uploads d)"
  let ?ans = "select (\<lambda>a. a_OrgID a = org \<and> list_ex (\<lambda>up. up_ID up = a_UploadID a) ?ups) (analyses d)"
  let ?P = "finding_in sc"
  define F where "F = (\<lambda>an a. filter ?P (map (\<lambda>up. (an, a, up)) (select (\<lambda>up. up_ID up = a_UploadID a) (uploads d))))"
  have up: "in_view org usr up_OrgID up_UserID up" if "?P (an, a, up)" "a \<in> set (analyses d)" "up \<in> set (uploads d)" "up_ID up = a_UploadID a"
    for an a up
    using that assms by (auto simp: finding_in_def in_view_def covers_def analyses_owned_def split: option.splits)
  have 1: "filter ?P (map (\<lambda>up. (an, a, up)) (select (\<lambda>up. up_ID up = a_UploadID a) ?ups)) = F an a" if "a \<in> set (analyses d)" for an a
    using up [OF _ that] by (auto simp: F_def select_def filter_map o_def intro!: arg_cong [of _ _ "map _"] filter_cong)
  have empty: "F an a = []" if "a \<in> set (analyses d)" "\<not> (a_OrgID a = org \<and> list_ex (\<lambda>up. up_ID up = a_UploadID a) ?ups)" for an a
    using that up [of an a] assms(1) by (auto simp: F_def filter_empty_conv list_ex_iff finding_in_def covers_def)
  define G where "G = (\<lambda>an. concat (map (F an) (select (\<lambda>a. a_ID a = an_analysis_id an) (analyses d))))"
  have 2: "filter ?P (concat (map (\<lambda>a. map (\<lambda>up. (an, a, up)) (select (\<lambda>up. up_ID up = a_UploadID a) ?ups))
      (select (\<lambda>a. a_ID a = an_analysis_id an) ?ans))) = G an" for an
  proof -
    have "filter ?P (concat (map (\<lambda>a. map (\<lambda>up. (an, a, up)) (select (\<lambda>up. up_ID up = a_UploadID a) ?ups))
        (select (\<lambda>a. a_ID a = an_analysis_id an) ?ans))) = concat (map (F an) (select (\<lambda>a. a_ID a = an_analysis_id an) ?ans))"
      using 1 by (auto simp: filter_concat o_def intro!: arg_cong [of _ _ concat])
    moreover have "select (\<lambda>a. a_ID a = an_analysis_id an) ?ans =
        filter (\<lambda>a. a_OrgID a = org \<and> list_ex (\<lambda>up. up_ID up = a_UploadID a) ?ups) (select (\<lambda>a. a_ID a = an_analysis_id an) (analyses d))"
      by (simp add: select_def conj_commute)
    moreover have "concat (map (F an) (filter (\<lambda>a. a_OrgID a = org \<and> list_ex (\<lambda>up. up_ID up = a_UploadID a) ?ups)
        (select (\<lambda>a. a_ID a = an_analysis_id an) (analyses d)))) = G an"
      unfolding G_def by (rule concat_map_filter) (use empty in auto)
    ultimately show ?thesis by (simp only:)
  qed
  have 3: "filter ?P (findings_join d) = concat (map G (anomalies d))"
    by (simp add: findings_join_def filter_concat o_def G_def F_def)
  have gone: "G an = []" if "\<not> list_ex (\<lambda>a. a_ID a = an_analysis_id an) ?ans" for an
  proof -
    have "F an a = []" if "a \<in> set (analyses d)" "a_ID a = an_analysis_id an" for a
      using empty [OF that(1), of an] \<open>\<not> list_ex _ _\<close> that by (auto simp: list_ex_iff)
    then show ?thesis by (auto simp: G_def)
  qed
  have "filter ?P (findings_join (scope_view org usr d)) = concat (map G (select (\<lambda>an. list_ex (\<lambda>a. a_ID a = an_analysis_id an) ?ans) (anomalies d)))"
    using 2 by (simp add: findings_join_def scope_view_def Let_def filter_concat o_def)
  also have "\<dots> = concat (map G (anomalies d))"
    unfolding select_def by (rule concat_map_filter) (use gone in \<open>simp add: select_def\<close>)
  finally show ?thesis by (simp add: select_def 3)
qed

lemma scope_view_tables [simp]:
  "entry_rollups (scope_view org usr d) = select (in_view org usr r_org_id r_user_id) (entry_rollups d)"
  "status_rollups (scope_view org usr d) = select (in_view org usr s_org_id s_user_id) (status_rollups d)"
  "log_entries (scope_view org usr d) = select (in_view org usr l_org_id l_user_id) (log_entries d)"
  "uploads (scope_view org usr d) = select (in_view org usr up_OrgID up_UserID) (uploads d)"
  by (simp_all add: scope_view_def Let_def)

lemma queries_in_view:
  assumes "covers org usr sc"
  shows "q_summary_counts sc (scope_view org usr d) t = q_summary_counts sc d t"
    and "q_summary_latency sc (scope_view org usr d) t = q_summary_latency sc d t"
    and "q_summary_uploads sc (scope_view org usr d) t = q_summary_uploads sc d t"
    and "q_summary_span sc (scope_view org usr d) t = q_summary_span sc d t"
    and "q_DashboardSeries sc grain (scope_view org usr d) t = q_DashboardSeries sc grain d t"
    and "q_DashboardTop sc col limit (scope_view org usr d) t = q_DashboardTop sc col limit d t"
    and "q_StatusCodes sc (scope_view org usr d) t = q_StatusCodes sc d t"
    and "analyses_owned d \<Longrightarrow> q_FindingBreakdown sc (scope_view org usr d) t = q_FindingBreakdown sc d t"
proof -
  note in_view = cover_clause [OF assms]
  have e: "select (\<lambda>l. entry_in sc l \<and> p l) (log_entries (scope_view org usr d)) = select (\<lambda>l. entry_in sc l \<and> p l) (log_entries d)" for p
    unfolding scope_view_tables by (rule select_select) (auto simp: entry_in_def dest: in_view)
  note e1 = e [of "\<lambda>_. True", unfolded simp_thms]
  have r: "select (\<lambda>r. r_grain r = g \<and> rollup_in sc r) (entry_rollups (scope_view org usr d)) =
    select (\<lambda>r. r_grain r = g \<and> rollup_in sc r) (entry_rollups d)" for g
    unfolding scope_view_tables by (rule select_select) (auto simp: rollup_in_def dest: in_view)
  have p: "series_point_of sc g (scope_view org usr d) = series_point_of sc g d" for g
    by (rule ext) (simp add: series_point_of_def e del: scope_view_tables)
  show "q_summary_counts sc (scope_view org usr d) t = q_summary_counts sc d t"
    by (simp add: q_summary_counts_def hour_rollups_def r del: scope_view_tables)
  show "q_summary_latency sc (scope_view org usr d) t = q_summary_latency sc d t"
    unfolding q_summary_latency_def e1 ..
  show "q_summary_uploads sc (scope_view org usr d) t = q_summary_uploads sc d t"
    unfolding q_summary_uploads_def scope_view_tables by (subst select_select) (auto simp: upload_in_def dest: in_view)
  show "q_summary_span sc (scope_view org usr d) t = q_summary_span sc d t"
    unfolding q_summary_span_def scope_view_tables by (subst select_select) (auto dest: in_view)
  show "q_DashboardSeries sc grain (scope_view org usr d) t = q_DashboardSeries sc grain d t"
    unfolding q_DashboardSeries_def r p ..
  show "q_DashboardTop sc col limit (scope_view org usr d) t = q_DashboardTop sc col limit d t"
    unfolding q_DashboardTop_def e ..
  show "q_StatusCodes sc (scope_view org usr d) t = q_StatusCodes sc d t"
    unfolding q_StatusCodes_def scope_view_tables by (subst select_select) (auto simp: status_in_def dest: in_view)
  show "q_FindingBreakdown sc (scope_view org usr d) t = q_FindingBreakdown sc d t" if "analyses_owned d"
    unfolding q_FindingBreakdown_def findings_in_view [OF assms that] ..
qed

section \<open>The scope a request gets\<close>

definition asks_org :: "request \<Rightarrow> user \<Rightarrow> bool" where
  "asks_org r caller \<longleftrightarrow> Query_Get r ''scope'' = ''org'' \<and> IsAdmin (u_Role caller)"

lemma scopeFrom_run:
  "run_state (scopeFrom r caller) w = (x, w') \<Longrightarrow> w' = w \<and> (\<forall>sc. x = Inr sc \<longrightarrow>
     sc_OrgID sc = u_OrgID caller \<and> sc_UserID sc = (if asks_org r caller then None else Some (u_ID caller)) \<and> sc_From sc \<le> sc_To sc)"
  by (auto simp: scopeFrom_def run_simps asks_org_def split: sum.splits if_splits)

lemma sees_scopeFrom:
  assumes "\<And>e. sees ok v (h e)"
    and "\<And>sc. sc_OrgID sc = u_OrgID caller \<Longrightarrow> sc_UserID sc = (if asks_org r caller then None else Some (u_ID caller)) \<Longrightarrow> sees ok v (k sc)"
  shows "sees ok v (attempt (scopeFrom r caller) h k)"
proof -
  define x where "x = (\<lambda>w. fst (run_state (scopeFrom r caller) w))"
  have run: "run_state (scopeFrom r caller) w = (x w, w)" for w
    using scopeFrom_run [of r caller w] by (cases "run_state (scopeFrom r caller) w") (auto simp: x_def)
  have same: "x (w\<lparr>w_db := d\<rparr>) = x w" for w d
    by (simp add: x_def scopeFrom_def run_simps split: sum.splits)
  have "sees ok v (case x w of Inl e \<Rightarrow> h e | Inr sc \<Rightarrow> k sc)" for w
    using assms scopeFrom_run [OF run, of w] by (auto split: sum.splits)
  then show ?thesis
    unfolding sees_def result_def final_def attempt_def by (simp add: run same)
qed

text \<open>
  Claim C13: the four dashboards answer from the caller's rows alone. Two databases that
  agree on the rows of the caller's organization give the same answer, whatever else they
  hold; and for a member, or an administrator who does not ask for the organization, it is
  enough that they agree on the caller's own rows. Nothing is written.
\<close>

theorem Dashboard_isolated:
  assumes "h \<in> {dashboardSummary caller, dashboardSeries caller, dashboardTop caller, statusCodes caller}"
    and "usr = None \<or> usr = Some (u_ID caller) \<and> \<not> (Query_Get r ''scope'' = ''org'' \<and> IsAdmin (u_Role caller))"
    and "scope_view (u_OrgID caller) usr (w_db w) = scope_view (u_OrgID caller) usr d"
    and "analyses_owned (w_db w)" and "analyses_owned d"
  shows "result (h r) w = result (h r) (w\<lparr>w_db := d\<rparr>) \<and> w_db (final (h r) w) = w_db w"
proof -
  let ?v = "scope_view (u_OrgID caller) usr"
  have s: "sees analyses_owned ?v (h r)"
  proof -
    have w: "covers (u_OrgID caller) usr sc"
      if "sc_OrgID sc = u_OrgID caller" "sc_UserID sc = (if asks_org r caller then None else Some (u_ID caller))" for sc
      using that assms(2) by (auto simp: covers_def asks_org_def)
    note q = queries_in_view [OF w]
    have "sees analyses_owned ?v (dashboardSummary caller r)" "sees analyses_owned ?v (dashboardSeries caller r)"
      "sees analyses_owned ?v (statusCodes caller r)"
      unfolding dashboardSummary_def dashboardSeries_def statusCodes_def DashboardSummary_def FindingBreakdown_def
        DashboardSeries_def StatusCodes_def
      by (intro sees_scopeFrom sees_rules; auto simp: Let_def q intro!: sees_rules split: prod.splits)+
    moreover have "sees analyses_owned ?v (dashboardTop caller r)"
      unfolding dashboardTop_def DashboardTop_def Let_def
      by (intro sees_scopeFrom sees_rules; auto simp: q intro!: sees_rules split: option.splits)
    ultimately show ?thesis using assms(1) by auto
  qed
  have "result (h r) (w\<lparr>w_db := d\<rparr>) = result (h r) ((w\<lparr>w_db := d\<rparr>)\<lparr>w_db := ?v d\<rparr>)"
    using seesD [OF s, of "w\<lparr>w_db := d\<rparr>"] assms(5) by simp
  also have "\<dots> = result (h r) w"
    using seesD [OF s, of w] assms(3,4) by simp
  finally show ?thesis using seesD [OF s, of w] assms(4) by simp
qed

text \<open>Two worlds a member cannot tell apart: the rival's rows and a colleague's are gone in the second.\<close>

theorem Dashboard_isolated_witness:
  "result (dashboardSummary (user.truncate cyd) (sample_request ''GET'' ''/api/dashboard/summary'')) sample_world =
   result (dashboardSummary (user.truncate cyd) (sample_request ''GET'' ''/api/dashboard/summary''))
     (sample_world\<lparr>w_db := scope_view 1 (Some 13) sample_db\<rparr>) \<and> uploads (scope_view 1 (Some 13) sample_db) \<noteq> uploads sample_db"
proof -
  have idem: "scope_view 1 (Some 13) (scope_view 1 (Some 13) sample_db) = scope_view 1 (Some 13) sample_db"
    by (simp add: scope_view_def Let_def select_def in_view_def sample_db_def empty_db_def)
  have "uploads (scope_view 1 (Some 13) sample_db) = [cyds_log]"
    by (simp add: select_def in_view_def)
  then have "uploads (scope_view 1 (Some 13) sample_db) \<noteq> uploads sample_db" by simp
  moreover have "analyses_owned sample_db" "analyses_owned (scope_view 1 (Some 13) sample_db)"
    by (simp_all add: analyses_owned_def scope_view_def Let_def select_def sample_db_def empty_db_def)
  ultimately show ?thesis
    using Dashboard_isolated [of "dashboardSummary (user.truncate cyd)" "user.truncate cyd" "Some 13"
        "sample_request ''GET'' ''/api/dashboard/summary''" sample_world "scope_view 1 (Some 13) sample_db"] idem
    by simp
qed

section \<open>The chart and the tile\<close>

lemma sum_order_asc: "(\<Sum>x\<leftarrow>order_asc k xs. f x) = (\<Sum>x\<leftarrow>xs. f x :: int)"
  unfolding order_asc_def sum_mset_sum_list [symmetric] by simp

text \<open>
  Claim C40: the chart and the headline tile tell the same story: over one scope the hourly
  points add up to the figures of the summary, in requests, failures, bytes and cache counts.
\<close>

theorem Chart_agrees:
  assumes "q_DashboardSeries sc grain d t = Inr points" and "grain \<noteq> ''minute''"
    and "q_summary_counts sc d t' = Inr counts"
  shows "map (\<lambda>f. sum_of f points) [sp_Requests, sp_Errors, sp_BytesIn, sp_BytesOut, sp_CacheHits, sp_CacheTotal] = take 6 counts \<and>
    distinct (map sp_Bucket points) \<and> sorted (map sp_Bucket points)"
proof -
  let ?rs = "hour_rollups sc d"
  let ?gs = "group_by r_bucket_start ?rs"
  have g: "series_grain grain = ''hour''" using assms(2) by (auto simp: series_grain_def)
  have points: "points = map (series_point_of sc ''hour'' d) (order_asc fst ?gs)"
    using assms(1) by (auto simp: q_DashboardSeries_def g hour_rollups_def Let_def split: if_splits)
  have sum: "sum_of f points = sum_of h ?rs" if "\<And>b rs. f (series_point_of sc ''hour'' d (b, rs)) = sum_of h rs" for f h
  proof -
    have "sum_of f points = (\<Sum>x\<leftarrow>order_asc fst ?gs. f (series_point_of sc ''hour'' d x))"
      by (simp add: sum_of_def points o_def)
    also have "\<dots> = (\<Sum>x\<leftarrow>?gs. f (series_point_of sc ''hour'' d x))" by (rule sum_order_asc)
    also have "\<dots> = sum_of h ?rs"
      unfolding sum_of_def by (rule group_by_sum) (simp add: that sum_of_def)
    finally show ?thesis .
  qed
  have "counts = [sum_of r_requests ?rs, sum_of r_errors ?rs, sum_of r_bytes_in ?rs, sum_of r_bytes_out ?rs,
      sum_of r_cache_hits ?rs, sum_of r_cache_total ?rs, int (length (remdups (map r_host ?rs)))]"
    using assms(3) by (auto simp: q_summary_counts_def scan_int8_def Let_def split: if_splits)
  moreover have "sum_of sp_Requests points = sum_of r_requests ?rs" "sum_of sp_Errors points = sum_of r_errors ?rs"
    "sum_of sp_BytesIn points = sum_of r_bytes_in ?rs" "sum_of sp_BytesOut points = sum_of r_bytes_out ?rs"
    "sum_of sp_CacheHits points = sum_of r_cache_hits ?rs" "sum_of sp_CacheTotal points = sum_of r_cache_total ?rs"
    by (rule sum, simp add: series_point_of_def Let_def)+
  moreover have "map sp_Bucket points = map fst (order_asc fst ?gs)"
    by (auto simp: points series_point_of_def Let_def split: prod.splits)
  moreover have "distinct (map fst (order_asc fst ?gs))"
    using distinct_group_by [of r_bucket_start ?rs] unfolding order_asc_def
    by (metis distinct_map distinct_sort set_sort)
  moreover have "sorted (map fst (order_asc fst ?gs))" by (simp add: order_asc_def)
  ultimately show ?thesis by simp
qed

definition sample_rollup :: "time \<Rightarrow> string \<Rightarrow> int \<Rightarrow> int \<Rightarrow> entry_rollup" where
  "sample_rollup bucket host n failed = \<lparr>r_org_id = 1, r_user_id = 13, r_upload_id = 31, r_host = host, r_grain = ''hour'',
     r_bucket_start = bucket, r_requests = n, r_bytes_in = 10, r_bytes_out = 1, r_errors = failed, r_cache_hits = 0, r_cache_total = n,
     r_latency_p50 = None, r_latency_p95 = None, r_latency_p99 = None, r_latency_count = 0\<rparr>"

definition sample_rollups :: db where
  "sample_rollups = sample_db\<lparr>entry_rollups := [sample_rollup hour ''a'' 5 1, sample_rollup 0 ''a'' 2 0, sample_rollup hour ''b'' 3 3]\<rparr>"

definition sample_scope :: scope where
  "sample_scope = \<lparr>sc_OrgID = 1, sc_UserID = Some 13, sc_From = 0, sc_To = day\<rparr>"

lemma sample_log_entries: "log_entries sample_rollups = []"
  by (simp add: sample_rollups_def sample_db_def empty_db_def)

theorem Chart_agrees_witness:
  "\<exists>points counts. q_DashboardSeries sample_scope ''hour'' sample_rollups 0 = Inr points \<and>
    q_summary_counts sample_scope sample_rollups 0 = Inr counts \<and> length points = 2 \<and>
    map (\<lambda>f. sum_of f points) [sp_Requests, sp_Errors, sp_BytesIn, sp_BytesOut, sp_CacheHits, sp_CacheTotal] = take 6 counts"
proof -
  let ?rs = "[sample_rollup hour ''a'' 5 1, sample_rollup 0 ''a'' 2 0, sample_rollup hour ''b'' 3 3]"
  have rs: "hour_rollups sample_scope sample_rollups = ?rs"
    by (simp add: hour_rollups_def sample_rollups_def select_def rollup_in_def where_clause_def whereNoTime_def sample_scope_def
        sample_rollup_def timestamptz_def)
  obtain counts where c: "q_summary_counts sample_scope sample_rollups 0 = Inr counts"
    by (simp add: q_summary_counts_def rs scan_int8_def sum_of_def int8_ok_def sample_rollup_def)
  have g: "group_by r_bucket_start ?rs = [(hour, [?rs ! 0, ?rs ! 2]), (0, [?rs ! 1])]"
    by (simp add: group_by_def sample_rollup_def)
  have o: "order_asc fst (group_by r_bucket_start ?rs) = [(0, [?rs ! 1]), (hour, [?rs ! 0, ?rs ! 2])]"
    unfolding g by (simp add: order_asc_def)
  have q: "q_DashboardSeries sample_scope ''hour'' sample_rollups 0 =
      (let points = map (series_point_of sample_scope ''hour'' sample_rollups) (order_asc fst (group_by r_bucket_start ?rs))
       in if list_all series_point_ok points then Inr points else Inl ErrDriver)"
    unfolding q_DashboardSeries_def rs [unfolded hour_rollups_def, symmetric] by (simp add: series_grain_def Let_def)
  have "list_all series_point_ok (map (series_point_of sample_scope ''hour'' sample_rollups) [(0, [?rs ! 1]), (hour, [?rs ! 0, ?rs ! 2])])"
    by (simp add: series_point_of_def Let_def series_point_ok_def sum_of_def int8_ok_def sample_rollup_def)
  then obtain points where p: "q_DashboardSeries sample_scope ''hour'' sample_rollups 0 = Inr points" "length points = 2"
    unfolding q o by simp
  from Chart_agrees [OF p(1) _ c] p c show ?thesis by auto
qed

text \<open>
  On the minute grain, with a window that does not begin on the hour, they differ: the rows between
  the beginning and the next hour are in the chart and not in the tile. Here one request, at 0:45,
  with its two rollups, and a window from 0:30.
\<close>

definition one_request :: db where
  "one_request = sample_db\<lparr>entry_rollups := [(sample_rollup (45 * minute) ''a'' 1 0)\<lparr>r_grain := ''minute''\<rparr>, sample_rollup 0 ''a'' 1 0]\<rparr>"

lemma minute_chart_differs:
  defines "sc \<equiv> sample_scope\<lparr>sc_From := 30 * minute\<rparr>"
  shows "\<exists>p counts. q_DashboardSeries sc ''minute'' one_request 0 = Inr [p] \<and> sp_Requests p = 1 \<and>
    q_summary_counts sc one_request 0 = Inr counts \<and> counts ! 0 = 0"
proof -
  let ?m = "(sample_rollup (45 * minute) ''a'' 1 0)\<lparr>r_grain := ''minute''\<rparr>"
  have s: "select (\<lambda>r. r_grain r = ''minute'' \<and> rollup_in sc r) (entry_rollups one_request) = [?m]" "hour_rollups sc one_request = []"
    by (simp_all add: one_request_def select_def rollup_in_def where_clause_def whereNoTime_def sc_def sample_scope_def sample_rollup_def
        hour_rollups_def timestamptz_def)
  have "order_asc fst (group_by r_bucket_start [?m]) = [(45 * minute, [?m])]"
    by (simp add: group_by_def order_asc_def sample_rollup_def)
  moreover have "series_point_ok (series_point_of sc ''minute'' one_request (45 * minute, [?m]))"
    and "sp_Requests (series_point_of sc ''minute'' one_request (45 * minute, [?m])) = 1"
    by (simp_all add: series_point_of_def Let_def series_point_ok_def sum_of_def int8_ok_def sample_rollup_def)
  ultimately have "q_DashboardSeries sc ''minute'' one_request 0 = Inr [series_point_of sc ''minute'' one_request (45 * minute, [?m])]"
    and one: "sp_Requests (series_point_of sc ''minute'' one_request (45 * minute, [?m])) = 1"
    by (simp_all add: q_DashboardSeries_def series_grain_def s Let_def)
  moreover obtain counts where "q_summary_counts sc one_request 0 = Inr counts" "counts ! 0 = 0"
    by (simp add: q_summary_counts_def s scan_int8_def sum_of_def int8_ok_def)
  ultimately show ?thesis by blast
qed

section \<open>Findings come from visible uploads\<close>

definition finding_shown :: "user \<Rightarrow> db \<Rightarrow> time \<Rightarrow> finding \<Rightarrow> bool" where
  "finding_shown caller d t f = (case f of (an, a, up) \<Rightarrow>
     an \<in> set (anomalies d) \<and> a \<in> set (analyses d) \<and> up \<in> set (uploads d) \<and> a_ID a = an_analysis_id an \<and> up_ID up = a_UploadID a \<and>
     up_OrgID up = u_OrgID caller \<and> tier caller up d t \<ge> LevelSummary)"

lemma level_pos: "l \<noteq> LevelNone \<longleftrightarrow> l \<ge> LevelSummary"
  by (cases l) (simp_all add: less_eq_level_def level_int_def)

lemma shown_iff_visible:
  assumes "levels_valid d"
  shows "finding_shown caller d t f \<longleftrightarrow> f \<in> set (visible_findings caller d t)"
  using tier_pos_iff_visible [OF assms, of caller _ t]
  by (cases f) (auto simp: finding_shown_def set_visible_findings set_findings_join level_pos visible_def)

text \<open>
  An answer of at most \<open>n\<close> rows drawn from the findings shown to the caller: what a finding
  contributes is \<open>rows f\<close>, and below the limit nothing that is shown is left out.
\<close>

definition lists_shown :: "user \<Rightarrow> db \<Rightarrow> time \<Rightarrow> (finding \<Rightarrow> 'h set) \<Rightarrow> nat \<Rightarrow> 'h list \<Rightarrow> bool" where
  "lists_shown caller d t rows n out \<longleftrightarrow> length out \<le> n \<and> (\<forall>h\<in>set out. \<exists>f. finding_shown caller d t f \<and> h \<in> rows f) \<and>
     (length out < n \<longrightarrow> (\<forall>f. finding_shown caller d t f \<longrightarrow> rows f \<subseteq> set out))"

lemma lists_shown_below:
  "lists_shown caller d t rows n out \<Longrightarrow> length out < n \<Longrightarrow> finding_shown caller d t f \<Longrightarrow> h \<in> rows f \<Longrightarrow> h \<in> set out"
  unfolding lists_shown_def by blast

definition text_rows :: "fts \<Rightarrow> string \<Rightarrow> finding \<Rightarrow> search_hit set" where
  "text_rows fts query f = {hit_of f r | r. fts query (fst f) = Some r}"

definition vector_rows :: "distance \<Rightarrow> string \<Rightarrow> db \<Rightarrow> finding \<Rightarrow> search_hit set" where
  "vector_rows metric embedding d f =
     {hit_of f (1 - metric embedding fe) | fe. fe \<in> set (finding_embeddings d) \<and> fe_anomaly_id fe = Some (an_ID (fst f))}"

lemma text_shown:
  assumes "levels_valid d" and "q_SearchFindingsText fts caller query n d t = Inr hs"
  shows "lists_shown caller d t (text_rows fts query) n hs"
proof -
  have "\<exists>f. finding_shown caller d t f \<and> h \<in> text_rows fts query f" if "h \<in> set hs" for h
    using text_hits [OF assms(2) that] shown_iff_visible [OF assms(1)] by (fastforce simp: text_rows_def)
  moreover have "text_rows fts query f \<subseteq> set hs" if "length hs < n" "finding_shown caller d t f" for f
    using text_hits_complete [OF assms(2) that(1), of "fst f" "fst (snd f)" "snd (snd f)"] that shown_iff_visible [OF assms(1)]
    by (auto simp: text_rows_def)
  moreover have "length hs \<le> n" using assms(2) by (auto simp: q_SearchFindingsText_def Let_def)
  ultimately show ?thesis by (simp add: lists_shown_def)
qed

lemma vector_shown:
  assumes "levels_valid d" and "q_SearchFindingsVector metric caller embedding n d t = Inr hs"
  shows "lists_shown caller d t (vector_rows metric embedding d) n hs"
proof -
  have "\<exists>f. finding_shown caller d t f \<and> h \<in> vector_rows metric embedding d f" if "h \<in> set hs" for h
    using vector_hits [OF assms(2) that] shown_iff_visible [OF assms(1)] by (fastforce simp: vector_rows_def)
  moreover have "vector_rows metric embedding d f \<subseteq> set hs" if "length hs < n" "finding_shown caller d t f" for f
    using vector_hits_complete [OF assms(2) that(1), of "fst f" "fst (snd f)" "snd (snd f)"] that shown_iff_visible [OF assms(1)]
    by (auto simp: vector_rows_def)
  moreover have "length hs \<le> n" using assms(2) by (auto simp: q_SearchFindingsVector_def Let_def)
  ultimately show ?thesis by (simp add: lists_shown_def)
qed

lemma plan_shown:
  assumes "levels_valid d" and "q_ActionPlan caller n d t = Inr items"
  shows "lists_shown caller d t (\<lambda>f. {action_item_of f}) n items"
proof -
  have items: "items = map action_item_of (take n (order_desc (\<lambda>(an, _, _). triage_key an) (visible_findings caller d t)))" (is "_ = map _ (take _ ?fs)")
    using assms(2) by (simp add: q_ActionPlan_def)
  then have "length items < n \<Longrightarrow> take n ?fs = ?fs" by simp
  then have "action_item_of f \<in> set items" if "length items < n" "finding_shown caller d t f" for f
    using that shown_iff_visible [OF assms(1)] by (simp add: items)
  moreover have "\<exists>f. finding_shown caller d t f \<and> h = action_item_of f" if "h \<in> set items" for h
    using that shown_iff_visible [OF assms(1)] unfolding items by (force dest!: in_set_takeD simp del: split_paired_Ex)
  moreover have "length items \<le> n" by (simp add: items)
  ultimately show ?thesis by (simp add: lists_shown_def)
qed

lemma query_answer:
  assumes "run_state (db_query q) w = (Inr x, w')"
  shows "q (w_db w) (w_now (elapse w)) = Inr x \<and> w_db w' = w_db w"
  using assms by (auto simp: db_query_def Let_def split: if_splits)

text \<open>
  Claim C14: a search by text, a search by meaning and the worklist answer with findings of uploads
  the caller holds the summary tier for, and no others: each hit of a text search matches the
  query, each hit of a search by meaning has a stored embedding whose distance gives its rank. No answer is
  longer than the limit, a hundred at most; one that is shorter has every such finding of such an
  upload. None of the three changes a table. The clause of the queries and the tier
  \<open>Require\<close> computes are the same rule.
\<close>

theorem Search_sound:
  assumes "levels_valid (w_db w)"
  shows "(\<forall>hs w'. run_state (SearchFindingsText fts caller query limit) w = (Inr hs, w') \<longrightarrow>
      w_db w' = w_db w \<and> lists_shown caller (w_db w) (w_now (elapse w)) (text_rows fts query) (clamp_limit limit 100 20) hs) \<and>
    (\<forall>hs w'. run_state (SearchFindingsVector metric caller embedding limit) w = (Inr hs, w') \<longrightarrow>
      w_db w' = w_db w \<and> lists_shown caller (w_db w) (w_now (elapse w)) (vector_rows metric embedding (w_db w)) (clamp_limit limit 100 20) hs) \<and>
    (\<forall>items w'. run_state (ActionPlan caller limit) w = (Inr items, w') \<longrightarrow>
      w_db w' = w_db w \<and> lists_shown caller (w_db w) (w_now (elapse w)) (\<lambda>f. {action_item_of f}) (clamp_limit limit 100 25) items) \<and>
    clamp_limit limit 100 20 \<le> 100 \<and> clamp_limit limit 100 25 \<le> 100"
proof -
  have "lists_shown caller (w_db w) (w_now (elapse w)) (text_rows fts query) (clamp_limit limit 100 20) hs \<and> w_db w' = w_db w"
    if "run_state (SearchFindingsText fts caller query limit) w = (Inr hs, w')" for hs w'
    using query_answer [OF that [unfolded SearchFindingsText_def]] text_shown [OF assms] by auto
  moreover have "lists_shown caller (w_db w) (w_now (elapse w)) (vector_rows metric embedding (w_db w)) (clamp_limit limit 100 20) hs \<and> w_db w' = w_db w"
    if "run_state (SearchFindingsVector metric caller embedding limit) w = (Inr hs, w')" for hs w'
    using query_answer [OF that [unfolded SearchFindingsVector_def]] vector_shown [OF assms] by auto
  moreover have "lists_shown caller (w_db w) (w_now (elapse w)) (\<lambda>f. {action_item_of f}) (clamp_limit limit 100 25) items \<and> w_db w' = w_db w"
    if "run_state (ActionPlan caller limit) w = (Inr items, w')" for items w'
    using query_answer [OF that [unfolded ActionPlan_def]] plan_shown [OF assms] by auto
  moreover have "clamp_limit limit 100 20 \<le> 100" "clamp_limit limit 100 25 \<le> 100"
    using clamp_limit_bounds [of 20 100 limit] clamp_limit_bounds [of 25 100 limit] by simp_all
  ultimately show ?thesis by blast
qed

definition sample_analysis_row :: analysis where
  "sample_analysis_row = \<lparr>a_ID = 61, a_OrgID = 1, a_UploadID = 31, a_Status = ''done'', a_Scope = ''file'', a_BaselineWindowDays = None,
     a_OverallRisk = None, a_Summary = None, a_Timeline = JNull, a_Model = None, a_InputTokens = None, a_OutputTokens = None,
     a_Error = None, a_CreatedAt = 6, a_StartedAt = None, a_FinishedAt = None\<rparr>"

definition sample_anomaly :: anomaly_row where
  "sample_anomaly = \<lparr>an_ID = 71, an_Kind = ''beacon'', an_Severity = ''high'', an_Urgency = ''today'', an_ActionRequired = True,
     an_ActionLabel = None, an_Confidence = 1, an_Explanation = ''calls home'', an_Recommendation = None, an_EntryIDs = None,
     an_analysis_id = 61\<rparr>"

definition sample_found :: world where
  "sample_found = sample_world\<lparr>w_db := sample_db\<lparr>analyses := [sample_analysis_row], anomalies := [sample_anomaly],
     finding_embeddings := [\<lparr>fe_org_id = 1, fe_analysis_id = 61, fe_anomaly_id = Some 71\<rparr>]\<rparr>\<rparr>"

definition sample_finding :: finding where
  "sample_finding = (sample_anomaly, sample_analysis_row, cyds_log)"

text \<open>The member who holds a dashboard grant finds it all three ways, the owner of the other organization does not.\<close>

theorem Search_sound_witness:
  "\<exists>hs vs items. run_state (SearchFindingsText (\<lambda>_ _. Some 1) (user.truncate eve) ''beacon'' 0) sample_found = (Inr hs, sample_found) \<and>
     hit_of sample_finding 1 \<in> set hs \<and>
     run_state (SearchFindingsVector (\<lambda>_ _. 0) (user.truncate eve) ''[1,0]'' 0) sample_found = (Inr vs, sample_found) \<and>
     hit_of sample_finding 1 \<in> set vs \<and>
     run_state (ActionPlan (user.truncate eve) 0) sample_found = (Inr items, sample_found) \<and>
     action_item_of sample_finding \<in> set items \<and>
     run_state (ActionPlan (user.truncate dan) 0) sample_found = (Inr [], sample_found)"
proof -
  have d: "uploads (w_db sample_found) = [cyds_log, dans_log]" "access_grants (w_db sample_found) = [eves_grant]"
    "analyses (w_db sample_found) = [sample_analysis_row]" "anomalies (w_db sample_found) = [sample_anomaly]"
    "finding_embeddings (w_db sample_found) = [\<lparr>fe_org_id = 1, fe_analysis_id = 61, fe_anomaly_id = Some 71\<rparr>]"
    by (simp_all add: sample_found_def)
  have v: "levels_valid (w_db sample_found)" using sample_levels_valid by (simp add: levels_valid_def d)
  have q: "quiet sample_found" by (simp add: sample_found_def)
  have join: "findings_join (w_db sample_found) = [sample_finding]"
    by (simp add: findings_join_def d select_def sample_analysis_row_def sample_anomaly_def sample_finding_def)
  have vis: "visible (user.truncate eve) (w_db sample_found) t cyds_log" "\<not> visible (user.truncate dan) (w_db sample_found) t cyds_log" for t
    by (auto simp: visible_def d eves_grant_def)
  then have found: "visible_findings (user.truncate eve) (w_db sample_found) t = [sample_finding]"
    "visible_findings (user.truncate dan) (w_db sample_found) t = []" for t
    by (simp_all add: visible_findings_def join select_def sample_finding_def)
  then have shown: "finding_shown (user.truncate eve) (w_db sample_found) t sample_finding" for t
    by (simp add: shown_iff_visible [OF v])
  obtain hs where hs: "run_state (SearchFindingsText (\<lambda>_ _. Some 1) (user.truncate eve) ''beacon'' 0) sample_found = (Inr hs, sample_found)"
      "length hs \<le> 1"
    using q by (simp add: SearchFindingsText_def quiet_run q_SearchFindingsText_def Let_def found select_def split: prod.split)
  obtain vs where vs: "run_state (SearchFindingsVector (\<lambda>_ _. 0) (user.truncate eve) ''[1,0]'' 0) sample_found = (Inr vs, sample_found)"
      "length vs \<le> 1"
    using q by (simp add: SearchFindingsVector_def quiet_run q_SearchFindingsVector_def Let_def found d select_def order_asc_def split: prod.split)
  obtain items where items: "run_state (ActionPlan (user.truncate eve) 0) sample_found = (Inr items, sample_found)" "length items \<le> 1"
    using q by (simp add: ActionPlan_def quiet_run q_ActionPlan_def found)
  have none: "run_state (ActionPlan (user.truncate dan) 0) sample_found = (Inr [], sample_found)"
    using q by (simp add: ActionPlan_def quiet_run q_ActionPlan_def found)
  note sound = Search_sound [OF v, of "\<lambda>_ _. Some 1" "user.truncate eve" "''beacon''" 0 "\<lambda>_ _. 0" "''[1,0]''"]
  have "hit_of sample_finding 1 \<in> set hs"
  proof (rule lists_shown_below [OF _ _ shown])
    show "lists_shown (user.truncate eve) (w_db sample_found) (w_now sample_found) (text_rows (\<lambda>_ _. Some 1) ''beacon'') (clamp_limit 0 100 20) hs"
      using sound hs(1) q by simp
  qed (use hs(2) in \<open>simp_all add: clamp_limit_def text_rows_def\<close>)
  moreover have "hit_of sample_finding 1 \<in> set vs"
  proof (rule lists_shown_below [OF _ _ shown])
    show "lists_shown (user.truncate eve) (w_db sample_found) (w_now sample_found)
        (vector_rows (\<lambda>_ _. 0) ''[1,0]'' (w_db sample_found)) (clamp_limit 0 100 20) vs"
      using sound vs(1) q by simp
  qed (use vs(2) in \<open>simp_all add: clamp_limit_def vector_rows_def d sample_finding_def sample_anomaly_def\<close>)
  moreover have "action_item_of sample_finding \<in> set items"
  proof (rule lists_shown_below [OF _ _ shown])
    show "lists_shown (user.truncate eve) (w_db sample_found) (w_now sample_found) (\<lambda>f. {action_item_of f}) (clamp_limit 0 100 25) items"
      using sound items(1) q by simp
  qed (use items(2) in \<open>simp_all add: clamp_limit_def\<close>)
  ultimately show ?thesis
    using hs(1) vs(1) items(1) none by (intro exI [of _ hs] exI [of _ vs] exI [of _ items] conjI)
qed

end
