(* ===== verification/Tables.thy ===== *)
theory Tables
  imports Server Ingest_Proofs Dashboard_Proofs
begin

text \<open>
  What the tables look like between requests: the keys the migrations declare, the references they
  declare, and the one fact they do not: that every row of a tenant refers to rows of the same
  tenant only. \<open>tables_ok\<close> is kept by every statement the gateway executes.
\<close>

section \<open>The invariant\<close>

text \<open>The user \<open>i\<close> is a member of the organization \<open>org\<close>; the upload \<open>i\<close> is that of a user in an organization.\<close>

definition member :: "db \<Rightarrow> uuid \<Rightarrow> uuid \<Rightarrow> bool" where
  "member d i org \<longleftrightarrow> (\<exists>u\<in>set (users d). u_ID u = i \<and> u_OrgID u = org)"

definition belongs :: "db \<Rightarrow> uuid \<Rightarrow> uuid \<Rightarrow> uuid \<Rightarrow> bool" where
  "belongs d i org usr \<longleftrightarrow> (\<exists>up\<in>set (uploads d). up_ID up = i \<and> up_OrgID up = org \<and> up_UserID up = usr)"

definition unique_ids :: "db \<Rightarrow> bool" where
  "unique_ids d \<longleftrightarrow> distinct (map o_ID (organizations d)) \<and> distinct (map u_ID (users d)) \<and> distinct (map up_ID (uploads d)) \<and>
     distinct (map g_ID (access_grants d)) \<and> distinct (map a_ID (analyses d)) \<and> distinct (map rc_ID (mfa_recovery_codes d))"

definition ids_drawn :: "db \<Rightarrow> bool" where
  "ids_drawn d \<longleftrightarrow> (\<forall>r\<in>set (organizations d). o_ID r < next_id d) \<and> (\<forall>u\<in>set (users d). u_ID u < next_id d) \<and>
     (\<forall>u\<in>set (uploads d). up_ID u < next_id d) \<and> (\<forall>g\<in>set (access_grants d). g_ID g < next_id d) \<and>
     (\<forall>a\<in>set (analyses d). a_ID a < next_id d) \<and> (\<forall>c\<in>set (mfa_recovery_codes d). rc_ID c < next_id d)"

definition unique_keys :: "db \<Rightarrow> bool" where
  "unique_keys d \<longleftrightarrow> distinct (map (ToLower \<circ> u_Email) (users d)) \<and> distinct (map (ToLower \<circ> o_Slug) (organizations d)) \<and>
     grants_unique d"

definition labels_ok :: "db \<Rightarrow> bool" where
  "labels_ok d \<longleftrightarrow> (\<forall>u\<in>set (users d). valid_role (u_Role u)) \<and> levels_valid d \<and>
     (\<forall>a\<in>set (analyses d). window_matches_scope (a_Scope a) (a_BaselineWindowDays a))"

definition tenants_apart :: "db \<Rightarrow> bool" where
  "tenants_apart d \<longleftrightarrow> (\<forall>u\<in>set (users d). \<exists>r\<in>set (organizations d). o_ID r = u_OrgID u) \<and>
     (\<forall>c\<in>set (mfa_recovery_codes d). \<exists>u\<in>set (users d). u_ID u = rc_user_id c) \<and>
     (\<forall>up\<in>set (uploads d). member d (up_UserID up) (up_OrgID up)) \<and>
     (\<forall>g\<in>set (access_grants d). member d (g_SubjectUserID g) (g_OrgID g) \<and> member d (g_GrantedBy g) (g_OrgID g) \<and>
        (\<forall>i. g_UploadID g = Some i \<longrightarrow> (\<exists>usr. belongs d i (g_OrgID g) usr))) \<and>
     (\<forall>a\<in>set (analyses d). \<exists>usr. belongs d (a_UploadID a) (a_OrgID a) usr)"

definition findings_owned :: "db \<Rightarrow> bool" where
  "findings_owned d \<longleftrightarrow> (\<forall>an\<in>set (anomalies d). \<exists>a\<in>set (analyses d). a_ID a = an_analysis_id an) \<and>
     (\<forall>t\<in>set (analysis_timings d). \<exists>a\<in>set (analyses d). a_ID a = t_analysis_id t \<and> a_OrgID a = t_org_id t) \<and>
     (\<forall>f\<in>set (finding_embeddings d). \<exists>a\<in>set (analyses d). a_ID a = fe_analysis_id f \<and> a_OrgID a = fe_org_id f)"

definition entries_owned :: "db \<Rightarrow> bool" where
  "entries_owned d \<longleftrightarrow> (\<forall>l\<in>set (log_entries d). belongs d (l_upload_id l) (l_org_id l) (l_user_id l)) \<and>
     (\<forall>r\<in>set (entry_rollups d). belongs d (r_upload_id r) (r_org_id r) (r_user_id r)) \<and>
     (\<forall>r\<in>set (status_rollups d). belongs d (s_upload_id r) (s_org_id r) (s_user_id r))"

definition tables_ok :: "db \<Rightarrow> bool" where
  "tables_ok d \<longleftrightarrow> unique_ids d \<and> ids_drawn d \<and> unique_keys d \<and> labels_ok d \<and> tenants_apart d \<and> findings_owned d \<and>
     entries_owned d \<and> partitioned d"

lemmas ok_defs = unique_ids_def ids_drawn_def unique_keys_def labels_ok_def tenants_apart_def findings_owned_def entries_owned_def

lemma tables_ok_empty: "tables_ok empty_db"
  by (simp add: tables_ok_def ok_defs empty_db_def grants_unique_def levels_valid_def partitioned_def)

text \<open>The hypotheses of the component theorems follow.\<close>

lemma tables_okD:
  assumes "tables_ok d"
  shows "levels_valid d" "analysis_ids_fresh d" "upload_id_fresh d" "analyses_owned d" "rows_owned d" "grants_unique d" "partitioned d"
proof -
  note ok = assms [unfolded tables_ok_def ok_defs]
  show "levels_valid d" "grants_unique d" "partitioned d" using ok by simp_all
  show "analysis_ids_fresh d" using ok by (simp add: analysis_ids_fresh_def)
  have drawn: "i < next_id d" if "belongs d i org usr" for i org usr using ok that by (auto simp: belongs_def)
  show "upload_id_fresh d" using ok by (auto simp: upload_id_fresh_def intro: drawn)
  have same: "u = v" if "u \<in> set (uploads d)" "v \<in> set (uploads d)" "up_ID u = up_ID v" for u v
    using ok that by (auto simp: distinct_map dest: inj_onD)
  have t: "tenants_apart d" "entries_owned d" using assms by (simp_all add: tables_ok_def)
  have "up_OrgID up = a_OrgID a" if a: "a \<in> set (analyses d)" and up: "up \<in> set (uploads d)" "up_ID up = a_UploadID a" for a up
  proof -
    from t(1) a obtain usr where "belongs d (a_UploadID a) (a_OrgID a) usr" by (auto simp: tenants_apart_def)
    then obtain v where "v \<in> set (uploads d)" "up_ID v = a_UploadID a" "up_OrgID v = a_OrgID a" by (auto simp: belongs_def)
    with same [of v up] up show ?thesis by simp
  qed
  then show "analyses_owned d" by (simp add: analyses_owned_def)
  have "up_OrgID u = l_org_id l" if l: "l \<in> set (log_entries d)" and u: "u \<in> set (uploads d)" "up_ID u = l_upload_id l" for l u
  proof -
    from t(2) l have "belongs d (l_upload_id l) (l_org_id l) (l_user_id l)" by (simp add: entries_owned_def)
    then obtain v where "v \<in> set (uploads d)" "up_ID v = l_upload_id l" "up_OrgID v = l_org_id l" by (auto simp: belongs_def)
    with same [of v u] u show ?thesis by simp
  qed
  with ok show "rows_owned d" by (simp add: rows_owned_def)
qed

text \<open>An identifier no upload has is in no row either.\<close>

lemma unused_rows:
  assumes "tables_ok d" "\<not> has_upload i d"
  shows "\<forall>l\<in>set (log_entries d). l_upload_id l \<noteq> i" "\<forall>r\<in>set (entry_rollups d). r_upload_id r \<noteq> i"
    "\<forall>r\<in>set (status_rollups d). s_upload_id r \<noteq> i"
  using assms by (auto simp: tables_ok_def entries_owned_def belongs_def has_upload_def list_ex_iff)

section \<open>What each part depends on\<close>

lemma member_frame [simp]:
  "member (d\<lparr>organizations := x0\<rparr>) = member d" "member (d\<lparr>uploads := x1\<rparr>) = member d" "member (d\<lparr>access_grants := x2\<rparr>) = member d"
  "member (d\<lparr>audit_log := x3\<rparr>) = member d" "member (d\<lparr>analyses := x4\<rparr>) = member d" "member (d\<lparr>anomalies := x5\<rparr>) = member d"
  "member (d\<lparr>analysis_timings := x6\<rparr>) = member d" "member (d\<lparr>finding_embeddings := x7\<rparr>) = member d" "member (d\<lparr>log_entries := x8\<rparr>) = member d"
  "member (d\<lparr>entry_rollups := x9\<rparr>) = member d" "member (d\<lparr>status_rollups := x10\<rparr>) = member d" "member (d\<lparr>mfa_recovery_codes := x11\<rparr>) = member d"
  "member (d\<lparr>partitions := x12\<rparr>) = member d" "member (d\<lparr>next_id := n\<rparr>) = member d"
  by (simp_all add: member_def fun_eq_iff)

lemma belongs_frame [simp]:
  "belongs (d\<lparr>organizations := x0\<rparr>) = belongs d" "belongs (d\<lparr>users := x1\<rparr>) = belongs d" "belongs (d\<lparr>access_grants := x2\<rparr>) = belongs d"
  "belongs (d\<lparr>audit_log := x3\<rparr>) = belongs d" "belongs (d\<lparr>analyses := x4\<rparr>) = belongs d" "belongs (d\<lparr>anomalies := x5\<rparr>) = belongs d"
  "belongs (d\<lparr>analysis_timings := x6\<rparr>) = belongs d" "belongs (d\<lparr>finding_embeddings := x7\<rparr>) = belongs d" "belongs (d\<lparr>log_entries := x8\<rparr>) = belongs d"
  "belongs (d\<lparr>entry_rollups := x9\<rparr>) = belongs d" "belongs (d\<lparr>status_rollups := x10\<rparr>) = belongs d" "belongs (d\<lparr>mfa_recovery_codes := x11\<rparr>) = belongs d"
  "belongs (d\<lparr>partitions := x12\<rparr>) = belongs d" "belongs (d\<lparr>next_id := n\<rparr>) = belongs d"
  by (simp_all add: belongs_def fun_eq_iff)

lemma unique_ids_frame [simp]:
  "unique_ids (d\<lparr>audit_log := x0\<rparr>) = unique_ids d" "unique_ids (d\<lparr>anomalies := x1\<rparr>) = unique_ids d" "unique_ids (d\<lparr>analysis_timings := x2\<rparr>) = unique_ids d"
  "unique_ids (d\<lparr>finding_embeddings := x3\<rparr>) = unique_ids d" "unique_ids (d\<lparr>log_entries := x4\<rparr>) = unique_ids d" "unique_ids (d\<lparr>entry_rollups := x5\<rparr>) = unique_ids d"
  "unique_ids (d\<lparr>status_rollups := x6\<rparr>) = unique_ids d" "unique_ids (d\<lparr>partitions := x7\<rparr>) = unique_ids d" "unique_ids (d\<lparr>next_id := n\<rparr>) = unique_ids d"
  by (simp_all add: unique_ids_def)

lemma ids_drawn_frame [simp]:
  "ids_drawn (d\<lparr>audit_log := x0\<rparr>) = ids_drawn d" "ids_drawn (d\<lparr>anomalies := x1\<rparr>) = ids_drawn d" "ids_drawn (d\<lparr>analysis_timings := x2\<rparr>) = ids_drawn d"
  "ids_drawn (d\<lparr>finding_embeddings := x3\<rparr>) = ids_drawn d" "ids_drawn (d\<lparr>log_entries := x4\<rparr>) = ids_drawn d" "ids_drawn (d\<lparr>entry_rollups := x5\<rparr>) = ids_drawn d"
  "ids_drawn (d\<lparr>status_rollups := x6\<rparr>) = ids_drawn d" "ids_drawn (d\<lparr>partitions := x7\<rparr>) = ids_drawn d"
  by (simp_all add: ids_drawn_def)

lemma unique_keys_frame [simp]:
  "unique_keys (d\<lparr>uploads := x0\<rparr>) = unique_keys d" "unique_keys (d\<lparr>audit_log := x1\<rparr>) = unique_keys d" "unique_keys (d\<lparr>analyses := x2\<rparr>) = unique_keys d"
  "unique_keys (d\<lparr>anomalies := x3\<rparr>) = unique_keys d" "unique_keys (d\<lparr>analysis_timings := x4\<rparr>) = unique_keys d" "unique_keys (d\<lparr>finding_embeddings := x5\<rparr>) = unique_keys d"
  "unique_keys (d\<lparr>log_entries := x6\<rparr>) = unique_keys d" "unique_keys (d\<lparr>entry_rollups := x7\<rparr>) = unique_keys d" "unique_keys (d\<lparr>status_rollups := x8\<rparr>) = unique_keys d"
  "unique_keys (d\<lparr>mfa_recovery_codes := x9\<rparr>) = unique_keys d" "unique_keys (d\<lparr>partitions := x10\<rparr>) = unique_keys d" "unique_keys (d\<lparr>next_id := n\<rparr>) = unique_keys d"
  by (simp_all add: unique_keys_def grants_unique_def)

lemma labels_ok_frame [simp]:
  "labels_ok (d\<lparr>organizations := x0\<rparr>) = labels_ok d" "labels_ok (d\<lparr>uploads := x1\<rparr>) = labels_ok d" "labels_ok (d\<lparr>audit_log := x2\<rparr>) = labels_ok d"
  "labels_ok (d\<lparr>anomalies := x3\<rparr>) = labels_ok d" "labels_ok (d\<lparr>analysis_timings := x4\<rparr>) = labels_ok d" "labels_ok (d\<lparr>finding_embeddings := x5\<rparr>) = labels_ok d"
  "labels_ok (d\<lparr>log_entries := x6\<rparr>) = labels_ok d" "labels_ok (d\<lparr>entry_rollups := x7\<rparr>) = labels_ok d" "labels_ok (d\<lparr>status_rollups := x8\<rparr>) = labels_ok d"
  "labels_ok (d\<lparr>mfa_recovery_codes := x9\<rparr>) = labels_ok d" "labels_ok (d\<lparr>partitions := x10\<rparr>) = labels_ok d" "labels_ok (d\<lparr>next_id := n\<rparr>) = labels_ok d"
  by (simp_all add: labels_ok_def levels_valid_def)

lemma tenants_apart_frame [simp]:
  "tenants_apart (d\<lparr>audit_log := x0\<rparr>) = tenants_apart d" "tenants_apart (d\<lparr>anomalies := x1\<rparr>) = tenants_apart d" "tenants_apart (d\<lparr>analysis_timings := x2\<rparr>) = tenants_apart d"
  "tenants_apart (d\<lparr>finding_embeddings := x3\<rparr>) = tenants_apart d" "tenants_apart (d\<lparr>log_entries := x4\<rparr>) = tenants_apart d" "tenants_apart (d\<lparr>entry_rollups := x5\<rparr>) = tenants_apart d"
  "tenants_apart (d\<lparr>status_rollups := x6\<rparr>) = tenants_apart d" "tenants_apart (d\<lparr>partitions := x7\<rparr>) = tenants_apart d" "tenants_apart (d\<lparr>next_id := n\<rparr>) = tenants_apart d"
  by (simp_all add: tenants_apart_def)

lemma findings_owned_frame [simp]:
  "findings_owned (d\<lparr>organizations := x0\<rparr>) = findings_owned d" "findings_owned (d\<lparr>users := x1\<rparr>) = findings_owned d" "findings_owned (d\<lparr>uploads := x2\<rparr>) = findings_owned d"
  "findings_owned (d\<lparr>access_grants := x3\<rparr>) = findings_owned d" "findings_owned (d\<lparr>audit_log := x4\<rparr>) = findings_owned d" "findings_owned (d\<lparr>log_entries := x5\<rparr>) = findings_owned d"
  "findings_owned (d\<lparr>entry_rollups := x6\<rparr>) = findings_owned d" "findings_owned (d\<lparr>status_rollups := x7\<rparr>) = findings_owned d" "findings_owned (d\<lparr>mfa_recovery_codes := x8\<rparr>) = findings_owned d"
  "findings_owned (d\<lparr>partitions := x9\<rparr>) = findings_owned d" "findings_owned (d\<lparr>next_id := n\<rparr>) = findings_owned d"
  by (simp_all add: findings_owned_def)

lemma entries_owned_frame [simp]:
  "entries_owned (d\<lparr>organizations := x0\<rparr>) = entries_owned d" "entries_owned (d\<lparr>users := x1\<rparr>) = entries_owned d" "entries_owned (d\<lparr>access_grants := x2\<rparr>) = entries_owned d"
  "entries_owned (d\<lparr>audit_log := x3\<rparr>) = entries_owned d" "entries_owned (d\<lparr>analyses := x4\<rparr>) = entries_owned d" "entries_owned (d\<lparr>anomalies := x5\<rparr>) = entries_owned d"
  "entries_owned (d\<lparr>analysis_timings := x6\<rparr>) = entries_owned d" "entries_owned (d\<lparr>finding_embeddings := x7\<rparr>) = entries_owned d" "entries_owned (d\<lparr>mfa_recovery_codes := x8\<rparr>) = entries_owned d"
  "entries_owned (d\<lparr>partitions := x9\<rparr>) = entries_owned d" "entries_owned (d\<lparr>next_id := n\<rparr>) = entries_owned d"
  by (simp_all add: entries_owned_def)

lemma partitioned_frame [simp]:
  "partitioned (d\<lparr>organizations := x0\<rparr>) = partitioned d" "partitioned (d\<lparr>users := x1\<rparr>) = partitioned d" "partitioned (d\<lparr>uploads := x2\<rparr>) = partitioned d"
  "partitioned (d\<lparr>access_grants := x3\<rparr>) = partitioned d" "partitioned (d\<lparr>audit_log := x4\<rparr>) = partitioned d" "partitioned (d\<lparr>analyses := x5\<rparr>) = partitioned d"
  "partitioned (d\<lparr>anomalies := x6\<rparr>) = partitioned d" "partitioned (d\<lparr>analysis_timings := x7\<rparr>) = partitioned d" "partitioned (d\<lparr>finding_embeddings := x8\<rparr>) = partitioned d"
  "partitioned (d\<lparr>entry_rollups := x9\<rparr>) = partitioned d" "partitioned (d\<lparr>status_rollups := x10\<rparr>) = partitioned d" "partitioned (d\<lparr>mfa_recovery_codes := x11\<rparr>) = partitioned d"
  "partitioned (d\<lparr>next_id := n\<rparr>) = partitioned d"
  by (simp_all add: partitioned_def)

lemma ids_drawn_mono: "ids_drawn d \<Longrightarrow> next_id d \<le> n \<Longrightarrow> ids_drawn (d\<lparr>next_id := n\<rparr>)"
  by (auto simp: ids_drawn_def)

section \<open>Statements\<close>

lemma ok_log: "tables_ok d \<Longrightarrow> next_id d \<le> n \<Longrightarrow> tables_ok (d\<lparr>audit_log := rows, next_id := n\<rparr>)"
  by (simp add: tables_ok_def ids_drawn_mono)

lemma ok_fresh: "tables_ok d \<Longrightarrow> next_id d \<le> n \<Longrightarrow> tables_ok (d\<lparr>next_id := n\<rparr>)"
  by (simp add: tables_ok_def ids_drawn_mono)

subsection \<open>Users and organizations\<close>

lemma distinct_append_new: "distinct (map f xs) \<Longrightarrow> (\<forall>y\<in>set xs. f y \<noteq> f x) \<Longrightarrow> distinct (map f (xs @ [x]))"
  by auto

lemma ball_update_where: "(\<And>r. P (f r) = P r) \<Longrightarrow> (\<forall>r\<in>set (update_where p f rows). P r) \<longleftrightarrow> (\<forall>r\<in>set rows. P r)"
  by (induction rows) (auto simp: update_where_def)

lemma ok_insert_user:
  assumes "tables_ok d" "insert_user org email hash role d t = Inr (x, d')"
  shows "tables_ok d'"
proof -
  from insert_user_db [OF assms(2)] obtain u where u: "u_ID u = next_id d" "u_OrgID u = org" "u_Role u = role" "valid_role role"
    "d' = d\<lparr>users := users d @ [u], next_id := Suc (next_id d)\<rparr>" "\<exists>r\<in>set (organizations d). o_ID r = org"
    "\<forall>v\<in>set (users d). \<not> citext_eq (u_Email v) (u_Email u)" by auto
  note ok = assms(1) [unfolded tables_ok_def]
  have "unique_ids d'" using ok u(1,5) by (auto simp: unique_ids_def ids_drawn_def)
  moreover have "ids_drawn d'" using ok u(1,5) by (auto simp: ids_drawn_def)
  moreover have "unique_keys d'" using ok u(5,7) by (auto simp: unique_keys_def citext_eq_def grants_unique_def)
  moreover have "labels_ok d'" using ok u(3-5) by (auto simp: labels_ok_def levels_valid_def)
  moreover have "tenants_apart d'" using ok u(2,5,6) by (fastforce simp: tenants_apart_def member_def belongs_def)
  moreover have "findings_owned d'" "entries_owned d'" "partitioned d'" using ok u(5) by simp_all
  ultimately show ?thesis by (simp add: tables_ok_def)
qed

lemma ok_insert_org:
  assumes "tables_ok d" "insert_org name slug d t = Inr (x, d')"
  shows "tables_ok d'"
proof -
  from insert_org_db [OF assms(2)] obtain r where r: "o_ID r = next_id d"
    "d' = d\<lparr>organizations := organizations d @ [r], next_id := Suc (next_id d)\<rparr>"
    "\<forall>s\<in>set (organizations d). \<not> citext_eq (o_Slug s) (o_Slug r)" by auto
  note ok = assms(1) [unfolded tables_ok_def]
  have "unique_ids d'" using ok r(1,2) by (auto simp: unique_ids_def ids_drawn_def)
  moreover have "ids_drawn d'" using ok r(1,2) by (auto simp: ids_drawn_def)
  moreover have "unique_keys d'" using ok r(2,3) by (auto simp: unique_keys_def citext_eq_def grants_unique_def)
  moreover have "tenants_apart d'" using ok r(2) by (auto simp: tenants_apart_def member_def belongs_def)
  moreover have "labels_ok d'" "findings_owned d'" "entries_owned d'" "partitioned d'" using ok r(2) by simp_all
  ultimately show ?thesis by (simp add: tables_ok_def)
qed

lemma ok_update_users:
  assumes "tables_ok d" "\<And>u. u_ID (f u) = u_ID u \<and> u_OrgID (f u) = u_OrgID u \<and> u_Email (f u) = u_Email u \<and> u_Role (f u) = u_Role u"
  shows "tables_ok (d\<lparr>users := update_where p f (users d)\<rparr>)"
proof -
  let ?d = "d\<lparr>users := update_where p f (users d)\<rparr>"
  note ok = assms(1) [unfolded tables_ok_def]
  have m: "map g (update_where p f (users d)) = map g (users d)" if "\<And>u. g (f u) = g u" for g :: "user_row \<Rightarrow> 'x"
    using that by (intro map_update_where)
  have mem: "member ?d = member d"
    using assms(2) by (auto simp: member_def fun_eq_iff set_update_where)
  have "unique_ids ?d" using ok assms(2) by (simp add: unique_ids_def m)
  moreover have "ids_drawn ?d" using ok assms(2) by (simp add: ids_drawn_def ball_update_where)
  moreover have "unique_keys ?d" using ok assms(2) by (simp add: unique_keys_def m grants_unique_def)
  moreover have "labels_ok ?d" using ok assms(2) by (simp add: labels_ok_def ball_update_where levels_valid_def)
  moreover have "tenants_apart ?d" using ok assms(2) by (simp add: tenants_apart_def ball_update_where bex_update_where mem)
  moreover have "findings_owned ?d" "entries_owned ?d" "partitioned ?d" using ok by simp_all
  ultimately show ?thesis by (simp add: tables_ok_def)
qed

lemma ok_update_organizations:
  assumes "tables_ok d" "\<And>r. o_ID (f r) = o_ID r \<and> o_Slug (f r) = o_Slug r"
  shows "tables_ok (d\<lparr>organizations := update_where p f (organizations d)\<rparr>)"
proof -
  let ?d = "d\<lparr>organizations := update_where p f (organizations d)\<rparr>"
  note ok = assms(1) [unfolded tables_ok_def]
  have m: "map g (update_where p f (organizations d)) = map g (organizations d)" if "\<And>u. g (f u) = g u" for g :: "organization_row \<Rightarrow> 'x"
    using that by (intro map_update_where)
  have "unique_ids ?d" using ok assms(2) by (simp add: unique_ids_def m)
  moreover have "ids_drawn ?d" using ok assms(2) by (simp add: ids_drawn_def ball_update_where)
  moreover have "unique_keys ?d" using ok assms(2) by (simp add: unique_keys_def m grants_unique_def)
  moreover have "tenants_apart ?d" using ok assms(2) by (simp add: tenants_apart_def bex_update_where)
  moreover have "labels_ok ?d" "findings_owned ?d" "entries_owned ?d" "partitioned ?d" using ok by simp_all
  ultimately show ?thesis by (simp add: tables_ok_def)
qed

subsection \<open>The second factor\<close>

lemma ok_codes:
  assumes "tables_ok d" "distinct (map rc_ID cs)" "\<forall>c\<in>set cs. rc_ID c < next_id d"
    and "\<forall>c\<in>set cs. \<exists>u\<in>set (users d). u_ID u = rc_user_id c"
  shows "tables_ok (d\<lparr>mfa_recovery_codes := cs\<rparr>)"
  using assms by (simp add: tables_ok_def) (simp add: unique_ids_def ids_drawn_def tenants_apart_def)

lemma codes_okD:
  assumes "tables_ok d"
  shows "distinct (map rc_ID (mfa_recovery_codes d))" "\<forall>c\<in>set (mfa_recovery_codes d). rc_ID c < next_id d"
    "\<forall>c\<in>set (mfa_recovery_codes d). \<exists>u\<in>set (users d). u_ID u = rc_user_id c"
  using assms by (simp_all add: tables_ok_def unique_ids_def ids_drawn_def tenants_apart_def)

lemma ok_delete_codes: "tables_ok d \<Longrightarrow> tables_ok (d\<lparr>mfa_recovery_codes := delete_where p (mfa_recovery_codes d)\<rparr>)"
  using codes_okD by (intro ok_codes) (auto simp: distinct_map_delete_where)

lemma ok_burn: "tables_ok d \<Longrightarrow> tables_ok (burn_db i t d)"
  unfolding burn_db_def using codes_okD by (intro ok_codes) (auto simp: map_update_where set_update_where split: if_splits)

lemma ok_insert_code:
  assumes "tables_ok d" "\<exists>u\<in>set (users d). u_ID u = i"
  shows "tables_ok (d\<lparr>mfa_recovery_codes := mfa_recovery_codes d @
     [\<lparr>rc_ID = next_id d, rc_user_id = i, rc_code_hash = h, rc_used_at = None\<rparr>], next_id := Suc (next_id d)\<rparr>)"
proof -
  let ?c = "\<lparr>rc_ID = next_id d, rc_user_id = i, rc_code_hash = h, rc_used_at = None\<rparr>"
  note c = codes_okD [OF assms(1)]
  have "tables_ok ((d\<lparr>next_id := Suc (next_id d)\<rparr>)\<lparr>mfa_recovery_codes := mfa_recovery_codes d @ [?c]\<rparr>)"
  proof (rule ok_codes)
    show "tables_ok (d\<lparr>next_id := Suc (next_id d)\<rparr>)" by (rule ok_fresh [OF assms(1)]) simp
    show "distinct (map rc_ID (mfa_recovery_codes d @ [?c]))"
      by (rule distinct_append_new [OF c(1)]) (use c(2) in fastforce)
  qed (use c(2,3) assms(2) in \<open>auto simp: less_Suc_eq\<close>)
  then show ?thesis by (cases d) simp
qed

lemma ok_inserted_codes:
  "tables_ok d \<Longrightarrow> \<exists>u\<in>set (users d). u_ID u = i \<Longrightarrow> tables_ok (inserted_codes i hs d)"
  by (induction hs arbitrary: d) (simp_all add: ok_insert_code)

lemma ok_disabled: "tables_ok d \<Longrightarrow> tables_ok (disabled i d)"
  unfolding disabled_def
  using ok_delete_codes [OF ok_update_users, of d] by simp

lemma ok_activated:
  assumes "tables_ok d" "\<exists>u\<in>set (users d). u_ID u = i"
  shows "tables_ok (activated i hs t d)"
  unfolding activated_def
proof (rule ok_inserted_codes)
  show "tables_ok (d\<lparr>users := update_where (\<lambda>u. u_ID u = i \<and> u_totp_secret u \<noteq> None)
       (\<lambda>u. u\<lparr>u_totp_enabled := True, u_totp_confirmed_at := Some t\<rparr>) (users d),
     mfa_recovery_codes := delete_where (\<lambda>c. rc_user_id c = i) (mfa_recovery_codes d)\<rparr>)"
    using ok_delete_codes [OF ok_update_users [OF assms(1)]] by simp
qed (use assms(2) in \<open>simp add: bex_update_where\<close>)

subsection \<open>Grants\<close>

definition grant_within :: "db \<Rightarrow> access_grant \<Rightarrow> bool" where
  "grant_within d g \<longleftrightarrow> member d (g_SubjectUserID g) (g_OrgID g) \<and> member d (g_GrantedBy g) (g_OrgID g) \<and>
     (\<forall>i. g_UploadID g = Some i \<longrightarrow> (\<exists>usr. belongs d i (g_OrgID g) usr))"

lemma ok_grants:
  assumes "tables_ok d" "distinct (map g_ID gs)" "\<forall>g\<in>set gs. g_ID g < next_id d" "distinct (map grant_key gs)"
    and "\<forall>g\<in>set gs. valid_level (g_Level g) \<and> grant_within d g"
  shows "tables_ok (d\<lparr>access_grants := gs\<rparr>)"
  using assms by (simp add: tables_ok_def)
    (simp add: unique_ids_def ids_drawn_def unique_keys_def labels_ok_def levels_valid_def tenants_apart_def grants_unique_def grant_within_def)

lemma grants_okD:
  assumes "tables_ok d"
  shows "distinct (map g_ID (access_grants d))" "\<forall>g\<in>set (access_grants d). g_ID g < next_id d"
    "distinct (map grant_key (access_grants d))" "\<forall>g\<in>set (access_grants d). valid_level (g_Level g) \<and> grant_within d g"
  using assms
  by (simp_all add: tables_ok_def unique_ids_def ids_drawn_def unique_keys_def labels_ok_def levels_valid_def tenants_apart_def
      grants_unique_def grant_within_def)

lemma ok_delete_grant:
  assumes "tables_ok d" "s_DeleteGrant org i d t = Inr (x, d')"
  shows "tables_ok d'"
  unfolding s_DeleteGrant_db [OF assms(2)] using grants_okD [OF assms(1)] assms(1)
  by (intro ok_grants) (auto simp: distinct_map_delete_where)

text \<open>
  The row an upsert replaces is of the same organization: an upload belongs to one organization only.
\<close>

lemma belongs_org:
  assumes "tables_ok d" "belongs d i org usr" "belongs d i org' usr'"
  shows "org = org' \<and> usr = usr'"
  using assms by (auto simp: tables_ok_def unique_ids_def belongs_def distinct_map dest: inj_onD)

lemma member_org:
  assumes "tables_ok d" "member d i org" "member d i org'"
  shows "org = org'"
  using assms by (auto simp: tables_ok_def unique_ids_def member_def distinct_map dest: inj_onD)

lemma upsert_same_org:
  assumes "tables_ok d" "grant_within d g" "k \<in> set (access_grants d)" "grant_key k = grant_key g"
  shows "g_OrgID k = g_OrgID g"
proof -
  from grants_okD(4) [OF assms(1)] assms(3) have "member d (g_SubjectUserID k) (g_OrgID k)" by (simp add: grant_within_def)
  moreover have "g_SubjectUserID k = g_SubjectUserID g" using assms(4) by (simp add: grant_key_def)
  ultimately show ?thesis using assms(2) member_org [OF assms(1)] by (auto simp: grant_within_def)
qed

lemma ok_upsert_grant:
  assumes "tables_ok d" "grant_within d g" "s_UpsertGrant g d t = Inr (h, d')"
  shows "tables_ok d'"
proof -
  note gs = grants_okD [OF assms(1)]
  have lvl: "valid_level (g_Level g)" using s_UpsertGrant_valid [OF assms(3)] by simp
  from assms(3) show ?thesis
  proof (cases rule: s_UpsertGrant_cases)
    case insert
    have h: "g_ID h = next_id d" "grant_key h = grant_key g" "g_Level h = g_Level g" "grant_within d h"
      using assms(2) insert(2) by (auto simp: grant_key_def grant_within_def split: option.splits)
    have "tables_ok ((d\<lparr>next_id := Suc (next_id d)\<rparr>)\<lparr>access_grants := access_grants d @ [h]\<rparr>)"
    proof (rule ok_grants)
      show "tables_ok (d\<lparr>next_id := Suc (next_id d)\<rparr>)" by (rule ok_fresh [OF assms(1)]) simp
      show "distinct (map g_ID (access_grants d @ [h]))"
        by (rule distinct_append_new [OF gs(1)]) (use gs(2) h(1) in fastforce)
      show "distinct (map grant_key (access_grants d @ [h]))"
        by (rule distinct_append_new [OF gs(3)]) (use insert(1) h(2) in simp)
    qed (use gs h lvl in \<open>auto simp: less_Suc_eq grant_within_def\<close>)
    then show ?thesis unfolding insert(3) by (cases d) simp
  next
    case (update k)
    have within: "grant_within d (grant_update g x)" if "x \<in> set (access_grants d)" "grant_conflict g x" for x
      using that gs(4) assms(2) upsert_same_org [OF assms(1,2), of x]
      by (auto simp: grant_within_def grant_update_def grant_conflict_iff_key)
    have [simp]: "g_Level (grant_update g x) = g_Level g" "g_ID (grant_update g x) = g_ID x" for x
      by (simp_all add: grant_update_def)
    show ?thesis
      unfolding update(4)
      using gs assms(1) lvl within
      by (intro ok_grants) (auto simp: map_update_where set_update_where)
  qed
qed

subsection \<open>Analyses\<close>

lemma ok_analyses:
  assumes "tables_ok d" "distinct (map a_ID as)" "\<forall>a\<in>set as. a_ID a < next_id d"
    and "\<forall>a\<in>set as. window_matches_scope (a_Scope a) (a_BaselineWindowDays a)"
    and "\<forall>a\<in>set as. \<exists>usr. belongs d (a_UploadID a) (a_OrgID a) usr"
    and "\<forall>a\<in>set (analyses d). \<exists>b\<in>set as. a_ID b = a_ID a \<and> a_OrgID b = a_OrgID a"
  shows "tables_ok (d\<lparr>analyses := as\<rparr>)"
proof -
  have own: "findings_owned (d\<lparr>analyses := as\<rparr>)"
    using assms(1,6) by (simp add: tables_ok_def findings_owned_def) metis
  show ?thesis using assms(1-5) own
    by (simp add: tables_ok_def) (simp add: unique_ids_def ids_drawn_def labels_ok_def levels_valid_def tenants_apart_def)
qed

lemma analyses_okD:
  assumes "tables_ok d"
  shows "distinct (map a_ID (analyses d))" "\<forall>a\<in>set (analyses d). a_ID a < next_id d"
    "\<forall>a\<in>set (analyses d). window_matches_scope (a_Scope a) (a_BaselineWindowDays a)"
    "\<forall>a\<in>set (analyses d). \<exists>usr. belongs d (a_UploadID a) (a_OrgID a) usr"
  using assms by (simp_all add: tables_ok_def unique_ids_def ids_drawn_def labels_ok_def tenants_apart_def)

lemma ok_create_analysis:
  assumes "tables_ok d" "s_CreateAnalysis org i scope window d t = Inr (an, d')" "belongs d i org usr"
  shows "tables_ok d'"
proof -
  note as = analyses_okD [OF assms(1)]
  note new = s_CreateAnalysis_db [OF assms(2)]
  have "tables_ok ((d\<lparr>next_id := Suc (next_id d)\<rparr>)\<lparr>analyses := analyses d @ [an]\<rparr>)"
  proof (rule ok_analyses)
    show "tables_ok (d\<lparr>next_id := Suc (next_id d)\<rparr>)" by (rule ok_fresh [OF assms(1)]) simp
    show "distinct (map a_ID (analyses d @ [an]))"
      by (rule distinct_append_new [OF as(1)]) (use as(2) new in fastforce)
  qed (use as new assms(3) in \<open>auto simp: less_Suc_eq\<close>)
  with new show ?thesis by (cases d) simp
qed

lemma ok_fail_analysis:
  assumes "tables_ok d" "s_FailAnalysis i msg d t = Inr (x, d')"
  shows "tables_ok d'"
proof -
  let ?f = "\<lambda>an. an\<lparr>a_Status := ''failed'', a_Error := Some msg, a_FinishedAt := Some t\<rparr>"
  have d': "d' = d\<lparr>analyses := update_where (\<lambda>an. a_ID an = i) ?f (analyses d)\<rparr>" using assms(2) by (simp add: s_FailAnalysis_def)
  show ?thesis
    unfolding d' using analyses_okD [OF assms(1)]
    by (intro ok_analyses assms(1)) (simp_all add: map_update_where ball_update_where bex_update_where, blast)
qed

subsection \<open>Uploads\<close>

lemma partitioned_subset:
  "partitioned d \<Longrightarrow> set (log_entries d') \<subseteq> set (log_entries d) \<Longrightarrow> set (partitions d) \<subseteq> set (partitions d') \<Longrightarrow> partitioned d'"
  by (auto simp: partitioned_def)

lemma ok_deleted:
  assumes "tables_ok d" "hits org i d \<noteq> []"
  shows "tables_ok (deleted org i d)"
proof -
  let ?d = "deleted org i d"
  have ids: "set (map up_ID (hits org i d)) = {i}" using assms(2) by (auto simp: hits_def select_def filter_empty_conv)
  obtain up where up: "up \<in> set (uploads d)" "up_ID up = i" "up_OrgID up = org"
    using assms(2) by (auto simp: hits_def select_def filter_empty_conv)
  then have owner: "belongs d i org (up_UserID up)" by (auto simp: belongs_def)
  note ok = assms(1) [unfolded tables_ok_def]
  note entries = conjunct1 [OF ok [THEN conjunct2, THEN conjunct2, THEN conjunct2, THEN conjunct2, THEN conjunct2, THEN conjunct2,
    THEN conjunct1, unfolded entries_owned_def]]
  have bel: "belongs ?d j o' u \<longleftrightarrow> j \<noteq> i \<and> belongs d j o' u" for j o' u
    using ids by (auto simp: deleted_def belongs_def)
  have mem: "member ?d = member d" by (simp add: deleted_def member_def fun_eq_iff)
  have le: "set (log_entries ?d) = {l \<in> set (log_entries d). l_upload_id l \<noteq> i}"
  proof -
    have "l_org_id l = org" if "l \<in> set (log_entries d)" "l_upload_id l = i" for l
      using belongs_org [OF assms(1) _ owner] entries that by blast
    then show ?thesis by (auto simp: deleted_def)
  qed
  have an: "set (analyses ?d) = {a \<in> set (analyses d). a_UploadID a \<noteq> i}" using ids by (auto simp: deleted_def)
  have gone: "a_ID a \<in> a_ID ` {a \<in> set (analyses d). a_UploadID a = i} \<or> a \<in> set (analyses ?d)" if "a \<in> set (analyses d)" for a
    using that an by auto
  have "unique_ids ?d" using ok by (simp add: deleted_def unique_ids_def distinct_map_delete_where)
  moreover have "ids_drawn ?d" using ok by (simp add: deleted_def ids_drawn_def)
  moreover have "unique_keys ?d" using ok by (simp add: deleted_def unique_keys_def grants_unique_def distinct_map_delete_where)
  moreover have "labels_ok ?d" using ok by (simp add: deleted_def labels_ok_def levels_valid_def)
  moreover have "tenants_apart ?d"
    using ok ids by (simp add: tenants_apart_def bel mem) (simp add: deleted_def, auto)
  moreover have "findings_owned ?d"
  proof -
    have sel: "set (map a_ID (select (\<lambda>a. a_UploadID a \<in> set (map up_ID (hits org i d))) (analyses d))) =
        a_ID ` {a \<in> set (analyses d). a_UploadID a = i}"
      using ids by auto
    have "set (anomalies ?d) = {f \<in> set (anomalies d). an_analysis_id f \<notin> a_ID ` {a \<in> set (analyses d). a_UploadID a = i}}"
      "set (analysis_timings ?d) = {f \<in> set (analysis_timings d). t_analysis_id f \<notin> a_ID ` {a \<in> set (analyses d). a_UploadID a = i}}"
      "set (finding_embeddings ?d) = {f \<in> set (finding_embeddings d). fe_analysis_id f \<notin> a_ID ` {a \<in> set (analyses d). a_UploadID a = i}}"
      using sel by (simp_all add: deleted_def cascade_upload_def Let_def)
    moreover have keep: "\<exists>a\<in>set (analyses ?d). a_ID a = j \<and> P a"
      if "j \<notin> a_ID ` {a \<in> set (analyses d). a_UploadID a = i}" "\<exists>a\<in>set (analyses d). a_ID a = j \<and> P a" for j P
      using gone that by blast
    ultimately show ?thesis
      using ok keep [where P = "\<lambda>_. True"] keep [where P = "\<lambda>a. a_OrgID a = _"]
      unfolding findings_owned_def by (simp del: image_iff mem_Collect_eq)
  qed
  moreover have "entries_owned ?d"
    using ok ids le by (simp add: entries_owned_def bel) (simp add: deleted_def)
  moreover have "partitioned ?d"
    by (rule partitioned_subset [of d]) (use ok le in \<open>auto simp: deleted_def\<close>)
  ultimately show ?thesis by (simp add: tables_ok_def)
qed

text \<open>A rollup row carries the tenant of an entry of its upload.\<close>

lemma set_fold_upsert: "set (fold (upsert key) rows table) \<subseteq> set table \<union> set rows"
proof (induction rows arbitrary: table)
  case (Cons r rows)
  have "set (upsert key r table) \<subseteq> insert r (set table)" by (auto simp: upsert_def)
  with Cons [of "upsert key r table"] show ?case by auto
qed simp

lemma rollup_rows_tenant:
  "r \<in> set (rollup_rows g i d) \<Longrightarrow>
     \<exists>l\<in>set (log_entries d). l_upload_id l = i \<and> r_upload_id r = i \<and> r_org_id r = l_org_id l \<and> r_user_id r = l_user_id l"
  by (auto simp: rollup_rows_def set_group_by rollup_row_def rollup_key_def dated_rows_def Let_def intro!: bexI)

lemma status_rows_tenant:
  "r \<in> set (status_rows i d) \<Longrightarrow>
     \<exists>l\<in>set (log_entries d). l_upload_id l = i \<and> s_upload_id r = i \<and> s_org_id r = l_org_id l \<and> s_user_id r = l_user_id l"
  by (auto simp: status_rows_def set_group_by status_row_def status_key_def dated_rows_def intro!: bexI)

lemma committed_other [simp]:
  "anomalies (committed b up es ps d) = anomalies d" "analysis_timings (committed b up es ps d) = analysis_timings d"
  "finding_embeddings (committed b up es ps d) = finding_embeddings d"
  "mfa_recovery_codes (committed b up es ps d) = mfa_recovery_codes d"
  by (simp_all add: committed_def with_rollups_def)

lemma ok_ingested:
  assumes "tables_ok d" "ingested b d d' up es" "ib_UploadID b < next_id d" "member d (ib_UserID b) (ib_OrgID b)"
  shows "tables_ok d'"
proof -
  let ?n = "ib_UploadID b"
  from assms(2) obtain ps where up: "up_ID up = ?n" "up_OrgID up = ib_OrgID b" "up_UserID up = ib_UserID b"
    and d': "d' = committed b up es ps d" and months: "months_covered es (partitions d @ ps)" and new: "\<not> has_upload ?n d"
    by (auto simp: ingested_def)
  have fresh: "\<forall>v\<in>set (uploads d). up_ID v \<noteq> ?n" using new by (simp add: has_upload_def list_ex_iff)
  note ok = assms(1) [unfolded tables_ok_def]
  have tabs [simp]: "users d' = users d" "organizations d' = organizations d" "access_grants d' = access_grants d"
    "analyses d' = analyses d" "mfa_recovery_codes d' = mfa_recovery_codes d" "uploads d' = uploads d @ [up]"
    "next_id d' = next_id d" "log_entries d' = log_entries d @ map (copy_row b) es" "partitions d' = partitions d @ ps"
    "anomalies d' = anomalies d" "analysis_timings d' = analysis_timings d" "finding_embeddings d' = finding_embeddings d"
    by (simp_all add: d')
  have old: "belongs d i o' v \<Longrightarrow> belongs d' i o' v" for i o' v by (auto simp: belongs_def)
  have mine: "belongs d' ?n (ib_OrgID b) (ib_UserID b)" using up by (auto simp: belongs_def)
  have rows: "belongs d' (l_upload_id l) (l_org_id l) (l_user_id l)" if "l \<in> set (log_entries d')" for l
    using that ok old mine by (auto simp: entries_owned_def)
  have "unique_ids d'" using ok up fresh by (auto simp: unique_ids_def)
  moreover have "ids_drawn d'" using ok up assms(3) by (auto simp: ids_drawn_def)
  moreover have "unique_keys d'" "labels_ok d'" using ok by (simp_all add: unique_keys_def grants_unique_def labels_ok_def levels_valid_def)
  moreover have "tenants_apart d'"
  proof -
    have "member d' = member d" by (simp add: member_def fun_eq_iff)
    moreover have "\<exists>v. belongs d' i o' v" if "\<exists>v. belongs d i o' v" for i o' using that old by blast
    ultimately show ?thesis using ok assms(4) up by (simp add: tenants_apart_def)
  qed
  moreover have "findings_owned d'" using ok by (simp add: findings_owned_def)
  moreover have "entries_owned d'"
  proof -
    let ?e = "d\<lparr>log_entries := log_entries d @ map (copy_row b) es, partitions := partitions d @ ps, uploads := uploads d @ [up]\<rparr>"
    have d'e: "d' = with_rollups ?n ?e" by (simp add: d' committed_def)
    have re: "r \<in> set (entry_rollups d) \<or> r \<in> set (rollup_rows ''minute'' ?n ?e) \<or> r \<in> set (rollup_rows ''hour'' ?n ?e)"
      if "r \<in> set (entry_rollups d')" for r
      using that set_fold_upsert [of rollup_pk] unfolding d'e with_rollups_def by (simp, blast)
    have rs: "r \<in> set (status_rollups d) \<or> r \<in> set (status_rows ?n ?e)" if "r \<in> set (status_rollups d')" for r
      using that set_fold_upsert [of status_pk] unfolding d'e with_rollups_def by (simp, blast)
    have le: "log_entries ?e = log_entries d'" by simp
    have "belongs d' (r_upload_id r) (r_org_id r) (r_user_id r)" if "r \<in> set (entry_rollups d')" for r
      using re [OF that] ok old rows rollup_rows_tenant [of r _ ?n ?e] unfolding le entries_owned_def by metis
    moreover have "belongs d' (s_upload_id r) (s_org_id r) (s_user_id r)" if "r \<in> set (status_rollups d')" for r
      using rs [OF that] ok old rows status_rows_tenant [of r ?n ?e] unfolding le entries_owned_def by metis
    ultimately show ?thesis using rows by (simp add: entries_owned_def)
  qed
  moreover have "partitioned d'"
    using ok months by (auto simp: partitioned_def months_covered_def) blast
  ultimately show ?thesis by (simp add: tables_ok_def)
qed

end
