(* ===== verification/Steps.thy ===== *)
theory Steps
  imports Tables
begin

text \<open>
  The changes the gateway makes to the tables, as a transition system: one step is one statement or
  one committed transaction, taken on behalf of one organization. What a request does is a
  sequence of steps of a single organization (\<open>Requests\<close>); what holds after every sequence is shown
  here by induction.
\<close>

section \<open>Steps\<close>

inductive step :: "uuid \<Rightarrow> db \<Rightarrow> db \<Rightarrow> bool" for org :: uuid where
  draw: "step org d (d\<lparr>next_id := Suc (next_id d)\<rparr>)"
| log: "al_OrgID row = org \<Longrightarrow> step org d (d\<lparr>audit_log := audit_log d @ [row], next_id := Suc (next_id d)\<rparr>)"
| found: "org = next_id d \<Longrightarrow> insert_org name slug d t = Inr (x, d') \<Longrightarrow> step org d d'"
| join: "insert_user org email hash role d t = Inr (x, d') \<Longrightarrow> step org d d'"
| stage: "member d i org \<Longrightarrow> s_StagePendingSecret i sealed d t = Inr (x, d') \<Longrightarrow> step org d d'"
| activate: "member d i org \<Longrightarrow> step org d (activated i hs t d)"
| disable: "member d i org \<Longrightarrow> step org d (disabled i d)"
| burn: "c \<in> set (mfa_recovery_codes d) \<Longrightarrow> rc_ID c = i \<Longrightarrow> member d (rc_user_id c) org \<Longrightarrow> step org d (burn_db i t d)"
| policy: "s_SetOrgRequireMFA org b d t = Inr (x, d') \<Longrightarrow> step org d d'"
| grant: "g_OrgID g = org \<Longrightarrow> grant_within d g \<Longrightarrow> s_UpsertGrant g d t = Inr (h, d') \<Longrightarrow> step org d d'"
| revoke: "s_DeleteGrant org i d t = Inr (x, d') \<Longrightarrow> step org d d'"
| analyse: "belongs d i org usr \<Longrightarrow> s_CreateAnalysis org i scope window d t = Inr (an, d') \<Longrightarrow> step org d d'"
| fail: "an \<in> set (analyses d) \<Longrightarrow> a_ID an = i \<Longrightarrow> a_OrgID an = org \<Longrightarrow> s_FailAnalysis i msg d t = Inr (x, d') \<Longrightarrow> step org d d'"
| delete: "hits org i d \<noteq> [] \<Longrightarrow> step org d (deleted org i d)"
| upload: "ib_OrgID b = org \<Longrightarrow> member d (ib_UserID b) org \<Longrightarrow> ib_UploadID b < next_id d \<Longrightarrow> ingested b d d' up es \<Longrightarrow> step org d d'"

abbreviation steps :: "uuid \<Rightarrow> db \<Rightarrow> db \<Rightarrow> bool" where
  "steps org \<equiv> (step org)\<^sup>*\<^sup>*"

section \<open>The tables stay well formed\<close>

lemma member_user: "member d i org \<Longrightarrow> \<exists>u\<in>set (users d). u_ID u = i"
  by (auto simp: member_def)

lemma step_ok:
  assumes "step org d d'" "tables_ok d"
  shows "tables_ok d'"
  using assms
proof cases
  case draw
  then show ?thesis using ok_fresh [OF assms(2)] by simp
next
  case (log row)
  then show ?thesis using ok_log [OF assms(2)] by simp
next
  case (stage i sealed t x)
  then show ?thesis using ok_update_users [OF assms(2)] by (auto simp: s_StagePendingSecret_def stage_secret_def)
next
  case (activate i hs t)
  then show ?thesis using ok_activated [OF assms(2)] member_user by blast
next
  case (policy b t x)
  then show ?thesis using ok_update_organizations [OF assms(2)] by (auto simp: s_SetOrgRequireMFA_def)
next
  case (upload b up es)
  then show ?thesis using ok_ingested [OF assms(2) upload(4,3)] by simp
next
  case (found name slug t x)
  show ?thesis by (rule ok_insert_org [OF assms(2) found(2)])
next
  case (join email hash role t x)
  show ?thesis by (rule ok_insert_user [OF assms(2) join])
next
  case (disable i)
  show ?thesis unfolding disable(1) by (rule ok_disabled [OF assms(2)])
next
  case (burn c i t)
  show ?thesis unfolding burn(1) by (rule ok_burn [OF assms(2)])
next
  case (grant g t h)
  show ?thesis by (rule ok_upsert_grant [OF assms(2) grant(2,3)])
next
  case (revoke i t x)
  show ?thesis by (rule ok_delete_grant [OF assms(2) revoke])
next
  case (analyse i usr scope window t an)
  show ?thesis by (rule ok_create_analysis [OF assms(2) analyse(2,1)])
next
  case (fail an i msg t x)
  show ?thesis by (rule ok_fail_analysis [OF assms(2) fail(4)])
next
  case (delete i)
  show ?thesis unfolding delete(1) by (rule ok_deleted [OF assms(2) delete(2)])
qed

lemma steps_ok: "steps org d d' \<Longrightarrow> tables_ok d \<Longrightarrow> tables_ok d'"
  by (induction rule: rtranclp_induct) (auto intro: step_ok)

section \<open>Tenants stay apart\<close>

text \<open>Everything the tables hold of one organization.\<close>

definition tenant :: "uuid \<Rightarrow> db \<Rightarrow> db" where
  "tenant p d = empty_db\<lparr>
     organizations := select (\<lambda>r. o_ID r = p) (organizations d), users := select (\<lambda>u. u_OrgID u = p) (users d),
     uploads := select (\<lambda>u. up_OrgID u = p) (uploads d), access_grants := select (\<lambda>g. g_OrgID g = p) (access_grants d),
     audit_log := select (\<lambda>l. al_OrgID l = p) (audit_log d), analyses := select (\<lambda>a. a_OrgID a = p) (analyses d),
     anomalies := select (\<lambda>f. \<exists>a\<in>set (analyses d). a_ID a = an_analysis_id f \<and> a_OrgID a = p) (anomalies d),
     analysis_timings := select (\<lambda>t. t_org_id t = p) (analysis_timings d),
     finding_embeddings := select (\<lambda>f. fe_org_id f = p) (finding_embeddings d),
     log_entries := select (\<lambda>l. l_org_id l = p) (log_entries d),
     entry_rollups := select (\<lambda>r. r_org_id r = p) (entry_rollups d), status_rollups := select (\<lambda>r. s_org_id r = p) (status_rollups d),
     mfa_recovery_codes := select (\<lambda>c. member d (rc_user_id c) p) (mfa_recovery_codes d)\<rparr>"

lemma tenant_frame [simp]:
  "tenant p (d\<lparr>next_id := n\<rparr>) = tenant p d" "tenant p (d\<lparr>partitions := ps\<rparr>) = tenant p d"
  by (simp_all add: tenant_def)

lemma select_update:
  assumes "\<And>r. r \<in> set rows \<Longrightarrow> p r \<Longrightarrow> \<not> q r \<and> \<not> q (f r)"
  shows "select q (update_where p f rows) = select q rows"
  using assms by (induction rows) (auto simp: update_where_def select_def)

lemma select_delete:
  assumes "\<And>r. r \<in> set rows \<Longrightarrow> p r \<Longrightarrow> \<not> q r"
  shows "select q (delete_where p rows) = select q rows"
  using assms by (induction rows) (auto simp: delete_where_def select_def)

lemma select_append: "select q (xs @ ys) = select q xs @ select q ys"
  by (simp add: select_def)

lemma select_none: "(\<And>r. r \<in> set rows \<Longrightarrow> \<not> q r) \<Longrightarrow> select q rows = []"
  by (simp add: select_def)

lemma tenant_users:
  assumes "tables_ok d" "member d i org" "p \<noteq> org" "\<And>u. u_ID (f u) = u_ID u \<and> u_OrgID (f u) = u_OrgID u"
    and "\<And>u. q u \<Longrightarrow> u_ID u = i"
  shows "tenant p (d\<lparr>users := update_where q f (users d)\<rparr>) = tenant p d"
proof -
  have "u_OrgID u = org" if "u \<in> set (users d)" "u_ID u = i" for u
    using member_org [OF assms(1,2)] that by (auto simp: member_def)
  then have "select (\<lambda>u. u_OrgID u = p) (update_where q f (users d)) = select (\<lambda>u. u_OrgID u = p) (users d)"
    using assms(3-5) by (intro select_update) auto
  moreover have "member (d\<lparr>users := update_where q f (users d)\<rparr>) = member d"
    using assms(4) by (simp add: member_def fun_eq_iff bex_update_where)
  ultimately show ?thesis by (simp add: tenant_def)
qed

lemma tenant_codes:
  assumes "select (\<lambda>c. member d (rc_user_id c) p) cs = select (\<lambda>c. member d (rc_user_id c) p) (mfa_recovery_codes d)"
  shows "tenant p (d\<lparr>mfa_recovery_codes := cs\<rparr>) = tenant p d"
  using assms by (simp add: tenant_def)

lemma tenant_inserted_codes:
  "\<not> member d i p \<Longrightarrow> tenant p (inserted_codes i hs d) = tenant p d"
proof (induction hs arbitrary: d)
  case (Cons h hs)
  let ?d = "d\<lparr>mfa_recovery_codes := mfa_recovery_codes d @
     [\<lparr>rc_ID = next_id d, rc_user_id = i, rc_code_hash = h, rc_used_at = None\<rparr>], next_id := Suc (next_id d)\<rparr>"
  have "tenant p ?d = tenant p d" using Cons.prems by (simp add: tenant_def select_append select_def)
  with Cons.IH [of ?d] Cons.prems show ?case by simp
qed simp

lemma select_fold_upsert:
  assumes "\<forall>r\<in>set rows. \<forall>x. key x = key r \<longrightarrow> \<not> q x"
  shows "select q (fold (upsert key) rows table) = select q table"
  using assms
proof (induction rows arbitrary: table)
  case (Cons r rows)
  have "select q (upsert key r table) = select q table"
  proof (cases "list_ex (\<lambda>x. key x = key r) table")
    case True
    have "select q (map (\<lambda>x. if key x = key r then r else x) table) = select q table"
      using Cons.prems by (induction table) (auto simp: select_def)
    with True show ?thesis by (simp add: upsert_def)
  next
    case False
    then show ?thesis using Cons.prems by (simp add: upsert_def select_append select_def)
  qed
  with Cons.IH [of "upsert key r table"] Cons.prems show ?case by simp
qed simp

lemma tenant_ingested:
  assumes "tables_ok d" "ingested b d d' up es" "ib_OrgID b \<noteq> p"
  shows "tenant p d' = tenant p d"
proof -
  let ?n = "ib_UploadID b"
  from assms(2) obtain ps where up: "up_OrgID up = ib_OrgID b" and d': "d' = committed b up es ps d" and new: "\<not> has_upload ?n d"
    by (auto simp: ingested_def)
  let ?e = "d\<lparr>log_entries := log_entries d @ map (copy_row b) es, partitions := partitions d @ ps, uploads := uploads d @ [up]\<rparr>"
  have d'e: "d' = with_rollups ?n ?e" by (simp add: d' committed_def)
  have org: "l_org_id l = ib_OrgID b" if "l \<in> set (log_entries ?e)" "l_upload_id l = ?n" for l
    using that unused_rows(1) [OF assms(1) new] by auto
  have 1: "select (\<lambda>r. r_org_id r = p) (fold (upsert rollup_pk) (rollup_rows g ?n ?e) table) = select (\<lambda>r. r_org_id r = p) table"
    for g table
    by (rule select_fold_upsert) (use rollup_rows_tenant [of _ g ?n ?e] org assms(3) in \<open>fastforce simp: rollup_pk_def\<close>)
  have 2: "select (\<lambda>r. s_org_id r = p) (fold (upsert status_pk) (status_rows ?n ?e) table) = select (\<lambda>r. s_org_id r = p) table"
    for table
    by (rule select_fold_upsert) (use status_rows_tenant [of _ ?n ?e] org assms(3) in \<open>fastforce simp: status_pk_def\<close>)
  have "select (\<lambda>l. l_org_id l = p) (map (copy_row b) es) = []" using assms(3) by (simp add: select_def o_def)
  then show ?thesis
    using up assms(3) 1 2 unfolding d'e with_rollups_def
    by (simp add: tenant_def select_append member_def) (simp add: select_def)
qed

lemma tenant_deleted:
  assumes "tables_ok d" "hits org i d \<noteq> []" "p \<noteq> org"
  shows "tenant p (deleted org i d) = tenant p d"
proof -
  have ids: "set (map up_ID (hits org i d)) = {i}" using assms(2) by (auto simp: hits_def select_def filter_empty_conv)
  then have in_ids: "j \<in> set (map up_ID (hits org i d)) \<longleftrightarrow> j = i" for j by blast
  obtain up where up: "up \<in> set (uploads d)" "up_ID up = i" "up_OrgID up = org"
    using assms(2) by (auto simp: hits_def select_def filter_empty_conv)
  then have owner: "belongs d i org (up_UserID up)" by (auto simp: belongs_def)
  note mine = belongs_org [OF assms(1) owner]
  note ok = assms(1) [unfolded tables_ok_def]
  have "up_OrgID u = org" if "u \<in> set (uploads d)" "up_ID u = i" for u using mine that by (auto simp: belongs_def)
  then have 1: "select (\<lambda>u. up_OrgID u = p) (delete_where (\<lambda>u. up_ID u = i) (uploads d)) = select (\<lambda>u. up_OrgID u = p) (uploads d)"
    using assms(3) by (intro select_delete) auto
  have "g_OrgID g = org" if "g \<in> set (access_grants d)" "g_UploadID g = Some i" for g
    using mine grants_okD(4) [OF assms(1)] that by (fastforce simp: grant_within_def)
  then have 2: "select (\<lambda>g. g_OrgID g = p) (delete_where (\<lambda>g. g_UploadID g = Some i) (access_grants d)) =
      select (\<lambda>g. g_OrgID g = p) (access_grants d)"
    using assms(3) by (intro select_delete) auto
  have an: "a_OrgID a = org" if "a \<in> set (analyses d)" "a_UploadID a = i" for a
    using mine analyses_okD(4) [OF assms(1)] that by fastforce
  then have 3: "select (\<lambda>a. a_OrgID a = p) (delete_where (\<lambda>a. a_UploadID a = i) (analyses d)) = select (\<lambda>a. a_OrgID a = p) (analyses d)"
    using assms(3) by (intro select_delete) auto
  let ?gone = "map a_ID (select (\<lambda>a. a_UploadID a = i) (analyses d))"
  have same: "a = b" if "a \<in> set (analyses d)" "b \<in> set (analyses d)" "a_ID a = a_ID b" for a b
    using ok that by (auto simp: unique_ids_def distinct_map dest: inj_onD)
  have gone: "a_OrgID a = org" if "a \<in> set (analyses d)" "a_ID a \<in> set ?gone" for a
    using that an same by auto
  have 4: "select (\<lambda>t. t_org_id t = p) (delete_where (\<lambda>t. t_analysis_id t \<in> set ?gone) (analysis_timings d)) =
      select (\<lambda>t. t_org_id t = p) (analysis_timings d)"
    using ok gone assms(3) unfolding findings_owned_def by (intro select_delete) metis
  have 5: "select (\<lambda>t. fe_org_id t = p) (delete_where (\<lambda>t. fe_analysis_id t \<in> set ?gone) (finding_embeddings d)) =
      select (\<lambda>t. fe_org_id t = p) (finding_embeddings d)"
    using ok gone assms(3) unfolding findings_owned_def by (intro select_delete) metis
  have "(\<exists>a\<in>set (delete_where (\<lambda>a. a_UploadID a = i) (analyses d)). a_ID a = j \<and> a_OrgID a = p) \<longleftrightarrow>
      (\<exists>a\<in>set (analyses d). a_ID a = j \<and> a_OrgID a = p)" for j
    using an assms(3) by auto
  moreover have "select (\<lambda>f. \<exists>a\<in>set (analyses d). a_ID a = an_analysis_id f \<and> a_OrgID a = p)
      (delete_where (\<lambda>f. an_analysis_id f \<in> set ?gone) (anomalies d)) =
      select (\<lambda>f. \<exists>a\<in>set (analyses d). a_ID a = an_analysis_id f \<and> a_OrgID a = p) (anomalies d)"
    by (rule select_delete) (use gone assms(3) in \<open>metis\<close>)
  ultimately have 6: "select (\<lambda>f. \<exists>a\<in>set (delete_where (\<lambda>a. a_UploadID a = i) (analyses d)). a_ID a = an_analysis_id f \<and> a_OrgID a = p)
        (delete_where (\<lambda>f. an_analysis_id f \<in> set ?gone) (anomalies d)) =
      select (\<lambda>f. \<exists>a\<in>set (analyses d). a_ID a = an_analysis_id f \<and> a_OrgID a = p) (anomalies d)"
    by (simp only:)
  have 7: "select (\<lambda>l. l_org_id l = p) (delete_where (\<lambda>l. l_upload_id l = i \<and> l_org_id l = org) (log_entries d)) =
      select (\<lambda>l. l_org_id l = p) (log_entries d)"
    using assms(3) by (intro select_delete) auto
  have "r_org_id r = org" if "r \<in> set (entry_rollups d)" "r_upload_id r = i" for r
    using mine ok that by (fastforce simp: entries_owned_def)
  then have 8: "select (\<lambda>r. r_org_id r = p) (delete_where (\<lambda>r. r_upload_id r = i) (entry_rollups d)) = select (\<lambda>r. r_org_id r = p) (entry_rollups d)"
    using assms(3) by (intro select_delete) auto
  have "s_org_id r = org" if "r \<in> set (status_rollups d)" "s_upload_id r = i" for r
    using mine ok that by (fastforce simp: entries_owned_def)
  then have 9: "select (\<lambda>r. s_org_id r = p) (delete_where (\<lambda>r. s_upload_id r = i) (status_rollups d)) = select (\<lambda>r. s_org_id r = p) (status_rollups d)"
    using assms(3) by (intro select_delete) auto
  show ?thesis
    unfolding deleted_def cascade_upload_def Let_def in_ids tenant_def
    using 1 2 3 4 5 6 7 8 9 by (simp add: member_def del: set_delete_where)
qed

lemma tenant_organizations:
  assumes "\<And>r. o_ID (f r) = o_ID r" "p \<noteq> org"
  shows "tenant p (d\<lparr>organizations := update_where (\<lambda>r. o_ID r = org) f (organizations d)\<rparr>) = tenant p d"
  using select_update [of "organizations d" "\<lambda>r. o_ID r = org" "\<lambda>r. o_ID r = p" f] assms by (simp add: tenant_def member_def)

text \<open>A step of one organization changes nothing that the tables hold of another.\<close>

lemma step_tenant:
  assumes "step org d d'" "tables_ok d" "p \<noteq> org"
  shows "tenant p d' = tenant p d"
  using assms(1)
proof cases
  case draw
  then show ?thesis by simp
next
  case (log row)
  with assms(3) show ?thesis by (simp add: tenant_def select_append) (simp add: select_def)
next
  case (found name slug t x)
  from insert_org_db [OF found(2)] found(1) assms(3) show ?thesis by (auto simp: tenant_def select_append select_def)
next
  case (join email hash role t x)
  from insert_user_db [OF join] assms(3) show ?thesis
    by (auto simp: tenant_def select_append member_def) (simp add: select_def)
next
  case (stage i sealed t x)
  then show ?thesis using tenant_users [OF assms(2) stage(1) assms(3)] by (auto simp: s_StagePendingSecret_def stage_secret_def)
next
  case (activate i hs t)
  let ?f = "\<lambda>u. u\<lparr>u_totp_enabled := True, u_totp_confirmed_at := Some t\<rparr>" and ?q = "\<lambda>u. u_ID u = i \<and> u_totp_secret u \<noteq> None"
  let ?e = "d\<lparr>users := update_where ?q ?f (users d)\<rparr>"
  have no: "\<not> member d i p" using member_org [OF assms(2) activate(2)] assms(3) by blast
  have mem: "member ?e = member d" by (simp add: member_def fun_eq_iff bex_update_where)
  have "tenant p (?e\<lparr>mfa_recovery_codes := delete_where (\<lambda>c. rc_user_id c = i) (mfa_recovery_codes d)\<rparr>) = tenant p ?e"
    by (rule tenant_codes) (use no mem in \<open>auto intro!: select_delete\<close>)
  moreover have "tenant p ?e = tenant p d" by (rule tenant_users [OF assms(2) activate(2) assms(3)]) auto
  ultimately show ?thesis using tenant_inserted_codes [of "?e\<lparr>mfa_recovery_codes := delete_where (\<lambda>c. rc_user_id c = i) (mfa_recovery_codes d)\<rparr>" i p hs] no mem
    by (simp add: activate(1) activated_def)
next
  case (disable i)
  let ?f = "\<lambda>u. u\<lparr>u_totp_enabled := False, u_totp_secret := None, u_totp_confirmed_at := None\<rparr>" and ?q = "\<lambda>u. u_ID u = i"
  let ?e = "d\<lparr>users := update_where ?q ?f (users d)\<rparr>"
  have no: "\<not> member d i p" using member_org [OF assms(2) disable(2)] assms(3) by blast
  have mem: "member ?e = member d" by (simp add: member_def fun_eq_iff bex_update_where)
  have "tenant p (?e\<lparr>mfa_recovery_codes := delete_where (\<lambda>c. rc_user_id c = i) (mfa_recovery_codes d)\<rparr>) = tenant p ?e"
    by (rule tenant_codes) (use no mem in \<open>auto intro!: select_delete\<close>)
  moreover have "tenant p ?e = tenant p d" by (rule tenant_users [OF assms(2) disable(2) assms(3)]) auto
  ultimately show ?thesis by (simp add: disable(1) disabled_def)
next
  case (burn c i t)
  have "rc_user_id x = rc_user_id c" if "x \<in> set (mfa_recovery_codes d)" "rc_ID x = i" for x
    using codes_okD(1) [OF assms(2)] burn(2,3) that by (auto simp: distinct_map dest: inj_onD)
  moreover have "\<not> member d (rc_user_id c) p" using member_org [OF assms(2) burn(4)] assms(3) by blast
  ultimately show ?thesis
    unfolding burn(1) burn_db_def by (intro tenant_codes select_update) auto
next
  case (policy b t x)
  then show ?thesis using tenant_organizations [OF _ assms(3)] by (auto simp: s_SetOrgRequireMFA_def)
next
  case (grant g t h)
  from grant(3) show ?thesis
  proof (cases rule: s_UpsertGrant_cases)
    case insert
    then show ?thesis using grant(1) assms(3) by (simp add: tenant_def select_append) (simp add: select_def member_def)
  next
    case (update k)
    have "select (\<lambda>x. g_OrgID x = p) (update_where (grant_conflict g) (grant_update g) (access_grants d)) =
        select (\<lambda>x. g_OrgID x = p) (access_grants d)"
      using upsert_same_org [OF assms(2) grant(2)] grant(1) assms(3)
      by (intro select_update) (auto simp: grant_conflict_iff_key grant_update_def)
    with update(4) show ?thesis by (simp add: tenant_def member_def)
  qed
next
  case (revoke i t x)
  have "select (\<lambda>x. g_OrgID x = p) (delete_where (\<lambda>g. g_ID g = i \<and> g_OrgID g = org) (access_grants d)) =
      select (\<lambda>x. g_OrgID x = p) (access_grants d)"
    using assms(3) by (intro select_delete) auto
  with s_DeleteGrant_db [OF revoke] show ?thesis by (simp add: tenant_def member_def)
next
  case (analyse i usr scope window t an)
  from s_CreateAnalysis_db [OF analyse(2)] assms(3) have "d' = d\<lparr>analyses := analyses d @ [an], next_id := Suc (next_id d)\<rparr>" "a_OrgID an \<noteq> p"
    by simp_all
  then show ?thesis by (simp add: tenant_def select_append member_def) (simp add: select_def)
next
  case (fail an i msg t x)
  let ?f = "\<lambda>an. an\<lparr>a_Status := ''failed'', a_Error := Some msg, a_FinishedAt := Some t\<rparr>"
  have d': "d' = d\<lparr>analyses := update_where (\<lambda>an. a_ID an = i) ?f (analyses d)\<rparr>" using fail(4) by (simp add: s_FailAnalysis_def)
  have "a_OrgID a = org" if "a \<in> set (analyses d)" "a_ID a = i" for a
    using analyses_okD(1) [OF assms(2)] fail(1-3) that by (auto simp: distinct_map dest: inj_onD)
  then have "select (\<lambda>a. a_OrgID a = p) (update_where (\<lambda>an. a_ID an = i) ?f (analyses d)) = select (\<lambda>a. a_OrgID a = p) (analyses d)"
    using assms(3) by (intro select_update) auto
  then show ?thesis by (simp add: d' tenant_def bex_update_where member_def)
next
  case (delete i)
  show ?thesis unfolding delete(1) by (rule tenant_deleted [OF assms(2) delete(2) assms(3)])
next
  case (upload b up es)
  show ?thesis using tenant_ingested [OF assms(2) upload(4)] upload(1) assms(3) by simp
qed

lemma steps_tenant: "steps org d d' \<Longrightarrow> tables_ok d \<Longrightarrow> p \<noteq> org \<Longrightarrow> tenant p d' = tenant p d"
  by (induction rule: rtranclp_induct) (auto dest: step_tenant intro: steps_ok)

section \<open>Histories\<close>

text \<open>
  What every step keeps, every sequence of steps keeps: a relation between the tables before and
  after, that the statements of the gateway are shown to respect one by one.
\<close>

locale history =
  fixes R :: "db \<Rightarrow> db \<Rightarrow> bool"
  assumes now: "R d d"
    and later: "R d e \<Longrightarrow> R e f \<Longrightarrow> R d f"
    and kept: "tables_ok d \<Longrightarrow> step org d d' \<Longrightarrow> R d d'"
begin

lemma steps_kept: "steps org d d' \<Longrightarrow> tables_ok d \<Longrightarrow> R d d'"
proof (induction rule: rtranclp_induct)
  case base
  show ?case by (rule now)
next
  case (step e f)
  have "tables_ok e" by (rule steps_ok) (use step in auto)
  with step show ?case using kept later by blast
qed

end

text \<open>The audit log is only ever added to, no identifier is drawn twice, no organization or user is removed.\<close>

definition only_grows :: "db \<Rightarrow> db \<Rightarrow> bool" where
  "only_grows d d' \<longleftrightarrow> prefix (audit_log d) (audit_log d') \<and> next_id d \<le> next_id d' \<and>
     prefix (map o_ID (organizations d)) (map o_ID (organizations d')) \<and>
     prefix (map (\<lambda>u. (u_ID u, u_OrgID u, u_Email u, u_Role u)) (users d)) (map (\<lambda>u. (u_ID u, u_OrgID u, u_Email u, u_Role u)) (users d'))"

lemma only_grows_refl: "only_grows d d"
  by (simp add: only_grows_def)

lemma only_grows_trans: "only_grows d e \<Longrightarrow> only_grows e f \<Longrightarrow> only_grows d f"
  unfolding only_grows_def by (meson order_trans prefix_order.trans)

lemma inserted_codes_next: "next_id d \<le> next_id (inserted_codes i hs d)"
proof (induction hs arbitrary: d)
  case (Cons h hs)
  from Cons [of "d\<lparr>mfa_recovery_codes := mfa_recovery_codes d @
     [\<lparr>rc_ID = next_id d, rc_user_id = i, rc_code_hash = h, rc_used_at = None\<rparr>], next_id := Suc (next_id d)\<rparr>"] show ?case by simp
qed simp

lemma step_only_grows:
  assumes "step org d d'"
  shows "only_grows d d'"
  using assms
proof cases
  case (found name slug t x)
  from insert_org_db [OF found(2)] show ?thesis by (auto simp: only_grows_def)
next
  case (join email hash role t x)
  from insert_user_db [OF join] show ?thesis by (auto simp: only_grows_def)
next
  case (stage i sealed t x)
  then show ?thesis by (auto simp: only_grows_def s_StagePendingSecret_def stage_secret_def map_update_where)
next
  case (activate i hs t)
  then show ?thesis
    using inserted_codes_next [of "d\<lparr>users := update_where (\<lambda>u. u_ID u = i \<and> u_totp_secret u \<noteq> None)
       (\<lambda>u. u\<lparr>u_totp_enabled := True, u_totp_confirmed_at := Some t\<rparr>) (users d),
     mfa_recovery_codes := delete_where (\<lambda>c. rc_user_id c = i) (mfa_recovery_codes d)\<rparr>" i hs]
    by (simp add: only_grows_def activated_def map_update_where)
next
  case (disable i)
  then show ?thesis by (simp add: only_grows_def disabled_def map_update_where)
next
  case (burn c i t)
  then show ?thesis by (simp add: only_grows_def burn_db_def)
next
  case (policy b t x)
  then show ?thesis by (auto simp: only_grows_def s_SetOrgRequireMFA_def map_update_where)
next
  case (grant g t h)
  from grant(3) show ?thesis by (cases rule: s_UpsertGrant_cases) (simp_all add: only_grows_def)
next
  case (revoke i t x)
  from s_DeleteGrant_db [OF revoke] show ?thesis by (simp add: only_grows_def)
next
  case (analyse i usr scope window t an)
  from s_CreateAnalysis_db [OF analyse(2)] show ?thesis by (simp add: only_grows_def)
next
  case (fail an i msg t x)
  then show ?thesis by (auto simp: only_grows_def s_FailAnalysis_def)
next
  case (delete i)
  then show ?thesis by (simp add: only_grows_def deleted_def)
next
  case (upload b up es)
  then show ?thesis by (auto simp: ingested_def only_grows_def)
qed (simp_all add: only_grows_def)

interpretation growth: history only_grows
  by unfold_locales (rule only_grows_refl, erule (1) only_grows_trans, erule step_only_grows)

text \<open>The rollup tables are at all times the groupings of the entries they were built from.\<close>

definition rollups_current :: "db \<Rightarrow> bool" where
  "rollups_current d \<longleftrightarrow> (\<forall>up\<in>set (uploads d).
     (\<forall>g\<in>{''minute'', ''hour''}. filter (\<lambda>r. r_upload_id r = up_ID up \<and> r_grain r = g) (entry_rollups d) = rollup_rows g (up_ID up) d) \<and>
     filter (\<lambda>r. s_upload_id r = up_ID up) (status_rollups d) = status_rows (up_ID up) d)"

lemma rollup_rows_cong:
  "filter (\<lambda>l. l_upload_id l = i) (log_entries d') = filter (\<lambda>l. l_upload_id l = i) (log_entries d) \<Longrightarrow>
     rollup_rows g i d' = rollup_rows g i d \<and> status_rows i d' = status_rows i d"
proof -
  assume "filter (\<lambda>l. l_upload_id l = i) (log_entries d') = filter (\<lambda>l. l_upload_id l = i) (log_entries d)"
  moreover have "dated_rows i e = filter (\<lambda>l. l_ts l \<noteq> None) (filter (\<lambda>l. l_upload_id l = i) (log_entries e))" for e
    by (simp add: dated_rows_def select_def conj_commute)
  ultimately show ?thesis by (simp only: rollup_rows_def status_rows_def)
qed

lemma rollups_current_same:
  "rollups_current d \<Longrightarrow> uploads d' = uploads d \<Longrightarrow> log_entries d' = log_entries d \<Longrightarrow> entry_rollups d' = entry_rollups d \<Longrightarrow>
     status_rollups d' = status_rollups d \<Longrightarrow> rollups_current d'"
  using rollup_rows_cong [of _ d' d] by (simp add: rollups_current_def)

lemma inserted_codes_rows:
  "log_entries (inserted_codes i hs d) = log_entries d" "entry_rollups (inserted_codes i hs d) = entry_rollups d"
  "status_rollups (inserted_codes i hs d) = status_rollups d"
  by (induction hs arbitrary: d) simp_all

lemma status_rows_id: "r \<in> set (status_rows i d) \<Longrightarrow> s_upload_id r = i"
  using status_rows_tenant by blast

lemma distinct_status_pk: "distinct (map status_pk (status_rows i d))"
proof -
  let ?gs = "group_by status_key (select (\<lambda>l. l_resp_code l \<noteq> None) (dated_rows i d))"
  have pk: "status_pk (status_row ((org, usr, up, bucket, st), rs)) = (org, usr, up, bucket, st)" for org usr up bucket st rs
    by (simp add: status_pk_def status_row_def)
  have "inj_on (\<lambda>x. status_pk (status_row x)) (set ?gs)"
    by (rule inj_onI) (auto simp: set_group_by pk status_key_def)
  moreover have "distinct ?gs"
    using distinct_group_by [of status_key "select (\<lambda>l. l_resp_code l \<noteq> None) (dated_rows i d)"] by (simp add: distinct_map)
  ultimately show ?thesis by (simp add: status_rows_def o_def distinct_map)
qed

lemma current_ingested:
  assumes "tables_ok d" "rollups_current d" "ingested b d d' up es"
  shows "rollups_current d'"
proof -
  let ?n = "ib_UploadID b"
  from assms(3) obtain ps where up: "up_ID up = ?n" and d': "d' = committed b up es ps d" and new: "\<not> has_upload ?n d"
    by (auto simp: ingested_def)
  let ?e = "d\<lparr>log_entries := log_entries d @ map (copy_row b) es, partitions := partitions d @ ps, uploads := uploads d @ [up]\<rparr>"
  have d'e: "d' = with_rollups ?n ?e" by (simp add: d' committed_def)
  note fresh = unused_rows [OF assms(1) new]
  have le: "log_entries d' = log_entries ?e" by (simp add: d')
  have er: "entry_rollups d' = entry_rollups d @ rollup_rows ''minute'' ?n ?e @ rollup_rows ''hour'' ?n ?e"
    using rollups_committed [of d ?n ?e] fresh unfolding d'e by fastforce
  have sr: "status_rollups d' = status_rollups d @ status_rows ?n ?e"
    unfolding d'e with_rollups_def
    using fresh status_rows_id [of _ ?n ?e]
    by (simp, intro fold_upsert_fresh distinct_status_pk) (fastforce simp: status_pk_def)
  have same: "rollup_rows g i d' = rollup_rows g i ?e \<and> status_rows i d' = status_rows i ?e" for g i
    by (rule rollup_rows_cong) (simp add: le)
  have old: "rollup_rows g i d' = rollup_rows g i d \<and> status_rows i d' = status_rows i d" if "i \<noteq> ?n" for g i
    by (rule rollup_rows_cong) (use that in \<open>simp add: le o_def\<close>)
  have "up_ID v \<noteq> ?n" if "v \<in> set (uploads d)" for v
    using new that by (auto simp: has_upload_def list_ex_iff)
  moreover have "uploads d' = uploads d @ [up]" by (simp add: d')
  moreover have "filter (\<lambda>r. r_upload_id r = ?n \<and> r_grain r = g) (entry_rollups d) = []"
    "filter (\<lambda>r. s_upload_id r = ?n) (status_rollups d) = []" for g
    using fresh by (fastforce simp: filter_empty_conv)+
  moreover have "filter (\<lambda>r. r_upload_id r = i \<and> r_grain r = g) (rollup_rows g' ?n ?e) = []" if "i \<noteq> ?n" for i g g'
    using that by (auto simp: filter_empty_conv dest: rollup_rows_id)
  moreover have "filter (\<lambda>r. s_upload_id r = i) (status_rows ?n ?e) = (if i = ?n then status_rows ?n ?e else [])" for i
    by (auto simp: filter_empty_conv filter_id_conv dest: status_rows_id)
  ultimately show ?thesis
    using assms(2) up old same by (simp add: rollups_current_def er sr filter_rollup_rows)
qed

lemma current_deleted:
  assumes "tables_ok d" "rollups_current d" "hits org i d \<noteq> []"
  shows "rollups_current (deleted org i d)"
proof -
  let ?d = "deleted org i d"
  have ids: "set (map up_ID (hits org i d)) = {i}" using assms(3) by (auto simp: hits_def select_def filter_empty_conv)
  then have in_ids: "j \<in> set (map up_ID (hits org i d)) \<longleftrightarrow> j = i" for j by blast
  have same: "rollup_rows g j ?d = rollup_rows g j d \<and> status_rows j ?d = status_rows j d" if "j \<noteq> i" for g j
    by (rule rollup_rows_cong) (use that in \<open>simp add: deleted_def delete_where_def conj_commute cong: conj_cong\<close>)
  have er: "filter (\<lambda>r. r_upload_id r = j \<and> r_grain r = g) (entry_rollups ?d) = filter (\<lambda>r. r_upload_id r = j \<and> r_grain r = g) (entry_rollups d)"
    if "j \<noteq> i" for j g
    unfolding deleted_def cascade_upload_tables in_ids using that by (auto intro!: filter_delete_where)
  have sr: "filter (\<lambda>r. s_upload_id r = j) (status_rollups ?d) = filter (\<lambda>r. s_upload_id r = j) (status_rollups d)" if "j \<noteq> i" for j
    unfolding deleted_def cascade_upload_tables in_ids using that by (auto intro!: filter_delete_where)
  have "set (uploads ?d) = {v \<in> set (uploads d). up_ID v \<noteq> i}" using in_ids by (auto simp: deleted_def)
  with assms(2) same er sr show ?thesis by (simp add: rollups_current_def)
qed

lemma step_current:
  assumes "tables_ok d" "step org d d'"
  shows "rollups_current d \<longrightarrow> rollups_current d'"
  using assms(2)
proof cases
  case (found name slug t x)
  from insert_org_db [OF found(2)] show ?thesis by (auto elim!: rollups_current_same)
next
  case (join email hash role t x)
  from insert_user_db [OF join] show ?thesis by (auto elim!: rollups_current_same)
next
  case (stage i sealed t x)
  then show ?thesis by (auto simp: s_StagePendingSecret_def elim!: rollups_current_same)
next
  case (activate i hs t)
  then show ?thesis by (auto elim!: rollups_current_same simp: activated_def inserted_codes_rows)
next
  case (disable i)
  then show ?thesis by (auto elim!: rollups_current_same simp: disabled_def)
next
  case (burn c i t)
  then show ?thesis by (auto elim!: rollups_current_same simp: burn_db_def)
next
  case (policy b t x)
  then show ?thesis by (auto simp: s_SetOrgRequireMFA_def elim!: rollups_current_same)
next
  case (grant g t h)
  from grant(3) show ?thesis by (cases rule: s_UpsertGrant_cases) (auto elim!: rollups_current_same)
next
  case (revoke i t x)
  from s_DeleteGrant_db [OF revoke] show ?thesis by (auto elim!: rollups_current_same)
next
  case (analyse i usr scope window t an)
  from s_CreateAnalysis_db [OF analyse(2)] show ?thesis by (auto elim!: rollups_current_same)
next
  case (fail an i msg t x)
  then show ?thesis by (auto simp: s_FailAnalysis_def elim!: rollups_current_same)
next
  case (delete i)
  then show ?thesis using current_deleted [OF assms(1)] by simp
next
  case (upload b up es)
  then show ?thesis using current_ingested [OF assms(1)] by blast
qed (auto elim!: rollups_current_same)

interpretation rollups: history "\<lambda>d d'. rollups_current d \<longrightarrow> rollups_current d'"
  by unfold_locales (blast, blast, erule (1) step_current)

end
