(* ===== verification/Requests.thy ===== *)
theory Requests
  imports Steps
begin

text \<open>
  What one request does to the tables. Every handler is shown to change them by steps of the
  organization it answers for, reading handlers not at all; the middleware and the routes carry
  this to the gateway as a whole.
\<close>

section \<open>Reading handlers\<close>

text \<open>Rules for the control structure, beside those for the primitives.\<close>

context frame
begin

lemma keeps_if: "keeps m \<Longrightarrow> keeps n \<Longrightarrow> keeps (if b then m else n)"
  by simp

lemma keeps_option: "keeps m \<Longrightarrow> (\<And>y. keeps (n y)) \<Longrightarrow> keeps (case x of None \<Rightarrow> m | Some y \<Rightarrow> n y)"
  by (cases x) simp_all

lemma keeps_sum: "(\<And>e. keeps (m e)) \<Longrightarrow> (\<And>y. keeps (n y)) \<Longrightarrow> keeps (case x of Inl e \<Rightarrow> m e | Inr y \<Rightarrow> n y)"
  by (cases x) simp_all

lemma keeps_prod: "(\<And>x y. keeps (m x y)) \<Longrightarrow> keeps (case p of (x, y) \<Rightarrow> m x y)"
  by (cases p) simp

lemma keeps_pw_err: "keeps m \<Longrightarrow> keeps n \<Longrightarrow> keeps (case e of PwPanic \<Rightarrow> m | _ \<Rightarrow> n)"
  by (cases e) simp_all

lemma keeps_let: "keeps (f x) \<Longrightarrow> keeps (Let x f)"
  by simp

lemmas keeps_control = keeps_if keeps_option keeps_sum keeps_prod keeps_pw_err keeps_let

lemma keeps_same: "(\<And>w. wp m (\<lambda>_ w'. w_db w' = w_db w) w) \<Longrightarrow> keeps m"
  by (simp add: keeps_def wp_iff refl)

text \<open>At the summary tier nobody breaks the glass.\<close>

lemma keeps_Require: "keeps (Require us c i LevelSummary)"
  unfolding Require_def
proof (rule keeps_same)
  fix w
  show "wp (attempt (Resolve c i) (\<lambda>e. ret (Inl e)) (\<lambda>(lvl, up).
       if LevelSummary \<le> lvl then ret (Inr (lvl, up))
       else if \<not> IsAdmin (u_Role c) then ret (Inl AuthzForbidden)
       else attempt (Audit (u_OrgID c) (Some (u_ID c)) ''breakglass.raw_access'' ''upload''
                (Some i) (breakglass_detail us lvl LevelSummary c up))
         (\<lambda>_. do { log_event LogError ''authz.audit_failed''; ret (Inl AuthzForbidden) })
         (\<lambda>_. do { log_event Warn ''authz.breakglass''; ret (Inr (LevelSummary, up)) })))
      (\<lambda>_ w'. w_db w' = w_db w) w"
    unfolding wp_attempt
    by (rule wp_mono [OF Resolve_wp]) (auto simp: wp_rules less_eq_level_def level_int_def split: sum.splits level.splits)
qed

lemma keeps_reads:
  "keeps (me a u r)" "keeps (listOrgUsers a u r)" "keeps (listGrants a u r)" "keeps (listUploads a u r)" "keeps (getAnalysis a u r)"
  "keeps (dashboardSummary u r)" "keeps (dashboardSeries u r)" "keeps (dashboardTop u r)" "keeps (statusCodes u r)"
  "keeps (actionPlan a u r)" "keeps (listAudit a u r)" "keeps (search a fts u r)"
  "keeps (health r)" "keeps (metrics a js r)" "keeps (logout a r)"
  unfolding me_def listOrgUsers_def listGrants_def listUploads_def getAnalysis_def dashboardSummary_def dashboardSeries_def
    dashboardTop_def statusCodes_def actionPlan_def listAudit_def search_def health_def metrics_def logout_def
    OrgByID_def MFAState_def ListOrgUsers_def ListGrants_def ListVisibleUploads_def AnalysisByID_def Anomalies_def scopeFrom_def
    DashboardSummary_def DashboardSeries_def DashboardTop_def FindingBreakdown_def StatusCodes_def ProcessingStats_def ActionPlan_def ListAudit_def
    SearchFindingsText_def HasEmbeddings_def
  by (intro keeps_rules keeps_control keeps_Require)+

lemma keeps_auth_Require: "(\<And>u r. keeps (next u r)) \<Longrightarrow> keeps (auth_Require a next r)"
  unfolding auth_Require_def parse_def UserByID_def by (intro keeps_rules keeps_control) auto

lemma keeps_ServeMux:
  assumes "\<And>rt r'. rt \<in> set rts \<Longrightarrow> method_matches (rt_Method rt) (rq_Method r) \<Longrightarrow> keeps (rt_Handler rt r')"
  shows "keeps (ServeMux rts r)"
proof -
  have "keeps (case find (\<lambda>rt. route_match r rt \<noteq> None) rts of
          Some rt \<Rightarrow> rt_Handler rt (r\<lparr>rq_PathID := the (route_match r rt)\<rparr>)
        | None \<Rightarrow>
            (case allowed_methods rts r of
               [] \<Rightarrow> ret (plain 404)
             | ms \<Rightarrow> ret (with_header ''Allow'' (Join ms '', '') (plain 405))))"
  proof (cases "find (\<lambda>rt. route_match r rt \<noteq> None) rts")
    case None
    then show ?thesis by (auto intro: keeps_return split: list.split)
  next
    case (Some rt)
    then have "rt \<in> set rts" "route_match r rt \<noteq> None" by (auto simp: find_Some_iff)
    then have "keeps (rt_Handler rt r')" for r' by (intro assms) (auto simp: route_match_def split: if_splits)
    with Some show ?thesis by simp
  qed
  then show ?thesis unfolding ServeMux_def by (rule keeps_if [OF keeps_return])
qed

text \<open>A request with a safe method reaches reading handlers only.\<close>

lemma safe_routes:
  assumes "safe_method (rq_Method r)" "rt \<in> set (Routes g)" "method_matches (rt_Method rt) (rq_Method r)"
  shows "keeps (rt_Handler rt r')"
proof -
  from assms(1,3) have "rt_Method rt \<in> {''GET'', ''HEAD'', ''OPTIONS''}"
    by (auto simp: safe_method_def method_matches_def)
  with assms(2) show ?thesis
    by (auto simp: Routes_def public_routes_def member_routes_def pattern_def Let_def intro!: keeps_reads keeps_auth_Require)
qed

lemma keeps_serve:
  assumes "safe_method (rq_Method r)"
  shows "keeps (serve g r)"
  unfolding serve_def Let_def Middleware_def SecurityHeaders_def BasicAuth_def CSRF_def ensureCSRFCookie_def mint_csrf_def
  by (intro keeps_rules keeps_control keeps_ServeMux safe_routes [OF assms] | assumption | simp)+

end

definition draws :: "db \<Rightarrow> db \<Rightarrow> bool" where
  "draws d d' \<longleftrightarrow> (\<exists>n. next_id d \<le> n \<and> d' = d\<lparr>next_id := n\<rparr>)"

lemma draws_refl: "draws d d"
  unfolding draws_def by (rule exI [of _ "next_id d"]) simp

lemma draws_trans: "draws d e \<Longrightarrow> draws e f \<Longrightarrow> draws d f"
  unfolding draws_def by (elim exE conjE, rule_tac x = na in exI) simp

lemma draws_next: "draws d (d\<lparr>next_id := Suc (next_id d)\<rparr>)"
  unfolding draws_def by (rule exI [of _ "Suc (next_id d)"]) simp

interpretation reads: frame draws
  by unfold_locales (rule draws_refl, erule (1) draws_trans, rule draws_next)

lemma steps_one: "step org d e \<Longrightarrow> steps org d e"
  by (rule r_into_rtranclp)

lemma steps_more: "steps org d e \<Longrightarrow> step org e f \<Longrightarrow> steps org d f"
  by (rule rtranclp.rtrancl_into_rtrancl)

interpretation moves: frame "steps org" for org
  by unfold_locales (rule rtranclp.rtrancl_refl, erule (1) rtranclp_trans, rule steps_one, rule step.draw)

lemma draws_steps: "draws d d' \<Longrightarrow> steps org d d'"
proof -
  have "steps org d (d\<lparr>next_id := next_id d + k\<rparr>)" for k
  proof (induction k)
    case (Suc k)
    from steps_more [OF Suc step.draw] show ?case by simp
  qed simp
  moreover assume "draws d d'"
  then obtain n where "next_id d \<le> n" "d' = d\<lparr>next_id := n\<rparr>" by (auto simp: draws_def)
  ultimately show ?thesis using le_Suc_ex by blast
qed

section \<open>Writing handlers\<close>

text \<open>The ways a sequence of steps goes on.\<close>

lemma steps_intros:
  "steps org d e \<Longrightarrow> al_OrgID row = org \<Longrightarrow> steps org d (e\<lparr>audit_log := audit_log e @ [row], next_id := Suc (next_id e)\<rparr>)"
  "steps org d e \<Longrightarrow> member e i org \<Longrightarrow> steps org d (disabled i e)"
  "steps org d e \<Longrightarrow> member e i org \<Longrightarrow> steps org d (activated i hs t e)"
  "steps org d e \<Longrightarrow> hits org i e \<noteq> [] \<Longrightarrow> steps org d (deleted org i e)"
  by (auto intro: steps_more step.intros)

lemma steps_burn:
  assumes "steps org d e" "recovery_match a u input e i" "member e u org"
  shows "steps org d (burn_db i t e)"
proof -
  from assms(2) obtain c where "c \<in> set (mfa_recovery_codes e)" "rc_ID c = i" "rc_user_id c = u" by (auto simp: recovery_match_def)
  with assms(1,3) show ?thesis by (auto intro: steps_more step.burn)
qed

lemma member_same [simp]: "member (burn_db i t d) = member d" "member (disabled i d) = member d"
  by (simp_all add: member_def fun_eq_iff disabled_def bex_update_where)

lemma member_found: "q_UserByID i d t = Inr u \<Longrightarrow> member d i (u_OrgID u) \<and> u_ID u = i"
  by (drule q_UserByID_Inr) (auto simp: member_def)

lemma vc_result:
  "(\<And>e. x = Inl e \<Longrightarrow> P e w) \<Longrightarrow> (\<And>y. x = Inr y \<Longrightarrow> R y w) \<Longrightarrow> (case x of Inl e \<Rightarrow> P e | Inr y \<Rightarrow> R y) w"
  by (cases x) simp_all

lemma enroll_steps:
  assumes "member (w_db w) (u_ID caller) (u_OrgID caller)"
  shows "wp (enrollMFA a caller r) (\<lambda>_ w'. steps (u_OrgID caller) (w_db w) (w_db w')) w"
  unfolding enrollMFA_def StagePendingSecret_def GenerateSecret_def Encrypt_def
  by ((intro vc_rules vc_result)[1], simp_all) (rule steps_one, rule step.stage [OF assms], assumption)+

lemma disable_steps:
  assumes "member (w_db w) (u_ID caller) (u_OrgID caller)"
  shows "wp (disableMFA a caller r) (\<lambda>_ w'. steps (u_OrgID caller) (w_db w) (w_db w')) w"
  unfolding disableMFA_def MFAState_def
  by ((intro vc_rules)[1], simp_all del: burn_db_tables)
    ((rule steps_intros steps_burn rtranclp.rtrancl_refl | simp add: assms | assumption)+)

lemma reset_steps:
  "wp (resetMemberMFA a caller r) (\<lambda>_ w'. steps (u_OrgID caller) (w_db w) (w_db w')) w"
  unfolding resetMemberMFA_def UserByID_def
  by ((intro vc_rules)[1], simp_all)
    ((rule steps_intros rtranclp.rtrancl_refl | simp | drule member_found)+)

lemma policy_steps:
  "wp (setOrgMFAPolicy a caller r) (\<lambda>_ w'. steps (u_OrgID caller) (w_db w) (w_db w')) w"
  unfolding setOrgMFAPolicy_def SetOrgRequireMFA_def Let_def
  by ((intro vc_rules)[1], simp_all) ((rule steps_intros | rule steps_one, erule step.policy | simp)+)

lemma invite_steps:
  "wp (inviteMember a caller r) (\<lambda>_ w'. steps (u_OrgID caller) (w_db w) (w_db w')) w"
  unfolding inviteMember_def CreateMember_def Let_def
  by ((intro vc_rules vc_HashPassword_frame)[1], simp_all) ((rule steps_intros | rule steps_one, erule step.join | simp)+)

lemma revoke_steps:
  "wp (deleteGrant a caller r) (\<lambda>_ w'. steps (u_OrgID caller) (w_db w) (w_db w')) w"
  unfolding deleteGrant_def GrantByID_def DeleteGrant_def
  by ((intro vc_rules)[1], simp_all) ((rule steps_intros | rule steps_one, erule step.revoke | simp)+)

lemma delete_steps:
  "wp (deleteUpload a caller r) (\<lambda>_ w'. steps (u_OrgID caller) (w_db w) (w_db w')) w"
  unfolding deleteUpload_def Delete_def UploadByID_def
  by ((intro vc_rules vc_DeleteUpload)[1], simp_all) ((rule steps_intros | assumption | simp)+)

lemma issue_codes_steps:
  assumes "member (w_db w) (u_ID caller) (u_OrgID caller)"
  shows "wp (issueCodes a caller) (\<lambda>_ w'. steps (u_OrgID caller) (w_db w) (w_db w')) w"
proof -
  have hashes: "wp (hash_codes a cs) (\<lambda>_ w'. w_db w' = w_db v) v" for cs v
  proof (induction cs arbitrary: v)
    case (Cons c cs)
    show ?case
      unfolding hash_codes.simps
      by ((intro vc_rules vc_HashPassword_frame)[1], simp_all)
        (rule wp_mono [OF Cons], simp add: wp_rules split: sum.splits)
  qed (simp add: wp_return)
  show ?thesis
    unfolding issueCodes_def
    by ((intro vc_rules wp_mono [OF hashes] vc_result)[1], simp_all) ((rule steps_intros rtranclp.rtrancl_refl | simp add: assms)+)
qed

lemma activate_steps:
  assumes "member (w_db w) (u_ID caller) (u_OrgID caller)"
  shows "wp (activateMFA a caller r) (\<lambda>_ w'. steps (u_OrgID caller) (w_db w) (w_db w')) w"
  unfolding activateMFA_def MFAState_def
  by ((intro vc_rules wp_mono [OF issue_codes_steps])[1], simp_all add: assms)

lemma completeLogin_db: "wp (completeLogin a u) (\<lambda>_ w'. w_db w' = w_db w) w"
  by (rule completeLogin_vc) simp_all

section \<open>For whom a request acts\<close>

text \<open>
  A request speaks for the organization of the user its session token, or its pending token, names. The
  only other organization it can act for is one that it founds, whose id is yet to be drawn.
\<close>

definition acts_for :: "api \<Rightarrow> request \<Rightarrow> db \<Rightarrow> time \<Rightarrow> uuid \<Rightarrow> bool" where
  "acts_for a r d now org \<longleftrightarrow>
     (\<exists>t\<ge>now. \<exists>(name, purpose)\<in>{(CookieName, PurposeSession), (MFACookieName, PurposeMFA)}. \<exists>c i.
        token_claims a name r t = Some c \<and> cl_Purpose c = purpose \<and> uuid_Parse a (cl_Subject c) = Some i \<and> member d i org)"

definition moved :: "api \<Rightarrow> request \<Rightarrow> db \<Rightarrow> time \<Rightarrow> db \<Rightarrow> bool" where
  "moved a r d now d' \<longleftrightarrow> draws d d' \<or> (\<exists>org. (acts_for a r d now org \<or> next_id d \<le> org) \<and> steps org d d')"

lemma moved_refl [simp]: "moved a r d now d"
  by (simp add: moved_def draws_refl)

lemma acts_for_session:
  "token_claims a CookieName r t = Some c \<Longrightarrow> cl_Purpose c = PurposeSession \<Longrightarrow> uuid_Parse a (cl_Subject c) = Some i \<Longrightarrow>
     q_UserByID i d s = Inr u \<Longrightarrow> now \<le> t \<Longrightarrow> acts_for a r d now (u_OrgID u)"
  unfolding acts_for_def by (drule member_found) auto

lemma acts_for_pending:
  "token_claims a MFACookieName r t = Some c \<Longrightarrow> cl_Purpose c = PurposeMFA \<Longrightarrow> uuid_Parse a (cl_Subject c) = Some i \<Longrightarrow>
     q_UserByID i d s = Inr u \<Longrightarrow> now \<le> t \<Longrightarrow> acts_for a r d now (u_OrgID u)"
  unfolding acts_for_def by (drule member_found) auto

lemma moved_pending:
  assumes "token_claims a MFACookieName r now = Some c" "cl_Purpose c = PurposeMFA" "uuid_Parse a (cl_Subject c) = Some i"
    "q_UserByID i d s = Inr u" "steps (u_OrgID u) d d'"
  shows "moved a r d now d'"
  using acts_for_pending [OF assms(1-4) order_refl] assms(5) by (auto simp: moved_def)

lemma moved_burn:
  assumes "token_claims a MFACookieName r now = Some c" "cl_Purpose c = PurposeMFA" "uuid_Parse a (cl_Subject c) = Some i"
    "q_UserByID i d s = Inr u" "recovery_match a (u_ID u) input d k"
  shows "moved a r d now (burn_db k t d)"
    and "al_OrgID row = u_OrgID u \<Longrightarrow> moved a r d now
      ((burn_db k t d)\<lparr>audit_log := audit_log (burn_db k t d) @ [row], next_id := Suc (next_id (burn_db k t d))\<rparr>)"
proof -
  have "steps (u_OrgID u) d (burn_db k t d)"
    using steps_burn [OF rtranclp.rtrancl_refl assms(5)] member_found [OF assms(4)] by simp
  then show "moved a r d now (burn_db k t d)"
    and "al_OrgID row = u_OrgID u \<Longrightarrow> moved a r d now
      ((burn_db k t d)\<lparr>audit_log := audit_log (burn_db k t d) @ [row], next_id := Suc (next_id (burn_db k t d))\<rparr>)"
    by (rule moved_pending [OF assms(1-4)], intro moved_pending [OF assms(1-4)] steps_intros)
qed

lemma verify_steps: "wp (verifyMFA a r) (\<lambda>_ w'. moved a r (w_db w) (w_now w) (w_db w')) w"
  unfolding verifyMFA_def MFAState_def
  by ((intro vc_rules completeLogin_vc)[1], simp_all del: burn_db_tables)
    (erule (4) moved_burn(1) | erule (4) moved_burn(2), assumption)+

lemma CreateOrg_steps: "wp (CreateOrgWithOwner name slug email hash) (\<lambda>_ w'. steps (next_id (w_db w)) (w_db w) (w_db w')) w"
proof -
  have both: "steps (next_id d) d d''" if "insert_org name slug d t = Inr (og, d')" "insert_user (o_ID og) email hash RoleOwner d' t = Inr (ow, d'')"
    for d t og d' ow d''
  proof -
    have id: "o_ID og = next_id d" using insert_org_db [OF that(1)] by (auto simp: organization.truncate_def)
    show ?thesis by (rule steps_more [OF steps_one [OF step.found [OF refl that(1)]] step.join [OF that(2) [unfolded id]]])
  qed
  show ?thesis
    unfolding CreateOrgWithOwner_def by (auto simp: wp_rules split: outcome.splits sum.splits intro: both)
qed

declare vc_CreateOrgWithOwner [vc_rules del] vc_Require [vc_rules del]

lemma register_steps: "wp (register a r) (\<lambda>_ w'. moved a r (w_db w) (w_now w) (w_db w')) w"
proof -
  have new: "moved a r d now d'" if "steps (next_id d) d d'" for d d' now
    using that by (auto simp: moved_def)
  show ?thesis
    unfolding register_def Let_def
    by ((intro vc_rules vc_HashPassword_frame wp_mono [OF CreateOrg_steps] vc_result)[1], simp_all) (erule new)+
qed

section \<open>Grants, analyses, uploads\<close>

lemma issue_grant_steps:
  assumes "member (w_db w) (u_ID caller) (u_OrgID caller)" "member (w_db w) (u_ID subject) (u_OrgID caller)"
    and "\<forall>i. uploadID = Some i \<longrightarrow> (\<exists>usr. belongs (w_db w) i (u_OrgID caller) usr)"
  shows "wp (issueGrant a caller subject level uploadID x) (\<lambda>_ w'. steps (u_OrgID caller) (w_db w) (w_db w')) w"
proof -
  let ?g = "\<lparr>g_ID = 0, g_OrgID = u_OrgID caller, g_UploadID = uploadID, g_SubjectUserID = u_ID subject,
    g_Level = level_String level, g_GrantedBy = u_ID caller, g_ExpiresAt = x, g_CreatedAt = 0\<rparr>"
  have "steps (u_OrgID caller) (w_db w) d" if "s_UpsertGrant ?g (w_db w) t = Inr (h, d)" for t h d
    by (rule steps_one, rule step.grant [OF _ _ that]) (use assms in \<open>simp_all add: grant_within_def\<close>)
  then show ?thesis
    unfolding issueGrant_def UpsertGrant_def
    by ((intro vc_rules)[1], simp_all) (rule steps_intros | assumption | simp)+
qed

lemma belongs_found: "q_UploadByID i d t = Inr up \<Longrightarrow> up_OrgID up = org \<Longrightarrow> up_ID up = i \<and> (\<exists>usr. belongs d i org usr)"
  by (drule q_UploadByID_Inr) (auto simp: belongs_def)

lemma grant_steps:
  assumes "member (w_db w) (u_ID caller) (u_OrgID caller)"
  shows "wp (createGrant a caller r) (\<lambda>_ w'. steps (u_OrgID caller) (w_db w) (w_db w')) w"
  unfolding createGrant_def UserByID_def UploadByID_def
  by ((intro vc_rules wp_mono [OF issue_grant_steps])[1], simp_all add: assms)
    (auto dest: member_found belongs_found)

lemma launch_steps:
  assumes "\<exists>usr. belongs (w_db w) (up_ID up) (up_OrgID up) usr"
  shows "wp (launchAnalysis a up scope window n) (\<lambda>_ w'. steps (up_OrgID up) (w_db w) (w_db w')) w"
proof -
  have created: "steps (up_OrgID up) (w_db w) d" if "s_CreateAnalysis (up_OrgID up) (up_ID up) scope window (w_db w) t = Inr (an, d)" for t an d
    using assms step.analyse [OF _ that] by (auto intro: steps_one)
  have failed: "steps (up_OrgID up) (w_db w) e"
    if "s_CreateAnalysis (up_OrgID up) (up_ID up) scope window (w_db w) t = Inr (an, d)" "s_FailAnalysis (a_ID an) m d t' = Inr (x, e)"
    for t an d m t' x e
    using s_CreateAnalysis_db [OF that(1)]
    by (intro steps_more [OF created [OF that(1)]] step.fail [OF _ refl _ that(2)]) simp_all
  show ?thesis
    unfolding launchAnalysis_def CreateAnalysis_def PublishAnalysis_def FailAnalysis_def Let_def
    by ((intro vc_rules)[1], simp_all) (erule (1) failed | erule created)+
qed

lemma vc_Resolve:
  assumes "\<And>e w'. w_db w' = w_db w \<Longrightarrow> Q (Inl e) w'"
    and "\<And>l up w'. w_db w' = w_db w \<Longrightarrow> up_OrgID up = u_OrgID c \<Longrightarrow> \<exists>usr. belongs (w_db w) (up_ID up) (u_OrgID c) usr \<Longrightarrow> Q (Inr (l, up)) w'"
  shows "wp (Resolve c i) Q w"
proof (rule wp_mono [OF Resolve_wp])
  fix x :: "authz_err + level \<times> upload" and v :: world
  assume r: "w_db v = w_db w \<and> (case x of Inl _ \<Rightarrow> True | Inr (l, up) \<Rightarrow> q_UploadByID i (w_db w) (w_now (elapse w)) = Inr up \<and>
     l \<noteq> LevelNone \<and> up_OrgID up = u_OrgID c \<and> (\<exists>t\<ge>w_now w. l = (if up_UserID up = u_ID c then LevelFull else resolved c up (w_db w) t)))"
  show "Q x v"
  proof (cases x)
    case (Inl e)
    with r assms(1) show ?thesis by simp
  next
    case (Inr y)
    with r have "w_db v = w_db w" "up_OrgID (snd y) = u_OrgID c" "\<exists>usr. belongs (w_db w) (up_ID (snd y)) (u_OrgID c) usr"
      using belongs_found [of i "w_db w" _ "snd y" "u_OrgID c"] by (auto simp: case_prod_beta)
    from assms(2) [OF this, of "fst y"] Inr show ?thesis by simp
  qed
qed

text \<open>\<open>Require\<close> writes at most one record, of the caller's organization.\<close>

lemma vc_Require_steps:
  assumes "\<And>e w'. steps (u_OrgID c) (w_db w) (w_db w') \<Longrightarrow> Q (Inl e) w'"
    and "\<And>l up w'. steps (u_OrgID c) (w_db w) (w_db w') \<Longrightarrow> up_OrgID up = u_OrgID c \<Longrightarrow>
      \<exists>usr. belongs (w_db w') (up_ID up) (u_OrgID c) usr \<Longrightarrow> Q (Inr (l, up)) w'"
  shows "wp (Require us c i need) Q w"
proof -
  have log: "steps (u_OrgID c) d d' \<and> belongs d' = belongs d" if "s_Audit (u_OrgID c) ac act rt ri detail d t = Inr (y, d')"
    for ac act rt ri detail d t y d'
    using that by (auto simp: s_Audit_def intro: steps_intros)
  show ?thesis
    unfolding Require_def Audit_def
    by ((intro vc_Resolve vc_rules)[1], simp_all) ((drule log, elim conjE)?, (rule assms(2) | rule assms(1)); simp)+
qed

lemma analysis_steps:
  "wp (startAnalysis a caller r) (\<lambda>_ w'. steps (u_OrgID caller) (w_db w) (w_db w')) w"
  unfolding startAnalysis_def CountEntries_def
  by ((intro vc_rules vc_Require_steps wp_mono [OF launch_steps] vc_result)[1], simp_all)

text \<open>What a form has ingested so far belongs to the caller's organization.\<close>

definition form_ok :: "user \<Rightarrow> db \<Rightarrow> upload_form \<Rightarrow> bool" where
  "form_ok caller d f \<longleftrightarrow> (\<forall>res. uf_result f = Some res \<longrightarrow> up_OrgID (ir_upload res) = u_OrgID caller \<and>
     (\<exists>usr. belongs d (up_ID (ir_upload res)) (u_OrgID caller) usr))"

lemma ingest_steps:
  assumes "ingest a caller filename part w = Some (r, w')" "member (w_db w) (u_ID caller) (u_OrgID caller)"
  shows "steps (u_OrgID caller) (w_db w) (w_db w')" "member (w_db w') (u_ID caller) (u_OrgID caller)"
    "r = Inr res \<Longrightarrow> form_ok caller (w_db w') (f\<lparr>uf_result := Some res\<rparr>)"
proof -
  from ingest_run [OF assms(1)] have "steps (u_OrgID caller) (w_db w) (w_db w') \<and> member (w_db w') (u_ID caller) (u_OrgID caller) \<and>
    (\<forall>res. r = Inr res \<longrightarrow> form_ok caller (w_db w') (f\<lparr>uf_result := Some res\<rparr>))"
  proof (elim disjE conjE exE)
    fix e
    assume "w_db w' = reserved (w_db w)" "r = Inl e"
    moreover have "steps (u_OrgID caller) (w_db w) (reserved (w_db w))" unfolding reserved_def by (rule steps_one [OF step.draw])
    ultimately show ?thesis using assms(2) by (simp add: reserved_def)
  next
    fix up es
    assume i: "ingested (upload_batch caller (w_db w)) (reserved (w_db w)) (w_db w') up es"
      and res: "\<forall>res. r = Inr res \<longrightarrow> ir_upload res = up \<and> ir_entries res = length es"
    have "steps (u_OrgID caller) (w_db w) (reserved (w_db w))" unfolding reserved_def by (rule steps_one [OF step.draw])
    moreover have "step (u_OrgID caller) (reserved (w_db w)) (w_db w')"
      by (rule step.upload [OF _ _ _ i]) (use assms(2) in \<open>simp_all add: upload_batch_def reserved_def\<close>)
    ultimately have "steps (u_OrgID caller) (w_db w) (w_db w')" by (rule rtranclp.rtrancl_into_rtrancl)
    moreover have up: "users (w_db w') = users (w_db w)" "up \<in> set (uploads (w_db w'))" "up_OrgID up = u_OrgID caller"
      using i by (auto simp: ingested_def)
    have "belongs (w_db w') (up_ID up) (u_OrgID caller) (up_UserID up)" using up(2,3) by (auto simp: belongs_def)
    then have "form_ok caller (w_db w') (f\<lparr>uf_result := Some rs\<rparr>)" if "r = Inr rs" for rs
      using res that up(3) by (auto simp: form_ok_def)
    moreover have "member (w_db w') (u_ID caller) (u_OrgID caller)" using assms(2) up(1) by (simp add: member_def)
    ultimately show ?thesis by blast
  qed
  then show "steps (u_OrgID caller) (w_db w) (w_db w')" "member (w_db w') (u_ID caller) (u_OrgID caller)"
    "r = Inr res \<Longrightarrow> form_ok caller (w_db w') (f\<lparr>uf_result := Some res\<rparr>)" by blast+
qed

lemma failIngest_db: "run_state (failIngest a e) w = (resp, w') \<Longrightarrow> w_db w' = w_db w"
  by (auto simp: failIngest_def run_simps split: ingest_err.splits)

lemma upload_parts_steps:
  assumes "upload_parts a caller parts f w = Some (r, w')" "member (w_db w) (u_ID caller) (u_OrgID caller)"
    and "form_ok caller (w_db w) f"
  shows "steps (u_OrgID caller) (w_db w) (w_db w') \<and> member (w_db w') (u_ID caller) (u_OrgID caller) \<and>
    (\<forall>f'. r = Inr f' \<longrightarrow> form_ok caller (w_db w') f')"
  using assms
proof (induction a caller parts f w rule: upload_parts.induct)
  case (2 a caller part parts f w)
  note IH = 2
  show ?case
  proof (cases "p_FormName part = ''file''")
    case False
    with IH show ?thesis by (auto simp: form_ok_def split: if_splits)
  next
    case is_file: True
    let ?fn = "if p_FileName part = [] then ''upload.log'' else p_FileName part"
    show ?thesis
    proof (cases "hasAllowedSuffix ?fn \<and> api_Blob a")
      case False
      with is_file IH(5-7) show ?thesis by (auto simp: Let_def split: if_splits)
    next
      case True
      with is_file IH(5) obtain q v where q: "ingest a caller ?fn (p_Content part) w = Some (q, v)"
        by (auto simp: Let_def split: option.splits)
      note st = ingest_steps [OF q IH(6)]
      show ?thesis
      proof (cases q)
        case (Inl e)
        obtain resp u where f: "run_state (failIngest a e) v = (resp, u)" by (cases "run_state (failIngest a e) v")
        with is_file True q Inl IH(5) have "r = Inl resp" "w' = u" by (simp_all add: Let_def)
        with failIngest_db [OF f] st(1,2) show ?thesis by simp
      next
        case (Inr res)
        with is_file True q IH(5) have "upload_parts a caller parts (f\<lparr>uf_result := Some res\<rparr>) v = Some (r, w')" by (simp add: Let_def)
        note rest = this
        have "steps (u_OrgID caller) (w_db v) (w_db w') \<and> member (w_db w') (u_ID caller) (u_OrgID caller) \<and>
            (\<forall>f'. r = Inr f' \<longrightarrow> form_ok caller (w_db w') f')"
          using IH(3) [OF _ _ is_file refl _ _ q [unfolded Inr] refl refl rest] is_file True st(2,3) Inr by simp
        with st(1) show ?thesis by (auto intro: rtranclp_trans)
      qed
    qed
  qed
qed auto

lemma upload_progress_steps:
  assumes "member (w_db w) (u_ID caller) (u_OrgID caller)" "form_ok caller (w_db w) f"
  shows "steps (u_OrgID caller) (w_db w) (w_db (upload_progress a caller parts f w))"
  using assms
proof (induction a caller parts f w rule: upload_progress.induct)
  case (2 a caller part parts f w)
  show ?case
  proof (cases "upload_parts a caller [part] f w")
    case (Some x)
    then obtain r v where x: "upload_parts a caller [part] f w = Some (r, v)" by (cases x) auto
    note st = upload_parts_steps [OF x 2(2,3)]
    show ?thesis
    proof (cases r)
      case (Inr f')
      have "steps (u_OrgID caller) (w_db v) (w_db (upload_progress a caller parts f' v))"
        by (rule 2(1) [OF x [unfolded Inr] refl refl]) (use st Inr in auto)
      with st x Inr show ?thesis by (auto intro: rtranclp_trans)
    qed (use st x in simp)
  qed simp
qed simp

lemma report_steps:
  assumes "form_ok caller (w_db w) f" "uf_result f = Some res"
  shows "wp (report_upload a f res) (\<lambda>_ w'. steps (u_OrgID caller) (w_db w) (w_db w')) w"
proof -
  have own: "up_OrgID (ir_upload res) = u_OrgID caller" "\<exists>usr. belongs (w_db w) (up_ID (ir_upload res)) (u_OrgID caller) usr"
    using assms by (auto simp: form_ok_def)
  show ?thesis
    unfolding report_upload_def analysis_failed_def Let_def
    by ((intro vc_rules wp_mono [OF launch_steps] vc_result)[1], simp_all add: own)
qed

lemma upload_steps:
  assumes "member (w_db w) (u_ID caller) (u_OrgID caller)"
  shows "wp (upload_handler a caller r) (\<lambda>_ w'. steps (u_OrgID caller) (w_db w) (w_db w')) w"
proof -
  let ?f = "\<lparr>uf_scope = ''file'', uf_window = 0, uf_result = None\<rparr>"
  have new: "form_ok caller d ?f" for d by (simp add: form_ok_def)
  have "steps (u_OrgID caller) (w_db w) (w_db w')" if "createUpload a caller r w = Some (resp, w')" for resp w'
  proof (cases "rq_Body r")
    case (FormBody parts ended)
    with that obtain q v where q: "upload_parts a caller parts ?f w = Some (q, v)"
      by (auto simp: createUpload_def split: option.splits)
    note st = upload_parts_steps [OF q assms new]
    show ?thesis
    proof (cases q)
      case (Inl e)
      with that FormBody q st show ?thesis by (simp add: createUpload_def)
    next
      case (Inr f)
      show ?thesis
      proof (cases "ended \<and> uf_result f \<noteq> None")
        case False
        with that FormBody q Inr st show ?thesis by (auto simp: createUpload_def split: if_splits)
      next
        case True
        then obtain res where res: "uf_result f = Some res" by auto
        with True that FormBody q Inr have "run_state (report_upload a f res) v = (resp, w')" by (simp add: createUpload_def)
        from wpD [OF report_steps this, of caller] st Inr res have "steps (u_OrgID caller) (w_db v) (w_db w')" by simp
        with st show ?thesis by (auto intro: rtranclp_trans)
      qed
    qed
  qed (use that in \<open>simp_all add: createUpload_def\<close>)
  moreover have "steps (u_OrgID caller) (w_db w) (w_db (upload_progress a caller parts ?f w))" for parts
    by (rule upload_progress_steps [OF assms new])
  ultimately show ?thesis
    by (auto simp: upload_handler_def wp_def split: option.splits body.splits)
qed

section \<open>The gateway\<close>

text \<open>Every member route, and then every route, moves the tables for one organization at most.\<close>

lemma read_steps: "moves.keeps org m \<Longrightarrow> wp m (\<lambda>_ w'. steps org (w_db w) (w_db w')) w"
  by (simp add: wp_iff moves.keepsD)

lemmas handler_steps = moves.keeps_reads [THEN read_steps] enroll_steps activate_steps disable_steps invite_steps reset_steps
  policy_steps grant_steps revoke_steps upload_steps analysis_steps delete_steps

lemma member_route_steps:
  assumes "(m, p, h) \<in> set (member_routes g)" "member (w_db w) (u_ID caller) (u_OrgID caller)"
  shows "wp (h caller r) (\<lambda>_ w'. steps (u_OrgID caller) (w_db w) (w_db w')) w"
  using assms by (auto simp: member_routes_def Let_def intro!: handler_steps)

lemma session_moved:
  assumes "\<And>u v. member (w_db v) (u_ID u) (u_OrgID u) \<Longrightarrow> wp (h u r) (\<lambda>_ w'. steps (u_OrgID u) (w_db v) (w_db w')) v"
  shows "wp (auth_Require a h r) (\<lambda>_ w'. moved a r (w_db w) (w_now w) (w_db w')) w"
proof -
  have "moved a r (w_db w) (w_now w) (w_db (final (h u r) (elapse w)))"
    if "token_claims a CookieName r (w_now w) = Some c" "cl_Purpose c = PurposeSession" "uuid_Parse a (cl_Subject c) = Some i"
      "q_UserByID i (w_db w) t = Inr u" for c i u t
  proof -
    have "member (w_db w) (u_ID u) (u_OrgID u)" using member_found [OF that(4)] by simp
    then have "steps (u_OrgID u) (w_db w) (w_db (final (h u r) (elapse w)))" using wpI [OF assms, of "elapse w" u] by simp
    with acts_for_session [OF that order_refl] show ?thesis by (auto simp: moved_def)
  qed
  then show ?thesis
    by (auto simp: wp_def auth_Require_run final_def case_prod_beta split: option.splits sum.splits)
qed

lemma acts_for_id [simp]: "acts_for a (r\<lparr>rq_PathID := i\<rparr>) = acts_for a r" "moved a (r\<lparr>rq_PathID := i\<rparr>) = moved a r"
  by (simp_all add: acts_for_def moved_def token_claims_def Cookie_def fun_eq_iff)

lemma login_moved: "wp (login a r) (\<lambda>_ w'. moved a r (w_db w) (w_now w) (w_db w')) w"
  by (rule wp_mono [OF login_vc]) simp

lemma route_moved:
  assumes "rt \<in> set (Routes g)"
  shows "wp (rt_Handler rt (r\<lparr>rq_PathID := i\<rparr>)) (\<lambda>_ w'. moved (gw_API g) r (w_db w) (w_now w) (w_db w')) w"
proof -
  have reads: "wp m (\<lambda>_ w'. moved (gw_API g) r (w_db w) (w_now w) (w_db w')) w" if "reads.keeps m" for m :: "response M"
    using reads.keepsD [OF that] by (simp add: wp_iff moved_def)
  note public = register_steps [of "gw_API g" "r\<lparr>rq_PathID := i\<rparr>" w, simplified] login_moved [of "gw_API g" "r\<lparr>rq_PathID := i\<rparr>" w, simplified]
    verify_steps [of "gw_API g" "r\<lparr>rq_PathID := i\<rparr>" w, simplified]
  have member: "wp (auth_Require (gw_API g) h (r\<lparr>rq_PathID := i\<rparr>)) (\<lambda>_ w'. moved (gw_API g) r (w_db w) (w_now w) (w_db w')) w"
    if "(m, p, h) \<in> set (member_routes g)" for m p h
    using session_moved [OF member_route_steps [OF that], where a = "gw_API g" and r = "r\<lparr>rq_PathID := i\<rparr>" and w = w] by simp
  from assms show ?thesis
    by (auto simp: Routes_def public_routes_def pattern_def Let_def intro!: reads.keeps_reads [THEN reads] public member)
qed

lemma mux_moved: "wp (ServeMux (Routes g) r) (\<lambda>_ w'. moved (gw_API g) r (w_db w) (w_now w) (w_db w')) w"
proof (cases "find (\<lambda>rt. route_match r rt \<noteq> None) (Routes g)")
  case None
  then show ?thesis by (auto simp: ServeMux_def wp_rules split: list.split)
next
  case (Some rt)
  then have "rt \<in> set (Routes g)" by (auto simp: find_Some_iff)
  with Some route_moved show ?thesis by (simp add: ServeMux_def wp_rules)
qed

lemma vc_pw_err: "wp m Q w \<Longrightarrow> wp n Q w \<Longrightarrow> wp (case e of PwPanic \<Rightarrow> m | _ \<Rightarrow> n) Q w"
  by (cases e) simp_all

text \<open>The chain in front of the routes draws at most an id, and passes the request on unchanged or not at all.\<close>

lemma serve_wp:
  assumes "\<And>v. draws (w_db w) (w_db v) \<Longrightarrow> w_now w \<le> w_now v \<Longrightarrow> wp (ServeMux (Routes g) r) (\<lambda>_ w'. P (w_db w')) v"
    and "\<And>d. draws (w_db w) d \<Longrightarrow> P d"
  shows "wp (serve g r) (\<lambda>_ w'. P (w_db w')) w"
proof -
  note mux = wp_mono [OF assms(1)]
  have db: "draws (w_db w) ((w_db w)\<lparr>next_id := Suc (next_id (w_db w))\<rparr>)" "draws (w_db w) (w_db w)"
    by (rule draws_next, rule draws_refl)
  show ?thesis
    unfolding serve_def Let_def Middleware_def SecurityHeaders_def BasicAuth_def CSRF_def ensureCSRFCookie_def mint_csrf_def
    by ((intro vc_rules vc_result vc_pw_err mux)[1], simp_all add: db assms(2))
qed

lemma acts_for_draws: "draws d d' \<Longrightarrow> acts_for a r d' now' org \<Longrightarrow> now \<le> now' \<Longrightarrow> acts_for a r d now org"
  by (auto simp: draws_def acts_for_def dest: order_trans)

lemma moved_draws:
  assumes "draws d e" "moved a r e now' d'" "now \<le> now'"
  shows "moved a r d now d'"
proof -
  from assms(2) consider (draws) "draws e d'" | (steps) org where "acts_for a r e now' org \<or> next_id e \<le> org" "steps org e d'"
    unfolding moved_def by blast
  then show ?thesis
  proof cases
    case draws
    with draws_trans [OF assms(1)] show ?thesis by (simp add: moved_def)
  next
    case (steps org)
    have "next_id d \<le> next_id e" using assms(1) by (auto simp: draws_def)
    with steps(1) have "acts_for a r d now org \<or> next_id d \<le> org"
      using acts_for_draws [OF assms(1) _ assms(3)] order_trans by blast
    with rtranclp_trans [OF draws_steps [OF assms(1)] steps(2)] show ?thesis unfolding moved_def by blast
  qed
qed

lemma serve_moved: "wp (serve g r) (\<lambda>_ w'. moved (gw_API g) r (w_db w) (w_now w) (w_db w')) w"
proof (rule serve_wp [where P = "moved (gw_API g) r (w_db w) (w_now w)"])
  fix v :: world
  assume "draws (w_db w) (w_db v)" "w_now w \<le> w_now v"
  then show "wp (ServeMux (Routes g) r) (\<lambda>_ w'. moved (gw_API g) r (w_db w) (w_now w) (w_db w')) v"
    by (intro wp_mono [OF mux_moved]) (rule moved_draws)
qed (simp add: moved_def)

end
