(* ===== verification/Server_Proofs.thy ===== *)
theory Server_Proofs
  imports Requests Config
begin

text \<open>
  The gateway as a whole: which handler a request reaches, what the gates in front of the routes
  refuse, and what a process that started has.
\<close>

section \<open>Routes\<close>

text \<open>Two patterns overlap when some path matches both.\<close>

fun overlap :: "string list \<Rightarrow> string list \<Rightarrow> bool" where
  "overlap [] [] \<longleftrightarrow> True"
| "overlap (p # ps) (q # qs) \<longleftrightarrow> (p = q \<or> p = ''{id}'' \<or> q = ''{id}'') \<and> overlap ps qs"
| "overlap _ _ \<longleftrightarrow> False"

lemma match_overlap: "match_segments ps ss = Some i \<Longrightarrow> match_segments qs ss = Some j \<Longrightarrow> overlap ps qs"
proof (induction ps arbitrary: qs ss i j)
  case Nil
  then show ?case by (cases ss; cases qs) (auto split: if_splits)
next
  case (Cons p ps)
  from Cons.prems(1) obtain s ss' where ss: "ss = s # ss'" by (cases ss) auto
  with Cons.prems(2) obtain q qs' where qs: "qs = q # qs'" by (cases qs) auto
  from Cons.prems ss qs obtain i' j' where "match_segments ps ss' = Some i'" "match_segments qs' ss' = Some j'"
    "p = q \<or> p = ''{id}'' \<or> q = ''{id}''" by (auto split: if_splits)
  with Cons.IH qs show ?case by auto
qed

fun apart :: "(string \<times> string list) list \<Rightarrow> bool" where
  "apart [] \<longleftrightarrow> True"
| "apart ((m, ps) # rs) \<longleftrightarrow> list_all (\<lambda>(m', qs). m \<noteq> m' \<or> \<not> overlap ps qs) rs \<and> apart rs"

definition route_key :: "route \<Rightarrow> string \<times> string list" where
  "route_key rt = (rt_Method rt, rt_Segments rt)"

lemma apart_nth: "apart ks \<Longrightarrow> i < j \<Longrightarrow> j < length ks \<Longrightarrow> fst (ks ! i) = fst (ks ! j) \<Longrightarrow> \<not> overlap (snd (ks ! i)) (snd (ks ! j))"
proof (induction ks arbitrary: i j rule: apart.induct)
  case (2 m ps rs)
  then show ?case by (cases i; cases j) (auto simp: list_all_length split: prod.splits)
qed simp

definition route_table :: "(string \<times> string) list" where
  "route_table =
     [(''GET'', ''/api/health''), (''POST'', ''/api/auth/register''), (''POST'', ''/api/auth/login''), (''POST'', ''/api/auth/logout''),
      (''POST'', ''/api/auth/mfa/verify''), (''GET'', ''/api/metrics''),
      (''GET'', ''/api/auth/me''), (''POST'', ''/api/auth/mfa/enroll''), (''POST'', ''/api/auth/mfa/activate''), (''POST'', ''/api/auth/mfa/disable''),
      (''GET'', ''/api/org/users''), (''POST'', ''/api/org/invite''), (''POST'', ''/api/org/users/{id}/mfa/reset''), (''POST'', ''/api/org/mfa-policy''),
      (''GET'', ''/api/grants''), (''POST'', ''/api/grants''), (''DELETE'', ''/api/grants/{id}''), (''GET'', ''/api/uploads''), (''POST'', ''/api/uploads''),
      (''POST'', ''/api/uploads/{id}/analyze''), (''DELETE'', ''/api/uploads/{id}''), (''GET'', ''/api/analyses/{id}''),
      (''GET'', ''/api/dashboard/summary''), (''GET'', ''/api/dashboard/series''), (''GET'', ''/api/dashboard/top''), (''GET'', ''/api/dashboard/status''),
      (''GET'', ''/api/dashboard/actions''), (''GET'', ''/api/audit''), (''GET'', ''/api/search'')]"

lemma Routes_keys: "map route_key (Routes g) = map (\<lambda>(m, p). (m, path_segments p)) route_table"
  by (simp add: Routes_def public_routes_def member_routes_def pattern_def route_key_def route_table_def Let_def)

lemma routes_apart: "apart (map route_key (Routes g))"
proof -
  have "apart (map (\<lambda>(m, p). (m, path_segments p)) route_table)" by code_simp
  then show ?thesis by (simp add: Routes_keys)
qed

lemma routes_methods: "rt \<in> set (Routes g) \<Longrightarrow> rt_Method rt \<in> {''GET'', ''POST'', ''DELETE''}"
  by (auto simp: Routes_def public_routes_def member_routes_def pattern_def Let_def)

lemma one_route:
  assumes "i < j" "j < length (Routes g)" "route_match r (Routes g ! i) \<noteq> None"
  shows "route_match r (Routes g ! j) = None"
proof (rule ccontr)
  let ?m = "\<lambda>k. rt_Method (Routes g ! k)"
  assume j: "route_match r (Routes g ! j) \<noteq> None"
  have m: "?m i \<in> {''GET'', ''POST'', ''DELETE''}" "?m j \<in> {''GET'', ''POST'', ''DELETE''}"
    using assms routes_methods [of "Routes g ! i" g] routes_methods [of "Routes g ! j" g] by (simp_all del: insert_iff)
  have "?m i = ?m j" using assms(3) j m by (auto simp: route_match_def method_matches_def split: if_splits)
  moreover have "overlap (rt_Segments (Routes g ! i)) (rt_Segments (Routes g ! j))"
    using assms(3) j match_overlap by (fastforce simp: route_match_def split: if_splits)
  ultimately show False
    using apart_nth [OF routes_apart, of i j g] assms by (simp add: route_key_def)
qed

lemma other_routes:
  assumes "i < length (Routes g)" "route_match r (Routes g ! i) \<noteq> None" "j < length (Routes g)" "j \<noteq> i"
  shows "route_match r (Routes g ! j) = None"
proof (cases "i < j")
  case True
  with assms show ?thesis by (intro one_route [of i j]) auto
next
  case False
  with assms have "j < i" by simp
  with one_route [of j i g r] assms show ?thesis by (cases "route_match r (Routes g ! j)") auto
qed

lemma served_by:
  assumes "rq_Method r \<noteq> ''CONNECT''" and "clean_path (rq_Path r)"
    and "i < length (Routes g)" and "route_match r (Routes g ! i) = Some p"
  shows "ServeMux (Routes g) r = rt_Handler (Routes g ! i) (r\<lparr>rq_PathID := p\<rparr>)"
proof -
  have "find (\<lambda>rt. route_match r rt \<noteq> None) (Routes g) = Some (Routes g ! i)"
    unfolding find_Some_iff using assms(3,4) other_routes [of i g r] by (intro exI [of _ i]) (auto dest: less_trans)
  with assms show ?thesis by (simp add: ServeMux_def)
qed

text \<open>
  Claim C24: a request reaches the handler of the one route it matches. No request matches
  two of the routes, so the order of their registration decides nothing; a clean path that matches
  a route is served by that route's handler with the segment of its wildcard, and a request that
  matches none gets 404, or 405 when another method would match, and changes nothing.
\<close>

theorem Routes_dispatch:
  assumes "rq_Method r \<noteq> ''CONNECT''" and "clean_path (rq_Path r)"
  shows "(\<forall>i<length (Routes g). \<forall>p. route_match r (Routes g ! i) = Some p \<longrightarrow>
      ServeMux (Routes g) r = rt_Handler (Routes g ! i) (r\<lparr>rq_PathID := p\<rparr>) \<and>
      (\<forall>j<length (Routes g). j \<noteq> i \<longrightarrow> route_match r (Routes g ! j) = None)) \<and>
    ((\<forall>rt\<in>set (Routes g). route_match r rt = None) \<longrightarrow>
      (\<exists>resp. run_state (ServeMux (Routes g) r) w = (resp, w) \<and> rs_Status resp \<in> {404, 405}))"
proof (intro conjI allI impI)
  fix i p assume i: "i < length (Routes g)" "route_match r (Routes g ! i) = Some p"
  show "route_match r (Routes g ! j) = None" if "j < length (Routes g)" "j \<noteq> i" for j
    using other_routes [OF i(1) _ that] i(2) by simp
  show "ServeMux (Routes g) r = rt_Handler (Routes g ! i) (r\<lparr>rq_PathID := p\<rparr>)" by (rule served_by [OF assms i])
next
  assume "\<forall>rt\<in>set (Routes g). route_match r rt = None"
  then have "find (\<lambda>rt. route_match r rt \<noteq> None) (Routes g) = None" by (simp add: find_None_iff)
  with assms show "\<exists>resp. run_state (ServeMux (Routes g) r) w = (resp, w) \<and> rs_Status resp \<in> {404, 405}"
    by (auto simp: ServeMux_def plain_def with_header_def split: list.split)
qed

section \<open>The gates\<close>

text \<open>What a request has to carry to come past the edge gate, and past the gate against forged requests.\<close>

definition edge_ok :: "api \<Rightarrow> request \<Rightarrow> bool" where
  "edge_ok a r \<longleftrightarrow> EdgeAuthEnabled (api_Cfg a) \<longrightarrow> exempt (rq_Path r) \<or>
     (\<exists>p. parseBasicAuth r = Some (EdgeAuthUser (api_Cfg a), p) \<and> VerifyPassword a p (EdgeAuthPassHash (api_Cfg a)) = Inr True)"

definition request_id :: "api \<Rightarrow> request \<Rightarrow> string M" where
  "request_id a r = (let i = Header_Get r RequestIDHeader
     in if i = [] then do { u \<leftarrow> uuid_New; ret (uuid_String a u) } else ret i)"

definition gate_token :: "api \<Rightarrow> request \<Rightarrow> string M" where
  "gate_token a r = do { _ \<leftarrow> request_id a r; (token, cs) \<leftarrow> ensureCSRFCookie r (CookieSecure (api_Cfg a)); ret token }"

definition csrf_ok :: "api \<Rightarrow> request \<Rightarrow> world \<Rightarrow> bool" where
  "csrf_ok a r w \<longleftrightarrow> safe_method (rq_Method r) \<or> exempt (rq_Path r) \<or>
     Header_Get r CSRFHeaderName \<noteq> [] \<and> Header_Get r CSRFHeaderName = result (gate_token a r) w"

definition untouched :: "world \<Rightarrow> world \<Rightarrow> bool" where
  "untouched w w' \<longleftrightarrow> draws (w_db w) (w_db w') \<and> w_redis w' = w_redis w \<and> w_blob w' = w_blob w"

lemma request_id_run: "untouched w (final (request_id a r) w)"
  by (auto simp: untouched_def request_id_def Let_def final_def uuid_New_def draws_refl draws_next)

lemma Middleware_run:
  assumes "run_state (Middleware a next r) w = (resp, w')"
  obtains resp1 w2 where "run_state (next r) (final (request_id a r) w) = (resp1, w2)" "rs_Status resp = rs_Status resp1"
    "w_db w' = w_db w2" "w_redis w' = w_redis w2" "w_blob w' = w_blob w2"
proof -
  have eq: "Middleware a next r = do { i \<leftarrow> request_id a r; resp \<leftarrow> next r;
     if rs_Status resp = 0 then ret panicked
     else do { (if skip_path (rq_Path r) then ret () else log_event (status_level (rs_Status resp)) ''http.request'');
       ret (with_header RequestIDHeader i resp) } }"
    by (simp add: Middleware_def request_id_def)
  obtain resp1 w2 where "run_state (next r) (final (request_id a r) w) = (resp1, w2)" by (metis prod.exhaust)
  with assms show ?thesis
    by (intro that [of resp1 w2]) (auto simp: eq final_def case_prod_beta log_event_def with_header_def split: if_splits)
qed

lemma SecurityHeaders_run:
  assumes "run_state (SecurityHeaders next r) w = (resp, w')"
  obtains resp1 where "run_state (next r) w = (resp1, w')" "rs_Status resp = rs_Status resp1"
proof -
  have "rs_Status (fold (\<lambda>(k, v). with_header k v) hs resp1) = rs_Status resp1" for hs resp1
    by (induction hs arbitrary: resp1) (auto simp: with_header_def)
  with assms show ?thesis
    by (intro that [of "fst (run_state (next r) w)"]) (auto simp: SecurityHeaders_def case_prod_beta simp del: fold_append)
qed

lemma untouched_trans: "untouched u v \<Longrightarrow> untouched v w \<Longrightarrow> untouched u w"
  by (auto simp: untouched_def intro: draws_trans)

lemma challenge_status: "rs_Status challenge = 401"
  by (simp add: challenge_def with_header_def)

lemma edge_gate:
  assumes "run_state (BasicAuth (EdgeAuthEnabled (api_Cfg a)) (EdgeAuthUser (api_Cfg a)) (EdgeAuthPassHash (api_Cfg a))
     (VerifyPassword a) exempt next r) w = (resp, w')"
  shows "edge_ok a r \<and> run_state (next r) w = (resp, w') \<or> rs_Status resp \<in> {0, 401} \<and> w' = w"
proof (cases "EdgeAuthEnabled (api_Cfg a) \<and> \<not> exempt (rq_Path r)")
  case True
  with BasicAuth_gate [of exempt r "EdgeAuthUser (api_Cfg a)" "VerifyPassword a" "EdgeAuthPassHash (api_Cfg a)" "next" w] assms
  show ?thesis by (auto simp: edge_ok_def challenge_status)
next
  case False
  with assms show ?thesis by (cases "EdgeAuthEnabled (api_Cfg a)") (simp_all add: BasicAuth_def edge_ok_def)
qed

lemma forgery_gate:
  assumes "run_state (CSRF (CookieSecure (api_Cfg a)) exempt next r) (final (request_id a r) w) = (resp, w')"
  shows "csrf_ok a r w \<and> (\<exists>v resp1. untouched w v \<and> run_state (next r) v = (resp1, w') \<and> rs_Status resp = rs_Status resp1) \<or>
    rs_Status resp = 403 \<and> untouched w w'"
proof -
  let ?secure = "CookieSecure (api_Cfg a)" and ?v = "final (request_id a r) w"
  obtain token cs v where t: "run_state (ensureCSRFCookie r ?secure) ?v = ((token, cs), v)" by (metis prod.exhaust)
  then have token: "result (gate_token a r) w = token" by (simp add: gate_token_def result_def final_def case_prod_beta)
  have "untouched ?v v"
    by (cases rule: ensureCSRFCookie_cases [of r ?secure ?v]) (use t in \<open>auto simp: untouched_def draws_refl\<close>)
  with request_id_run have v: "untouched w v" by (rule untouched_trans)
  obtain resp1 w1 where m: "run_state (next r) v = (resp1, w1)" by (metis prod.exhaust)
  show ?thesis
  proof (cases "csrf_ok a r w")
    case True
    then have "run_state (CSRF ?secure exempt next r) ?v = (with_cookies cs resp1, w1)"
      using t token m by (auto simp: CSRF_def csrf_ok_def Let_def)
    with assms True v m show ?thesis by (auto simp: with_cookies_def)
  next
    case False
    with assms t token v show ?thesis by (auto simp: CSRF_def csrf_ok_def Let_def with_cookies_def split: if_splits)
  qed
qed

text \<open>
  Claim C15: nothing comes past the gates unseen. Whatever the route, a request that reaches it has
  the credentials of the edge gate, when that is on, and, unless its method is safe, repeats the CSRF
  token of its own cookie (or one minted for this answer) in a header; the health check alone is
  exempt. Every other request is refused, with 401, 403 or no answer, and leaves the tables, Redis and
  the archive as they were, but for the id of the request.
\<close>

theorem Gates_hold:
  assumes "run_state (serve g r) w = (resp, w')"
  shows "edge_ok (gw_API g) r \<and> csrf_ok (gw_API g) r w \<and> (\<exists>v resp1 v'. untouched w v \<and> run_state (ServeMux (Routes g) r) v = (resp1, v') \<and>
      rs_Status resp = rs_Status resp1 \<and> w_db w' = w_db v' \<and> w_redis w' = w_redis v' \<and> w_blob w' = w_blob v')
    \<or> rs_Status resp \<in> {0, 401, 403} \<and> untouched w w'"
proof -
  let ?a = "gw_API g" and ?v = "final (request_id (gw_API g) r) w"
  let ?csrf = "CSRF (CookieSecure (api_Cfg ?a)) exempt (ServeMux (Routes g))"
  let ?edge = "BasicAuth (EdgeAuthEnabled (api_Cfg ?a)) (EdgeAuthUser (api_Cfg ?a)) (EdgeAuthPassHash (api_Cfg ?a))
    (VerifyPassword ?a) exempt ?csrf"
  from assms obtain resp1 w2 where r1: "rs_Status resp = rs_Status resp1" "w_db w' = w_db w2" "w_redis w' = w_redis w2" "w_blob w' = w_blob w2"
    and "run_state (SecurityHeaders ?edge r) ?v = (resp1, w2)"
    by (auto simp: serve_def Let_def elim: Middleware_run)
  from SecurityHeaders_run [OF this(5)] obtain resp2 where r2: "rs_Status resp1 = rs_Status resp2" and "run_state (?edge r) ?v = (resp2, w2)"
    by metis
  from edge_gate [OF this(2)] consider (refused) "rs_Status resp2 \<in> {0, 401}" "w2 = ?v"
    | (edge) "edge_ok ?a r" "run_state (?csrf r) ?v = (resp2, w2)" by blast
  then show ?thesis
  proof cases
    case refused
    with r1 r2 request_id_run [of w ?a r] show ?thesis by (auto simp: untouched_def)
  next
    case edge
    from forgery_gate [OF edge(2)] show ?thesis
    proof (elim disjE conjE exE)
      fix v resp3
      assume "csrf_ok ?a r w" "untouched w v" "run_state (ServeMux (Routes g) r) v = (resp3, w2)" "rs_Status resp2 = rs_Status resp3"
      with edge(1) r1 r2 show ?thesis by auto
    qed (use r1 r2 in \<open>auto simp: untouched_def\<close>)
  qed
qed

section \<open>Starting\<close>

lemma retry_attempts:
  "fst (retry out n k e) = Inr st \<Longrightarrow>
     \<exists>j. k \<le> j \<and> j < k + n \<and> store_New (out_driver out j) = Inr st \<and> (\<forall>i. k \<le> i \<and> i < j \<longrightarrow> isl (store_New (out_driver out i)))"
proof (induction out n k e rule: retry.induct)
  case (2 out n k e)
  show ?case
  proof (cases "store_New (out_driver out k)")
    case (Inr st')
    with 2(2) show ?thesis by (intro exI [of _ k]) auto
  next
    case (Inl err)
    with 2(2) have "\<not> out_signal out k" "fst (retry out n (k + 1) err) = Inr st" by (auto split: if_splits prod.splits)
    with 2(1) [OF Inl] obtain j where j: "k + 1 \<le> j" "j < k + 1 + n" "store_New (out_driver out j) = Inr st"
      "\<forall>i. k + 1 \<le> i \<and> i < j \<longrightarrow> isl (store_New (out_driver out i))" by blast
    have "isl (store_New (out_driver out i))" if "k \<le> i" "i < j" for i
      using that j(4) Inl by (cases "i = k") auto
    with j show ?thesis by (intro exI [of _ j]) auto
  qed
qed simp

lemma retry_waits: "0 \<le> snd (retry out n k e) \<and> snd (retry out n k e) \<le> (\<Sum>j\<in>{k..<k + n}. int j * (second div 2))"
proof (induction out n k e rule: retry.induct)
  case (2 out n k e)
  have sum: "(\<Sum>j\<in>{k..<k + Suc n}. int j * (second div 2)) = int k * (second div 2) + (\<Sum>j\<in>{k + 1..<k + 1 + n}. int j * (second div 2))"
    by (simp add: sum.atLeast_Suc_lessThan)
  have pos: "0 \<le> (\<Sum>j\<in>{k + 1..<k + 1 + n}. int j * (second div 2))"
    by (intro sum_nonneg) simp
  show ?case
  proof (cases "store_New (out_driver out k)")
    case (Inr st)
    with sum pos show ?thesis by simp
  next
    case (Inl err)
    with 2 [OF Inl] sum pos show ?thesis by (auto split: prod.splits)
  qed
qed simp

text \<open>The connection is tried ten times at most, and given up after at most 27.5 seconds of waiting.\<close>

lemma connect_bounds:
  "snd (connectWithRetry out) \<le> 55 * (second div 2)"
  "fst (connectWithRetry out) = Inr st \<Longrightarrow> \<exists>j. 1 \<le> j \<and> j \<le> 10 \<and> store_New (out_driver out j) = Inr st"
proof -
  have "(\<Sum>j\<in>{1..<1 + 10}. int j * (second div 2)) = 55 * (second div 2)" by (simp add: sum.atLeast_Suc_lessThan eval_nat_numeral)
  with retry_waits [of out 10 1 "[]"] show "snd (connectWithRetry out) \<le> 55 * (second div 2)" by (simp add: connectWithRetry_def)
  show "\<exists>j. 1 \<le> j \<and> j \<le> 10 \<and> store_New (out_driver out j) = Inr st" if "fst (connectWithRetry out) = Inr st"
    using retry_attempts [of out 10 1 "[]" st] that unfolding connectWithRetry_def by fastforce
qed

text \<open>A database that answers at one of the ten attempts is found, unless a signal ends the wait.\<close>

lemma connect_finds:
  assumes "1 \<le> j" "j \<le> 10" "store_New (out_driver out j) = Inr st" "\<forall>i. 1 \<le> i \<and> i < j \<longrightarrow> isl (store_New (out_driver out i))" "\<forall>i. 1 \<le> i \<and> i < j \<longrightarrow> \<not> out_signal out i"
  shows "fst (connectWithRetry out) = Inr st"
proof -
  have "fst (retry out n k e) = Inr st" if "1 \<le> k" "k \<le> j" "j < k + n" for n k e
    using that
  proof (induction n arbitrary: k e)
    case (Suc n)
    show ?case
    proof (cases "k = j")
      case False
      with Suc.prems have k: "k < j" "1 \<le> k" by simp_all
      with assms obtain err where "store_New (out_driver out k) = Inl err" by (auto simp: isl_def)
      moreover have "\<not> out_signal out k" "fst (retry out n (k + 1) err) = Inr st" using Suc k assms(5) by simp_all
      ultimately show ?thesis by (simp add: case_prod_beta)
    qed (use assms in simp)
  qed simp
  with assms show ?thesis by (simp add: connectWithRetry_def)
qed

text \<open>A process that started has a safe configuration, and an archive exactly when a bucket is named.\<close>

lemma run_started:
  assumes "run getenv out = Inr s"
  shows "Load getenv = Inr (sg_Config s) \<and> JWTSecret (sg_Config s) \<noteq> [] \<and>
    (sg_Archive s = None \<longleftrightarrow> S3Bucket (sg_Config s) = []) \<and>
    (\<forall>c. sg_Archive s = Some c \<longrightarrow> (\<exists>g. c = GCSStore g) = (S3Endpoint (sg_Config s) = []))"
proof -
  from assms obtain cfg where cfg: "Load getenv = Inr cfg" "s = s\<lparr>sg_Config := cfg\<rparr>"
    and arch: "\<exists>l. open_archive out cfg = Inr (sg_Archive s, l)"
    by (auto simp: run_def split: sum.splits prod.splits if_splits)
  have c: "sg_Config s = cfg" using cfg(2) by (metis started_gateway.select_convs(1) started_gateway.surjective started_gateway.update_convs(1))
  have "JWTSecret cfg \<noteq> []" using cfg(1) by (rule Load_Inr) simp
  with arch cfg(1) show ?thesis unfolding c
    by (cases "sg_Archive s") (auto simp: open_archive_def blob_New_def client_New_def split: if_splits sum.splits)
qed

section \<open>Witnesses\<close>

definition sample_gateway :: gateway where
  "sample_gateway = \<lparr>gw_API = sample_api, gw_fts = (\<lambda>_ _. None),
     gw_metrics = \<lparr>ms_Uptime = 1, ms_At = 0, ms_Goroutines = 9, ms_Sys = 2 ^ 20, ms_HeapAlloc = 2 ^ 19, ms_NumGC = 0\<rparr>\<rparr>"

lemma sample_gateway_API [simp]: "gw_API sample_gateway = sample_api"
  by (simp add: sample_gateway_def)

text \<open>Deleting upload 7 matches the twenty-first route; a path nobody serves is answered with 404.\<close>

theorem Routes_dispatch_witness:
  "ServeMux (Routes sample_gateway) (sample_request ''DELETE'' ''/api/uploads/7'') =
     auth_Require sample_api (deleteUpload sample_api) ((sample_request ''DELETE'' ''/api/uploads/7'')\<lparr>rq_PathID := ''7''\<rparr>) \<and>
   (\<exists>resp. run_state (ServeMux (Routes sample_gateway) (sample_request ''GET'' ''/nothing'')) sample_world = (resp, sample_world) \<and>
     rs_Status resp \<in> {404, 405})"
proof
  have clean: "clean_path ''/api/uploads/7''" "clean_path ''/nothing''" by code_simp+
  have segs: "path_segments ''/api/uploads/7'' = ['''', ''api'', ''uploads'', ''7'']" by code_simp
  have pat: "path_segments ''/api/uploads/{id}'' = ['''', ''api'', ''uploads'', ''{id}'']" by code_simp
  let ?i = "20 :: nat"
  have rt: "Routes sample_gateway ! ?i = pattern ''DELETE'' ''/api/uploads/{id}'' (auth_Require sample_api (deleteUpload sample_api))"
    by (simp add: Routes_def public_routes_def member_routes_def sample_gateway_def Let_def eval_nat_numeral)
  have len: "?i < length (Routes sample_gateway)" by (simp add: Routes_def public_routes_def member_routes_def Let_def)
  have m: "route_match (sample_request ''DELETE'' ''/api/uploads/7'') (Routes sample_gateway ! ?i) = Some ''7''"
    by (simp add: rt route_match_def method_matches_def pattern_def segs pat)
  from Routes_dispatch [of "sample_request ''DELETE'' ''/api/uploads/7''" sample_gateway, THEN conjunct1, rule_format, OF _ _ len m] clean
  show "ServeMux (Routes sample_gateway) (sample_request ''DELETE'' ''/api/uploads/7'') =
     auth_Require sample_api (deleteUpload sample_api) ((sample_request ''DELETE'' ''/api/uploads/7'')\<lparr>rq_PathID := ''7''\<rparr>)"
    by (simp add: rt pattern_def)
  have nobody: "\<forall>(m, p)\<in>set route_table. match_segments (path_segments p) (path_segments ''/nothing'') = None"
    by code_simp
  have "route_match (sample_request ''GET'' ''/nothing'') rt = None" if "rt \<in> set (Routes sample_gateway)" for rt
  proof -
    from that have "route_key rt \<in> set (map (\<lambda>(m, p). (m, path_segments p)) route_table)"
      unfolding Routes_keys [of sample_gateway, symmetric] by simp
    with nobody show ?thesis by (auto simp: route_key_def route_match_def)
  qed
  with Routes_dispatch [of "sample_request ''GET'' ''/nothing''" sample_gateway sample_world] clean
  show "\<exists>resp. run_state (ServeMux (Routes sample_gateway) (sample_request ''GET'' ''/nothing'')) sample_world = (resp, sample_world) \<and>
     rs_Status resp \<in> {404, 405}" by simp
qed

text \<open>A form posted without the header is refused, and nothing is written.\<close>

theorem Gates_hold_witness:
  "rs_Status (result (serve sample_gateway (sample_request ''POST'' ''/api/grants'')) sample_world) \<in> {0, 401, 403} \<and>
   untouched sample_world (final (serve sample_gateway (sample_request ''POST'' ''/api/grants'')) sample_world)"
proof -
  obtain resp w' where run: "run_state (serve sample_gateway (sample_request ''POST'' ''/api/grants'')) sample_world = (resp, w')"
    by (metis prod.exhaust)
  have "\<not> csrf_ok a (sample_request ''POST'' ''/api/grants'') sample_world" for a
    by (simp add: csrf_ok_def safe_method_def exempt_def Header_Get_def select_def)
  with Gates_hold [OF run] run show ?thesis by (simp add: result_def final_def)
qed

end
