(* ===== verification/Workers.thy ===== *)
theory Workers
  imports Steps
begin

text \<open>
  The other program that writes the tables: the statements of \<open>src/backend/worker/worker/db.py\<close>, by
  which the workers claim a job the gateway queued, store its findings, and close it. A job names
  an analysis with its organization and user. The column \<open>heartbeat_at\<close> is read by the workers only
  and left out; which analyses are stale by it is an argument.
\<close>

section \<open>Statements\<close>

definition w_claim :: "uuid \<Rightarrow> db \<Rightarrow> time \<Rightarrow> bool \<times> db" where
  "w_claim i d t =
     (let p = (\<lambda>a. a_ID a = i \<and> a_Status a \<in> {''queued'', ''running''})
      in (list_ex p (analyses d), d\<lparr>analyses := update_where p
           (\<lambda>a. a\<lparr>a_Status := ''running'', a_StartedAt := Some (coalesce t (a_StartedAt a))\<rparr>) (analyses d)\<rparr>))"

definition w_fail :: "uuid \<Rightarrow> string \<Rightarrow> db \<Rightarrow> time \<Rightarrow> db" where
  "w_fail i message d t = d\<lparr>analyses := update_where (\<lambda>a. a_ID a = i)
     (\<lambda>a. a\<lparr>a_Status := ''failed'', a_Error := Some (take 2000 message), a_FinishedAt := Some t\<rparr>) (analyses d)\<rparr>"

record outcome_row =
  or_Summary :: "string option"
  or_OverallRisk :: "string option"
  or_Timeline :: json
  or_Model :: "string option"
  or_InputTokens :: "int option"
  or_OutputTokens :: "int option"
  or_Error :: "string option"

text \<open>The casts to the enums of severity and urgency, which refuse any other label.\<close>

definition severity_ok :: "string \<Rightarrow> bool" where
  "severity_ok l \<longleftrightarrow> severity_rank l < 5"

definition urgency_ok :: "string \<Rightarrow> bool" where
  "urgency_ok l \<longleftrightarrow> urgency_rank l < 4"

definition w_finish :: "uuid \<Rightarrow> outcome_row \<Rightarrow> db \<Rightarrow> time \<Rightarrow> store_err + db" where
  "w_finish i out d t =
     (if \<not> pred_option severity_ok (or_OverallRisk out) then Inl ErrDriver
      else Inr (d\<lparr>analyses := update_where (\<lambda>a. a_ID a = i)
        (\<lambda>a. a\<lparr>a_Status := ''done'', a_Summary := or_Summary out, a_OverallRisk := or_OverallRisk out, a_Timeline := or_Timeline out,
           a_Model := or_Model out, a_InputTokens := or_InputTokens out, a_OutputTokens := or_OutputTokens out,
           a_Error := or_Error out, a_FinishedAt := Some t\<rparr>) (analyses d)\<rparr>))"

text \<open>What the reaper learns of an analysis it puts back.\<close>

record requeued_row =
  rq_id :: uuid
  rq_upload_id :: uuid
  rq_org_id :: uuid
  rq_user_id :: uuid
  rq_scope :: string
  rq_baseline_window_days :: "int option"

definition w_requeue_stale :: "(uuid \<Rightarrow> bool) \<Rightarrow> db \<Rightarrow> requeued_row list \<times> db" where
  "w_requeue_stale stale d =
     (let p = (\<lambda>a. a_Status a = ''running'' \<and> stale (a_ID a) \<and> list_ex (\<lambda>u. up_ID u = a_UploadID a) (uploads d))
      in (concat (map (\<lambda>a. map (\<lambda>u. \<lparr>rq_id = a_ID a, rq_upload_id = a_UploadID a, rq_org_id = a_OrgID a, rq_user_id = up_UserID u,
               rq_scope = a_Scope a, rq_baseline_window_days = a_BaselineWindowDays a\<rparr>)
             (take 1 (select (\<lambda>u. up_ID u = a_UploadID a) (uploads d)))) (select p (analyses d))),
          d\<lparr>analyses := update_where p (\<lambda>a. a\<lparr>a_Status := ''queued''\<rparr>) (analyses d)\<rparr>))"

text \<open>Delete, then insert; the embeddings of the findings that go, go with them.\<close>

definition has_analysis :: "uuid \<Rightarrow> db \<Rightarrow> bool" where
  "has_analysis i d \<longleftrightarrow> list_ex (\<lambda>a. a_ID a = i) (analyses d)"

definition w_delete_anomalies :: "uuid \<Rightarrow> db \<Rightarrow> db" where
  "w_delete_anomalies i d =
     (let gone = map an_ID (select (\<lambda>f. an_analysis_id f = i) (anomalies d))
      in d\<lparr>anomalies := delete_where (\<lambda>f. an_analysis_id f = i) (anomalies d),
           finding_embeddings := delete_where (\<lambda>f. case fe_anomaly_id f of None \<Rightarrow> False | Some j \<Rightarrow> j \<in> set gone) (finding_embeddings d)\<rparr>)"

fun w_insert_anomalies :: "uuid \<Rightarrow> anomaly list \<Rightarrow> db \<Rightarrow> db" where
  "w_insert_anomalies i [] d = d"
| "w_insert_anomalies i (r # rs) d = w_insert_anomalies i rs
     (d\<lparr>anomalies := anomalies d @ [anomaly.extend (r\<lparr>an_ID := next_id d\<rparr>) \<lparr>an_analysis_id = i\<rparr>], next_id := Suc (next_id d)\<rparr>)"

definition w_save_anomalies :: "uuid \<Rightarrow> anomaly list \<Rightarrow> db \<Rightarrow> store_err + (nat \<times> db)" where
  "w_save_anomalies i rows d =
     (if \<not> list_all (\<lambda>r. severity_ok (an_Severity r) \<and> urgency_ok (an_Urgency r)) rows then Inl ErrDriver
      else if rows \<noteq> [] \<and> \<not> has_analysis i d then Inl (ErrConstraint ''anomalies_analysis_id_fkey'')
      else Inr (length rows, w_insert_anomalies i rows (w_delete_anomalies i d)))"

definition w_record_timing :: "timing_row \<Rightarrow> db \<Rightarrow> time \<Rightarrow> store_err + db" where
  "w_record_timing r d t =
     (if \<not> has_analysis (t_analysis_id r) d \<or> \<not> list_ex (\<lambda>x. o_ID x = t_org_id r) (organizations d) \<or>
        \<not> list_ex (\<lambda>u. u_ID u = t_user_id r) (users d)
      then Inl (ErrConstraint ''analysis_timings_fkey'')
      else Inr (d\<lparr>analysis_timings := analysis_timings d @ [r\<lparr>t_created_at := t\<rparr>]\<rparr>))"

text \<open>Of the rows of an embedding only the finding it refers to is kept; the vectors are not in the tables of the model.\<close>

definition w_save_embeddings :: "uuid \<Rightarrow> uuid \<Rightarrow> uuid \<Rightarrow> uuid option list \<Rightarrow> db \<Rightarrow> store_err + (nat \<times> db)" where
  "w_save_embeddings i org usr refs d =
     (if refs \<noteq> [] \<and> (\<not> has_analysis i d \<or> \<not> list_ex (\<lambda>x. o_ID x = org) (organizations d) \<or> \<not> list_ex (\<lambda>u. u_ID u = usr) (users d) \<or>
        \<not> list_all (\<lambda>r. r = None \<or> (\<exists>f\<in>set (anomalies d). r = Some (an_ID f))) refs)
      then Inl (ErrConstraint ''finding_embeddings_fkey'')
      else Inr (length refs, d\<lparr>finding_embeddings := delete_where (\<lambda>f. fe_analysis_id f = i) (finding_embeddings d) @
        map (\<lambda>r. \<lparr>fe_org_id = org, fe_analysis_id = i, fe_anomaly_id = r\<rparr>) refs\<rparr>))"

section \<open>What the workers do\<close>

text \<open>A job's organization is that of its analysis, as long as the analysis is there.\<close>

definition job_of :: "db \<Rightarrow> uuid \<Rightarrow> uuid \<Rightarrow> bool" where
  "job_of d i org \<longleftrightarrow> (\<forall>a\<in>set (analyses d). a_ID a = i \<longrightarrow> a_OrgID a = org)"

inductive work :: "db \<Rightarrow> db \<Rightarrow> bool" for d :: db where
  claim: "work d (snd (w_claim i d t))"
| fail: "work d (w_fail i message d t)"
| finish: "w_finish i out d t = Inr d' \<Longrightarrow> work d d'"
| requeue: "work d (snd (w_requeue_stale stale d))"
| findings: "w_save_anomalies i rows d = Inr (m, d') \<Longrightarrow> work d d'"
| timing: "job_of d (t_analysis_id r) (t_org_id r) \<Longrightarrow> w_record_timing r d t = Inr d' \<Longrightarrow> work d d'"
| embeddings: "job_of d i org \<Longrightarrow> w_save_embeddings i org usr refs d = Inr (m, d') \<Longrightarrow> work d d'"

text \<open>The reaper's jobs name the organization of their analysis.\<close>

lemma requeued_job_of:
  assumes "tables_ok d" and "row \<in> set (fst (w_requeue_stale stale d))"
  shows "job_of d (rq_id row) (rq_org_id row)"
proof -
  from assms(2) obtain a where a: "a \<in> set (analyses d)" "rq_id row = a_ID a" "rq_org_id row = a_OrgID a"
    by (auto simp: w_requeue_stale_def Let_def)
  have "b = a" if "b \<in> set (analyses d)" "a_ID b = a_ID a" for b
    using analyses_okD(1) [OF assms(1)] that a(1) by (auto simp: distinct_map dest: inj_onD)
  with a show ?thesis by (auto simp: job_of_def)
qed

lemma has_analysis_iff: "has_analysis i d \<longleftrightarrow> (\<exists>a\<in>set (analyses d). a_ID a = i)"
  by (simp add: has_analysis_def list_ex_iff)

lemma inserted_anomalies:
  "\<exists>rows n. w_insert_anomalies i rs d = d\<lparr>anomalies := anomalies d @ rows, next_id := n\<rparr> \<and> next_id d \<le> n \<and>
     (\<forall>r\<in>set rows. an_analysis_id r = i) \<and> (rs = [] \<longrightarrow> rows = [])"
proof (induction rs arbitrary: d)
  case Nil
  show ?case by (rule exI [of _ "[]"], rule exI [of _ "next_id d"]) simp
next
  case (Cons r rs)
  let ?row = "anomaly.extend (r\<lparr>an_ID := next_id d\<rparr>) \<lparr>an_analysis_id = i\<rparr>"
  obtain rows n where "w_insert_anomalies i rs (d\<lparr>anomalies := anomalies d @ [?row], next_id := Suc (next_id d)\<rparr>) =
      d\<lparr>anomalies := anomalies d @ ?row # rows, next_id := n\<rparr>" "Suc (next_id d) \<le> n" "\<forall>r\<in>set rows. an_analysis_id r = i"
    using Cons [of "d\<lparr>anomalies := anomalies d @ [?row], next_id := Suc (next_id d)\<rparr>"] by auto
  then show ?case by (intro exI [of _ "?row # rows"] exI [of _ n]) (simp add: anomaly.defs)
qed

text \<open>One form for all of them: the analyses keep their keys, and the rows that come belong to one.\<close>

definition worked :: "db \<Rightarrow> db \<Rightarrow> bool" where
  "worked d d' \<longleftrightarrow> (\<exists>p f as ts es n. d' = d\<lparr>analyses := update_where p f (analyses d), anomalies := as, analysis_timings := ts,
       finding_embeddings := es, next_id := n\<rparr> \<and> next_id d \<le> n \<and>
     (\<forall>a. a_ID (f a) = a_ID a \<and> a_OrgID (f a) = a_OrgID a \<and> a_UploadID (f a) = a_UploadID a \<and> a_Scope (f a) = a_Scope a \<and>
       a_BaselineWindowDays (f a) = a_BaselineWindowDays a) \<and>
     (\<forall>r\<in>set as. r \<in> set (anomalies d) \<or> (\<exists>a\<in>set (analyses d). a_ID a = an_analysis_id r)) \<and>
     (\<forall>r\<in>set ts. r \<in> set (analysis_timings d) \<or> (\<exists>a\<in>set (analyses d). a_ID a = t_analysis_id r \<and> a_OrgID a = t_org_id r)) \<and>
     (\<forall>r\<in>set es. r \<in> set (finding_embeddings d) \<or> (\<exists>a\<in>set (analyses d). a_ID a = fe_analysis_id r \<and> a_OrgID a = fe_org_id r)))"

lemma workedI:
  assumes "d' = d\<lparr>analyses := update_where p f (analyses d), anomalies := as, analysis_timings := ts, finding_embeddings := es, next_id := n\<rparr>"
    and "next_id d \<le> n"
    and "\<And>a. a_ID (f a) = a_ID a \<and> a_OrgID (f a) = a_OrgID a \<and> a_UploadID (f a) = a_UploadID a \<and> a_Scope (f a) = a_Scope a \<and>
       a_BaselineWindowDays (f a) = a_BaselineWindowDays a"
    and "\<And>r. r \<in> set as \<Longrightarrow> r \<in> set (anomalies d) \<or> (\<exists>a\<in>set (analyses d). a_ID a = an_analysis_id r)"
    and "\<And>r. r \<in> set ts \<Longrightarrow> r \<in> set (analysis_timings d) \<or> (\<exists>a\<in>set (analyses d). a_ID a = t_analysis_id r \<and> a_OrgID a = t_org_id r)"
    and "\<And>r. r \<in> set es \<Longrightarrow> r \<in> set (finding_embeddings d) \<or> (\<exists>a\<in>set (analyses d). a_ID a = fe_analysis_id r \<and> a_OrgID a = fe_org_id r)"
  shows "worked d d'"
  unfolding worked_def using assms by (intro exI conjI) auto

lemma worked_analyses:
  assumes "\<And>a. a_ID (f a) = a_ID a \<and> a_OrgID (f a) = a_OrgID a \<and> a_UploadID (f a) = a_UploadID a \<and> a_Scope (f a) = a_Scope a \<and>
       a_BaselineWindowDays (f a) = a_BaselineWindowDays a"
  shows "worked d (d\<lparr>analyses := update_where p f (analyses d)\<rparr>)"
  by (rule workedI [where p = p and f = f and as = "anomalies d" and ts = "analysis_timings d" and es = "finding_embeddings d" and
        n = "next_id d"]) (simp_all add: assms)

lemma update_where_id: "update_where p (\<lambda>a. a) xs = xs"
  by (simp add: update_where_def)

lemma work_worked:
  assumes "work d d'"
  shows "worked d d'"
  using assms
proof cases
  case (claim i t)
  show ?thesis unfolding claim(1) w_claim_def Let_def snd_conv by (rule worked_analyses) simp
next
  case (fail i message t)
  show ?thesis unfolding fail(1) w_fail_def by (rule worked_analyses) simp
next
  case (finish i out t)
  then have d': "d' = d\<lparr>analyses := update_where (\<lambda>a. a_ID a = i)
      (\<lambda>a. a\<lparr>a_Status := ''done'', a_Summary := or_Summary out, a_OverallRisk := or_OverallRisk out, a_Timeline := or_Timeline out,
         a_Model := or_Model out, a_InputTokens := or_InputTokens out, a_OutputTokens := or_OutputTokens out,
         a_Error := or_Error out, a_FinishedAt := Some t\<rparr>) (analyses d)\<rparr>"
    by (simp add: w_finish_def split: if_splits)
  show ?thesis unfolding d' by (rule worked_analyses) simp
next
  case (requeue stale)
  show ?thesis unfolding requeue(1) w_requeue_stale_def Let_def snd_conv by (rule worked_analyses) simp
next
  case (findings i rows m)
  obtain rs n where new: "w_insert_anomalies i rows (w_delete_anomalies i d) =
      (w_delete_anomalies i d)\<lparr>anomalies := anomalies (w_delete_anomalies i d) @ rs, next_id := n\<rparr>"
    "next_id (w_delete_anomalies i d) \<le> n" "\<forall>r\<in>set rs. an_analysis_id r = i" "rows = [] \<Longrightarrow> rs = []"
    using inserted_anomalies [of i rows "w_delete_anomalies i d"] by blast
  from findings have d': "d' = w_insert_anomalies i rows (w_delete_anomalies i d)" and here: "rows = [] \<or> has_analysis i d"
    by (auto simp: w_save_anomalies_def split: if_splits)
  show ?thesis
  proof (rule workedI)
    show "d' = d\<lparr>analyses := update_where (\<lambda>_. False) (\<lambda>a. a) (analyses d),
        anomalies := delete_where (\<lambda>f. an_analysis_id f = i) (anomalies d) @ rs, analysis_timings := analysis_timings d,
        finding_embeddings := finding_embeddings (w_delete_anomalies i d), next_id := n\<rparr>"
      unfolding d' new(1) by (simp add: w_delete_anomalies_def Let_def update_where_id)
    show "next_id d \<le> n" using new(2) by (simp add: w_delete_anomalies_def Let_def)
  qed (use new(3,4) here in \<open>auto simp: w_delete_anomalies_def Let_def has_analysis_iff\<close>)
next
  case (timing r t)
  then show ?thesis
    by (intro workedI [where p = "\<lambda>_. False" and f = "\<lambda>a. a" and as = "anomalies d" and es = "finding_embeddings d" and n = "next_id d"])
      (auto simp: w_record_timing_def update_where_id has_analysis_iff job_of_def split: if_splits)
next
  case (embeddings i org usr refs m)
  let ?es = "delete_where (\<lambda>f. fe_analysis_id f = i) (finding_embeddings d) @
    map (\<lambda>r. \<lparr>fe_org_id = org, fe_analysis_id = i, fe_anomaly_id = r\<rparr>) refs"
  from embeddings(2) have d': "d' = d\<lparr>finding_embeddings := ?es\<rparr>" and here: "refs = [] \<or> has_analysis i d"
    by (auto simp: w_save_embeddings_def split: if_splits)
  show ?thesis
  proof (rule workedI)
    show "d' = d\<lparr>analyses := update_where (\<lambda>_. False) (\<lambda>a. a) (analyses d), anomalies := anomalies d,
        analysis_timings := analysis_timings d, finding_embeddings := ?es, next_id := next_id d\<rparr>"
      unfolding d' by (simp add: update_where_id)
  qed (use embeddings(1) here in \<open>auto simp: has_analysis_iff job_of_def\<close>)
qed

section \<open>What the workers keep\<close>

lemma ok_findings:
  assumes "tables_ok d"
    and "\<forall>r\<in>set as. \<exists>a\<in>set (analyses d). a_ID a = an_analysis_id r"
    and "\<forall>r\<in>set ts. \<exists>a\<in>set (analyses d). a_ID a = t_analysis_id r \<and> a_OrgID a = t_org_id r"
    and "\<forall>r\<in>set es. \<exists>a\<in>set (analyses d). a_ID a = fe_analysis_id r \<and> a_OrgID a = fe_org_id r"
  shows "tables_ok (d\<lparr>anomalies := as, analysis_timings := ts, finding_embeddings := es\<rparr>)"
  using assms by (simp add: tables_ok_def) (simp add: findings_owned_def)

lemma ok_update_analyses:
  assumes "tables_ok d"
    and "\<And>a. a_ID (f a) = a_ID a \<and> a_OrgID (f a) = a_OrgID a \<and> a_UploadID (f a) = a_UploadID a \<and> a_Scope (f a) = a_Scope a \<and>
       a_BaselineWindowDays (f a) = a_BaselineWindowDays a"
  shows "tables_ok (d\<lparr>analyses := update_where p f (analyses d)\<rparr>)"
  using analyses_okD [OF assms(1)] assms(2)
  by (intro ok_analyses assms(1)) (simp_all add: map_update_where ball_update_where bex_update_where, blast)

lemma worked_ok:
  assumes "worked d d'" "tables_ok d"
  shows "tables_ok d'"
proof -
  from assms(1) obtain p f as ts es n where d': "d' = d\<lparr>analyses := update_where p f (analyses d), anomalies := as, analysis_timings := ts,
       finding_embeddings := es, next_id := n\<rparr>" and n: "next_id d \<le> n"
    and f: "\<And>a. a_ID (f a) = a_ID a \<and> a_OrgID (f a) = a_OrgID a \<and> a_UploadID (f a) = a_UploadID a \<and> a_Scope (f a) = a_Scope a \<and>
       a_BaselineWindowDays (f a) = a_BaselineWindowDays a"
    and as: "\<forall>r\<in>set as. r \<in> set (anomalies d) \<or> (\<exists>a\<in>set (analyses d). a_ID a = an_analysis_id r)"
    and ts: "\<forall>r\<in>set ts. r \<in> set (analysis_timings d) \<or> (\<exists>a\<in>set (analyses d). a_ID a = t_analysis_id r \<and> a_OrgID a = t_org_id r)"
    and es: "\<forall>r\<in>set es. r \<in> set (finding_embeddings d) \<or> (\<exists>a\<in>set (analyses d). a_ID a = fe_analysis_id r \<and> a_OrgID a = fe_org_id r)"
    unfolding worked_def by blast
  note own = assms(2) [unfolded tables_ok_def findings_owned_def]
  let ?e = "d\<lparr>anomalies := as, analysis_timings := ts, finding_embeddings := es\<rparr>"
  have "tables_ok ?e" using as ts es own by (intro ok_findings [OF assms(2)]) blast+
  then have "tables_ok (?e\<lparr>analyses := update_where p f (analyses ?e)\<rparr>)" using f by (rule ok_update_analyses)
  then have "tables_ok (?e\<lparr>analyses := update_where p f (analyses ?e), next_id := n\<rparr>)" by (rule ok_fresh) (simp add: n)
  then show ?thesis unfolding d' by (cases d) simp
qed

lemma work_ok: "work d d' \<Longrightarrow> tables_ok d \<Longrightarrow> tables_ok d'"
  using work_worked worked_ok by blast

text \<open>A history that the workers respect as well.\<close>

locale shared_history = history +
  assumes shared: "tables_ok d \<Longrightarrow> work d d' \<Longrightarrow> R d d'"

interpretation shared_growth: shared_history only_grows
proof unfold_locales
  show "only_grows d d'" if "work d d'" for d d'
    using work_worked [OF that] by (auto simp: worked_def only_grows_def)
qed

interpretation shared_rollups: shared_history "\<lambda>d d'. rollups_current d \<longrightarrow> rollups_current d'"
proof unfold_locales
  show "rollups_current d \<longrightarrow> rollups_current d'" if "work d d'" for d d'
    using work_worked [OF that] by (auto simp: worked_def elim!: rollups_current_same)
qed

end
