(* ===== verification/Races.thy ===== *)
theory Races
  imports Workers
begin

text \<open>
  Requests run side by side. Between the query a handler decides on and the statement it then issues, other
  requests and the workers may change the tables. Here the decisions of the handlers are taken on
  tables that are old by the time of the statement: what the statement then does is still a step of
  the organization it was decided for, because identifiers are never drawn twice, no row changes its
  owner, and the constraints of the tables refuse what refers to a row that is gone.
\<close>

section \<open>What others may do meanwhile\<close>

text \<open>
  One step of somebody else, as a request sees it that knows of the uploads \<open>U\<close>: those that were
  there when it looked, and the one it may be writing itself. Nobody else creates an upload under one of these identifiers,
  since each draws its own.
\<close>

definition other :: "uuid set \<Rightarrow> db \<Rightarrow> db \<Rightarrow> bool" where
  "other U d d' \<longleftrightarrow> ((\<exists>org. step org d d') \<or> work d d') \<and> (\<forall>up\<in>set (uploads d'). up \<in> set (uploads d) \<or> up_ID up \<notin> U)"

abbreviation others :: "uuid set \<Rightarrow> db \<Rightarrow> db \<Rightarrow> bool" where
  "others U \<equiv> (other U)\<^sup>*\<^sup>*"

context shared_history
begin

lemma others_kept: "others U d d' \<Longrightarrow> tables_ok d \<Longrightarrow> tables_ok d' \<and> R d d'"
proof (induction rule: rtranclp_induct)
  case base
  then show ?case using now by simp
next
  case (step e f)
  then have "tables_ok e" "R d e" by simp_all
  moreover from this step(2) have "tables_ok f" "R e f"
    unfolding other_def using step_ok kept work_ok shared by blast+
  ultimately show ?case using later by blast
qed

end

lemma others_uploads: "others U d d' \<Longrightarrow> up \<in> set (uploads d') \<Longrightarrow> up_ID up \<in> U \<Longrightarrow> up \<in> set (uploads d)"
  by (induction rule: rtranclp_induct) (auto simp: other_def)

text \<open>The analyses and codes that were there, as far as they still are, have the owner they had; partitions stay.\<close>

definition owners_kept :: "db \<Rightarrow> db \<Rightarrow> bool" where
  "owners_kept d d' \<longleftrightarrow> next_id d \<le> next_id d' \<and> set (partitions d) \<subseteq> set (partitions d') \<and>
     (\<forall>a\<in>set (analyses d'). a_ID a < next_id d \<longrightarrow> (\<exists>b\<in>set (analyses d). a_ID b = a_ID a \<and> a_OrgID b = a_OrgID a)) \<and>
     (\<forall>c\<in>set (mfa_recovery_codes d'). rc_ID c < next_id d \<longrightarrow>
        (\<exists>b\<in>set (mfa_recovery_codes d). rc_ID b = rc_ID c \<and> rc_user_id b = rc_user_id c))"

lemma kept_in_update:
  assumes "\<forall>a. a_ID (f a) = a_ID a \<and> a_OrgID (f a) = a_OrgID a" "a \<in> set (update_where p f as)"
  shows "\<exists>b\<in>set as. a_ID b = a_ID a \<and> a_OrgID b = a_OrgID a"
  using assms by (auto simp: set_update_where)

lemma owners_kept_refl: "owners_kept d d"
  by (auto simp: owners_kept_def)

lemma owners_kept_trans:
  assumes "owners_kept d e" "owners_kept e f"
  shows "owners_kept d f"
proof -
  have le: "i < next_id d \<Longrightarrow> i < next_id e" for i using assms(1) by (simp add: owners_kept_def)
  have "\<exists>b\<in>set (analyses d). a_ID b = a_ID a \<and> a_OrgID b = a_OrgID a" if "a \<in> set (analyses f)" "a_ID a < next_id d" for a
    using assms that le [OF that(2)] unfolding owners_kept_def by metis
  moreover have "\<exists>b\<in>set (mfa_recovery_codes d). rc_ID b = rc_ID c \<and> rc_user_id b = rc_user_id c"
    if "c \<in> set (mfa_recovery_codes f)" "rc_ID c < next_id d" for c
    using assms that le [OF that(2)] unfolding owners_kept_def by metis
  ultimately show ?thesis using assms le unfolding owners_kept_def by (auto intro: order_trans)
qed

lemma inserted_codes_owners:
  "next_id d \<le> next_id (inserted_codes i hs d) \<and> analyses (inserted_codes i hs d) = analyses d \<and>
   (\<forall>c\<in>set (mfa_recovery_codes (inserted_codes i hs d)). rc_ID c < next_id d \<longrightarrow> c \<in> set (mfa_recovery_codes d))"
proof (induction hs arbitrary: d)
  case (Cons h hs)
  from Cons [of "d\<lparr>mfa_recovery_codes := mfa_recovery_codes d @
     [\<lparr>rc_ID = next_id d, rc_user_id = i, rc_code_hash = h, rc_used_at = None\<rparr>], next_id := Suc (next_id d)\<rparr>"] show ?case by auto
qed simp

lemma inserted_codes_partitions: "partitions (inserted_codes i hs d) = partitions d"
  by (induction hs arbitrary: d) simp_all

lemma step_owners_kept:
  assumes "step org d d'"
  shows "owners_kept d d'"
  using assms
proof cases
  case (found name slug t x)
  from insert_org_db [OF found(2)] show ?thesis by (auto simp: owners_kept_def)
next
  case (join email hash role t x)
  from insert_user_db [OF join] show ?thesis by (auto simp: owners_kept_def)
next
  case (stage i sealed t x)
  then show ?thesis by (auto simp: owners_kept_def s_StagePendingSecret_def)
next
  case (activate i hs t)
  let ?e = "d\<lparr>users := update_where (\<lambda>u. u_ID u = i \<and> u_totp_secret u \<noteq> None)
       (\<lambda>u. u\<lparr>u_totp_enabled := True, u_totp_confirmed_at := Some t\<rparr>) (users d),
     mfa_recovery_codes := delete_where (\<lambda>c. rc_user_id c = i) (mfa_recovery_codes d)\<rparr>"
  have "partitions (inserted_codes i hs ?e) = partitions d" by (simp add: inserted_codes_partitions)
  then show ?thesis
    using inserted_codes_owners [of ?e i hs] unfolding activate(1) activated_def by (auto simp: owners_kept_def)
next
  case (disable i)
  then show ?thesis by (auto simp: owners_kept_def disabled_def)
next
  case (burn c i t)
  then show ?thesis by (auto simp: owners_kept_def burn_db_def set_update_where)
next
  case (policy b t x)
  then show ?thesis by (auto simp: owners_kept_def s_SetOrgRequireMFA_def)
next
  case (grant g t h)
  from grant(3) show ?thesis by (cases rule: s_UpsertGrant_cases) (auto simp: owners_kept_def)
next
  case (revoke i t x)
  from s_DeleteGrant_db [OF revoke] show ?thesis by (auto simp: owners_kept_def)
next
  case (analyse i usr scope window t an)
  from s_CreateAnalysis_db [OF analyse(2)] show ?thesis by (auto simp: owners_kept_def)
next
  case (fail an i msg t x)
  then show ?thesis by (auto simp: owners_kept_def s_FailAnalysis_def del: set_update_where dest!: kept_in_update [rotated])
next
  case (delete i)
  then show ?thesis by (auto simp: owners_kept_def deleted_def)
next
  case (upload b up es)
  then show ?thesis by (auto simp: ingested_def owners_kept_def)
qed (auto simp: owners_kept_def)

lemma work_owners_kept:
  assumes "work d d'"
  shows "owners_kept d d'"
proof -
  from work_worked [OF assms] obtain p f as ts es n where d': "d' = d\<lparr>analyses := update_where p f (analyses d), anomalies := as,
      analysis_timings := ts, finding_embeddings := es, next_id := n\<rparr>" and "next_id d \<le> n"
    and f: "\<forall>a. a_ID (f a) = a_ID a \<and> a_OrgID (f a) = a_OrgID a"
    unfolding worked_def by blast
  then show ?thesis using kept_in_update [OF f] by (auto simp: owners_kept_def)
qed

interpretation owners: shared_history owners_kept
  by unfold_locales (rule owners_kept_refl, erule (1) owners_kept_trans, erule step_owners_kept, erule work_owners_kept)

section \<open>What a request decides\<close>

text \<open>
  The statements the handlers issue on behalf of an organization, with what they found out before:
  the row they act on is that of a member, the upload they share or analyse is one of the
  organization, the rows of a file parsed well. A statement is a function of the tables it meets.
\<close>

definition effect :: "(db \<Rightarrow> time \<Rightarrow> store_err + ('a \<times> db)) \<Rightarrow> db \<Rightarrow> time \<Rightarrow> db option" where
  "effect s d t = (case s d t of Inl _ \<Rightarrow> None | Inr (_, d') \<Rightarrow> Some d')"

lemma effect_Some: "effect s d t = Some d' \<longleftrightarrow> (\<exists>x. s d t = Inr (x, d'))"
  by (auto simp: effect_def split: sum.splits)

lemma owners_keptD:
  assumes "owners_kept d e"
  shows "a \<in> set (analyses e) \<Longrightarrow> a_ID a < next_id d \<Longrightarrow> \<exists>b\<in>set (analyses d). a_ID b = a_ID a \<and> a_OrgID b = a_OrgID a"
    and "c \<in> set (mfa_recovery_codes e) \<Longrightarrow> rc_ID c < next_id d \<Longrightarrow>
      \<exists>b\<in>set (mfa_recovery_codes d). rc_ID b = rc_ID c \<and> rc_user_id b = rc_user_id c"
  using assms by (simp_all add: owners_kept_def)

inductive issued :: "uuid \<Rightarrow> db \<Rightarrow> (db \<Rightarrow> time \<Rightarrow> db option) \<Rightarrow> bool" for org :: uuid and d :: db where
  log: "issued org d (effect (s_Audit org actor action resourceType resourceID detail))"
| join: "issued org d (effect (insert_user org email hash role))"
| stage: "member d i org \<Longrightarrow> issued org d (effect (s_StagePendingSecret i sealed))"
| activate: "member d i org \<Longrightarrow> issued org d (\<lambda>e t. Some (activated i hs t e))"
| disable: "member d i org \<Longrightarrow> issued org d (\<lambda>e t. Some (disabled i e))"
| burn: "c \<in> set (mfa_recovery_codes d) \<Longrightarrow> member d (rc_user_id c) org \<Longrightarrow> issued org d (effect (s_BurnRecoveryCode (rc_ID c)))"
| policy: "issued org d (effect (s_SetOrgRequireMFA org b))"
| grant: "g_OrgID g = org \<Longrightarrow> grant_within d g \<Longrightarrow> issued org d (effect (s_UpsertGrant g))"
| revoke: "issued org d (effect (s_DeleteGrant org i))"
| analyse: "belongs d i org usr \<Longrightarrow> issued org d (effect (s_CreateAnalysis org i scope window))"
| fail: "a \<in> set (analyses d) \<Longrightarrow> a_OrgID a = org \<Longrightarrow> issued org d (effect (s_FailAnalysis (a_ID a) msg))"
| delete: "issued org d (\<lambda>e t. if hits org i e = [] then None else Some (deleted org i e))"
| upload: "ib_OrgID b = org \<Longrightarrow> member d (ib_UserID b) org \<Longrightarrow> ib_UploadID b < next_id d \<Longrightarrow>
    ingested b d (committed b up es ps d) up es \<Longrightarrow> months_covered es (partitions d @ ps) \<Longrightarrow>
    issued org d (\<lambda>e t. if has_upload (ib_UploadID b) e then None else Some (committed b up es ps e))"

lemma member_later:
  assumes "only_grows d e" "member d i org"
  shows "member e i org"
proof -
  let ?k = "\<lambda>u. (u_ID u, u_OrgID u, u_Email u, u_Role u)"
  from assms(2) obtain u where "u \<in> set (users d)" "u_ID u = i" "u_OrgID u = org" by (auto simp: member_def)
  moreover have "set (map ?k (users d)) \<subseteq> set (map ?k (users e))"
    by (rule set_mono_prefix) (use assms(1) in \<open>simp add: only_grows_def\<close>)
  ultimately have "?k u \<in> set (map ?k (users e))" by auto
  then obtain v where "v \<in> set (users e)" "?k v = ?k u" by auto
  with \<open>u_ID u = i\<close> \<open>u_OrgID u = org\<close> show ?thesis by (auto simp: member_def)
qed

lemma belongs_later:
  assumes "tables_ok d" "\<forall>up\<in>set (uploads d). up_ID up \<in> U" "others U d e" "belongs d i org usr" "up \<in> set (uploads e)" "up_ID up = i"
  shows "belongs e i org usr"
proof -
  from assms(4) obtain v where v: "v \<in> set (uploads d)" "up_ID v = i" "up_OrgID v = org" "up_UserID v = usr"
    by (auto simp: belongs_def)
  with assms(2,6) have "up_ID up \<in> U" by auto
  then have "up \<in> set (uploads d)" by (rule others_uploads [OF assms(3,5)])
  with v assms(1,6) have "up = v" by (auto simp: tables_ok_def unique_ids_def distinct_map dest: inj_onD)
  with v assms(5,6) show ?thesis by (auto simp: belongs_def)
qed

lemma s_UpsertGrant_refs: "s_UpsertGrant g d t = Inr (h, d') \<Longrightarrow> g_UploadID g = Some i \<Longrightarrow> \<exists>up\<in>set (uploads d). up_ID up = i"
  by (auto simp: s_UpsertGrant_def grant_refs_ok_def split: if_splits)

lemma s_CreateAnalysis_refs: "s_CreateAnalysis org i scope window d t = Inr (an, d') \<Longrightarrow> \<exists>up\<in>set (uploads d). up_ID up = i"
  by (auto simp: s_CreateAnalysis_def split: if_splits)

lemma update_where_none: "(\<forall>x\<in>set xs. \<not> p x) \<Longrightarrow> update_where p f xs = xs"
  by (simp add: update_where_def map_idI)

text \<open>Decided on old tables, executed on new ones: a step of the same organization, if it changes anything.\<close>

lemma late_step:
  assumes "tables_ok d" "issued org d s" "\<forall>up\<in>set (uploads d). up_ID up \<in> U" "others U d e" "s e t = Some e'"
  shows "step org e e' \<or> e' = e"
proof -
  note ok = shared_growth.others_kept [OF assms(4,1)] and own = owners.others_kept [OF assms(4,1), THEN conjunct2]
  note mem = member_later [OF ok [THEN conjunct2]]
  from assms(2) show ?thesis
  proof cases
    case (log actor action resourceType resourceID detail)
    with assms(5) show ?thesis by (auto simp: effect_Some s_Audit_def intro: step.log)
  next
    case (join email hash role)
    with assms(5) show ?thesis by (auto simp: effect_Some intro: step.join)
  next
    case (stage i sealed)
    with assms(5) mem show ?thesis by (auto simp: effect_Some intro: step.stage)
  next
    case (activate i hs)
    with assms(5) mem show ?thesis by (auto intro: step.activate)
  next
    case (disable i)
    with assms(5) mem show ?thesis by (auto intro: step.disable)
  next
    case (burn c)
    from burn(1) assms(5) have unused: "unused_code (rc_ID c) e" and e': "e' = burn_db (rc_ID c) t e"
      by (auto simp: effect_Some Burn_eq split: if_splits)
    then obtain b where b: "b \<in> set (mfa_recovery_codes e)" "rc_ID b = rc_ID c" by (auto simp: unused_code_def)
    have "rc_ID b < next_id d" using assms(1) burn(2) b(2) by (auto simp: tables_ok_def ids_drawn_def)
    from owners_keptD(2) [OF own b(1) this] b(2) obtain c' where
      c': "c' \<in> set (mfa_recovery_codes d)" "rc_ID c' = rc_ID c" "rc_user_id c' = rc_user_id b" by auto
    then have "c' = c" using burn(2) codes_okD(1) [OF assms(1)] by (auto simp: distinct_map dest: inj_onD)
    with c'(3) have "rc_user_id b = rc_user_id c" by simp
    with step.burn [OF b(1) refl] b(2) mem [OF burn(3)] e' show ?thesis by auto
  next
    case (policy b)
    with assms(5) show ?thesis by (auto simp: effect_Some intro: step.policy)
  next
    case (grant g)
    from grant(1) assms(5) obtain h where h: "s_UpsertGrant g e t = Inr (h, e')" by (auto simp: effect_Some)
    have "\<exists>usr. belongs e i (g_OrgID g) usr" if i: "g_UploadID g = Some i" for i
    proof -
      from grant(3) i obtain usr where "belongs d i (g_OrgID g) usr" by (auto simp: grant_within_def)
      with s_UpsertGrant_refs [OF h i] belongs_later [OF assms(1,3,4)] show ?thesis by blast
    qed
    with grant(3) mem have "grant_within e g" by (auto simp: grant_within_def)
    with step.grant [OF grant(2) this h] show ?thesis by blast
  next
    case (revoke i)
    with assms(5) show ?thesis by (auto simp: effect_Some intro: step.revoke)
  next
    case (analyse i usr scope window)
    from analyse(1) assms(5) obtain an where an: "s_CreateAnalysis org i scope window e t = Inr (an, e')" by (auto simp: effect_Some)
    with s_CreateAnalysis_refs [OF an] belongs_later [OF assms(1,3,4) analyse(2)] have "belongs e i org usr" by blast
    with step.analyse [OF this an] show ?thesis by blast
  next
    case (fail a msg)
    from fail(1) assms(5) obtain x where x: "s_FailAnalysis (a_ID a) msg e t = Inr (x, e')" by (auto simp: effect_Some)
    show ?thesis
    proof (cases "\<exists>b\<in>set (analyses e). a_ID b = a_ID a")
      case True
      then obtain b where b: "b \<in> set (analyses e)" "a_ID b = a_ID a" by blast
      have "a_ID b < next_id d" using assms(1) fail(2) b(2) by (auto simp: tables_ok_def ids_drawn_def)
      from owners_keptD(1) [OF own b(1) this] b(2) obtain a' where
        a': "a' \<in> set (analyses d)" "a_ID a' = a_ID a" "a_OrgID a' = a_OrgID b" by auto
      then have "a' = a" using fail(2) analyses_okD(1) [OF assms(1)] by (auto simp: distinct_map dest: inj_onD)
      with a'(3) fail(3) have "a_OrgID b = org" by simp
      with step.fail [OF b(1) b(2) _ x] show ?thesis by blast
    next
      case False
      with x have "e' = e" by (simp add: s_FailAnalysis_def update_where_none)
      then show ?thesis by blast
    qed
  next
    case (delete i)
    with assms(5) show ?thesis by (auto split: if_splits intro: step.delete)
  next
    case (upload b up es ps)
    from upload(1) assms(5) have e': "e' = committed b up es ps e" and new: "\<not> has_upload (ib_UploadID b) e"
      by (auto split: if_splits)
    have "months_covered es (partitions e @ ps)" using upload(6) own by (auto simp: months_covered_def owners_kept_def)
    with upload(5) new e' have "ingested b e e' up es" by (auto simp: ingested_def)
    with step.upload [OF upload(2) mem [OF upload(3)]] upload(4) own show ?thesis by (auto simp: owners_kept_def)
  qed
qed

text \<open>
  Claim C7: a request may decide on what is no longer so. Whatever other requests and the workers did
  between the queries of a handler and the statement it then issues, the statement is refused or leaves
  well-formed tables, keeps the history and the rollups, and changes rows of the organization it was
  decided for only; the commit of an ingest that began long before included.
\<close>

theorem Stale_reads:
  assumes "tables_ok d" and "issued org d s" and "\<forall>up\<in>set (uploads d). up_ID up \<in> U" and "others U d e" and "s e t = Some e'"
  shows "tables_ok e' \<and> only_grows e e' \<and> (rollups_current e \<longrightarrow> rollups_current e') \<and> (\<forall>p. p \<noteq> org \<longrightarrow> tenant p e' = tenant p e)"
proof -
  have ok: "tables_ok e" using shared_growth.others_kept [OF assms(4,1)] by blast
  from late_step [OF assms] show ?thesis
  proof
    assume s: "step org e e'"
    with ok show ?thesis using step_ok [OF s ok] growth.kept [OF ok s] rollups.kept [OF ok s] step_tenant [OF s ok] by blast
  qed (use ok only_grows_refl in auto)
qed

text \<open>
  What such a check does not see: between the moment \<open>activateMFA\<close> found the code to fit the secret it had read and
  its \<open>UPDATE\<close>, a second enrolment replaces the secret. The factor is then on with the secret of the second
  enrolment, which no code was ever checked against.
\<close>

lemma activation_race:
  assumes "member d i org" and "s_StagePendingSecret i sealed d t = Inr (x, e)"
  shows "\<exists>u\<in>set (users (activated i hs t' e)). u_ID u = i \<and> u_totp_enabled u \<and> u_totp_secret u = Some sealed"
proof -
  have users: "users (inserted_codes i hs d) = users d" for d by (induction hs arbitrary: d) simp_all
  have hit: "f x \<in> set (update_where p f xs)" if "x \<in> set xs" "p x" for x :: user_row and p f xs
    using that by (force simp: update_where_def)
  from assms(1) obtain u where u: "u \<in> set (users d)" "u_ID u = i" by (auto simp: member_def)
  let ?v = "stage_secret sealed u"
  have "?v \<in> set (users e)" using assms(2) hit [OF u(1)] u(2) by (auto simp: s_StagePendingSecret_def)
  then have "?v\<lparr>u_totp_enabled := True, u_totp_confirmed_at := Some t'\<rparr> \<in> set (users (activated i hs t' e))"
    unfolding activated_def users using hit [of ?v "users e" "\<lambda>u. u_ID u = i \<and> u_totp_secret u \<noteq> None"
      "\<lambda>u. u\<lparr>u_totp_enabled := True, u_totp_confirmed_at := Some t'\<rparr>"] u(2)
    by (simp add: stage_secret_def)
  then show ?thesis using u(2) by (intro bexI) (simp_all add: stage_secret_def)
qed

section \<open>A witness\<close>

lemma sample_tables_ok: "tables_ok sample_db"
proof -
  have t: "analyses sample_db = []" "anomalies sample_db = []" "analysis_timings sample_db = []" "finding_embeddings sample_db = []"
    "log_entries sample_db = []" "entry_rollups sample_db = []" "status_rollups sample_db = []" "mfa_recovery_codes sample_db = []"
    by (simp_all add: sample_db_def empty_db_def)
  have n: "g_Level eves_grant = ''dashboard''" "u_Email ann = ''ann@acme''" "u_Email bob = ''bob@acme''" "u_Email cyd = ''cyd@acme''"
    "u_Email eve = ''eve@acme''" "u_Email dan = ''dan@rival''" "o_Slug org_acme = ''acme''" "o_Slug org_rival = ''rival''"
    by (simp_all add: sample_defs)
  have l: "distinct (map ToLower [''ann@acme'', ''bob@acme'', ''cyd@acme'', ''eve@acme'', ''dan@rival''])"
    "distinct (map ToLower [''acme'', ''rival''])"
    by code_simp+
  have "unique_ids sample_db" "ids_drawn sample_db" by (simp_all add: unique_ids_def ids_drawn_def t)
  moreover have "unique_keys sample_db" using l by (simp add: unique_keys_def grants_unique_def n)
  moreover have "labels_ok sample_db" by (simp add: labels_ok_def valid_role_def sample_levels_valid t)
  moreover have "tenants_apart sample_db" by (simp add: tenants_apart_def member_def belongs_def t)
  moreover have "findings_owned sample_db" "entries_owned sample_db" "partitioned sample_db"
    by (simp_all add: findings_owned_def entries_owned_def partitioned_def t)
  ultimately show ?thesis by (simp add: tables_ok_def)
qed

text \<open>Between Cyd's request for an analysis and the row of it, an administrator demands a second factor.\<close>

theorem Stale_reads_witness:
  "\<exists>e an e'. s_SetOrgRequireMFA 1 True sample_db 0 = Inr ((), e) \<and> s_CreateAnalysis 1 31 ''file'' None e 0 = Inr (an, e') \<and>
     tables_ok e' \<and> only_grows e e' \<and> tenant 2 e' = tenant 2 e"
proof -
  obtain e where e: "s_SetOrgRequireMFA 1 True sample_db 0 = Inr ((), e)" by (simp add: s_SetOrgRequireMFA_def)
  then have e_tables: "uploads e = uploads sample_db" "next_id e = next_id sample_db" "analyses e = analyses sample_db"
    by (auto simp: s_SetOrgRequireMFA_def)
  have "other {31, 32} sample_db e" using step.policy [OF e] e_tables by (auto simp: other_def)
  then have others: "others {31, 32} sample_db e" by (rule r_into_rtranclp)
  have "belongs sample_db 31 1 13" by (auto simp: belongs_def)
  then have s: "issued 1 sample_db (effect (s_CreateAnalysis 1 31 ''file'' None))" by (rule issued.analyse)
  have "\<exists>r\<in>set (organizations e). o_ID r = Suc 0"
    using e by (auto simp: s_SetOrgRequireMFA_def update_where_def org_acme_def)
  then have "\<exists>an e'. s_CreateAnalysis 1 31 ''file'' None e 0 = Inr (an, e')"
    by (simp add: s_CreateAnalysis_def e_tables window_matches_scope_def Let_def)
  then obtain an e' where an: "s_CreateAnalysis 1 31 ''file'' None e 0 = Inr (an, e')" by blast
  then have "effect (s_CreateAnalysis 1 31 ''file'' None) e 0 = Some e'" by (auto simp: effect_Some)
  from Stale_reads [OF sample_tables_ok s _ others this] e an show ?thesis by auto
qed

end
