(* ===== verification/Worker_Jobs.thy ===== *)
theory Worker_Jobs
  imports Workers Queue
begin

text \<open>
  The workers' end of the queue, \<open>src/backend/worker/worker/queue.py\<close>, and the read of a shard in
  \<open>worker/db.py\<close>: how a job the gateway pushed is taken off, which rows of the upload it is given, and how the
  counter the gateway set decides which worker starts the reduce.
\<close>

section \<open>Redis commands of the workers\<close>

definition cmd_decr :: "string \<Rightarrow> redis \<Rightarrow> time \<Rightarrow> redis_err + (int \<times> redis)" where
  "cmd_decr k r t = (case lookup_live r t k of
       None \<Rightarrow> Inr (-1, store_entry k (RInt (-1)) None r)
     | Some e \<Rightarrow> (case as_int (re_value e) of
           Some n \<Rightarrow> Inr (n - 1, store_entry k (RInt (n - 1)) (re_expires e) r)
         | None \<Rightarrow> Inl RedisError))"

text \<open>A number in decimal, as \<open>str\<close> writes it and Redis returns it.\<close>

definition int_text :: "int \<Rightarrow> string" where
  "int_text n = (if n < 0 then ''-'' @ Itoa (nat (- n)) else Itoa (nat n))"

text \<open>The oldest element of a list, or nothing when the wait is over; the last one takes the key with it.\<close>

definition cmd_brpop :: "string \<Rightarrow> redis \<Rightarrow> time \<Rightarrow> redis_err + (json option \<times> redis)" where
  "cmd_brpop k r t = (case lookup_live r t k of
       None \<Rightarrow> Inr (None, r)
     | Some e \<Rightarrow> (case re_value e of
           RList [] \<Rightarrow> Inr (None, r)
         | RList xs \<Rightarrow> Inr (Some (last xs), if tl xs = [] then remove_key k r else store_entry k (RList (butlast xs)) (re_expires e) r)
         | _ \<Rightarrow> Inl RedisError))"

definition cmd_lpush :: "string \<Rightarrow> json \<Rightarrow> redis \<Rightarrow> time \<Rightarrow> redis_err + (unit \<times> redis)" where
  "cmd_lpush k v r t = (case pipe_lpush k v r t of (Inl e, r) \<Rightarrow> Inl e | (Inr _, r) \<Rightarrow> Inr ((), r))"

definition cmd_mget_str :: "string list \<Rightarrow> redis \<Rightarrow> time \<Rightarrow> redis_err + (string option list \<times> redis)" where
  "cmd_mget_str ks r t = Inr (map (\<lambda>k. case lookup_live r t k of
       None \<Rightarrow> None
     | Some e \<Rightarrow> (case re_value e of RStr s \<Rightarrow> Some s | RInt n \<Rightarrow> Some (int_text n) | RList _ \<Rightarrow> None)) ks, r)"

section \<open>Jobs\<close>

text \<open>
  The dataclass \<open>Job\<close> of the workers has the fields of the gateway's, in the same order, so \<open>to_json\<close> is
  \<open>job_json\<close>. Reading one refuses a field it does not have and misses the first five; the others have defaults.
  Python does not check the types of the fields; a value of another type has no record here and is
  refused.
\<close>

definition job_fields :: "string list" where
  "job_fields = [''kind'', ''analysis_id'', ''upload_id'', ''org_id'', ''user_id'', ''shard'', ''shard_count'', ''offset'', ''limit'',
     ''scope'', ''baseline_window_days'']"

definition str_arg :: "(string \<Rightarrow> json option) \<Rightarrow> string \<Rightarrow> string option \<Rightarrow> string option" where
  "str_arg args k dflt = (case args k of None \<Rightarrow> dflt | Some (JStr s) \<Rightarrow> Some s | Some _ \<Rightarrow> None)"

definition int_arg :: "(string \<Rightarrow> json option) \<Rightarrow> string \<Rightarrow> int \<Rightarrow> int option" where
  "int_arg args k dflt = (case args k of None \<Rightarrow> Some dflt | Some (JInt n) \<Rightarrow> Some n | Some _ \<Rightarrow> None)"

definition opt_int_arg :: "(string \<Rightarrow> json option) \<Rightarrow> string \<Rightarrow> int option option" where
  "opt_int_arg args k = (case args k of None \<Rightarrow> Some None | Some JNull \<Rightarrow> Some None | Some (JInt n) \<Rightarrow> Some (Some n) | Some _ \<Rightarrow> None)"

definition job_of_args :: "(string \<Rightarrow> json option) \<Rightarrow> job option" where
  "job_of_args args = do {
     kind \<leftarrow> str_arg args ''kind'' None;
     analysis \<leftarrow> str_arg args ''analysis_id'' None;
     upload \<leftarrow> str_arg args ''upload_id'' None;
     org \<leftarrow> str_arg args ''org_id'' None;
     usr \<leftarrow> str_arg args ''user_id'' None;
     shard \<leftarrow> int_arg args ''shard'' 0;
     count \<leftarrow> int_arg args ''shard_count'' 1;
     off \<leftarrow> int_arg args ''offset'' 0;
     cnt \<leftarrow> int_arg args ''limit'' 0;
     scope \<leftarrow> str_arg args ''scope'' (Some ''file'');
     window \<leftarrow> opt_int_arg args ''baseline_window_days'';
     Some \<lparr>j_Kind = kind, j_AnalysisID = analysis, j_UploadID = upload, j_OrgID = org, j_UserID = usr, j_Shard = shard,
       j_ShardCount = count, j_Offset = off, j_Limit = cnt, j_Scope = scope, j_BaselineWindowDays = window\<rparr> }"

definition from_json :: "json \<Rightarrow> job option" where
  "from_json v = (case v of
       JObj kvs \<Rightarrow> if set (map fst kvs) \<subseteq> set job_fields then job_of_args (map_of (rev kvs)) else None
     | _ \<Rightarrow> None)"

text \<open>A job goes through the queue unchanged.\<close>

lemma from_json_job_json: "from_json (job_json j) = Some j"
  by (cases j) (simp add: from_json_def job_json_def job_fields_def job_of_args_def str_arg_def int_arg_def opt_int_arg_def
      split: option.split)

section \<open>The queue\<close>

definition partial_ttl :: duration where "partial_ttl = 3600 * second"

definition partial_key :: "string \<Rightarrow> int \<Rightarrow> string" where
  "partial_key analysis_id shard = ''logmonitor:partial:'' @ analysis_id @ '':'' @ int_text shard"

datatype worker_err = Unreachable | Bad_job

definition enqueue :: "job \<Rightarrow> (redis_err + unit) M" where
  "enqueue j = redis_do (cmd_lpush queueKey (job_json j))"

definition reserve :: "(worker_err + job option) M" where
  "reserve = attempt (redis_do (cmd_brpop queueKey)) (\<lambda>_. ret (Inl Unreachable)) (\<lambda>item. ret (case item of
       None \<Rightarrow> Inr None
     | Some raw \<Rightarrow> (case from_json raw of None \<Rightarrow> Inl Bad_job | Some j \<Rightarrow> Inr (Some j))))"

definition s_put_partial :: "string \<Rightarrow> int \<Rightarrow> string \<Rightarrow> redis \<Rightarrow> time \<Rightarrow> redis_err + (unit \<times> redis)" where
  "s_put_partial analysis_id shard payload = cmd_set (partial_key analysis_id shard) (RStr payload) partial_ttl"

definition s_get_partials :: "string \<Rightarrow> nat \<Rightarrow> redis \<Rightarrow> time \<Rightarrow> redis_err + (string list \<times> redis)" where
  "s_get_partials analysis_id n r t =
     (case cmd_mget_str (map (\<lambda>s. partial_key analysis_id (int s)) [0..<n]) r t of
        Inl e \<Rightarrow> Inl e
      | Inr (values, r) \<Rightarrow> Inr (map the (filter (\<lambda>v. v \<noteq> None) values), r))"

definition s_complete_shard :: "string \<Rightarrow> redis \<Rightarrow> time \<Rightarrow> redis_err + (bool \<times> redis)" where
  "s_complete_shard analysis_id r t =
     (case cmd_decr (pendingKey analysis_id) r t of Inl e \<Rightarrow> Inl e | Inr (m, r) \<Rightarrow> Inr (m \<le> 0, r))"

definition s_drop_partials :: "string \<Rightarrow> nat \<Rightarrow> redis \<Rightarrow> time \<Rightarrow> redis_err + (unit \<times> redis)" where
  "s_drop_partials analysis_id n = cmd_del (map (\<lambda>s. partial_key analysis_id (int s)) [0..<n] @ [pendingKey analysis_id])"

section \<open>The rows of a shard\<close>

text \<open>The columns a worker reads; the serial number of the row, which the tables of the model do not have, is left out.\<close>

record shard_entry =
  se_line_no :: int
  se_ts :: "time option"
  se_client_ip :: "string option"
  se_username :: "string option"
  se_host :: "string option"
  se_url :: "string option"
  se_category :: "string option"
  se_action :: "string option"
  se_req_bytes :: "int option"
  se_resp_bytes :: "int option"
  se_user_agent :: "string option"
  se_threat_name :: "string option"
  se_resp_code :: "int option"
  se_method :: "string option"
  se_latency_ms :: "int option"
  se_cache_status :: "string option"

definition entry_columns :: "log_entry \<Rightarrow> shard_entry" where
  "entry_columns l = \<lparr>se_line_no = l_line_no l, se_ts = l_ts l, se_client_ip = l_client_ip l, se_username = l_username l,
     se_host = l_host l, se_url = l_url l, se_category = l_category l, se_action = l_action l, se_req_bytes = l_req_bytes l,
     se_resp_bytes = l_resp_bytes l, se_user_agent = l_user_agent l, se_threat_name = l_threat_name l,
     se_resp_code = l_resp_code l, se_method = l_method l, se_latency_ms = l_latency_ms l, se_cache_status = l_cache_status l\<rparr>"

definition w_load_shard :: "uuid \<Rightarrow> int \<Rightarrow> int \<Rightarrow> db \<Rightarrow> store_err + shard_entry list" where
  "w_load_shard i off cnt d =
     (if off < 0 \<or> cnt < 0 then Inl ErrDriver
      else Inr (map entry_columns (take (nat cnt) (drop (nat off) (order_asc l_line_no (select (\<lambda>l. l_upload_id l = i) (log_entries d)))))))"

section \<open>Every row is read once\<close>

lemma consecutive_slices: "concat (map (\<lambda>i. take k (drop (i * k) xs)) [0..<m]) = take (m * k) xs"
proof (induction m)
  case (Suc m)
  then show ?case using take_add [of "m * k" k xs] by (simp add: add.commute)
qed simp

lemma order_asc_id: "sorted (map k rows) \<Longrightarrow> order_asc k rows = rows"
  unfolding order_asc_def by (rule properties_for_sort_key) simp_all

fun reserves :: "nat \<Rightarrow> (worker_err + job option) list M" where
  "reserves 0 = ret []"
| "reserves (Suc n) = do { j \<leftarrow> reserve; js \<leftarrow> reserves n; ret (j # js) }"

lemma live_value: "lookup_live r t k = Some \<lparr>re_value = v, re_expires = x\<rparr> \<Longrightarrow> live t \<lparr>re_value = v', re_expires = x\<rparr>"
  by (auto simp: lookup_live_def live_def split: option.splits if_splits)

lemma brpop_queued:
  assumes "queued r t (q @ [x])"
  shows "\<exists>r'. cmd_brpop queueKey r t = Inr (Some x, r') \<and> queued r' t q"
  using assms unfolding queued_def cmd_brpop_def
  by (cases q) (auto simp: butlast_append live_value split: list.splits)

lemma reserves_quiet:
  assumes "quiet w" and "queued (w_redis w) (w_now w) (rev (map job_json jobs))"
  shows "\<exists>r. run_state (reserves (length jobs)) w = (map (\<lambda>j. Inr (Some j)) jobs, w\<lparr>w_redis := r\<rparr>)"
  using assms
proof (induction jobs arbitrary: w)
  case Nil
  show ?case by (rule exI [of _ "w_redis w"]) (simp add: quiet_run)
next
  case (Cons j js)
  from Cons.prems(2) obtain r where pop: "cmd_brpop queueKey (w_redis w) (w_now w) = Inr (Some (job_json j), r)"
    and rest: "queued r (w_now w) (rev (map job_json js))"
    using brpop_queued [of "w_redis w" "w_now w" "rev (map job_json js)" "job_json j"] by auto
  have one: "run_state reserve w = (Inr (Some j), w\<lparr>w_redis := r\<rparr>)"
    using Cons.prems(1) by (simp add: reserve_def quiet_run pop from_json_job_json)
  from Cons.IH [of "w\<lparr>w_redis := r\<rparr>"] Cons.prems(1) rest obtain r' where
    "run_state (reserves (length js)) (w\<lparr>w_redis := r\<rparr>) = (map (\<lambda>j. Inr (Some j)) js, w\<lparr>w_redis := r'\<rparr>)"
    by (auto simp: quiet_def)
  with one show ?case by (intro exI [of _ r']) (simp add: quiet_run)
qed

lemma rows_of_ingested:
  assumes "tables_ok d" and "ingested batch d d' up es"
  shows "select (\<lambda>l. l_upload_id l = up_ID up) (log_entries d') = map (copy_row batch) es"
proof -
  from assms(2) obtain ps where d': "d' = committed batch up es ps d" and i: "up_ID up = ib_UploadID batch"
    and new: "\<not> has_upload (ib_UploadID batch) d"
    by (auto simp: ingested_def)
  have "select (\<lambda>l. l_upload_id l = up_ID up) (log_entries d) = []"
    using unused_rows(1) [OF assms(1) new] i by (simp add: select_def filter_empty_conv)
  then show ?thesis by (simp add: d' i select_def copy_row_def filter_map o_def)
qed

lemma shard_rows:
  assumes "tables_ok d" and "ingested batch d d' up es" and "map e_LineNo es = map (\<lambda>i. 2 + int i) [0..<length es]"
    and "int (length es) \<le> n" and "0 < sz"
  shows "\<exists>shards. map (\<lambda>j. w_load_shard (up_ID up) (j_Offset j) (j_Limit j) d') (shard_jobs base n sz) = map Inr shards \<and>
    concat shards = map (\<lambda>e. entry_columns (copy_row batch e)) es"
proof -
  let ?rows = "map (copy_row batch) es" and ?m = "nat (shard_count n sz)"
  let ?slice = "\<lambda>i. take (nat sz) (drop (i * nat sz) ?rows)"
  have "sorted (map l_line_no ?rows)" using assms(3) by (simp add: copy_row_def o_def sorted_iff_nth_mono)
  then have rows: "order_asc l_line_no (select (\<lambda>l. l_upload_id l = up_ID up) (log_entries d')) = ?rows"
    by (simp only: rows_of_ingested [OF assms(1,2)] order_asc_id)
  have "w_load_shard (up_ID up) (int i * sz) sz d' = Inr (map entry_columns (?slice i))" for i
    using assms(5) mult_nonneg_nonneg [of "int i" sz] by (simp add: w_load_shard_def rows nat_mult_distrib not_less)
  then have "map (\<lambda>j. w_load_shard (up_ID up) (j_Offset j) (j_Limit j) d') (shard_jobs base n sz) =
      map Inr (map (\<lambda>i. map entry_columns (?slice i)) [0..<?m])"
    by (simp add: shard_jobs_def shard_job_def)
  moreover have "length es \<le> ?m * nat sz"
  proof (cases "length es = 0")
    case False
    then have "0 < length es" by simp
    then have "0 < n" using assms(4) by linarith
    then have "(n - 1) div sz < shard_count n sz" using row_in_range [OF assms(5), of "n - 1" n] by simp
    then have "((n - 1) div sz + 1) * sz \<le> shard_count n sz * sz" using assms(5) by (intro mult_right_mono) simp_all
    then have "n - 1 < shard_count n sz * sz"
      using pos_mod_bound [OF assms(5), of "n - 1"] div_mult_mod_eq [of "n - 1" sz] unfolding distrib_right by linarith
    then have "int (length es) \<le> shard_count n sz * sz" using assms(4) by linarith
    then show ?thesis using assms(5) shard_count_pos [of n sz] by (simp add: nat_mult_distrib [symmetric] nat_le_iff le_nat_iff)
  qed simp
  then have "concat (map (\<lambda>i. map entry_columns (?slice i)) [0..<?m]) = map entry_columns ?rows"
    using consecutive_slices [of "nat sz" "map entry_columns ?rows" ?m] by (simp add: take_map drop_map o_def)
  ultimately show ?thesis by (intro exI [of _ "map (\<lambda>i. map entry_columns (?slice i)) [0..<?m]"]) (simp add: o_def)
qed

text \<open>
  Claim C18: what the gateway publishes is what the workers take: the jobs of an analysis come off the
  queue in the order they were cut, unchanged, and the shards they name, read one after the other,
  are the rows of the ingested file, each once and in the order of the file, whatever shard size is configured.
\<close>

theorem Shards_delivered:
  assumes "tables_ok d" and "ingested batch d d' up es" and "map e_LineNo es = map (\<lambda>i. 2 + int i) [0..<length es]"
    and "quiet w" and "queued (w_redis w) (w_now w) []" and "int (length es) \<le> n"
  shows "\<exists>jobs r r' shards. run_state (PublishAnalysis base n s) w = (Inr (int (length jobs)), w\<lparr>w_redis := r\<rparr>) \<and>
    run_state (reserves (length jobs)) (w\<lparr>w_redis := r\<rparr>) = (map (\<lambda>j. Inr (Some j)) jobs, w\<lparr>w_redis := r'\<rparr>) \<and>
    (\<forall>j\<in>set jobs. j_AnalysisID j = j_AnalysisID base \<and> j_UploadID j = j_UploadID base \<and> j_ShardCount j = int (length jobs)) \<and>
    map (\<lambda>j. w_load_shard (up_ID up) (j_Offset j) (j_Limit j) d') jobs = map Inr shards \<and>
    concat shards = map (\<lambda>e. entry_columns (copy_row batch e)) es"
proof -
  let ?jobs = "shard_jobs base n (shard_size s)"
  have len: "int (length ?jobs) = shard_count n (shard_size s)" using shard_count_pos [of n "shard_size s"] by (simp add: shard_jobs_def)
  obtain r where run: "run_state (PublishAnalysis base n s) w = (Inr (int (length ?jobs)), w\<lparr>w_redis := r\<rparr>)"
    and q: "queued r (w_now w) (rev (map job_json ?jobs))"
    using Publish_quiet [OF assms(4,5), of base n s] unfolding len by auto
  obtain r' where res: "run_state (reserves (length ?jobs)) (w\<lparr>w_redis := r\<rparr>) = (map (\<lambda>j. Inr (Some j)) ?jobs, w\<lparr>w_redis := r'\<rparr>)"
    using reserves_quiet [of "w\<lparr>w_redis := r\<rparr>" ?jobs] assms(4) q by (auto simp: quiet_def)
  obtain shards where "map (\<lambda>j. w_load_shard (up_ID up) (j_Offset j) (j_Limit j) d') ?jobs = map Inr shards"
    "concat shards = map (\<lambda>e. entry_columns (copy_row batch e)) es"
    using shard_rows [OF assms(1,2,3,6) shard_size_pos] by blast
  moreover have "\<forall>j\<in>set ?jobs. j_AnalysisID j = j_AnalysisID base \<and> j_UploadID j = j_UploadID base \<and> j_ShardCount j = int (length ?jobs)"
    unfolding len by (auto simp: shard_jobs_def shard_job_def)
  ultimately show ?thesis using run res by blast
qed

section \<open>Fan-in\<close>

text \<open>
  What the workers do to the counter and the partials of an analysis, statement by statement, in
  whatever order they happen to be executed: the partial of a shard is stored, the shard is marked as done. In between anything
  may happen elsewhere in Redis. The answers are those of \<open>complete_shard\<close>.
\<close>

datatype shard_event = Stored nat | Closed nat | Elsewhere "redis \<Rightarrow> redis"

fun fan_in :: "string \<Rightarrow> (nat \<Rightarrow> string) \<Rightarrow> (time \<times> shard_event) list \<Rightarrow> redis \<Rightarrow> redis_err + (bool list \<times> redis)" where
  "fan_in i p [] r = Inr ([], r)"
| "fan_in i p ((t, Stored k) # es) r = (case s_put_partial i (int k) (p k) r t of Inl e \<Rightarrow> Inl e | Inr (_, r) \<Rightarrow> fan_in i p es r)"
| "fan_in i p ((t, Closed k) # es) r = (case s_complete_shard i r t of
       Inl e \<Rightarrow> Inl e
     | Inr (b, r) \<Rightarrow> (case fan_in i p es r of Inl e \<Rightarrow> Inl e | Inr (bs, r) \<Rightarrow> Inr (b # bs, r)))"
| "fan_in i p ((t, Elsewhere f) # es) r = fan_in i p es (f r)"

definition elsewhere_ok :: "string \<Rightarrow> shard_event \<Rightarrow> bool" where
  "elsewhere_ok i e \<longleftrightarrow> (\<forall>f. e = Elsewhere f \<longrightarrow> (\<forall>r. f r (pendingKey i) = r (pendingKey i) \<and>
     (\<forall>k. f r (partial_key i k) = r (partial_key i k))))"

definition closed :: "shard_event \<Rightarrow> bool" where
  "closed e \<longleftrightarrow> (\<exists>k. e = Closed k)"

lemma closed_simps [simp]: "closed (Closed k)" "\<not> closed (Stored k)" "\<not> closed (Elsewhere f)"
  by (simp_all add: closed_def)

lemma keys_apart [simp]: "partial_key i k \<noteq> pendingKey j" "pendingKey j \<noteq> partial_key i k"
  by (simp_all add: partial_key_def pendingKey_def)

lemma partial_key_inject [simp]: "partial_key i (int k) = partial_key i (int l) \<longleftrightarrow> k = l"
proof
  assume "partial_key i (int k) = partial_key i (int l)"
  then have "Itoa k = Itoa l" by (simp add: partial_key_def int_text_def)
  then have "digits_value 0 (Itoa k) = digits_value 0 (Itoa l)" by simp
  then show "k = l" by (simp add: digits_value_Itoa)
qed simp

text \<open>Each answer tells whether the counter had come down to the last one.\<close>

lemma fan_in_answers:
  assumes "r (pendingKey i) = Some \<lparr>re_value = RInt c, re_expires = Some x\<rparr>"
    and "\<forall>(t, e)\<in>set es. t < x \<and> elsewhere_ok i e"
  shows "\<exists>r'. fan_in i p es r = Inr (map (\<lambda>j. c - int j \<le> 1) [0..<length (filter closed (map snd es))], r') \<and>
    (\<forall>k. r' (partial_key i (int k)) = r (partial_key i (int k)) \<and> (\<forall>t. (t, Stored k) \<notin> set es) \<or>
      (\<exists>t. (t, Stored k) \<in> set es \<and> r' (partial_key i (int k)) = Some \<lparr>re_value = RStr (p k), re_expires = Some (t + partial_ttl)\<rparr>))"
  using assms
proof (induction i p es r arbitrary: c rule: fan_in.induct)
  case (1 i p r)
  then show ?case by simp
next
  case (2 i p t k es r)
  let ?r = "store_entry (partial_key i (int k)) (RStr (p k)) (Some (t + partial_ttl)) r"
  have put: "s_put_partial i (int k) (p k) r t = Inr ((), ?r)" by (simp add: s_put_partial_def cmd_set_def)
  have "?r (pendingKey i) = Some \<lparr>re_value = RInt c, re_expires = Some x\<rparr>" using "2.prems"(1) by (simp add: store_entry_def)
  from "2.IH" [OF put refl this] "2.prems"(2) obtain r' where
    run: "fan_in i p es ?r = Inr (map (\<lambda>j. c - int j \<le> 1) [0..<length (filter closed (map snd es))], r')" and
    kept: "\<forall>l. r' (partial_key i (int l)) = ?r (partial_key i (int l)) \<and> (\<forall>t. (t, Stored l) \<notin> set es) \<or>
      (\<exists>t. (t, Stored l) \<in> set es \<and> r' (partial_key i (int l)) = Some \<lparr>re_value = RStr (p l), re_expires = Some (t + partial_ttl)\<rparr>)"
    by auto
  show ?case
  proof (intro exI conjI allI)
    show "fan_in i p ((t, Stored k) # es) r = Inr (map (\<lambda>j. c - int j \<le> 1) [0..<length (filter closed (map snd ((t, Stored k) # es)))], r')"
      using put run by simp
    show "r' (partial_key i (int l)) = r (partial_key i (int l)) \<and> (\<forall>u. (u, Stored l) \<notin> set ((t, Stored k) # es)) \<or>
      (\<exists>u. (u, Stored l) \<in> set ((t, Stored k) # es) \<and>
        r' (partial_key i (int l)) = Some \<lparr>re_value = RStr (p l), re_expires = Some (u + partial_ttl)\<rparr>)" for l
      using kept [rule_format, of l] by (cases "l = k") (auto simp: store_entry_def)
  qed
next
  case (3 i p t k es r)
  let ?r = "store_entry (pendingKey i) (RInt (c - 1)) (Some x) r"
  have "t < x" using "3.prems"(2) by simp
  then have close: "s_complete_shard i r t = Inr (c \<le> 1, ?r)"
    using "3.prems"(1) by (simp add: s_complete_shard_def cmd_decr_def lookup_live_def as_int_def)
  have "?r (pendingKey i) = Some \<lparr>re_value = RInt (c - 1), re_expires = Some x\<rparr>" by (simp add: store_entry_def)
  from "3.IH" [OF close refl this] "3.prems"(2) obtain r' where
    run: "fan_in i p es ?r = Inr (map (\<lambda>j. c - 1 - int j \<le> 1) [0..<length (filter closed (map snd es))], r')" and
    kept: "\<forall>l. r' (partial_key i (int l)) = ?r (partial_key i (int l)) \<and> (\<forall>t. (t, Stored l) \<notin> set es) \<or>
      (\<exists>t. (t, Stored l) \<in> set es \<and> r' (partial_key i (int l)) = Some \<lparr>re_value = RStr (p l), re_expires = Some (t + partial_ttl)\<rparr>)"
    by auto
  have shift: "map (\<lambda>j. c - int j \<le> 1) [0..<Suc m] = (c \<le> 1) # map (\<lambda>j. c - 1 - int j \<le> 1) [0..<m]" for m
    by (simp add: upt_conv_Cons map_Suc_upt [symmetric] o_def algebra_simps del: upt_Suc)
  show ?case
  proof (intro exI conjI allI)
    show "fan_in i p ((t, Closed k) # es) r = Inr (map (\<lambda>j. c - int j \<le> 1) [0..<length (filter closed (map snd ((t, Closed k) # es)))], r')"
      using close run shift by simp
    show "r' (partial_key i (int l)) = r (partial_key i (int l)) \<and> (\<forall>u. (u, Stored l) \<notin> set ((t, Closed k) # es)) \<or>
      (\<exists>u. (u, Stored l) \<in> set ((t, Closed k) # es) \<and>
        r' (partial_key i (int l)) = Some \<lparr>re_value = RStr (p l), re_expires = Some (u + partial_ttl)\<rparr>)" for l
      using kept [rule_format, of l] by (auto simp: store_entry_def)
  qed
next
  case (4 i p t f es r)
  have f: "f r (pendingKey i) = r (pendingKey i)" "f r (partial_key i k) = r (partial_key i k)" for k
    using "4.prems"(2) by (auto simp: elsewhere_ok_def)
  from "4.IH" [of c] "4.prems" f show ?case by auto
qed

text \<open>
  A shard that is closed once more, because the reaper gave it to a second worker, brings the counter below zero:
  then more than one worker is told to start the reduce.
\<close>

lemma repeated_yes:
  assumes "1 \<le> c" and "c < int m"
  shows "2 \<le> length (filter id (map (\<lambda>j. c - int j \<le> 1) [0..<m]))"
proof -
  from assms obtain l where m: "m = Suc (Suc l)" by (cases m; cases "m - 1") auto
  have "[0..<m] = [0..<l] @ [l, Suc l]" by (simp add: m)
  then show ?thesis using assms by (simp add: m)
qed

text \<open>
  The events of an analysis of \<open>n\<close> shards: every shard is stored once and closed once, by the worker that
  stored it and so after that. Nothing else is said about the order.
\<close>

fun stored_of :: "shard_event list \<Rightarrow> nat list" where
  "stored_of [] = []"
| "stored_of (Stored k # es) = k # stored_of es"
| "stored_of (_ # es) = stored_of es"

fun closed_of :: "shard_event list \<Rightarrow> nat list" where
  "closed_of [] = []"
| "closed_of (Closed k # es) = k # closed_of es"
| "closed_of (_ # es) = closed_of es"

fun stored_first :: "nat list \<Rightarrow> shard_event list \<Rightarrow> bool" where
  "stored_first ks [] = True"
| "stored_first ks (Stored k # es) = stored_first (k # ks) es"
| "stored_first ks (Closed k # es) = (k \<in> set ks \<and> stored_first ks es)"
| "stored_first ks (Elsewhere f # es) = stored_first ks es"

definition shard_trace :: "nat \<Rightarrow> shard_event list \<Rightarrow> bool" where
  "shard_trace n es \<longleftrightarrow> stored_first [] es \<and> distinct (stored_of es) \<and> distinct (closed_of es) \<and>
     set (stored_of es) = {..<n} \<and> set (closed_of es) = {..<n}"

lemma stored_of_append [simp]: "stored_of (es @ fs) = stored_of es @ stored_of fs"
  by (induction es rule: stored_of.induct) simp_all

lemma closed_of_append [simp]: "closed_of (es @ fs) = closed_of es @ closed_of fs"
  by (induction es rule: closed_of.induct) simp_all

lemma length_closed: "length (filter closed es) = length (closed_of es)"
  by (induction es rule: closed_of.induct) simp_all

lemma stored_of_iff: "k \<in> set (stored_of (map snd es)) \<longleftrightarrow> (\<exists>t. (t, Stored k) \<in> set es)"
proof (induction es)
  case (Cons e es)
  then show ?case by (cases e; cases "snd e") auto
qed simp

lemma closed_of_empty: "closed_of es = [] \<longleftrightarrow> (\<forall>e\<in>set es. \<not> closed e)"
  by (induction es rule: closed_of.induct) auto

lemma stored_first_prefix: "stored_first ks (es @ fs) \<Longrightarrow> stored_first ks es"
  by (induction ks es rule: stored_first.induct) simp_all

lemma stored_firstD: "stored_first ks es \<Longrightarrow> set (closed_of es) \<subseteq> set ks \<union> set (stored_of es)"
  by (induction ks es rule: stored_first.induct) auto

lemma distinct_append_covers: "distinct (xs @ ys) \<Longrightarrow> set (xs @ ys) = N \<Longrightarrow> N \<subseteq> set xs \<Longrightarrow> set xs = N \<and> ys = []"
  by (cases ys) auto

text \<open>The last shard to be closed comes after everything else of the analysis.\<close>

lemma shard_trace_last:
  assumes "shard_trace n (map snd evs)" and "0 < n"
  obtains xs t k ys where "evs = xs @ (t, Closed k) # ys" "stored_of (map snd ys) = []" "closed_of (map snd ys) = []"
    "set (stored_of (map snd xs)) = {..<n}" "length (closed_of (map snd xs)) = n - 1"
proof -
  have "0 \<in> set (closed_of (map snd evs))" using assms by (simp add: shard_trace_def)
  from length_pos_if_in_set [OF this] have "closed_of (map snd evs) \<noteq> []" by simp
  then have "\<exists>ev\<in>set evs. closed (snd ev)" by (auto simp: closed_of_empty)
  from split_list_last_prop [OF this] obtain xs ev ys where evs: "evs = xs @ ev # ys" and ev: "closed (snd ev)"
    and ys: "\<forall>e\<in>set ys. \<not> closed (snd e)"
    by blast
  then obtain t k where tk: "ev = (t, Closed k)" by (cases ev) (auto simp: closed_def)
  have none: "closed_of (map snd ys) = []" using ys by (simp add: closed_of_empty)
  have "closed_of (map snd evs) = closed_of (map snd xs) @ [k]" "stored_of (map snd evs) = stored_of (map snd xs) @ stored_of (map snd ys)"
    by (simp_all add: evs tk none)
  with assms(1) have c: "distinct (closed_of (map snd xs) @ [k])" "set (closed_of (map snd xs) @ [k]) = {..<n}"
    and s: "distinct (stored_of (map snd xs) @ stored_of (map snd ys))" "set (stored_of (map snd xs) @ stored_of (map snd ys)) = {..<n}"
    by (simp_all only: shard_trace_def)
  have "stored_first [] ((map snd xs @ [Closed k]) @ map snd ys)" using assms(1) by (simp add: shard_trace_def evs tk)
  from stored_firstD [OF stored_first_prefix [OF this]] c(2) have "{..<n} \<subseteq> set (stored_of (map snd xs))" by auto
  from distinct_append_covers [OF s this] have all: "set (stored_of (map snd xs)) = {..<n}" "stored_of (map snd ys) = []" by simp_all
  have "length (closed_of (map snd xs) @ [k]) = n" using distinct_card [OF c(1)] unfolding c(2) by simp
  then show ?thesis using evs tk none all by (intro that [of xs t k ys]) simp_all
qed

lemma fan_in_snoc:
  assumes "fan_in i p (xs @ [(t, Closed k)]) r = Inr (bs, r2)"
  shows "\<exists>r1 b cs. fan_in i p xs r = Inr (cs, r1) \<and> s_complete_shard i r1 t = Inr (b, r2) \<and> bs = cs @ [b]"
  using assms
proof (induction i p xs r arbitrary: bs rule: fan_in.induct)
  case (3 i p t' k' es r)
  from "3.prems" obtain b r' bs' where step: "s_complete_shard i r t' = Inr (b, r')" and rest: "fan_in i p (es @ [(t, Closed k)]) r' = Inr (bs', r2)"
    and bs: "bs = b # bs'"
    by (auto split: sum.splits)
  from "3.IH" [OF step refl rest] obtain r1 b' cs where
    "fan_in i p es r' = Inr (cs, r1)" "s_complete_shard i r1 t = Inr (b', r2)" "bs' = cs @ [b']" by blast
  then show ?case using step bs by (intro exI [of _ r1] exI [of _ b'] exI [of _ "b # cs"]) simp
qed (auto split: sum.splits prod.splits)

lemma partials_read:
  assumes "\<forall>l<n. \<exists>x. lookup_live r u (partial_key i (int l)) = Some \<lparr>re_value = RStr (p l), re_expires = x\<rparr>"
  shows "s_get_partials i n r u = Inr (map p [0..<n], r)"
proof -
  have "map (\<lambda>k. case lookup_live r u k of None \<Rightarrow> None
      | Some e \<Rightarrow> (case re_value e of RStr s \<Rightarrow> Some s | RInt n \<Rightarrow> Some (int_text n) | RList _ \<Rightarrow> None))
      (map (\<lambda>s. partial_key i (int s)) [0..<n]) = map (\<lambda>l. Some (p l)) [0..<n]"
    unfolding map_map o_def
  proof (rule map_cong)
    fix l assume "l \<in> set [0..<n]"
    with assms obtain x where "lookup_live r u (partial_key i (int l)) = Some \<lparr>re_value = RStr (p l), re_expires = x\<rparr>" by auto
    then show "(case lookup_live r u (partial_key i (int l)) of None \<Rightarrow> None
      | Some e \<Rightarrow> (case re_value e of RStr s \<Rightarrow> Some s | RInt n \<Rightarrow> Some (int_text n) | RList _ \<Rightarrow> None)) = Some (p l)" by simp
  qed simp
  then show ?thesis unfolding s_get_partials_def cmd_mget_str_def by (simp add: filter_map o_def)
qed

text \<open>
  Claim C19: the workers of an analysis may run in any order and at any speed: while the counter lasts that was published
  with the jobs, \<open>complete_shard\<close> answers yes to the last of them only, and at that moment the partials of all
  shards are there to be merged, in order, whatever else happens in Redis meanwhile.
\<close>

theorem Fan_in_once:
  assumes "quiet w" and "queued (w_redis w) (w_now w) q" and "run_state (PublishAnalysis base n s) w = (Inr m, w')"
    and "shard_trace (nat m) (map snd evs)"
    and "\<forall>(t, e)\<in>set evs. w_now w \<le> t \<and> t < w_now w + pendingTTL \<and> elsewhere_ok (j_AnalysisID base) e"
  shows "\<exists>xs t k ys r1 r2. evs = xs @ (t, Closed k) # ys \<and> closed_of (map snd ys) = [] \<and> stored_of (map snd ys) = [] \<and>
    fan_in (j_AnalysisID base) p xs (w_redis w') = Inr (replicate (nat m - 1) False, r1) \<and>
    s_complete_shard (j_AnalysisID base) r1 t = Inr (True, r2) \<and>
    (\<forall>u. w_now w \<le> u \<and> u < w_now w + partial_ttl \<longrightarrow>
       s_get_partials (j_AnalysisID base) (nat m) r2 u = Inr (map p [0..<nat m], r2))"
proof -
  let ?i = "j_AnalysisID base" and ?x = "w_now w + pendingTTL"
  obtain r where "run_state (PublishAnalysis base n s) w = (Inr (shard_count n (shard_size s)), w\<lparr>w_redis := r\<rparr>)"
    and r: "r (pendingKey ?i) = Some \<lparr>re_value = RInt (shard_count n (shard_size s)), re_expires = Some ?x\<rparr>"
    using Publish_quiet [OF assms(1,2), of base n s] by blast
  with assms(3) have m: "m = shard_count n (shard_size s)" "w_redis w' = r" by auto
  have pos: "0 < nat m" "int (nat m) = m" using shard_count_pos [of n "shard_size s"] by (simp_all add: m)
  from shard_trace_last [OF assms(4) pos(1)] obtain xs t k ys where
    evs: "evs = xs @ (t, Closed k) # ys" and ys: "stored_of (map snd ys) = []" "closed_of (map snd ys) = []"
    and stored: "set (stored_of (map snd xs)) = {..<nat m}" and closed: "length (closed_of (map snd xs)) = nat m - 1"
    by metis
  let ?es = "xs @ [(t, Closed k)]"
  have "\<forall>(t, e)\<in>set ?es. t < ?x \<and> elsewhere_ok ?i e" using assms(5) by (auto simp: evs)
  from fan_in_answers [where r = r and c = m and p = p, OF _ this] r m obtain r2 where
    run: "fan_in ?i p ?es r = Inr (map (\<lambda>j. m - int j \<le> 1) [0..<length (filter closed (map snd ?es))], r2)" and
    parts: "\<forall>k. r2 (partial_key ?i (int k)) = r (partial_key ?i (int k)) \<and> (\<forall>t. (t, Stored k) \<notin> set ?es) \<or>
      (\<exists>t. (t, Stored k) \<in> set ?es \<and> r2 (partial_key ?i (int k)) = Some \<lparr>re_value = RStr (p k), re_expires = Some (t + partial_ttl)\<rparr>)"
    by blast
  have "length (filter closed (map snd ?es)) = nat m" unfolding length_closed using closed pos(1) by simp
  moreover have "map (\<lambda>j. m - int j \<le> 1) [0..<nat m] = replicate (nat m - 1) False @ [True]"
    using pos by (intro nth_equalityI) (auto simp: nth_append)
  ultimately have "fan_in ?i p ?es r = Inr (replicate (nat m - 1) False @ [True], r2)" using run by simp
  from fan_in_snoc [OF this] obtain r1 where r1: "fan_in ?i p xs r = Inr (replicate (nat m - 1) False, r1)" "s_complete_shard ?i r1 t = Inr (True, r2)"
    by auto
  have "lookup_live r2 u (partial_key ?i (int l)) = Some \<lparr>re_value = RStr (p l), re_expires = Some (v + partial_ttl)\<rparr>"
    if v: "r2 (partial_key ?i (int l)) = Some \<lparr>re_value = RStr (p l), re_expires = Some (v + partial_ttl)\<rparr>" "(v, Stored l) \<in> set ?es"
      and u: "u < w_now w + partial_ttl" for l u v
  proof -
    from v(2) have "(v, Stored l) \<in> set evs" by (auto simp: evs)
    with assms(5) have "w_now w \<le> v" by blast
    with u have "u < v + partial_ttl" by simp
    with v(1) show ?thesis by (simp add: lookup_live_def)
  qed
  then have here: "\<exists>x. lookup_live r2 u (partial_key ?i (int l)) = Some \<lparr>re_value = RStr (p l), re_expires = x\<rparr>"
    if "l < nat m" "u < w_now w + partial_ttl" for l u
    using that parts [rule_format, of l] stored stored_of_iff [of l xs] by fastforce
  then have "s_get_partials ?i (nat m) r2 u = Inr (map p [0..<nat m], r2)" if "u < w_now w + partial_ttl" for u
    using that by (intro partials_read) blast
  with evs ys r1 show ?thesis unfolding m(2) by blast
qed

text \<open>Two workers share an upload of three lines in shards of two; the second shard is done first.\<close>

definition sample_events :: "(time \<times> shard_event) list" where
  "sample_events = [(1001 * second, Stored 1), (1002 * second, Elsewhere (remove_key ''other'')), (1003 * second, Stored 0),
     (1004 * second, Closed 1), (1005 * second, Closed 0)]"

theorem Fan_in_once_witness:
  "\<exists>w'. run_state (PublishAnalysis sample_job 3 2) sample_world = (Inr 2, w') \<and>
     (\<exists>r1 r2. fan_in ''51'' (\<lambda>k. ''part'' @ Itoa k) (butlast sample_events) (w_redis w') = Inr ([False], r1) \<and>
        s_complete_shard ''51'' r1 (1005 * second) = Inr (True, r2) \<and>
        s_get_partials ''51'' 2 r2 (1006 * second) = Inr ([''part'' @ Itoa 0, ''part'' @ Itoa 1], r2))"
proof -
  have q: "queued (w_redis sample_world) (w_now sample_world) []" by (simp add: queued_def lookup_live_def sample_redis)
  obtain r where run: "run_state (PublishAnalysis sample_job 3 2) sample_world = (Inr 2, sample_world\<lparr>w_redis := r\<rparr>)"
    using Publish_quiet [OF sample_quiet q, of sample_job 3 2] by (auto simp: shard_count_def shard_size_def)
  have ids: "j_AnalysisID sample_job = ''51''" by (simp add: sample_job_def)
  have trace: "shard_trace (nat 2) (map snd sample_events)" by (auto simp: shard_trace_def sample_events_def)
  have other: "elsewhere_ok ''51'' (Elsewhere (remove_key ''other''))"
    by (simp add: elsewhere_ok_def remove_key_def pendingKey_def partial_key_def)
  have "elsewhere_ok ''51'' (Stored k)" "elsewhere_ok ''51'' (Closed k)" for k by (simp_all add: elsewhere_ok_def)
  with other have times: "\<forall>(t, e)\<in>set sample_events. w_now sample_world \<le> t \<and> t < w_now sample_world + pendingTTL \<and> elsewhere_ok ''51'' e"
    by (simp add: sample_events_def pendingTTL_def)
  obtain xs t k ys r1 r2 where evs: "sample_events = xs @ (t, Closed k) # ys" and ys: "closed_of (map snd ys) = []" "stored_of (map snd ys) = []"
    and r: "fan_in ''51'' (\<lambda>k. ''part'' @ Itoa k) xs r = Inr (replicate (nat 2 - 1) False, r1)" "s_complete_shard ''51'' r1 t = Inr (True, r2)"
    and parts: "\<forall>u. w_now sample_world \<le> u \<and> u < w_now sample_world + partial_ttl \<longrightarrow>
       s_get_partials ''51'' (nat 2) r2 u = Inr (map (\<lambda>k. ''part'' @ Itoa k) [0..<nat 2], r2)"
    using Fan_in_once [OF sample_quiet q run trace, unfolded ids, OF times, of "\<lambda>k. ''part'' @ Itoa k"] by auto
  have "ys = []" using evs ys by (auto simp: sample_events_def Cons_eq_append_conv)
  with evs have last: "xs = butlast sample_events" "t = 1005 * second" by (auto simp: sample_events_def Cons_eq_append_conv)
  have "s_get_partials ''51'' 2 r2 (1006 * second) = Inr ([''part'' @ Itoa 0, ''part'' @ Itoa 1], r2)"
    using parts [rule_format, of "1006 * second"] by (simp add: partial_ttl_def upt_rec numeral_2_eq_2)
  with run r last show ?thesis by (intro exI [of _ "sample_world\<lparr>w_redis := r\<rparr>"]) auto
qed

text \<open>Three lines in shards of two, on tables that hold nothing else.\<close>

definition sample_line :: "nat \<Rightarrow> entry" where
  "sample_line i = \<lparr>e_LineNo = 2 + int i, e_Raw = ''a line'', e_TS = None, e_ClientIP = [], e_Username = [], e_Host = [], e_URL = [],
     e_Category = [], e_Action = ''Allowed'', e_ReqBytes = None, e_RespBytes = None, e_UserAgent = [], e_ThreatName = [],
     e_RespCode = Some 200, e_Method = [], e_LatencyMS = None, e_CacheStatus = [], e_Reason = []\<rparr>"

definition sample_lines :: "entry list" where "sample_lines = map sample_line [0..<3]"

definition sample_batch :: ingest_batch where "sample_batch = \<lparr>ib_UploadID = 31, ib_OrgID = 1, ib_UserID = 13\<rparr>"

theorem Shards_delivered_witness:
  "\<exists>jobs r r' shards. run_state (PublishAnalysis sample_job 3 2) sample_world = (Inr (int (length jobs)), sample_world\<lparr>w_redis := r\<rparr>) \<and>
    run_state (reserves (length jobs)) (sample_world\<lparr>w_redis := r\<rparr>) = (map (\<lambda>j. Inr (Some j)) jobs, sample_world\<lparr>w_redis := r'\<rparr>) \<and>
    map (\<lambda>j. w_load_shard 31 (j_Offset j) (j_Limit j)
      (committed sample_batch (cyds_log\<lparr>up_LineCount := 4, up_ParsedCount := 0\<rparr>) sample_lines [] empty_db)) jobs = map Inr shards \<and>
    concat shards = map (\<lambda>e. entry_columns (copy_row sample_batch e)) sample_lines"
proof -
  let ?up = "cyds_log\<lparr>up_LineCount := 4, up_ParsedCount := 0\<rparr>"
  have lines: "length sample_lines = 3" by (simp add: sample_lines_def)
  have "text_ok ''a line''" "text_ok ''Allowed''" by code_simp+
  then have rows: "list_all row_ok (map (copy_row sample_batch) sample_lines)"
    by (simp add: list_all_iff sample_lines_def row_ok_def copy_row_def sample_line_def int4_ok_def nullable_def)
  have parsed: "filter Parsed sample_lines = []" by (simp add: sample_lines_def sample_line_def Parsed_def)
  have months: "months_covered sample_lines ps" for ps by (auto simp: months_covered_def sample_lines_def sample_line_def)
  have i: "ingested sample_batch empty_db (committed sample_batch ?up sample_lines [] empty_db) ?up sample_lines"
    unfolding ingested_def using rows months
    by (auto simp: lines parsed sample_batch_def sample_files has_upload_def empty_db_def)
  have n: "map e_LineNo sample_lines = map (\<lambda>i. 2 + int i) [0..<length sample_lines]"
    by (simp add: lines) (simp add: sample_lines_def sample_line_def)
  have q: "queued (w_redis sample_world) (w_now sample_world) []" by (simp add: queued_def lookup_live_def sample_redis)
  have "up_ID ?up = 31" by (simp add: sample_files)
  with Shards_delivered [OF tables_ok_empty i n sample_quiet q, of 3 sample_job 2] show ?thesis by (simp add: lines) blast
qed

end
