(* ===== verification/Worker_Run.thy ===== *)
theory Worker_Run
  imports Worker_Jobs
begin

text \<open>
  A worker at its job: \<open>worker/pipeline.py\<close> \<open>run_map\<close> and \<open>worker/main.py\<close> \<open>handle\<close>. The detectors that turn the rows of a
  shard into a partial, the reduce, the clock readings and the text of an exception are arguments. An
  exception is the \<open>Inl\<close> of a result; the worker's own log is left out.
\<close>

section \<open>run_map\<close>

datatype job_err = JobDb store_err | JobRedis | UnknownKind string

text \<open>The driver casts the strings of a job to uuids and refuses what is none.\<close>

definition with_uuid :: "api \<Rightarrow> string \<Rightarrow> (uuid \<Rightarrow> store_err + 'a) \<Rightarrow> store_err + 'a" where
  "with_uuid a s k = (case uuid_Parse a s of None \<Rightarrow> Inl ErrDriver | Some i \<Rightarrow> k i)"

definition load_rows :: "api \<Rightarrow> job \<Rightarrow> (store_err + shard_entry list) M" where
  "load_rows a j = db_query (\<lambda>d t. with_uuid a (j_UploadID j) (\<lambda>i. w_load_shard i (j_Offset j) (j_Limit j) d))"

definition record_stage :: "api \<Rightarrow> job \<Rightarrow> string \<Rightarrow> rat \<Rightarrow> (store_err + unit) M" where
  "record_stage a j stage ms = db_exec (\<lambda>d t.
     with_uuid a (j_AnalysisID j) (\<lambda>i. with_uuid a (j_OrgID j) (\<lambda>org. with_uuid a (j_UserID j) (\<lambda>usr.
       case w_record_timing \<lparr>t_analysis_id = i, t_org_id = org, t_user_id = usr, t_stage = stage, t_duration_ms = ms, t_created_at = t\<rparr> d t of
         Inl e \<Rightarrow> Inl e
       | Inr d' \<Rightarrow> Inr ((), d')))))"

definition reduce_job :: "job \<Rightarrow> job" where
  "reduce_job j = j\<lparr>j_Kind := ''reduce'', j_Shard := 0, j_Offset := 0, j_Limit := 0\<rparr>"

definition close_shard :: "api \<Rightarrow> rat \<Rightarrow> job \<Rightarrow> (job_err + unit) M" where
  "close_shard a ms j =
     attempt (record_stage a j ''map'' ms) (\<lambda>e. ret (Inl (JobDb e))) (\<lambda>_.
     attempt (redis_do (s_complete_shard (j_AnalysisID j))) (\<lambda>_. ret (Inl JobRedis)) (\<lambda>closing.
       if closing then attempt (enqueue (reduce_job j)) (\<lambda>_. ret (Inl JobRedis)) (\<lambda>_. ret (Inr ()))
       else ret (Inr ())))"

definition run_map :: "api \<Rightarrow> (shard_entry list \<Rightarrow> string) \<Rightarrow> rat \<Rightarrow> job \<Rightarrow> (job_err + unit) M" where
  "run_map a digest ms j =
     attempt (load_rows a j) (\<lambda>e. ret (Inl (JobDb e))) (\<lambda>entries.
     attempt (redis_do (s_put_partial (j_AnalysisID j) (j_Shard j) (digest entries))) (\<lambda>_. ret (Inl JobRedis)) (\<lambda>_.
     close_shard a ms j))"

section \<open>handle\<close>

definition claim_job :: "api \<Rightarrow> job \<Rightarrow> (store_err + bool) M" where
  "claim_job a j = db_exec (\<lambda>d t. with_uuid a (j_AnalysisID j) (\<lambda>i. Inr (w_claim i d t)))"

definition fail_job :: "api \<Rightarrow> job \<Rightarrow> string \<Rightarrow> (store_err + unit) M" where
  "fail_job a j message = db_exec (\<lambda>d t. with_uuid a (j_AnalysisID j) (\<lambda>i. Inr ((), w_fail i message d t)))"

definition handle :: "api \<Rightarrow> (shard_entry list \<Rightarrow> string) \<Rightarrow> rat \<Rightarrow> (job \<Rightarrow> (job_err + unit) M) \<Rightarrow> (job_err \<Rightarrow> string) \<Rightarrow> job \<Rightarrow> (job_err + unit) M" where
  "handle a digest ms reduce describe j =
     attempt (claim_job a j) (\<lambda>e. ret (Inl (JobDb e))) (\<lambda>claimed.
       if \<not> claimed then ret (Inr ())
       else attempt (if j_Kind j = ''map'' then run_map a digest ms j
                     else if j_Kind j = ''reduce'' then reduce j
                     else ret (Inl (UnknownKind (j_Kind j))))
         (\<lambda>e. attempt (fail_job a j (describe e)) (\<lambda>e. ret (Inl (JobDb e))) (\<lambda>_. ret (Inr ())))
         (\<lambda>_. ret (Inr ())))"

text \<open>When nothing fails, a map job stores the partial of its rows, records the time and closes the shard, in this order.\<close>

lemma run_map_quiet:
  assumes "quiet w" and "uuid_Parse a (j_UploadID j) = Some u" and "w_load_shard u (j_Offset j) (j_Limit j) (w_db w) = Inr es"
    and "uuid_Parse a (j_AnalysisID j) = Some i" and "uuid_Parse a (j_OrgID j) = Some org" and "uuid_Parse a (j_UserID j) = Some usr"
    and "w_record_timing \<lparr>t_analysis_id = i, t_org_id = org, t_user_id = usr, t_stage = ''map'', t_duration_ms = ms,
        t_created_at = w_now w\<rparr> (w_db w) (w_now w) = Inr d"
    and "fan_in (j_AnalysisID j) (\<lambda>_. digest es) [(w_now w, Stored (nat (j_Shard j))), (w_now w, Closed (nat (j_Shard j)))] (w_redis w) =
        Inr ([False], r)"
    and "0 \<le> j_Shard j"
  shows "run_state (run_map a digest ms j) w = (Inr (), w\<lparr>w_db := d, w_redis := r\<rparr>)"
proof -
  from assms(8,9) have "\<exists>r1. s_put_partial (j_AnalysisID j) (j_Shard j) (digest es) (w_redis w) (w_now w) = Inr ((), r1) \<and>
      s_complete_shard (j_AnalysisID j) r1 (w_now w) = Inr (False, r)"
    by (auto split: sum.splits)
  with assms show ?thesis
    by (auto simp: run_map_def load_rows_def close_shard_def record_stage_def with_uuid_def quiet_run)
qed

section \<open>A shard is closed after it is stored\<close>

definition stored :: "(shard_entry list \<Rightarrow> string) \<Rightarrow> job \<Rightarrow> redis \<Rightarrow> bool" where
  "stored digest j r \<longleftrightarrow> (\<exists>es x. r (partial_key (j_AnalysisID j) (j_Shard j)) = Some \<lparr>re_value = RStr (digest es), re_expires = x\<rparr>)"

lemma queueKey_apart [simp]: "partial_key i k \<noteq> queueKey" "pendingKey i \<noteq> queueKey" "queueKey \<noteq> partial_key i k" "queueKey \<noteq> pendingKey i"
  by (simp_all add: partial_key_def pendingKey_def queueKey_def)

lemma s_complete_shard_other: "s_complete_shard i r t = Inr (b, r') \<Longrightarrow> k \<noteq> pendingKey i \<Longrightarrow> r' k = r k"
  by (auto simp: s_complete_shard_def cmd_decr_def store_entry_def split: option.splits sum.splits)

lemma cmd_lpush_other: "cmd_lpush q v r t = Inr (u, r') \<Longrightarrow> k \<noteq> q \<Longrightarrow> r' k = r k"
  by (auto simp: cmd_lpush_def pipe_lpush_def store_entry_def split: option.splits sum.splits prod.splits redis_value.splits)

lemma keeps_redis_query: "wp (db_query q) (\<lambda>_ w'. w_redis w' = w_redis w) w"
  by (simp add: wp_rules)

lemma keeps_redis_exec: "wp (db_exec s) (\<lambda>_ w'. w_redis w' = w_redis w) w"
  by (auto simp: wp_rules split: outcome.splits sum.splits)

lemma wp_stored_complete:
  "stored digest j (w_redis w) \<Longrightarrow> wp (redis_do (s_complete_shard (j_AnalysisID j))) (\<lambda>_ w'. stored digest j (w_redis w')) w"
  by (auto simp: wp_rules stored_def s_complete_shard_other split: outcome.splits sum.splits)

lemma wp_stored_enqueue:
  "stored digest j (w_redis w) \<Longrightarrow> wp (enqueue k) (\<lambda>_ w'. stored digest j (w_redis w')) w"
  by (auto simp: wp_rules enqueue_def stored_def cmd_lpush_other split: outcome.splits sum.splits)

lemma wp_put_stored:
  "wp (redis_do (s_put_partial (j_AnalysisID j) (j_Shard j) (digest es)))
     (\<lambda>res w'. (\<forall>u. res = Inr u \<longrightarrow> stored digest j (w_redis w')) \<and> w_redis w' (pendingKey (j_AnalysisID j)) = w_redis w (pendingKey (j_AnalysisID j))) w"
  by (auto simp: wp_rules stored_def s_put_partial_def cmd_set_def store_entry_def split: outcome.splits)

lemma wp_stored_close:
  assumes "stored digest j (w_redis w)"
  shows "wp (close_shard a ms j) (\<lambda>_ w'. stored digest j (w_redis w')) w"
  unfolding close_shard_def record_stage_def wp_attempt
  by (rule wp_mono [OF keeps_redis_exec])
    (auto simp: wp_attempt wp_return assms intro!: wp_mono [OF wp_stored_complete] wp_mono [OF wp_stored_enqueue] split: sum.splits)

text \<open>
  Whatever calls fail, and even where a call fails only for the caller, a run of a map job that
  changed the counter of its analysis has left the partial of its shard: the order that \<open>shard_trace\<close> asks of the events.
\<close>

lemma closed_after_stored:
  "wp (run_map a digest ms j) (\<lambda>_ w'. w_redis w' (pendingKey (j_AnalysisID j)) = w_redis w (pendingKey (j_AnalysisID j)) \<or>
     stored digest j (w_redis w')) w"
  (is "wp _ ?Q w")
proof -
  have rest: "wp (close_shard a ms j) ?Q v" if "stored digest j (w_redis v)" for v
    by (rule wp_mono [OF wp_stored_close [OF that]]) simp
  have put: "wp (attempt (redis_do (s_put_partial (j_AnalysisID j) (j_Shard j) (digest es))) (\<lambda>_. ret (Inl JobRedis))
      (\<lambda>_. close_shard a ms j)) ?Q u" if "w_redis u = w_redis w" for es and u :: world
    unfolding wp_attempt by (rule wp_mono [OF wp_put_stored]) (auto simp: wp_return that intro: rest split: sum.splits)
  show ?thesis
    unfolding run_map_def load_rows_def wp_attempt [of "db_query _"]
    by (rule wp_mono [OF keeps_redis_query]) (auto simp: wp_return intro: put split: sum.splits)
qed

section \<open>A job that is lost\<close>

text \<open>
  \<open>reserve\<close> takes the job off the queue before anything is written. When the claim then fails, \<open>handle\<close> ends with the
  exception, the loop around it ends too, and the analysis stays queued with no job: the reaper
  looks at analyses that are running only.
\<close>

lemma claim_failure:
  assumes "outcome_of w = Lost"
  shows "run_state (handle a digest ms reduce describe j) w = (Inl (JobDb ErrDriver), elapse w)"
  using assms by (simp add: handle_def claim_job_def attempt_def db_exec_def Let_def State_Monad.bind_def State_Monad.return_def)

lemma queued_not_requeued:
  assumes "an \<in> set (analyses d)" and "a_Status an = ''queued''" and "unique_ids d"
  shows "an \<in> set (analyses (snd (w_requeue_stale stale d))) \<and> (\<forall>row\<in>set (fst (w_requeue_stale stale d)). rq_id row \<noteq> a_ID an)"
proof -
  have "b = an" if "b \<in> set (analyses d)" "a_ID b = a_ID an" for b
    using assms(1,3) that by (auto simp: unique_ids_def distinct_map dest: inj_onD)
  with assms(1,2) show ?thesis by (fastforce simp: w_requeue_stale_def Let_def set_update_where)
qed

end
