(* ===== verification/Gateway.thy ===== *)
theory Gateway
  imports Server_Proofs Races Worker_Run
begin

text \<open>
  The gateway as a state machine: it serves requests one after the other; between two of them the
  workers write their findings, and the clock, Redis, the archive and what the outside will answer
  may be anything. The properties of the whole follow from what one request and one statement of
  a worker may do.
\<close>

section \<open>Runs\<close>

inductive runs :: "gateway \<Rightarrow> world \<Rightarrow> world \<Rightarrow> bool" for g :: gateway and w :: world where
  start: "runs g w w"
| request: "runs g w v \<Longrightarrow> runs g w (final (serve g r) v)"
| worker: "runs g w v \<Longrightarrow> work (w_db v) (w_db v') \<Longrightarrow> runs g w v'"
| outside: "runs g w v \<Longrightarrow> w_db v' = w_db v \<Longrightarrow> runs g w v'"

text \<open>What one request does to the tables is a sequence of steps.\<close>

lemma served: "\<exists>org. steps org (w_db w) (w_db (final (serve g r) w))"
  using wpI [OF serve_moved [of g r w]] draws_steps unfolding moved_def by blast

context shared_history
begin

lemma runs_kept: "runs g w w' \<Longrightarrow> tables_ok (w_db w) \<Longrightarrow> tables_ok (w_db w') \<and> R (w_db w) (w_db w')"
proof (induction rule: runs.induct)
  case start
  then show ?case using now by simp
next
  case (request v r)
  obtain org where "steps org (w_db v) (w_db (final (serve g r) v))" using served by blast
  with request show ?case using steps_kept steps_ok later by blast
next
  case (worker v v')
  then show ?case using shared work_ok later by blast
qed simp

end

text \<open>
  Claim C3: the tables are well formed at all times. From tables that are (the
  empty ones, for a start), no sequence of requests, with whatever failures of the services the gateway
  calls, and of statements of the workers leads to others: ids and keys stay unique, every reference has its row, every row of an
  organization refers to rows of that organization only, every dated entry lies in a partition.
\<close>

theorem Tables_well_formed:
  assumes "runs g w w'" and "tables_ok (w_db w)"
  shows "tables_ok (w_db w')"
  using shared_growth.runs_kept [OF assms] by blast

text \<open>
  Claim C6: history is kept. Along every sequence of requests and statements of the workers the audit log is only appended
  to, ids are never drawn twice, and no organization and no user is removed or changes its
  organization, address or role.
\<close>

theorem History_kept:
  assumes "runs g w w'" and "tables_ok (w_db w)"
  shows "only_grows (w_db w) (w_db w')"
  using shared_growth.runs_kept [OF assms] by blast

text \<open>
  Claim C5: the rollups are current at all times. Once they are, after every sequence of
  requests and statements of the workers the rollup rows of every upload are exactly the groupings, by minute, by hour and by
  status, of the entries that are stored for it.
\<close>

theorem Rollups_current:
  assumes "runs g w w'" and "tables_ok (w_db w)" and "rollups_current (w_db w)"
  shows "rollups_current (w_db w')"
  using shared_rollups.runs_kept [OF assms(1,2)] assms(3) by blast

section \<open>One request\<close>

text \<open>
  Claim C1: tenants are isolated. A request changes a row of an organization only if it carries
  a token that is valid while it is served: a session token of a user of that organization, or the
  pending token of one. Everything the tables hold of any other organization is as it was.
\<close>

theorem Tenant_isolation:
  assumes "run_state (serve g r) w = (resp, w')" and "tables_ok (w_db w)"
    and "p < next_id (w_db w)" and "\<not> acts_for (gw_API g) r (w_db w) (w_now w) p"
  shows "tenant p (w_db w') = tenant p (w_db w)"
proof -
  from wpD [OF serve_moved assms(1)]
  consider (draws) "draws (w_db w) (w_db w')"
    | (steps) org where "acts_for (gw_API g) r (w_db w) (w_now w) org \<or> next_id (w_db w) \<le> org" "steps org (w_db w) (w_db w')"
    unfolding moved_def by blast
  then show ?thesis
  proof cases
    case draws
    then show ?thesis by (auto simp: draws_def)
  next
    case (steps org)
    with assms(3,4) have "p \<noteq> org" by auto
    with steps_tenant [OF steps(2) assms(2)] show ?thesis by simp
  qed
qed

text \<open>
  Claim C25: a safe method is safe. A request with \<open>GET\<close>, \<open>HEAD\<close> or \<open>OPTIONS\<close> changes
  no table, whoever sends it and whatever route it takes; at most the id of the request is drawn.
\<close>

theorem Safe_methods_read_only:
  assumes "safe_method (rq_Method r)" and "run_state (serve g r) w = (resp, w')"
  shows "\<exists>n\<ge>next_id (w_db w). w_db w' = (w_db w)\<lparr>next_id := n\<rparr>"
  using reads.keepsD [OF reads.keeps_serve [OF assms(1)], of w g] assms(2) by (simp add: final_def draws_def)

section \<open>Witnesses\<close>

text \<open>A request of a user who has signed in: the session, and the token of the CSRF cookie repeated in the header.\<close>

definition sample_csrf :: string where "sample_csrf = replicate 32 CHR ''c''"

definition signed :: "string \<Rightarrow> request \<Rightarrow> request" where
  "signed tok r = r\<lparr>rq_Cookies := [(CookieName, tok), (CSRFCookieName, sample_csrf)],
     rq_Headers := [(CSRFHeaderName, sample_csrf), (RequestIDHeader, ''r1'')]\<rparr>"

lemma signed_simps:
  "Cookie (signed tok r) CookieName = Some tok" "Cookie (signed tok r) CSRFCookieName = Some sample_csrf"
  "Header_Get (signed tok r) CSRFHeaderName = sample_csrf" "Header_Get (signed tok r) RequestIDHeader = ''r1''"
  "rq_Method (signed tok r) = rq_Method r" "rq_Path (signed tok r) = rq_Path r" "rq_Body (signed tok r) = rq_Body r"
  by (simp_all add: signed_def Cookie_def Header_Get_def select_def CookieName_def CSRFCookieName_def CSRFHeaderName_def
      RequestIDHeader_def ToLower_def lower_char_def is_upper_def code_def)

lemma signed_in:
  assumes "result (issue sample_api u PurposeSession TokenTTL) sample_world = Some tok" and "\<And>t. q_UserByID (u_ID u) sample_db t = Inr u"
  shows "run_state (auth_Require sample_api h ((signed tok r)\<lparr>rq_PathID := p\<rparr>)) sample_world =
    run_state (h u ((signed tok r)\<lparr>rq_PathID := p\<rparr>)) sample_world"
proof -
  have "Cookie ((signed tok r)\<lparr>rq_PathID := p\<rparr>) CookieName = Some tok"
    using signed_simps(1) [of tok r] by (simp add: Cookie_def)
  then show ?thesis
    using Issue_claims [OF sample_jwt_ok assms(1), of "w_now sample_world"] assms(2) sample_uuid_ok
    by (simp add: auth_Require_run token_claims_def TokenTTL_def whole_second_def digits_value_Itoa)
qed

lemma serve_signed:
  assumes "result (issue sample_api u PurposeSession TokenTTL) sample_world = Some tok" and "\<And>t. q_UserByID (u_ID u) sample_db t = Inr u"
    and "rq_Method r \<noteq> ''CONNECT''" and "clean_path (rq_Path r)" and "i < length (Routes sample_gateway)"
    and "route_match (signed tok r) (Routes sample_gateway ! i) = Some p" and "rt_Handler (Routes sample_gateway ! i) = auth_Require sample_api h"
    and "run_state (h u ((signed tok r)\<lparr>rq_PathID := p\<rparr>)) sample_world = (resp, v)" and "rs_Status resp \<noteq> 0"
  shows "\<exists>resp' w'. run_state (serve sample_gateway (signed tok r)) sample_world = (resp', w') \<and> rs_Status resp' = rs_Status resp \<and> w_db w' = w_db v"
proof -
  obtain resp' w' where run: "run_state (serve sample_gateway (signed tok r)) sample_world = (resp', w')"
    by (cases "run_state (serve sample_gateway (signed tok r)) sample_world")
  let ?csrf = "CSRF (CookieSecure sample_config) exempt (ServeMux (Routes sample_gateway))"
  have off: "\<not> EdgeAuthEnabled sample_config"
    by (simp add: sample_config_def) code_simp
  have same: "final (request_id sample_api (signed tok r)) sample_world = sample_world"
    by (simp add: request_id_def signed_simps final_def run_simps)
  obtain resp1 w1 where m: "run_state (SecurityHeaders (BasicAuth (EdgeAuthEnabled sample_config) (EdgeAuthUser sample_config)
      (EdgeAuthPassHash sample_config) (VerifyPassword sample_api) exempt ?csrf) (signed tok r)) sample_world = (resp1, w1)"
      "rs_Status resp' = rs_Status resp1" "w_db w' = w_db w1"
    using Middleware_run run same by (auto simp: serve_def Let_def elim!: Middleware_run)
  obtain resp2 where "run_state (?csrf (signed tok r)) sample_world = (resp2, w1)" "rs_Status resp1 = rs_Status resp2"
    using SecurityHeaders_run [OF m(1)] off by (auto simp: BasicAuth_def)
  moreover have "run_state (ServeMux (Routes sample_gateway) (signed tok r)) sample_world = (resp, v)"
    using served_by [of "signed tok r" i sample_gateway p] signed_in [OF assms(1,2)] assms(3-8) by (simp add: signed_simps)
  ultimately have "rs_Status resp2 = rs_Status resp" "w1 = v"
    by (auto simp: CSRF_def ensureCSRFCookie_def signed_simps sample_csrf_def run_simps with_cookies_def Let_def split: if_splits)
  with run m(2,3) show ?thesis using \<open>rs_Status resp1 = rs_Status resp2\<close> by auto
qed

lemma sample_routes:
  "15 < length (Routes sample_gateway)" "13 < length (Routes sample_gateway)"
  "Routes sample_gateway ! 15 = pattern ''POST'' ''/api/grants'' (auth_Require sample_api (createGrant sample_api))"
  "Routes sample_gateway ! 13 = pattern ''POST'' ''/api/org/mfa-policy'' (auth_Require sample_api (setOrgMFAPolicy sample_api))"
  by (simp_all add: Routes_def public_routes_def member_routes_def sample_gateway_def Let_def eval_nat_numeral)

lemma sample_paths:
  "path_segments ''/api/grants'' = [[], ''api'', ''grants'']" "path_segments ''/api/org/mfa-policy'' = [[], ''api'', ''org'', ''mfa-policy'']"
  "clean_path ''/api/grants''" "clean_path ''/api/org/mfa-policy''"
  by code_simp+

text \<open>Cyd shares a file through the whole gateway.\<close>

definition share_request :: "string \<Rightarrow> request" where
  "share_request tok = signed tok sample_share"

lemma share_served:
  obtains tok resp w' where "result (Issue sample_api (user.truncate cyd)) sample_world = Some tok"
    and "run_state (serve sample_gateway (share_request tok)) sample_world = (resp, w')" and "rs_Status resp = 201"
    and "length (audit_log (w_db w')) = 1"
proof -
  obtain tok where tok: "result (issue sample_api (user.truncate cyd) PurposeSession TokenTTL) sample_world = Some tok"
    using sample_issue by blast
  have decode: "Decode grantRequest ((signed tok sample_share)\<lparr>rq_PathID := p\<rparr>) =
      Inr [(''subject_user_id'', JStr ''14''), (''upload_id'', JStr ''31''), (''level'', JStr ''full'')]" for p
    using sample_share_decode by (simp add: Decode_def signed_def)
  have "\<exists>resp w'. run_state (createGrant sample_api (user.truncate cyd) ((signed tok sample_share)\<lparr>rq_PathID := []\<rparr>)) sample_world = (resp, w') \<and>
      rs_Status resp = 201 \<and> length (audit_log (w_db w')) = 1"
    by (simp add: createGrant_def decode str_field_def opt_str_field_def opt_time_field_def values_of_def
        ParseLevel_def is_digit_def code_def quiet_run op_defs q_UserByID_def scanUser_def select_def q_UploadByID_def scanUpload_def
        issueGrant_def audit_def s_Audit_def s_UpsertGrant_def valid_level_iff level_String_def grant_refs_ok_def
        grant_conflict_def Let_def)
  then obtain resp v where run: "run_state (createGrant sample_api (user.truncate cyd) ((signed tok sample_share)\<lparr>rq_PathID := []\<rparr>)) sample_world = (resp, v)"
      "rs_Status resp = 201" "length (audit_log (w_db v)) = 1" by blast
  have "route_match (signed tok sample_share) (Routes sample_gateway ! 15) = Some []"
    by (simp add: sample_routes route_match_def method_matches_def pattern_def signed_simps sample_paths sample_share_def)
  from serve_signed [where h = "createGrant sample_api", OF tok _ _ _ sample_routes(1) this _ run(1)] run(2)
  obtain resp' w' where "run_state (serve sample_gateway (share_request tok)) sample_world = (resp', w')" "rs_Status resp' = 201" "w_db w' = w_db v"
    by (auto simp: sample_routes pattern_def sample_share_def sample_paths share_request_def q_UserByID_def scanUser_def select_def)
  with run(3) tok show ?thesis by (intro that [of tok resp' w']) (simp_all add: Issue_def)
qed

theorem Tables_well_formed_witness:
  "\<exists>tok resp w'. run_state (serve sample_gateway (share_request tok)) sample_world = (resp, w') \<and> rs_Status resp = 201 \<and> tables_ok (w_db w')"
proof -
  obtain tok resp w' where run: "run_state (serve sample_gateway (share_request tok)) sample_world = (resp, w')" "rs_Status resp = 201"
    using share_served by blast
  have "tables_ok (w_db (final (serve sample_gateway (share_request tok)) sample_world))"
    by (rule Tables_well_formed [OF runs.request [OF runs.start]]) (simp add: sample_tables_ok)
  with run show ?thesis by (auto simp: final_def)
qed

theorem History_kept_witness:
  "\<exists>tok resp w'. run_state (serve sample_gateway (share_request tok)) sample_world = (resp, w') \<and> length (audit_log (w_db w')) = 1 \<and>
     only_grows sample_db (w_db w')"
proof -
  obtain tok resp w' where run: "run_state (serve sample_gateway (share_request tok)) sample_world = (resp, w')" "length (audit_log (w_db w')) = 1"
    using share_served by blast
  with History_kept [OF runs.request [OF runs.start], of sample_world sample_gateway "share_request tok"] show ?thesis
    by (auto simp: sample_tables_ok final_def)
qed

theorem Rollups_current_witness:
  "\<exists>tok resp w'. run_state (serve sample_gateway (share_request tok)) sample_world = (resp, w') \<and> rs_Status resp = 201 \<and> rollups_current (w_db w')"
proof -
  obtain tok resp w' where run: "run_state (serve sample_gateway (share_request tok)) sample_world = (resp, w')" "rs_Status resp = 201"
    using share_served by blast
  have "rollups_current sample_db"
    by (simp add: rollups_current_def rollup_rows_def status_rows_def dated_rows_def group_by_def) (simp add: sample_defs select_def)
  then have "rollups_current (w_db (final (serve sample_gateway (share_request tok)) sample_world))"
    by (intro Rollups_current [OF runs.request [OF runs.start]]) (simp_all add: sample_tables_ok)
  with run show ?thesis by (auto simp: final_def)
qed

text \<open>The owner of the second organization signs in and changes a policy: nothing of the first changes.\<close>

definition dans_request :: "string \<Rightarrow> request" where
  "dans_request tok = signed tok ((sample_request ''POST'' ''/api/org/mfa-policy'')\<lparr>rq_Body := JsonBody (JObj [(''require_mfa'', JBool True)])\<rparr>)"

theorem Tenant_isolation_witness:
  "\<exists>tok resp w'. result (Issue sample_api (user.truncate dan)) sample_world = Some tok \<and>
     run_state (serve sample_gateway (dans_request tok)) sample_world = (resp, w') \<and> rs_Status resp = 200 \<and>
     o_require_mfa (organizations (w_db w') ! 1) \<and> tenant 1 (w_db w') = tenant 1 sample_db"
proof -
  obtain tok where tok: "result (issue sample_api (user.truncate dan) PurposeSession TokenTTL) sample_world = Some tok"
    using sample_issue by blast
  let ?r = "(sample_request ''POST'' ''/api/org/mfa-policy'')\<lparr>rq_Body := JsonBody (JObj [(''require_mfa'', JBool True)])\<rparr>"
  have decode: "Decode policyRequest ((signed tok ?r)\<lparr>rq_PathID := p\<rparr>) = Inr [(''require_mfa'', JBool True)]" for p
    by (simp add: Decode_def signed_def decode_json_def policyRequest_def field_for_def select_def field_accepts_def)
  have "\<exists>resp w'. run_state (setOrgMFAPolicy sample_api (user.truncate dan) ((signed tok ?r)\<lparr>rq_PathID := []\<rparr>)) sample_world = (resp, w') \<and>
      rs_Status resp = 200 \<and> o_require_mfa (organizations (w_db w') ! 1)"
    by (simp add: setOrgMFAPolicy_def decode IsAdmin_def bool_field_def values_of_def quiet_run op_defs audit_def s_Audit_def
        SetOrgRequireMFA_def s_SetOrgRequireMFA_def JSON_def Let_def update_where_def)
  then obtain resp v where run: "run_state (setOrgMFAPolicy sample_api (user.truncate dan) ((signed tok ?r)\<lparr>rq_PathID := []\<rparr>)) sample_world = (resp, v)"
      "rs_Status resp = 200" "o_require_mfa (organizations (w_db v) ! 1)" by blast
  have "route_match (signed tok ?r) (Routes sample_gateway ! 13) = Some []"
    by (simp add: sample_routes route_match_def method_matches_def pattern_def signed_simps sample_paths)
  from serve_signed [where h = "setOrgMFAPolicy sample_api", OF tok _ _ _ sample_routes(2) this _ run(1)] run(2)
  obtain resp' w' where served: "run_state (serve sample_gateway (dans_request tok)) sample_world = (resp', w')" "rs_Status resp' = 200" "w_db w' = w_db v"
    by (auto simp: sample_routes pattern_def sample_paths dans_request_def q_UserByID_def scanUser_def select_def)
  have "CSRFCookieName \<noteq> MFACookieName" "CookieName \<noteq> MFACookieName"
    by (simp_all add: CSRFCookieName_def MFACookieName_def CookieName_def)
  then have other: "\<not> acts_for sample_api (dans_request tok) sample_db now 1" for now
    using Issue_claims [OF sample_jwt_ok tok]
    by (auto simp: acts_for_def token_claims_def dans_request_def Cookie_def signed_def select_def member_def digits_value_Itoa split: if_splits)
  from Tenant_isolation [OF served(1), of 1] other tok served run(3) show ?thesis
    by (auto simp: sample_tables_ok Issue_def)
qed

theorem Safe_methods_read_only_witness:
  "\<exists>n. w_db (final (serve sample_gateway (sample_request ''GET'' ''/api/uploads'')) sample_world) = sample_db\<lparr>next_id := n\<rparr>"
proof -
  obtain resp w' where run: "run_state (serve sample_gateway (sample_request ''GET'' ''/api/uploads'')) sample_world = (resp, w')"
    by (cases "run_state (serve sample_gateway (sample_request ''GET'' ''/api/uploads'')) sample_world")
  from Safe_methods_read_only [OF _ run] run show ?thesis by (auto simp: safe_method_def final_def)
qed

end
