(* ===== verification/Spec2Isabelle.thy ===== *)
theory Spec2Isabelle
  imports Authz Samples Config Server Handlers_Analyses Ingest_Complete Dashboard_Proofs Gateway
begin

text \<open>
  A model of the gateway of LogMonitor (\<open>src/backend/gateway\<close>, Go): the HTTP service that signs users in,
  ingests web proxy logs, shares uploads inside an organization, queues analyses and serves the
  dashboards. The workers (Python) and the web client are other programs; of the workers the statements that write
  the tables and their use of the queue are modelled.

  \<^bold>\<open>How the program is read.\<close> A handler is a function from a request to a computation in the state monad over
  \<open>world\<close> (theory \<open>World\<close>): the tables of PostgreSQL (\<open>db\<close>), the keyspace of Redis, the archive, the log, the
  clock, and the outcomes the calls to come will have. Every call of a service takes the next outcome: it works, it
  fails, or it fails although its effect took place (\<open>Unacknowledged\<close>), and lets any time pass. A theorem that
  quantifies over the world therefore covers every failure of every call. An SQL statement is a function of
  the tables, written out with the constraints of the migrations; a transaction collects statements and \<open>tx_commit\<close>
  makes them visible at once. Errors are values of sums with the source's error variables as constructors. \<open>wp\<close>
  and the collections \<open>wp_rules\<close> and \<open>vc_rules\<close> carry proofs through a computation; \<open>quiet\<close> is a world in which no
  call fails.

  \<^bold>\<open>Parts.\<close>
  \<^item> \<open>Prelude\<close>, \<open>GoStrings\<close>, \<open>GoTime\<close>, \<open>GoConv\<close>, \<open>Encoding\<close>, \<open>Csv\<close>, \<open>Io\<close>: lists, and what the source uses of Go's library
    (strings, time, strconv and netip, base64, encoding/csv, readers).
  \<^item> \<open>Domain\<close>, \<open>Services\<close>, \<open>World\<close>, \<open>Redis\<close>: the rows of the tables; the packages the gateway calls, as fields of the
    record \<open>api\<close>, with the laws they document; the monad; the Redis commands.
  \<^item> \<open>Config\<close> (internal/config), \<open>Httpx\<close> (internal/httpx), \<open>Obs\<close> (internal/obs), \<open>Password\<close> and \<open>Session\<close>
    (internal/auth), \<open>Mfa\<close> (internal/mfa), \<open>Ratelimit\<close> (internal/ratelimit), \<open>Queue\<close> (internal/queue), \<open>Blob\<close>
    and \<open>Clients\<close> (internal/blob: the archive as the handlers see it, and its two implementations), \<open>Authz\<close> (internal/authz).
  \<^item> \<open>Store_Users\<close>, \<open>Store_Grants\<close>, \<open>Store_MFA\<close>, \<open>Store_Uploads\<close>, \<open>Store_Ingest\<close>, \<open>Store_Analyses\<close>,
    \<open>Store_Dashboard\<close>, \<open>Store_Search\<close> (internal/store, one file each; connection and row types in \<open>Domain\<close>).
  \<^item> \<open>Parser\<close>, \<open>Zscaler\<close> (internal/parser): detection of the format and the streaming parser.
  \<^item> \<open>Handlers\<close>, \<open>Handlers_Auth\<close>, \<open>Handlers_MFA\<close>, \<open>Handlers_Org\<close>, \<open>Handlers_Grants\<close>, \<open>Handlers_Uploads\<close>,
    \<open>Handlers_Analyses\<close>, \<open>Handlers_Dashboard\<close> (internal/handlers): one definition per endpoint.
  \<^item> \<open>Server\<close> (handlers.go \<open>Routes\<close>, internal/migrations, cmd/gateway): the routes on Go's \<open>ServeMux\<close>, the middleware
    \<open>serve\<close>, the start of the process and its other commands; \<open>Server_Proofs\<close>: what holds of these.
  \<^item> \<open>Ingest_Proofs\<close>, \<open>Ingest_Complete\<close>, \<open>Dashboard_Proofs\<close>: properties of the larger components.
  \<^item> \<open>Tables\<close>, \<open>Steps\<close>, \<open>Requests\<close>, \<open>Gateway\<close>: the gateway as a state machine; \<open>Workers\<close> (worker/db.py):
    what the other party writes between two requests; \<open>Races\<close>: statements of requests that run side by side;
    \<open>Worker_Jobs\<close> (worker/queue.py): the other end of the queue, and the counter that closes an analysis;
    \<open>Worker_Run\<close> (worker/main.py, worker/pipeline.py): a worker at a job.
  \<^item> \<open>Samples\<close>: functions that keep the laws of \<open>Services\<close> and compute, for the witnesses.

  \<^bold>\<open>How they interact.\<close> \<open>serve\<close> wraps the routes in the request log, the security headers, the edge gate and the CSRF
  gate. Behind \<open>auth_Require\<close> a handler gets the user row as it is now. Grants and roles decide, through \<open>Resolve\<close>,
  what \<open>Require\<close> lets a handler read or start. An upload goes from \<open>ingest\<close> (parser, archive, one transaction with rows,
  rollups and upload) to \<open>launchAnalysis\<close> (row, then jobs on the queue). The dashboard reads the rollups, the search
  and the worklist the findings of visible uploads.

  \<^bold>\<open>What is shown.\<close>
  \<^item> Who may do what: \<open>Require_sound\<close>, \<open>Resolve_is_tier\<close>, \<open>createGrant_sound\<close>, \<open>Deletion_sound\<close>, \<open>Invite_sound\<close>,
    \<open>Analysis_started\<close>, \<open>Findings_by_tier\<close>, \<open>Dashboard_isolated\<close>, \<open>Search_sound\<close>, each over all failures of calls.
  \<^item> Signing in: \<open>Login_sound\<close>, \<open>Login_failure_uniform\<close>, \<open>Session_sound\<close>, \<open>Token_separation\<close>, \<open>Second_factor_sound\<close>,
    \<open>TOTP_no_replay\<close>, \<open>Recovery_code_once\<close>, \<open>Activation_sound\<close>, \<open>Factor_removal\<close> (which says of enrolment that it
    takes a factor off with no code, and \<open>Login_failure_uniform\<close> that a locked account is not counted), the limiter's windows
    (\<open>Throttle_window\<close>, \<open>Lock_and_reset\<close>), the round trip of a hash (\<open>Hash_verifies\<close>).
  \<^item> The way in: one route for a request (\<open>Routes_dispatch\<close>), no way past the gates (\<open>Gates_hold\<close>), a process that
    started has a safe configuration and was connected within ten attempts (\<open>run_started\<close>, \<open>connect_bounds\<close>).
  \<^item> Ingest: the parser returns on every body that ends well and gives one entry per record (\<open>Parse_terminates\<close>,
    \<open>Parse_every_record\<close>, \<open>Parse_quoted_export\<close>); it never returns on the others (\<open>Parse_hangs\<close>); an ingest is all or
    nothing and, when no call fails, all (\<open>Ingest_atomic\<close>, \<open>Ingest_complete\<close>); the rollups agree with the rows and
    the chart with the tiles (\<open>Rollups_agree\<close>, \<open>Chart_agrees\<close>).
  \<^item> The hand-over to the workers: the published jobs cut the rows into parts (\<open>Publish_partition\<close>), come off the
    queue as they went on and name the rows of the ingested file, each once (\<open>Shards_delivered\<close>); in every
    interleaving of the workers one of them starts the reduce, the last (\<open>Fan_in_once\<close>); a worker closes a shard
    only after it stored it, whatever fails (\<open>closed_after_stored\<close>).
  \<^item> The state machine: a statement or a committed transaction is a \<open>step\<close> of one organization, a request a sequence
    of steps of the organization whose token it carries (\<open>serve_moved\<close>), \<open>runs\<close> the sequences of requests and of
    statements of the workers (\<open>work\<close>). \<open>tables_ok\<close> is
    an invariant (\<open>Tables_well_formed\<close>), history and rollups are kept (\<open>History_kept\<close>, \<open>Rollups_current\<close>),
    tenants do not touch each other's rows (\<open>Tenant_isolation\<close>), safe methods write nothing
    (\<open>Safe_methods_read_only\<close>). A statement decided on tables that others have changed since is still such a step
    (\<open>Stale_reads\<close>).

  \<^bold>\<open>Interfaces.\<close> All locales are interpreted on the model's own definitions: \<open>expiring_store\<close> of the Redis keyspace;
  \<open>object_store\<close>, what the callers of the archive rely on, for both clients and for the operations the handlers
  are modelled with; \<open>frame\<close>, a relation between the tables before and after that every primitive keeps, for
  reading and for the steps of an organization; \<open>history\<close>, what every step keeps and so every run, for growth and
  for the rollups; its extension \<open>shared_history\<close>, what the workers keep too, for these and for the owners of rows.

  \<^bold>\<open>Bounds.\<close> Loops over a reader count down the chunks still to come, so they need no fuel. The parser's loop is a
  \<open>partial_function\<close>, since it can run for ever; that it returns is a theorem. \<open>retry\<close> makes the source's ten attempts.
  Go's \<open>int\<close> and the columns of the tables are integers with their ranges checked where a value enters them.

  \<^bold>\<open>Not modelled.\<close> In \<open>serve\<close> and \<open>runs\<close> requests are served one at a time, the workers write between them. That
  requests run side by side is modelled one statement at a time: \<open>Stale_reads\<close> lets any steps of others happen
  between a handler's queries and the one statement (or transaction) it then issues, as listed in \<open>issued\<close>;
  \<open>Recovery_code_once\<close> and the keys of Redis cover what a statement guards itself. A handler whose own audit entry or
  second statement is interleaved with those of others is not run as a whole, and the isolation
  of concurrent transactions beyond that of single statements is not modelled. The goroutines of an ingest are the
  sequential hand-over of bytes. Of the workers, the detectors, the reduce with its report and the loops around the jobs are left out.
  The planner and locks of PostgreSQL, its text search and collation (an argument and byte order), what the
  libraries under the archive, the pool and the migrations do inside a call, and the TCP listener are left out.
  \<open>tables_ok\<close> leaves out the ids and references of the audit log, the ids of findings, the keys of the rollups, the user of
  a timing and the finding of an embedding; \<open>issued\<close> lists the decisions of the handlers by hand. That a token is signed
  with HS256 and nothing else is part of the parameter \<open>jwt_Parse\<close>. Text PostgreSQL refuses (a NUL, bytes that are not UTF-8)
  is refused by the copy of an ingest only, not by the statements of the other handlers; case and
  space are those of ASCII. A float is the rational a \<open>float64\<close> holds, with its rounding. Log lines are known by level and event.
\<close>

end
